(* ===== verification/GoBase.thy ===== *)
theory GoBase
  imports Main "HOL-Library.AList" "HOL-Library.Char_ord" "HOL-Library.List_Lexorder"
    "HOL-Library.Sublist"
begin

text \<open>
  Prelude of the development: the part of the Go language and of its packages
  \<^verbatim>\<open>strings\<close>, \<^verbatim>\<open>bytes\<close>, \<^verbatim>\<open>strconv\<close> and \<^verbatim>\<open>time\<close> that the sources of Titip use, with the
  generic lemmas the components share.

  \<^item> A Go \<^verbatim>\<open>string\<close> and a \<^verbatim>\<open>[]byte\<close> are both a list of bytes, the type \<open>bytes\<close>
    (Isabelle's \<open>char\<close> is a byte).
  \<^item> The Unicode-aware functions (\<open>ToLower\<close>, \<open>EqualFold\<close>, \<open>TrimSpace\<close>, \<open>FieldsFunc\<close> with
    \<^verbatim>\<open>unicode.IsSpace\<close>) are modelled on ASCII: a byte from 128 upwards is neither a letter
    nor a space. On ASCII strings they agree with Go.
  \<^item> \<^verbatim>\<open>int64\<close> and \<^verbatim>\<open>time.Duration\<close> are an \<open>int\<close> with the two's complement wrap-around
    written out (\<open>wrap64\<close>) wherever the code multiplies or adds. \<^verbatim>\<open>time.Time\<close> is the
    number of nanoseconds since the Unix epoch as an \<open>int\<close>, on one clock that does not
    jump.
  \<^item> An \<^verbatim>\<open>error\<close> result is a sum (\<open>Inl\<close> the error) or an option.
\<close>

text \<open>Rewrite rules for definitions that a component's proofs unfold together.\<close>

named_theorems go_string \<open>unfolding rules of the string library\<close>
named_theorems go_num \<open>unfolding rules of integers and durations\<close>

section \<open>Strings\<close>

type_synonym bytes = "char list"

definition HasPrefix :: "bytes \<Rightarrow> bytes \<Rightarrow> bool" where
  "HasPrefix s p \<longleftrightarrow> take (length p) s = p"

definition HasSuffix :: "bytes \<Rightarrow> bytes \<Rightarrow> bool" where
  "HasSuffix s p \<longleftrightarrow> length p \<le> length s \<and> drop (length s - length p) s = p"

definition TrimPrefix :: "bytes \<Rightarrow> bytes \<Rightarrow> bytes" where
  "TrimPrefix s p = (if HasPrefix s p then drop (length p) s else s)"

definition TrimSuffix :: "bytes \<Rightarrow> bytes \<Rightarrow> bytes" where
  "TrimSuffix s p = (if HasSuffix s p then take (length s - length p) s else s)"

text \<open>\<^verbatim>\<open>strings.Index\<close> and \<^verbatim>\<open>bytes.Index\<close>: the first occurrence, \<open>None\<close> where Go returns -1.\<close>

fun Index :: "bytes \<Rightarrow> bytes \<Rightarrow> nat option" where
  "Index [] sub = (if sub = [] then Some 0 else None)"
| "Index (c # cs) sub =
     (if HasPrefix (c # cs) sub then Some 0 else map_option Suc (Index cs sub))"

fun IndexByte :: "bytes \<Rightarrow> char \<Rightarrow> nat option" where
  "IndexByte [] x = None"
| "IndexByte (c # cs) x = (if c = x then Some 0 else map_option Suc (IndexByte cs x))"

definition Contains :: "bytes \<Rightarrow> bytes \<Rightarrow> bool" where
  "Contains s sub \<longleftrightarrow> Index s sub \<noteq> None"

definition ContainsAny :: "bytes \<Rightarrow> bytes \<Rightarrow> bool" where
  "ContainsAny s cs \<longleftrightarrow> list_ex (\<lambda>c. c \<in> set cs) s"

text \<open>\<^verbatim>\<open>strings.Cut\<close>: what is before and after the first separator, and whether there is one.\<close>

definition Cut :: "bytes \<Rightarrow> bytes \<Rightarrow> bytes \<times> bytes \<times> bool" where
  "Cut s sep = (case Index s sep of
      None \<Rightarrow> (s, [], False)
    | Some i \<Rightarrow> (take i s, drop (i + length sep) s, True))"

text \<open>\<^verbatim>\<open>strings.Split\<close> and \<^verbatim>\<open>strings.SplitSeq\<close> at a one-byte separator; never empty.\<close>

fun SplitByte :: "char \<Rightarrow> bytes \<Rightarrow> bytes list" where
  "SplitByte x [] = [[]]"
| "SplitByte x (c # cs) =
     (if c = x then [] # SplitByte x cs
      else case SplitByte x cs of [] \<Rightarrow> [[c]] | y # ys \<Rightarrow> (c # y) # ys)"

fun Join :: "bytes \<Rightarrow> bytes list \<Rightarrow> bytes" where
  "Join sep [] = []"
| "Join sep [x] = x"
| "Join sep (x # y # ys) = x @ sep @ Join sep (y # ys)"

definition is_upper :: "char \<Rightarrow> bool" where
  "is_upper c \<longleftrightarrow> 65 \<le> (of_char c :: nat) \<and> (of_char c :: nat) \<le> 90"

definition is_lower :: "char \<Rightarrow> bool" where
  "is_lower c \<longleftrightarrow> 97 \<le> (of_char c :: nat) \<and> (of_char c :: nat) \<le> 122"

definition is_digit :: "char \<Rightarrow> bool" where
  "is_digit c \<longleftrightarrow> 48 \<le> (of_char c :: nat) \<and> (of_char c :: nat) \<le> 57"

definition lower_byte :: "char \<Rightarrow> char" where
  "lower_byte c = (if is_upper c then char_of (of_char c + 32 :: nat) else c)"

definition upper_byte :: "char \<Rightarrow> char" where
  "upper_byte c = (if is_lower c then char_of (of_char c - 32 :: nat) else c)"

definition ToLower :: "bytes \<Rightarrow> bytes" where
  "ToLower s = map lower_byte s"

definition EqualFold :: "bytes \<Rightarrow> bytes \<Rightarrow> bool" where
  "EqualFold s t \<longleftrightarrow> ToLower s = ToLower t"

text \<open>ASCII white space: tab, LF, VT, FF, CR, blank.\<close>

definition is_space :: "char \<Rightarrow> bool" where
  "is_space c \<longleftrightarrow> (9 \<le> (of_char c :: nat) \<and> (of_char c :: nat) \<le> 13) \<or> (of_char c :: nat) = 32"

definition TrimSpace :: "bytes \<Rightarrow> bytes" where
  "TrimSpace s = rev (dropWhile is_space (rev (dropWhile is_space s)))"

text \<open>\<^verbatim>\<open>strings.FieldsFunc\<close>: the maximal non-empty runs without a separator.\<close>

fun split_when :: "(char \<Rightarrow> bool) \<Rightarrow> bytes \<Rightarrow> bytes list" where
  "split_when p [] = [[]]"
| "split_when p (c # cs) =
     (if p c then [] # split_when p cs
      else case split_when p cs of [] \<Rightarrow> [[c]] | y # ys \<Rightarrow> (c # y) # ys)"

definition FieldsFunc :: "bytes \<Rightarrow> (char \<Rightarrow> bool) \<Rightarrow> bytes list" where
  "FieldsFunc s p = filter (\<lambda>f. f \<noteq> []) (split_when p s)"

lemmas [go_string] = HasPrefix_def HasSuffix_def TrimPrefix_def TrimSuffix_def Contains_def
  Cut_def is_upper_def is_lower_def is_digit_def lower_byte_def upper_byte_def ToLower_def
  EqualFold_def is_space_def TrimSpace_def FieldsFunc_def ContainsAny_def

subsection \<open>Facts about strings\<close>

lemma HasPrefix_append [simp]: "HasPrefix (p @ s) p"
  by (simp add: HasPrefix_def)

lemma HasPrefix_Nil [simp]: "HasPrefix s []"
  by (simp add: HasPrefix_def)

lemma HasPrefix_iff: "HasPrefix s p \<longleftrightarrow> (\<exists>r. s = p @ r)"
  by (auto simp: HasPrefix_def) (metis append_take_drop_id)

lemma HasSuffix_iff: "HasSuffix s p \<longleftrightarrow> (\<exists>r. s = r @ p)"
  by (auto simp: HasSuffix_def) (metis append_take_drop_id)

lemma HasPrefix_length: "HasPrefix s p \<Longrightarrow> length p \<le> length s"
  by (auto simp: HasPrefix_iff)

lemma Index_Some_bound: "Index s sub = Some i \<Longrightarrow> i + length sub \<le> length s"
  by (induction s arbitrary: i) (auto split: if_splits dest: HasPrefix_length)

lemma Index_Some_prefix: "Index s sub = Some i \<Longrightarrow> HasPrefix (drop i s) sub"
  by (induction s arbitrary: i) (auto split: if_splits)

lemma Index_None_iff: "Index s sub = None \<longleftrightarrow> (\<forall>i \<le> length s. \<not> HasPrefix (drop i s) sub)"
proof (induction s)
  case Nil
  then show ?case by (auto simp: HasPrefix_def)
next
  case (Cons c cs)
  show ?case
  proof
    assume "Index (c # cs) sub = None"
    then have "\<not> HasPrefix (c # cs) sub" and "Index cs sub = None"
      by (auto split: if_splits)
    with Cons.IH show "\<forall>i\<le>length (c # cs). \<not> HasPrefix (drop i (c # cs)) sub"
      by (auto simp: drop_Cons split: nat.splits)
  next
    assume a: "\<forall>i\<le>length (c # cs). \<not> HasPrefix (drop i (c # cs)) sub"
    then have "\<not> HasPrefix (c # cs) sub" by (auto dest: spec [of _ 0])
    moreover have "\<forall>i\<le>length cs. \<not> HasPrefix (drop i cs) sub"
      using a by (metis Suc_le_mono drop_Suc_Cons length_Cons)
    ultimately show "Index (c # cs) sub = None" using Cons.IH by simp
  qed
qed

lemma Contains_iff: "Contains s sub \<longleftrightarrow> (\<exists>u v. s = u @ sub @ v)"
proof
  assume "Contains s sub"
  then obtain i where "i \<le> length s" "HasPrefix (drop i s) sub"
    by (auto simp: Contains_def Index_None_iff)
  then show "\<exists>u v. s = u @ sub @ v"
    by (metis HasPrefix_iff append_take_drop_id)
next
  assume "\<exists>u v. s = u @ sub @ v"
  then obtain u v where "s = u @ sub @ v" by blast
  then have "length u \<le> length s" "HasPrefix (drop (length u) s) sub" by simp_all
  then show "Contains s sub" by (auto simp: Contains_def Index_None_iff)
qed

lemma IndexByte_Some_bound: "IndexByte s x = Some i \<Longrightarrow> i < length s \<and> s ! i = x"
  by (induction s arbitrary: i) (auto split: if_splits)

lemma SplitByte_not_Nil [simp]: "SplitByte x s \<noteq> []"
  by (induction s) (auto split: list.splits)

lemma SplitByte_no_sep: "p \<in> set (SplitByte x s) \<Longrightarrow> x \<notin> set p"
  by (induction s arbitrary: p) (auto split: list.splits if_splits)

lemma SplitByte_id: "x \<notin> set s \<Longrightarrow> SplitByte x s = [s]"
  by (induction s) auto

lemma Join_SplitByte: "Join [x] (SplitByte x s) = s"
proof (induction s)
  case (Cons c cs)
  obtain y ys where "SplitByte x cs = y # ys"
    by (cases "SplitByte x cs") auto
  with Cons show ?case by (cases ys) auto
qed simp

lemma Join_append_Cons: "xs \<noteq> [] \<Longrightarrow> Join sep (x # xs) = x @ sep @ Join sep xs"
  by (cases xs) auto

lemma set_Join: "set (Join sep xs) \<subseteq> set sep \<union> (\<Union>x \<in> set xs. set x)"
  by (induction sep xs rule: Join.induct) auto

lemma dropWhile_idem: "(\<And>x. x \<in> set s \<Longrightarrow> \<not> p x) \<Longrightarrow> dropWhile p s = s"
  by (cases s) auto

lemma TrimSpace_id: "(\<And>c. c \<in> set s \<Longrightarrow> \<not> is_space c) \<Longrightarrow> TrimSpace s = s"
  using dropWhile_idem [of s is_space] dropWhile_idem [of "rev s" is_space]
  by (simp add: TrimSpace_def)

lemma set_TrimSpace: "set (TrimSpace s) \<subseteq> set s"
proof
  fix x
  assume "x \<in> set (TrimSpace s)"
  then have "x \<in> set (rev (dropWhile is_space s))"
    by (auto simp: TrimSpace_def dest!: set_dropWhileD)
  then show "x \<in> set s" by (auto dest: set_dropWhileD)
qed

lemma length_ToLower [simp]: "length (ToLower s) = length s"
  by (simp add: ToLower_def)

lemma ToLower_Nil_iff [simp]: "ToLower s = [] \<longleftrightarrow> s = []"
  by (simp add: ToLower_def)

lemma ToLower_append [simp]: "ToLower (s @ t) = ToLower s @ ToLower t"
  by (simp add: ToLower_def)

lemma of_char_lt_256 [simp]: "(of_char c :: nat) < 256"
  by (metis nat_of_char_less_256)

lemma not_upper_lower_byte: "\<not> is_upper (lower_byte c)"
  by (auto simp: lower_byte_def is_upper_def of_char_of)

lemma lower_byte_idem [simp]: "lower_byte (lower_byte c) = lower_byte c"
  using not_upper_lower_byte [of c] by (simp add: lower_byte_def [of "lower_byte c"])

lemma ToLower_idem [simp]: "ToLower (ToLower s) = ToLower s"
  by (simp add: ToLower_def)

lemma EqualFold_refl [simp]: "EqualFold s s"
  by (simp add: EqualFold_def)

section \<open>Integers, decimal text\<close>

text \<open>Two's complement wrap-around of \<^verbatim>\<open>int64\<close>.\<close>

definition wrap64 :: "int \<Rightarrow> int" where
  "wrap64 x = (x + 2 ^ 63) mod 2 ^ 64 - 2 ^ 63"

definition max_int64 :: int where
  "max_int64 = 2 ^ 63 - 1"

definition min_int64 :: int where
  "min_int64 = - (2 ^ 63)"

definition wrap32 :: "int \<Rightarrow> int" where
  "wrap32 x = (x + 2 ^ 31) mod 2 ^ 32 - 2 ^ 31"

lemma wrap32_id: "- (2 ^ 31) \<le> x \<Longrightarrow> x < 2 ^ 31 \<Longrightarrow> wrap32 x = x"
  by (simp add: wrap32_def)

lemma wrap32_numeral [simp]: "(numeral n :: int) < 2 ^ 31 \<Longrightarrow> wrap32 (numeral n) = numeral n"
  by (rule wrap32_id) simp_all

lemma wrap64_id: "- (2 ^ 63) \<le> x \<Longrightarrow> x < 2 ^ 63 \<Longrightarrow> wrap64 x = x"
  by (simp add: wrap64_def)

lemma wrap64_range: "- (2 ^ 63) \<le> wrap64 x \<and> wrap64 x < 2 ^ 63"
  by (simp add: wrap64_def)

text \<open>Go's integer division truncates towards zero.\<close>

definition quot :: "int \<Rightarrow> int \<Rightarrow> int" where
  "quot a b = (if a < 0 then - ((- a) div b) else a div b)"

lemma quot_nonneg: "0 \<le> a \<Longrightarrow> quot a b = a div b"
  by (simp add: quot_def)

lemmas [go_num] = wrap64_def wrap32_def max_int64_def min_int64_def quot_def

text \<open>\<^verbatim>\<open>strconv.FormatInt(n, 10)\<close> and \<^verbatim>\<open>strconv.Itoa\<close>.\<close>

definition digit_char :: "nat \<Rightarrow> char" where
  "digit_char d = char_of (48 + d)"

fun nat_text :: "nat \<Rightarrow> bytes" where
  "nat_text n = (if n < 10 then [digit_char n] else nat_text (n div 10) @ [digit_char (n mod 10)])"

declare nat_text.simps [simp del]

definition FormatInt :: "int \<Rightarrow> bytes" where
  "FormatInt n = (if n < 0 then ''-'' @ nat_text (nat (- n)) else nat_text (nat n))"

text \<open>
  \<^verbatim>\<open>strconv.ParseUint(s, 10, bits)\<close> and \<^verbatim>\<open>strconv.ParseInt(s, 10, 64)\<close>: at least one digit,
  nothing but digits after an optional sign (no sign for \<open>ParseUint\<close>), and a value in
  range; otherwise an error, \<open>None\<close>.
\<close>

definition digits_value :: "bytes \<Rightarrow> nat" where
  "digits_value s = foldl (\<lambda>n c. 10 * n + (of_char c - 48)) 0 s"

definition ParseUint :: "bytes \<Rightarrow> nat \<Rightarrow> nat option" where
  "ParseUint s bits =
     (if s \<noteq> [] \<and> list_all is_digit s \<and> digits_value s < 2 ^ bits
      then Some (digits_value s) else None)"

definition ParseInt :: "bytes \<Rightarrow> int option" where
  "ParseInt s =
     (let (neg, ds) = (case s of [] \<Rightarrow> (False, [])
                       | c # cs \<Rightarrow> if c = CHR ''-'' then (True, cs)
                                 else if c = CHR ''+'' then (False, cs) else (False, s))
      in if ds = [] \<or> \<not> list_all is_digit ds then None
         else let v = int (digits_value ds); n = (if neg then - v else v)
              in if min_int64 \<le> n \<and> n \<le> max_int64 then Some n else None)"

lemma ParseInt_range: "ParseInt s = Some n \<Longrightarrow> min_int64 \<le> n \<and> n \<le> max_int64"
  by (auto simp: ParseInt_def Let_def split: list.splits if_splits)

lemma is_digit_digit_char: "d < 10 \<Longrightarrow> is_digit (digit_char d)"
  by (simp add: is_digit_def digit_char_def of_char_of)

lemma nat_text_digits: "list_all is_digit (nat_text n)"
proof (induction n rule: nat_text.induct)
  case (1 n)
  show ?case
  proof (cases "n < 10")
    case True
    then show ?thesis by (simp add: nat_text.simps [of n] is_digit_digit_char)
  next
    case False
    with "1.IH" show ?thesis by (simp add: nat_text.simps [of n] is_digit_digit_char)
  qed
qed

lemma nat_text_not_Nil [simp]: "nat_text n \<noteq> []"
  by (simp add: nat_text.simps [of n])

lemma digits_value_snoc: "digits_value (s @ [c]) = 10 * digits_value s + (of_char c - 48)"
  by (simp add: digits_value_def)

lemma digits_value_nat_text: "digits_value (nat_text n) = n"
proof (induction n rule: nat_text.induct)
  case (1 n)
  show ?case
  proof (cases "n < 10")
    case True
    then show ?thesis
      by (simp add: nat_text.simps [of n] digits_value_def digit_char_def of_char_of)
  next
    case False
    with "1.IH" show ?thesis
      by (simp add: nat_text.simps [of n] digits_value_snoc digit_char_def of_char_of)
  qed
qed

text \<open>Printing then parsing a non-negative \<^verbatim>\<open>int64\<close> gives the number back.\<close>

lemma ParseInt_FormatInt:
  assumes "0 \<le> n" and "n \<le> max_int64"
  shows "ParseInt (FormatInt n) = Some n"
proof -
  let ?t = "nat_text (nat n)"
  have d: "list_all is_digit ?t" by (rule nat_text_digits)
  obtain c cs where c: "?t = c # cs" by (cases ?t) auto
  with d have "is_digit c" by simp
  then have "c \<noteq> CHR ''-''" "c \<noteq> CHR ''+''" by (auto simp: is_digit_def)
  with c d assms show ?thesis
    using digits_value_nat_text [of "nat n"]
    by (simp add: ParseInt_def FormatInt_def Let_def min_int64_def)
qed

section \<open>Time\<close>

type_synonym duration = int
type_synonym gotime = int

definition Nanosecond :: duration where "Nanosecond = 1"
definition Millisecond :: duration where "Millisecond = 1000000"
definition Second :: duration where "Second = 1000000000"

lemmas [go_num] = Nanosecond_def Millisecond_def Second_def

text \<open>Multiplication and addition of durations wrap around like \<^verbatim>\<open>int64\<close>.\<close>

definition dmul :: "int \<Rightarrow> duration \<Rightarrow> duration" where
  "dmul n d = wrap64 (n * d)"

definition dadd :: "duration \<Rightarrow> duration \<Rightarrow> duration" where
  "dadd a b = wrap64 (a + b)"

definition dsub :: "duration \<Rightarrow> duration \<Rightarrow> duration" where
  "dsub a b = wrap64 (a - b)"

text \<open>
  \<^verbatim>\<open>Time.Sub\<close> saturates at the largest and the smallest duration; \<^verbatim>\<open>Time.After\<close>,
  \<^verbatim>\<open>Time.Add\<close>; \<^verbatim>\<open>Time.UnixNano\<close> wraps around outside the years 1678 to 2262. The zero
  \<^verbatim>\<open>Time\<close> is the first of January of year 1.
\<close>

definition tsub :: "gotime \<Rightarrow> gotime \<Rightarrow> duration" where
  "tsub t u = (if t - u > max_int64 then max_int64
               else if t - u < min_int64 then min_int64 else t - u)"

definition After :: "gotime \<Rightarrow> gotime \<Rightarrow> bool" where
  "After t u \<longleftrightarrow> u < t"

definition tadd :: "gotime \<Rightarrow> duration \<Rightarrow> gotime" where
  "tadd t d = t + d"

definition UnixNano :: "gotime \<Rightarrow> int" where
  "UnixNano t = wrap64 t"

definition zero_time :: gotime where
  "zero_time = - 62135596800000000000"

definition IsZero :: "gotime \<Rightarrow> bool" where
  "IsZero t \<longleftrightarrow> t = zero_time"

text \<open>\<^verbatim>\<open>Time.Truncate(time.Second)\<close> rounds down to a multiple of a second since the zero time.\<close>

definition TruncateSecond :: "gotime \<Rightarrow> gotime" where
  "TruncateSecond t = t - (t - zero_time) mod Second"

lemmas [go_num] = dmul_def dadd_def dsub_def tsub_def After_def tadd_def UnixNano_def

lemma tsub_range: "min_int64 \<le> tsub t u \<and> tsub t u \<le> max_int64"
  by (auto simp: tsub_def min_int64_def max_int64_def)

lemma tsub_pos: "After t u \<Longrightarrow> 0 < tsub t u"
  by (auto simp: tsub_def After_def max_int64_def min_int64_def)

lemma dmul_Second:
  "0 \<le> n \<Longrightarrow> n < 2 ^ 31 \<Longrightarrow> dmul n Second = n * Second"
  by (simp add: dmul_def wrap64_id Second_def)

end
