(* ===== verification/GoNet.thy ===== *)
theory GoNet
  imports GoBase
begin

text \<open>
  The part of Go's \<^verbatim>\<open>net/http\<close>, \<^verbatim>\<open>net/url\<close> and \<^verbatim>\<open>path\<close> that the sources of Titip use:
  header maps, cookies, requests, percent-encoding, \<^verbatim>\<open>url.ParseQuery\<close>, \<^verbatim>\<open>url.Parse\<close> and
  \<^verbatim>\<open>path.Clean\<close>.

  An \<^verbatim>\<open>http.Header\<close> is a Go map from keys to lists of values. It is modelled as an
  association list with distinct keys (\<open>hdr_wf\<close>). The order of the list is the order in
  which a Go \<^verbatim>\<open>range\<close> loop visits the map; since Go leaves it open, the theorems hold for
  every order.
\<close>

named_theorems go_hdr \<open>unfolding rules of header maps\<close>

section \<open>Header maps\<close>

type_synonym Header = "(bytes \<times> bytes list) list"

text \<open>The bytes of a token (RFC 9110), as \<^verbatim>\<open>textproto\<close> accepts them in a header name.\<close>

definition is_token_byte :: "char \<Rightarrow> bool" where
  "is_token_byte c \<longleftrightarrow> is_upper c \<or> is_lower c \<or> is_digit c \<or>
     c \<in> {CHR ''!'', CHR ''#'', CHR ''$'', CHR ''%'', CHR ''&'', CHR 0x27, CHR ''*'', CHR ''+'',
          CHR ''-'', CHR ''.'', CHR ''^'', CHR ''_'', CHR 0x60, CHR ''|'', CHR ''~''}"

fun canon_bytes :: "bool \<Rightarrow> bytes \<Rightarrow> bytes" where
  "canon_bytes up [] = []"
| "canon_bytes up (c # cs) =
     (if up then upper_byte c else lower_byte c) # canon_bytes (c = CHR ''-'') cs"

definition CanonicalHeaderKey :: "bytes \<Rightarrow> bytes" where
  "CanonicalHeaderKey s = (if list_all is_token_byte s then canon_bytes True s else s)"

definition hdr_wf :: "Header \<Rightarrow> bool" where
  "hdr_wf h \<longleftrightarrow> distinct (map fst h)"

definition Values :: "Header \<Rightarrow> bytes \<Rightarrow> bytes list" where
  "Values h k = (case map_of h (CanonicalHeaderKey k) of None \<Rightarrow> [] | Some vs \<Rightarrow> vs)"

definition Get :: "Header \<Rightarrow> bytes \<Rightarrow> bytes" where
  "Get h k = (case Values h k of [] \<Rightarrow> [] | v # _ \<Rightarrow> v)"

definition Set :: "Header \<Rightarrow> bytes \<Rightarrow> bytes \<Rightarrow> Header" where
  "Set h k v = AList.update (CanonicalHeaderKey k) [v] h"

definition Add :: "Header \<Rightarrow> bytes \<Rightarrow> bytes \<Rightarrow> Header" where
  "Add h k v = AList.update (CanonicalHeaderKey k) (Values h k @ [v]) h"

definition Del :: "Header \<Rightarrow> bytes \<Rightarrow> Header" where
  "Del h k = AList.delete (CanonicalHeaderKey k) h"

text \<open>\<^verbatim>\<open>for _, v := range vv { dst.Add(k, v) }\<close> and the same over a whole map.\<close>

definition add_values :: "bytes \<Rightarrow> bytes list \<Rightarrow> Header \<Rightarrow> Header" where
  "add_values k vs dst = foldl (\<lambda>d v. Add d k v) dst vs"

definition add_all :: "Header \<Rightarrow> Header \<Rightarrow> Header" where
  "add_all src dst = foldl (\<lambda>d (k, vs). add_values k vs d) dst src"

lemmas [go_hdr] = Values_def Get_def Set_def Add_def Del_def add_values_def add_all_def

lemma length_canon_bytes [simp]: "length (canon_bytes up s) = length s"
  by (induction up s rule: canon_bytes.induct) auto

lemma CanonicalHeaderKey_Nil_iff [simp]: "CanonicalHeaderKey s = [] \<longleftrightarrow> s = []"
proof -
  have "length (CanonicalHeaderKey s) = length s" by (simp add: CanonicalHeaderKey_def)
  then show ?thesis by (metis length_0_conv)
qed

lemma upper_byte_cases:
  "upper_byte c = c \<and> \<not> is_lower c \<or> is_lower c \<and> is_upper (upper_byte c)"
  by (auto simp: upper_byte_def is_lower_def is_upper_def of_char_of)

lemma upper_byte_idem [simp]: "upper_byte (upper_byte c) = upper_byte c"
  by (auto simp: upper_byte_def is_lower_def of_char_of)

lemma lower_upper_byte_dash: "lower_byte c = CHR ''-'' \<longleftrightarrow> c = CHR ''-''"
  "upper_byte c = CHR ''-'' \<longleftrightarrow> c = CHR ''-''"
proof -
  have u: "of_char c + 32 \<noteq> (45 :: nat)" if "is_upper c"
    using that unfolding is_upper_def by linarith
  have l: "of_char c - 32 \<noteq> (45 :: nat)" if "is_lower c"
    using that unfolding is_lower_def by linarith
  have nu: "\<not> is_upper (CHR ''-'')" "\<not> is_lower (CHR ''-'')"
    by (simp_all add: is_upper_def is_lower_def)
  show "lower_byte c = CHR ''-'' \<longleftrightarrow> c = CHR ''-''"
  proof
    assume a: "lower_byte c = CHR ''-''"
    then have "(of_char (lower_byte c) :: nat) = 45" by simp
    then show "c = CHR ''-''"
      using a u by (cases "is_upper c") (auto simp: lower_byte_def of_char_of is_upper_def)
  next
    assume "c = CHR ''-''"
    then show "lower_byte c = CHR ''-''" using nu by (simp add: lower_byte_def)
  qed
  show "upper_byte c = CHR ''-'' \<longleftrightarrow> c = CHR ''-''"
  proof
    assume a: "upper_byte c = CHR ''-''"
    then have "(of_char (upper_byte c) :: nat) = 45" by simp
    then show "c = CHR ''-''"
      using a l by (cases "is_lower c") (auto simp: upper_byte_def of_char_of is_lower_def)
  next
    assume "c = CHR ''-''"
    then show "upper_byte c = CHR ''-''" using nu by (simp add: upper_byte_def)
  qed
qed

lemma is_token_byte_case [simp]:
  "is_token_byte c \<Longrightarrow> is_token_byte (upper_byte c)"
  "is_token_byte c \<Longrightarrow> is_token_byte (lower_byte c)"
proof -
  have "is_lower (lower_byte c)" if "is_upper c"
    using that by (auto simp: lower_byte_def is_upper_def is_lower_def of_char_of)
  then show "is_token_byte c \<Longrightarrow> is_token_byte (lower_byte c)"
    by (cases "is_upper c") (auto simp: is_token_byte_def lower_byte_def)
  show "is_token_byte c \<Longrightarrow> is_token_byte (upper_byte c)"
    using upper_byte_cases [of c] by (auto simp: is_token_byte_def)
qed

lemma canon_bytes_token: "list_all is_token_byte s \<Longrightarrow> list_all is_token_byte (canon_bytes up s)"
  by (induction up s rule: canon_bytes.induct) auto

lemma canon_bytes_idem: "canon_bytes up (canon_bytes up s) = canon_bytes up s"
  by (induction up s rule: canon_bytes.induct) (auto simp: lower_upper_byte_dash)

text \<open>Canonicalising a header name twice changes nothing.\<close>

lemma CanonicalHeaderKey_idem [simp]:
  "CanonicalHeaderKey (CanonicalHeaderKey k) = CanonicalHeaderKey k"
  by (simp add: CanonicalHeaderKey_def canon_bytes_token canon_bytes_idem)

lemma Values_canon [simp]: "Values h (CanonicalHeaderKey k) = Values h k"
  by (simp add: Values_def)

lemma map_of_update: "map_of (AList.update k v h) k' = (if k' = k then Some v else map_of h k')"
  by (simp add: AList.update_conv')

lemma map_of_delete: "map_of (AList.delete k h) k' = (if k' = k then None else map_of h k')"
  by (simp add: AList.delete_conv')

lemma Values_Set [simp]:
  "Values (Set h k v) k' = (if CanonicalHeaderKey k' = CanonicalHeaderKey k then [v] else Values h k')"
  by (simp add: Values_def Set_def map_of_update)

lemma Values_Add [simp]:
  "Values (Add h k v) k' =
     (if CanonicalHeaderKey k' = CanonicalHeaderKey k then Values h k @ [v] else Values h k')"
  by (simp add: Values_def Add_def map_of_update)

lemma Values_Del [simp]:
  "Values (Del h k) k' = (if CanonicalHeaderKey k' = CanonicalHeaderKey k then [] else Values h k')"
  by (simp add: Values_def Del_def map_of_delete)

lemma Get_Set_same [simp]: "Get (Set h k v) k = v"
  by (simp add: Get_def)

lemma hdr_wf_Set [simp]: "hdr_wf h \<Longrightarrow> hdr_wf (Set h k v)"
  by (simp add: hdr_wf_def Set_def distinct_update)

lemma hdr_wf_Add [simp]: "hdr_wf h \<Longrightarrow> hdr_wf (Add h k v)"
  by (simp add: hdr_wf_def Add_def distinct_update)

lemma hdr_wf_Del [simp]: "hdr_wf h \<Longrightarrow> hdr_wf (Del h k)"
  by (simp add: hdr_wf_def Del_def distinct_delete)

lemma keys_Add [simp]: "fst ` set (Add h k v) = insert (CanonicalHeaderKey k) (fst ` set h)"
  by (simp add: Add_def dom_update)

lemma Values_add_values:
  "Values (add_values k vs h) k' =
     Values h k' @ (if CanonicalHeaderKey k' = CanonicalHeaderKey k then vs else [])"
  by (induction vs arbitrary: h) (auto simp: add_values_def Values_def Add_def map_of_update)

lemma add_all_Nil [simp]: "add_all [] dst = dst"
  by (simp add: add_all_def)

lemma add_all_Cons [simp]: "add_all ((k, vs) # src) dst = add_all src (add_values k vs dst)"
  by (simp add: add_all_def)

text \<open>
  Adding a map whose keys are canonical and distinct appends, for each name, the source's
  values to those of the destination.
\<close>

definition hdr_canon :: "Header \<Rightarrow> bool" where
  "hdr_canon h \<longleftrightarrow> (\<forall>k \<in> fst ` set h. CanonicalHeaderKey k = k)"

lemma map_of_notin: "k \<notin> fst ` set h \<Longrightarrow> map_of h k = None"
  by (simp add: map_of_eq_None_iff)

lemma Values_add_all:
  "hdr_wf src \<Longrightarrow> hdr_canon src \<Longrightarrow> Values (add_all src dst) k = Values dst k @ Values src k"
proof (induction src arbitrary: dst)
  case (Cons p src)
  obtain k' vs where p: "p = (k', vs)" by (cases p)
  from Cons.prems have "hdr_wf src" "hdr_canon src" and c: "CanonicalHeaderKey k' = k'"
    and n: "k' \<notin> fst ` set src"
    by (auto simp: hdr_wf_def hdr_canon_def p)
  have "Values (add_all src (add_values k' vs dst)) k = Values (add_values k' vs dst) k @ Values src k"
    using Cons.IH \<open>hdr_wf src\<close> \<open>hdr_canon src\<close> by blast
  moreover have "Values src k = []" if "CanonicalHeaderKey k = k'"
    using that n by (simp add: Values_def map_of_notin)
  moreover have "Values (p # src) k = (if CanonicalHeaderKey k = k' then vs else Values src k)"
    by (simp add: Values_def p)
  ultimately show ?case by (simp add: p Values_add_values c)
qed (simp add: Values_def)

section \<open>Requests and cookies\<close>

record URL =
  Scheme :: bytes
  Opaque :: bytes
  User :: "bytes option"
  Host :: bytes
  Path :: bytes
  RawPath :: bytes
  OmitHost :: bool
  ForceQuery :: bool
  RawQuery :: bytes
  Fragment :: bytes

definition empty_URL :: URL where
  "empty_URL = \<lparr>Scheme = [], Opaque = [], User = None, Host = [], Path = [], RawPath = [],
     OmitHost = False, ForceQuery = False, RawQuery = [], Fragment = []\<rparr>"

text \<open>The fields of \<^verbatim>\<open>http.Request\<close> the sources read; \<open>TLS\<close> is \<^verbatim>\<open>r.TLS != nil\<close>.\<close>

record Request =
  Method :: bytes
  rURL :: "URL option"
  rHost :: bytes
  rHeader :: Header
  TLS :: bool

text \<open>\<^verbatim>\<open>textproto.TrimString\<close> trims blanks and tabs, LF and CR.\<close>

definition is_http_space :: "char \<Rightarrow> bool" where
  "is_http_space c \<longleftrightarrow> c = CHR '' '' \<or> (of_char c :: nat) = 9 \<or> (of_char c :: nat) = 10 \<or> (of_char c :: nat) = 13"

definition TrimString :: "bytes \<Rightarrow> bytes" where
  "TrimString s = rev (dropWhile is_http_space (rev (dropWhile is_http_space s)))"

definition valid_cookie_value_byte :: "char \<Rightarrow> bool" where
  "valid_cookie_value_byte c \<longleftrightarrow> 32 \<le> (of_char c :: nat) \<and> (of_char c :: nat) < 127 \<and>
     c \<noteq> CHR 0x22 \<and> c \<noteq> CHR '';'' \<and> c \<noteq> CHR 0x5C"

definition parseCookieValue :: "bytes \<Rightarrow> bytes option" where
  "parseCookieValue raw =
     (let v = (if 1 < length raw \<and> hd raw = CHR 0x22 \<and> last raw = CHR 0x22
               then butlast (tl raw) else raw)
      in if list_all valid_cookie_value_byte v then Some v else None)"

text \<open>The cookies of one part of a \<^verbatim>\<open>Cookie\<close> line with a given name.\<close>

definition cookie_of_part :: "bytes \<Rightarrow> bytes \<Rightarrow> bytes option" where
  "cookie_of_part name part0 =
     (let part = TrimString part0; (n0, v, _) = Cut part ''=''; n = TrimString n0
      in if part = [] \<or> n = [] \<or> \<not> list_all is_token_byte n \<or> n \<noteq> name then None
         else parseCookieValue v)"

text \<open>\<^verbatim>\<open>r.Cookie(name)\<close>: the value of the first cookie with that name, \<open>None\<close> for the error.\<close>

definition Cookie :: "Request \<Rightarrow> bytes \<Rightarrow> bytes option" where
  "Cookie r name =
     (if name = [] then None
      else case List.map_filter (cookie_of_part name)
                  (concat (map (\<lambda>line. SplitByte (CHR '';'') (TrimString line))
                     (case map_of (rHeader r) ''Cookie'' of None \<Rightarrow> [] | Some ls \<Rightarrow> ls))) of
             [] \<Rightarrow> None | v # _ \<Rightarrow> Some v)"

section \<open>Percent-encoding\<close>

datatype encoding = encodePath | encodePathSegment | encodeHost | encodeZone
  | encodeUserPassword | encodeQueryComponent | encodeFragment

definition is_alnum :: "char \<Rightarrow> bool" where
  "is_alnum c \<longleftrightarrow> is_upper c \<or> is_lower c \<or> is_digit c"

definition is_mark :: "char \<Rightarrow> bool" where
  "is_mark c \<longleftrightarrow> c \<in> {CHR ''-'', CHR ''_'', CHR ''.'', CHR ''~''}"

definition is_url_reserved :: "char \<Rightarrow> bool" where
  "is_url_reserved c \<longleftrightarrow> c \<in> {CHR ''$'', CHR ''&'', CHR ''+'', CHR '','', CHR ''/'', CHR '':'',
     CHR '';'', CHR ''='', CHR ''?'', CHR ''@''}"

definition is_host_sub_delim :: "char \<Rightarrow> bool" where
  "is_host_sub_delim c \<longleftrightarrow> c \<in> {CHR ''!'', CHR ''$'', CHR ''&'', CHR 0x27, CHR ''('', CHR '')'',
     CHR ''*'', CHR ''+'', CHR '','', CHR '';'', CHR ''='', CHR '':'', CHR ''['', CHR '']'',
     CHR ''<'', CHR ''>'', CHR 0x22}"

definition shouldEscape :: "char \<Rightarrow> encoding \<Rightarrow> bool" where
  "shouldEscape c mode =
     (if is_alnum c then False
      else if (mode = encodeHost \<or> mode = encodeZone) \<and> is_host_sub_delim c then False
      else if is_mark c then False
      else if is_url_reserved c \<and> mode = encodePath then c = CHR ''?''
      else if is_url_reserved c \<and> mode = encodePathSegment
        then c \<in> {CHR ''/'', CHR '';'', CHR '','', CHR ''?''}
      else if is_url_reserved c \<and> mode = encodeUserPassword
        then c \<in> {CHR ''@'', CHR ''/'', CHR ''?'', CHR '':''}
      else if is_url_reserved c \<and> mode = encodeQueryComponent then True
      else if is_url_reserved c \<and> mode = encodeFragment then False
      else if mode = encodeFragment \<and> c \<in> {CHR ''!'', CHR ''('', CHR '')'', CHR ''*''} then False
      else True)"

definition hex_digit :: "nat \<Rightarrow> char" where
  "hex_digit n = (if n < 10 then char_of (48 + n) else char_of (55 + n))"

definition escape_byte :: "encoding \<Rightarrow> char \<Rightarrow> bytes" where
  "escape_byte mode c =
     (if c = CHR '' '' \<and> mode = encodeQueryComponent then ''+''
      else if shouldEscape c mode
        then [CHR ''%'', hex_digit (of_char c div 16), hex_digit (of_char c mod 16)]
      else [c])"

definition escape :: "encoding \<Rightarrow> bytes \<Rightarrow> bytes" where
  "escape mode s = concat (map (escape_byte mode) s)"

abbreviation QueryEscape :: "bytes \<Rightarrow> bytes" where
  "QueryEscape \<equiv> escape encodeQueryComponent"
abbreviation PathEscape :: "bytes \<Rightarrow> bytes" where
  "PathEscape \<equiv> escape encodePathSegment"

definition unhex :: "char \<Rightarrow> nat option" where
  "unhex c = (if is_digit c then Some (of_char c - 48)
     else if 97 \<le> (of_char c :: nat) \<and> (of_char c :: nat) \<le> 102 then Some (of_char c - 87)
     else if 65 \<le> (of_char c :: nat) \<and> (of_char c :: nat) \<le> 70 then Some (of_char c - 55)
     else None)"

text \<open>\<^verbatim>\<open>url.unescape\<close>; \<open>None\<close> is an \<^verbatim>\<open>EscapeError\<close> or an \<^verbatim>\<open>InvalidHostError\<close>.\<close>

fun unescape :: "encoding \<Rightarrow> bytes \<Rightarrow> bytes option" where
  "unescape mode [] = Some []"
| "unescape mode (c # cs) =
     (if c = CHR ''%'' then
        (case cs of
           a # b # rest \<Rightarrow>
             (case (unhex a, unhex b) of
                (Some x, Some y) \<Rightarrow>
                  let v = char_of (16 * x + y)
                  in if mode = encodeHost \<and> x < 8 \<and> \<not> (a = CHR ''2'' \<and> b = CHR ''5'') then None
                     else if mode = encodeZone \<and> \<not> (a = CHR ''2'' \<and> b = CHR ''5'') \<and> v \<noteq> CHR '' ''
                       \<and> shouldEscape v encodeHost then None
                     else map_option ((#) v) (unescape mode rest)
              | _ \<Rightarrow> None)
         | _ \<Rightarrow> None)
      else if c = CHR ''+'' \<and> mode = encodeQueryComponent
        then map_option ((#) (CHR '' '')) (unescape mode cs)
      else if (mode = encodeHost \<or> mode = encodeZone) \<and> (of_char c :: nat) < 128
        \<and> shouldEscape c mode then None
      else map_option ((#) c) (unescape mode cs))"

abbreviation QueryUnescape :: "bytes \<Rightarrow> bytes option" where
  "QueryUnescape \<equiv> unescape encodeQueryComponent"

lemma escape_Nil [simp]: "escape mode [] = []"
  by (simp add: escape_def)

lemma escape_Cons [simp]: "escape mode (c # cs) = escape_byte mode c @ escape mode cs"
  by (simp add: escape_def)

lemma escape_byte_not_Nil [simp]: "escape_byte mode c \<noteq> []"
  by (simp add: escape_byte_def)

lemma escape_Nil_iff [simp]: "escape mode s = [] \<longleftrightarrow> s = []"
  by (cases s) auto

lemma of_char_hex_digit:
  "n < 16 \<Longrightarrow> (of_char (hex_digit n) :: nat) = (if n < 10 then 48 + n else 55 + n)"
  by (simp add: hex_digit_def of_char_of)

lemma unhex_hex_digit: "n < 16 \<Longrightarrow> unhex (hex_digit n) = Some n"
  by (simp add: unhex_def is_digit_def of_char_hex_digit)

lemma of_char_div_16 [simp]: "of_char c div 16 < (16::nat)"
  using of_char_lt_256 [of c] by (simp add: less_mult_imp_div_less)

lemma is_alnum_hex_digit: "n < 16 \<Longrightarrow> is_alnum (hex_digit n)"
  by (simp add: is_alnum_def is_digit_def is_upper_def of_char_hex_digit)

lemma percent_byte: "\<not> is_alnum (CHR ''%'')" "\<not> is_mark (CHR ''%'')"
  "\<not> is_alnum (CHR ''+'')" "\<not> is_mark (CHR ''+'')"
  by (simp_all add: is_alnum_def is_upper_def is_lower_def is_digit_def is_mark_def)

text \<open>The bytes of an escaped query component: letters, digits, marks, \<open>+\<close> and \<open>%\<close>.\<close>

lemma set_QueryEscape:
  "c \<in> set (QueryEscape s) \<Longrightarrow> is_alnum c \<or> is_mark c \<or> c = CHR ''+'' \<or> c = CHR ''%''"
  by (induction s)
     (auto simp: escape_byte_def shouldEscape_def is_alnum_hex_digit split: if_splits)

text \<open>Decoding an escaped query component gives it back.\<close>

lemma unescape_QueryEscape_byte:
  "QueryUnescape (escape_byte encodeQueryComponent c @ t) = map_option ((#) c) (QueryUnescape t)"
proof -
  have "of_char c div 16 < (16::nat)" by simp
  moreover have "(of_char c :: nat) mod 16 < 16" by simp
  moreover have "char_of (16 * (of_char c div 16) + of_char c mod (16::nat)) = c"
    by simp
  moreover have "shouldEscape (CHR ''%'') encodeQueryComponent"
    "shouldEscape (CHR ''+'') encodeQueryComponent"
    by (simp_all add: shouldEscape_def percent_byte is_url_reserved_def)
  ultimately show ?thesis by (auto simp: escape_byte_def unhex_hex_digit)
qed

lemma QueryUnescape_QueryEscape [simp]: "QueryUnescape (QueryEscape s) = Some s"
  by (induction s) (simp_all add: unescape_QueryEscape_byte)

lemma QueryEscape_inj: "QueryEscape s = QueryEscape t \<Longrightarrow> s = t"
  by (metis QueryUnescape_QueryEscape option.inject)

text \<open>The same for a path segment.\<close>

definition path_segment_byte :: "char \<Rightarrow> bool" where
  "path_segment_byte c \<longleftrightarrow> is_alnum c \<or> is_mark c \<or> c = CHR ''%''
     \<or> c \<in> {CHR ''$'', CHR ''&'', CHR ''+'', CHR '':'', CHR ''='', CHR ''@''}"

lemma unescaped_path_byte: "\<not> shouldEscape c encodePathSegment \<Longrightarrow> path_segment_byte c"
  unfolding shouldEscape_def path_segment_byte_def is_url_reserved_def
  by (simp split: if_splits)

lemma escape_byte_path: "x \<in> set (escape_byte encodePathSegment c) \<Longrightarrow> path_segment_byte x"
proof (cases "shouldEscape c encodePathSegment")
  case True
  then show "x \<in> set (escape_byte encodePathSegment c) \<Longrightarrow> path_segment_byte x"
    by (auto simp: escape_byte_def path_segment_byte_def is_alnum_hex_digit)
qed (simp add: escape_byte_def unescaped_path_byte)

lemma set_PathEscape: "c \<in> set (PathEscape s) \<Longrightarrow> path_segment_byte c"
  by (induction s) (auto dest: escape_byte_path)

lemma PathEscape_no_new:
  assumes "c \<in> set (PathEscape s)" and "\<not> is_alnum c" and "c \<noteq> CHR ''%''"
  shows "c \<in> set s"
  using assms by (induction s) (auto simp: escape_byte_def is_alnum_hex_digit split: if_splits)

lemma unescape_PathEscape_byte:
  "unescape encodePathSegment (escape_byte encodePathSegment c @ t) =
     map_option ((#) c) (unescape encodePathSegment t)"
proof -
  have "of_char c div 16 < (16::nat)" by simp
  moreover have "(of_char c :: nat) mod 16 < 16" by simp
  moreover have "char_of (16 * (of_char c div 16) + of_char c mod (16::nat)) = c" by simp
  moreover have "shouldEscape (CHR ''%'') encodePathSegment"
    by (simp add: shouldEscape_def percent_byte is_url_reserved_def)
  ultimately show ?thesis by (auto simp: escape_byte_def unhex_hex_digit)
qed

lemma unescape_PathEscape [simp]: "unescape encodePathSegment (PathEscape s) = Some s"
  by (induction s) (simp_all add: unescape_PathEscape_byte)

lemma PathEscape_inj: "PathEscape s = PathEscape t \<Longrightarrow> s = t"
  by (metis unescape_PathEscape option.inject)

end
