(* ===== verification/GoURL.thy ===== *)
theory GoURL
  imports GoNet
begin

text \<open>
  \<^verbatim>\<open>path.Clean\<close>, \<^verbatim>\<open>url.ParseQuery\<close>, \<^verbatim>\<open>url.Parse\<close>, \<^verbatim>\<open>URL.String\<close> and \<^verbatim>\<open>URL.RequestURI\<close>, and the
  environment record: the functions outside the repository whose result depends on the
  Go release, on the process (the local time zone) or on a third-party package. They are
  arguments of the definitions that use them.
\<close>

section \<open>path.Clean\<close>

text \<open>One path element against the stack of elements kept so far, topmost first.\<close>

fun clean_elem :: "bool \<Rightarrow> bytes list \<Rightarrow> bytes \<Rightarrow> bytes list" where
  "clean_elem rooted st e =
     (if e = [] \<or> e = ''.'' then st
      else if e = ''..'' then
        (case st of [] \<Rightarrow> (if rooted then [] else [e])
         | t # ts \<Rightarrow> if t = ''..'' then e # st else ts)
      else e # st)"

definition path_Clean :: "bytes \<Rightarrow> bytes" where
  "path_Clean p =
     (if p = [] then ''.''
      else let rooted = (hd p = CHR ''/'');
               body = Join ''/'' (rev (foldl (clean_elem rooted) [] (SplitByte (CHR ''/'') p)))
           in if rooted then CHR ''/'' # body else if body = [] then ''.'' else body)"

lemma path_Clean_rooted: "p \<noteq> [] \<Longrightarrow> hd p = CHR ''/'' \<Longrightarrow> \<exists>b. path_Clean p = CHR ''/'' # b"
  by (simp add: path_Clean_def Let_def)

text \<open>
  A clean element is non-empty, has no slash and is neither \<open>.\<close> nor, under a root,
  \<open>..\<close>; cleaning a rooted path gives a slash and clean elements joined by slashes.
\<close>

definition clean_el :: "bytes \<Rightarrow> bool" where
  "clean_el e \<longleftrightarrow> e \<noteq> [] \<and> e \<noteq> ''.'' \<and> e \<noteq> ''..'' \<and> CHR ''/'' \<notin> set e"

lemma clean_elems_rooted:
  assumes "\<forall>e \<in> set es. CHR ''/'' \<notin> set e" and "\<forall>e \<in> set st. clean_el e"
  shows "\<forall>e \<in> set (foldl (clean_elem True) st es). clean_el e"
  using assms
proof (induction es arbitrary: st)
  case (Cons x es)
  have "\<forall>e \<in> set (clean_elem True st x). clean_el e"
    using Cons.prems by (auto simp: clean_el_def split: list.splits)
  with Cons show ?case by simp
qed simp

lemma clean_fixed: "\<forall>e \<in> set es. clean_el e \<Longrightarrow> foldl (clean_elem r) st es = rev es @ st"
  by (induction es arbitrary: st) (auto simp: clean_el_def)

lemma SplitByte_append: "x \<notin> set e \<Longrightarrow> SplitByte x (e @ x # s) = e # SplitByte x s"
  by (induction e) auto

lemma SplitByte_Join:
  "es \<noteq> [] \<Longrightarrow> \<forall>e \<in> set es. x \<notin> set e \<Longrightarrow> SplitByte x (Join [x] es) = es"
proof (induction "[x]" es rule: Join.induct)
  case (3 a b es)
  then show ?case by (simp add: SplitByte_append)
qed (auto simp: SplitByte_id)

text \<open>Cleaning a rooted path twice is cleaning it once.\<close>

lemma path_Clean_idem:
  assumes "p \<noteq> []" and "hd p = CHR ''/''"
  shows "path_Clean (path_Clean p) = path_Clean p"
proof -
  let ?es = "rev (foldl (clean_elem True) [] (SplitByte (CHR ''/'') p))"
  have c: "\<forall>e \<in> set ?es. clean_el e"
    using clean_elems_rooted [of "SplitByte (CHR ''/'') p" "[]"] SplitByte_no_sep by auto
  have p: "path_Clean p = CHR ''/'' # Join ''/'' ?es"
    using assms by (simp add: path_Clean_def)
  have s: "foldl (clean_elem True) [] (SplitByte (CHR ''/'') (Join ''/'' ?es)) = rev ?es"
  proof (cases "?es = []")
    case False
    then have "SplitByte (CHR ''/'') (Join ''/'' ?es) = ?es"
      using c by (intro SplitByte_Join) (auto simp: clean_el_def)
    then show ?thesis using clean_fixed [OF c, of True "[]"] by simp
  qed simp
  have "path_Clean (CHR ''/'' # Join ''/'' ?es) =
      CHR ''/'' # Join ''/'' (rev (foldl (clean_elem True) [] (SplitByte (CHR ''/'') (Join ''/'' ?es))))"
    by (simp add: path_Clean_def)
  then show ?thesis by (simp only: p s rev_rev_ident)
qed

section \<open>url.ParseQuery\<close>

text \<open>
  One \<^verbatim>\<open>&\<close>-separated part: skipped when empty; an error, and skipped, when it has a
  semicolon or a bad escape. Otherwise its value is appended to its key's values. The
  flag is Go's non-nil error.
\<close>

definition parse_query_part :: "Header \<times> bool \<Rightarrow> bytes \<Rightarrow> Header \<times> bool" where
  "parse_query_part acc part =
     (let (m, err) = acc in
      if CHR '';'' \<in> set part then (m, True)
      else if part = [] then (m, err)
      else let (k, v, _) = Cut part ''='' in
        (case QueryUnescape k of None \<Rightarrow> (m, True)
         | Some k' \<Rightarrow> (case QueryUnescape v of None \<Rightarrow> (m, True)
             | Some v' \<Rightarrow>
                 (AList.update k' ((case map_of m k' of None \<Rightarrow> [] | Some vs \<Rightarrow> vs) @ [v']) m, err))))"

definition max_query_params :: nat where
  "max_query_params = 10000"

definition ParseQuery :: "bytes \<Rightarrow> Header \<times> bool" where
  "ParseQuery q =
     (let parts = SplitByte (CHR ''&'') q
      in if max_query_params < length parts then ([], True)
         else foldl parse_query_part ([], False) parts)"

section \<open>The environment\<close>

text \<open>
  The result of \<^verbatim>\<open>cacheobject.ParseResponseCacheControl\<close> and
  \<^verbatim>\<open>cacheobject.ParseRequestCacheControl\<close> (third party): the fields the sources read. A
  delta-seconds field is an \<^verbatim>\<open>int32\<close>, -1 when the directive is absent.
\<close>

record ResponseCacheDirectives =
  MustRevalidate :: bool
  NoCache :: "bytes list"
  NoCachePresent :: bool
  NoStore :: bool
  Public :: bool
  Private :: "bytes list"
  PrivatePresent :: bool
  ProxyRevalidate :: bool
  MaxAge :: int
  SMaxAge :: int
  StaleIfError :: int
  StaleWhileRevalidate :: int

record RequestCacheDirectives =
  rMaxAge :: int
  rNoCache :: bool
  rNoStore :: bool
  rOnlyIfCached :: bool

text \<open>
  \<^item> \<open>ParseTime\<close>: \<^verbatim>\<open>http.ParseTime\<close>, which reads RFC 850 zone names by the local zone;
  \<^item> \<open>ParseDuration\<close>: \<^verbatim>\<open>time.ParseDuration\<close>, whose fractions are computed in floating point;
  \<^item> \<open>IntSeconds\<close>: \<^verbatim>\<open>int(d.Seconds())\<close>, computed in floating point;
  \<^item> \<open>FormatHTTPTime\<close>: \<^verbatim>\<open>time.Unix(0, n).UTC().Format(http.TimeFormat)\<close>;
  \<^item> \<open>parseAuthority\<close>: the authority part of \<^verbatim>\<open>url.Parse\<close> (user information as printed, and
    host), whose checks of colons and IP literals differ between Go releases;
  \<^item> the two parsers of the package \<^verbatim>\<open>cacheobject\<close>.
\<close>

record goenv =
  ParseTime :: "bytes \<Rightarrow> gotime option"
  ParseDuration :: "bytes \<Rightarrow> duration option"
  IntSeconds :: "duration \<Rightarrow> int"
  FormatHTTPTime :: "int \<Rightarrow> bytes"
  parseAuthority :: "bytes \<Rightarrow> (bytes option \<times> bytes) option"
  ParseResponseCacheControl :: "bytes \<Rightarrow> ResponseCacheDirectives option"
  ParseRequestCacheControl :: "bytes \<Rightarrow> RequestCacheDirectives option"

text \<open>What the sources rely on: a parsed delta-seconds value is an \<^verbatim>\<open>int32\<close> from -1 on.\<close>

definition directives_ok :: "ResponseCacheDirectives \<Rightarrow> bool" where
  "directives_ok d \<longleftrightarrow> (\<forall>n \<in> {MaxAge d, SMaxAge d, StaleIfError d, StaleWhileRevalidate d}.
     - 1 \<le> n \<and> n < 2 ^ 31)"

definition env_ok :: "goenv \<Rightarrow> bool" where
  "env_ok e \<longleftrightarrow> (\<forall>s d. ParseResponseCacheControl e s = Some d \<longrightarrow> directives_ok d)"

section \<open>url.Parse\<close>

text \<open>\<^verbatim>\<open>getScheme\<close>: the scheme and the rest; \<open>None\<close> for a missing scheme before a colon.\<close>

fun scheme_len :: "nat \<Rightarrow> bytes \<Rightarrow> nat option option" where
  "scheme_len i [] = Some None"
| "scheme_len i (c # cs) =
     (if is_upper c \<or> is_lower c then scheme_len (Suc i) cs
      else if is_digit c \<or> c = CHR ''+'' \<or> c = CHR ''-'' \<or> c = CHR ''.''
        then (if i = 0 then Some None else scheme_len (Suc i) cs)
      else if c = CHR '':'' then (if i = 0 then None else Some (Some i))
      else Some None)"

definition getScheme :: "bytes \<Rightarrow> (bytes \<times> bytes) option" where
  "getScheme s = (case scheme_len 0 s of
      None \<Rightarrow> None
    | Some None \<Rightarrow> Some ([], s)
    | Some (Some i) \<Rightarrow> Some (take i s, drop (Suc i) s))"

definition is_ctl_byte :: "char \<Rightarrow> bool" where
  "is_ctl_byte c \<longleftrightarrow> (of_char c :: nat) < 32 \<or> (of_char c :: nat) = 127"

text \<open>\<^verbatim>\<open>URL.setPath\<close>.\<close>

definition setPath :: "URL \<Rightarrow> bytes \<Rightarrow> URL option" where
  "setPath u p = (case unescape encodePath p of None \<Rightarrow> None
     | Some path \<Rightarrow> Some (u\<lparr>Path := path, RawPath := (if escape encodePath path = p then [] else p)\<rparr>))"

text \<open>The query part: a single trailing question mark sets \<open>ForceQuery\<close>.\<close>

definition cut_query :: "bytes \<Rightarrow> bytes \<times> bytes \<times> bool" where
  "cut_query rest =
     (if HasSuffix rest ''?'' \<and> count_list rest (CHR ''?'') = 1
      then (butlast rest, [], True)
      else let (r, q, _) = Cut rest ''?'' in (r, q, False))"

definition parse_after_scheme :: "goenv \<Rightarrow> bytes \<Rightarrow> bytes \<Rightarrow> URL option" where
  "parse_after_scheme env scheme rest0 =
     (let (rest, query, force) = cut_query rest0;
          u = empty_URL\<lparr>Scheme := scheme, RawQuery := query, ForceQuery := force\<rparr>
      in if \<not> HasPrefix rest ''/'' \<and> scheme \<noteq> [] then Some (u\<lparr>Opaque := rest\<rparr>)
         else if \<not> HasPrefix rest ''/'' \<and> CHR '':'' \<in> set (fst (Cut rest ''/'')) then None
         else if (scheme \<noteq> [] \<or> \<not> HasPrefix rest ''///'') \<and> HasPrefix rest ''//'' then
           let a = drop 2 rest;
               (auth, path) = (case Index a ''/'' of None \<Rightarrow> (a, []) | Some i \<Rightarrow> (take i a, drop i a))
           in (case parseAuthority env auth of None \<Rightarrow> None
               | Some (user, host) \<Rightarrow> setPath (u\<lparr>User := user, Host := host\<rparr>) path)
         else setPath (u\<lparr>OmitHost := (scheme \<noteq> [] \<and> HasPrefix rest ''/'')\<rparr>) rest)"

definition url_Parse :: "goenv \<Rightarrow> bytes \<Rightarrow> URL option" where
  "url_Parse env raw =
     (let (s, frag, _) = Cut raw ''#'' in
      if list_ex is_ctl_byte s then None
      else
        (case (if s = ''*'' then Some (empty_URL\<lparr>Path := ''*''\<rparr>)
               else case getScheme s of None \<Rightarrow> None
                 | Some (sch, rest) \<Rightarrow> parse_after_scheme env (ToLower sch) rest) of
           None \<Rightarrow> None
         | Some u \<Rightarrow> if frag = [] then Some u
             else map_option (\<lambda>f. u\<lparr>Fragment := f\<rparr>) (unescape encodeFragment frag)))"

section \<open>URL.String and URL.RequestURI\<close>

definition valid_encoded_byte :: "char \<Rightarrow> bool" where
  "valid_encoded_byte c \<longleftrightarrow>
     c \<in> {CHR ''!'', CHR ''$'', CHR ''&'', CHR 0x27, CHR ''('', CHR '')'', CHR ''*'', CHR ''+'',
          CHR '','', CHR '';'', CHR ''='', CHR '':'', CHR ''@'', CHR ''['', CHR '']'', CHR ''%''} \<or>
     \<not> shouldEscape c encodePath"

definition EscapedPath :: "URL \<Rightarrow> bytes" where
  "EscapedPath u =
     (if RawPath u \<noteq> [] \<and> list_all valid_encoded_byte (RawPath u) \<and>
         unescape encodePath (RawPath u) = Some (Path u) then RawPath u
      else if Path u = ''*'' then ''*''
      else escape encodePath (Path u))"

definition url_String :: "URL \<Rightarrow> bytes" where
  "url_String u =
     (let sch = (if Scheme u \<noteq> [] then Scheme u @ '':'' else []);
          path = EscapedPath u;
          auth = (if (Scheme u \<noteq> [] \<or> Host u \<noteq> [] \<or> User u \<noteq> None)
                     \<and> \<not> (OmitHost u \<and> Host u = [] \<and> User u = None)
                  then (if Host u \<noteq> [] \<or> Path u \<noteq> [] \<or> User u \<noteq> None then ''//'' else [])
                       @ (case User u of None \<Rightarrow> [] | Some ui \<Rightarrow> ui @ ''@'')
                       @ escape encodeHost (Host u)
                  else []);
          slash = (if path \<noteq> [] \<and> hd path \<noteq> CHR ''/'' \<and> Host u \<noteq> [] then ''/'' else []);
          pre = sch @ auth @ slash;
          dot = (if pre = [] \<and> CHR '':'' \<in> set (fst (Cut path ''/'')) then ''./'' else []);
          hier = (if Opaque u \<noteq> [] then sch @ Opaque u else pre @ dot @ path)
      in hier @ (if ForceQuery u \<or> RawQuery u \<noteq> [] then ''?'' @ RawQuery u else [])
              @ (if Fragment u \<noteq> [] then ''#'' @ escape encodeFragment (Fragment u) else []))"

definition RequestURI :: "URL \<Rightarrow> bytes" where
  "RequestURI u =
     (let base = (if Opaque u = [] then (if EscapedPath u = [] then ''/'' else EscapedPath u)
                  else if HasPrefix (Opaque u) ''//'' then Scheme u @ '':'' @ Opaque u else Opaque u)
      in base @ (if ForceQuery u \<or> RawQuery u \<noteq> [] then ''?'' @ RawQuery u else []))"

section \<open>A concrete environment\<close>

text \<open>
  An environment that satisfies \<open>env_ok\<close>, for evaluating the model on concrete inputs:
  it knows the response directives \<^verbatim>\<open>max-age=60\<close>, \<^verbatim>\<open>max-age=60, stale-while-revalidate=300\<close>
  and \<^verbatim>\<open>no-store\<close>, reads every date as \<open>10 ^ 18\<close> nanoseconds after the epoch, and every
  authority as a host.
\<close>

definition no_directives :: ResponseCacheDirectives where
  "no_directives = \<lparr>MustRevalidate = False, NoCache = [], NoCachePresent = False, NoStore = False,
     Public = False, Private = [], PrivatePresent = False, ProxyRevalidate = False,
     MaxAge = - 1, SMaxAge = - 1, StaleIfError = - 1, StaleWhileRevalidate = - 1\<rparr>"

definition demo_directives :: "bytes \<Rightarrow> ResponseCacheDirectives option" where
  "demo_directives s =
     (if s = ''max-age=60'' then Some (no_directives\<lparr>MaxAge := 60\<rparr>)
      else if s = ''max-age=60, stale-while-revalidate=300''
        then Some (no_directives\<lparr>MaxAge := 60, StaleWhileRevalidate := 300\<rparr>)
      else if s = ''no-store'' then Some (no_directives\<lparr>NoStore := True\<rparr>)
      else None)"

definition demo_env :: goenv where
  "demo_env = \<lparr>ParseTime = (\<lambda>s. Some (10 ^ 18)), ParseDuration = (\<lambda>s. None),
     IntSeconds = (\<lambda>d. quot d Second), FormatHTTPTime = (\<lambda>n. ''Sun, 09 Sep 2001 01:46:40 GMT''),
     parseAuthority = (\<lambda>s. Some (None, s)),
     ParseResponseCacheControl = demo_directives,
     ParseRequestCacheControl = (\<lambda>s. None)\<rparr>"

lemma demo_env_ok: "env_ok demo_env"
  by (auto simp: env_ok_def demo_env_def demo_directives_def no_directives_def directives_ok_def
      split: if_splits)

end
