(* ===== verification/Headers.thy ===== *)
theory Headers
  imports GoURL
begin

text \<open>
  Model of \<^verbatim>\<open>src/header.go\<close>: the header names, token lists, entity-tag comparison, cache
  tags and the names of a \<^verbatim>\<open>Vary\<close> header.
\<close>

section \<open>Names and values\<close>

abbreviation headerCacheControl :: bytes where
  "headerCacheControl \<equiv> ''Cache-Control''"
abbreviation headerCDNCacheControl :: bytes where
  "headerCDNCacheControl \<equiv> ''CDN-Cache-Control''"
abbreviation headerTitipCacheControl :: bytes where
  "headerTitipCacheControl \<equiv> ''Titip-Cache-Control''"
abbreviation headerCacheStatus :: bytes where
  "headerCacheStatus \<equiv> ''Cache-Status''"
abbreviation headerAge :: bytes where
  "headerAge \<equiv> ''Age''"
abbreviation headerExpires :: bytes where
  "headerExpires \<equiv> ''Expires''"
abbreviation headerDate :: bytes where
  "headerDate \<equiv> ''Date''"
abbreviation headerVary :: bytes where
  "headerVary \<equiv> ''Vary''"
abbreviation headerETag :: bytes where
  "headerETag \<equiv> ''ETag''"
abbreviation headerLastModified :: bytes where
  "headerLastModified \<equiv> ''Last-Modified''"
abbreviation headerIfMatch :: bytes where
  "headerIfMatch \<equiv> ''If-Match''"
abbreviation headerIfUnmodifiedSince :: bytes where
  "headerIfUnmodifiedSince \<equiv> ''If-Unmodified-Since''"
abbreviation headerIfNoneMatch :: bytes where
  "headerIfNoneMatch \<equiv> ''If-None-Match''"
abbreviation headerIfModifiedSince :: bytes where
  "headerIfModifiedSince \<equiv> ''If-Modified-Since''"
abbreviation headerUpgrade :: bytes where
  "headerUpgrade \<equiv> ''Upgrade''"
abbreviation headerAccept :: bytes where
  "headerAccept \<equiv> ''Accept''"
abbreviation headerContentType :: bytes where
  "headerContentType \<equiv> ''Content-Type''"
abbreviation headerRange :: bytes where
  "headerRange \<equiv> ''Range''"
abbreviation headerSetCookie :: bytes where
  "headerSetCookie \<equiv> ''Set-Cookie''"
abbreviation headerXForwardedProto :: bytes where
  "headerXForwardedProto \<equiv> ''X-Forwarded-Proto''"
abbreviation headerAuthorization :: bytes where
  "headerAuthorization \<equiv> ''Authorization''"
abbreviation headerPragma :: bytes where
  "headerPragma \<equiv> ''Pragma''"
abbreviation headerLocation :: bytes where
  "headerLocation \<equiv> ''Location''"
abbreviation headerContentLocation :: bytes where
  "headerContentLocation \<equiv> ''Content-Location''"
abbreviation headerContentEncoding :: bytes where
  "headerContentEncoding \<equiv> ''Content-Encoding''"
abbreviation headerCacheTag :: bytes where
  "headerCacheTag \<equiv> ''Cache-Tag''"
abbreviation contentTypeEventStream :: bytes where
  "contentTypeEventStream \<equiv> ''text/event-stream''"
abbreviation upgradeWebSocket :: bytes where
  "upgradeWebSocket \<equiv> ''websocket''"

section \<open>Operations\<close>

definition containsToken :: "bytes \<Rightarrow> bytes \<Rightarrow> bool" where
  "containsToken headerVal target =
     (if headerVal = [] then False
      else list_ex (\<lambda>tok. EqualFold (TrimSpace tok) target) (SplitByte (CHR '','') headerVal))"

definition getHeaderValues :: "Header \<Rightarrow> bytes \<Rightarrow> bytes list" where
  "getHeaderValues h key =
     (if Values h key \<noteq> [] then Values h key
      else case find (\<lambda>(k, vv). EqualFold k key) h of
             Some (k, vv) \<Rightarrow> vv
           | None \<Rightarrow> [])"

definition is_weak :: "bytes \<Rightarrow> bool" where
  "is_weak t \<longleftrightarrow> HasPrefix t ''W/'' \<or> HasPrefix t ''w/''"

definition strongETagMatches :: "bytes \<Rightarrow> bytes \<Rightarrow> bool" where
  "strongETagMatches clientETag cachedETag =
     (let c = TrimSpace clientETag; s = TrimSpace cachedETag
      in if c = [] \<or> s = [] then False
         else if is_weak c \<or> is_weak s then False
         else c = s)"

definition weakETagMatches :: "bytes \<Rightarrow> bytes \<Rightarrow> bool" where
  "weakETagMatches clientETag cachedETag =
     (let c = TrimSpace clientETag; s = TrimSpace cachedETag
      in if c = [] \<or> s = [] then False
         else TrimPrefix (TrimPrefix c ''W/'') ''w/'' = TrimPrefix (TrimPrefix s ''W/'') ''w/'')"

definition splitAndTrimTags :: "bytes \<Rightarrow> bytes list" where
  "splitAndTrimTags s = FieldsFunc s (\<lambda>c. c = CHR '','' \<or> is_space c)"

definition extractTags :: "Header \<Rightarrow> bytes \<Rightarrow> bytes list" where
  "extractTags headers tagName =
     (let name = (if tagName = [] then headerCacheTag else tagName); val = Get headers name
      in if val = [] then [] else splitAndTrimTags val)"

text \<open>The two nested loops of \<^verbatim>\<open>extractVaryHeaderNames\<close>, one part of a \<^verbatim>\<open>Vary\<close> value at a time.\<close>

definition add_vary_name :: "bytes list \<Rightarrow> bytes \<Rightarrow> bytes list" where
  "add_vary_name names p =
     (let name = TrimSpace p
      in if name = [] then names
         else let c = CanonicalHeaderKey name
              in if c \<in> set names then names else names @ [c])"

definition extractVaryHeaderNames :: "Header \<Rightarrow> bytes list" where
  "extractVaryHeaderNames headers =
     foldl (\<lambda>names vary. foldl add_vary_name names (SplitByte (CHR '','') vary)) []
       (Values headers headerVary)"

section \<open>Entity tags\<close>

lemma strongETagMatches_sym: "strongETagMatches a b = strongETagMatches b a"
  by (auto simp: strongETagMatches_def Let_def)

lemma weakETagMatches_sym: "weakETagMatches a b = weakETagMatches b a"
  by (auto simp: weakETagMatches_def Let_def)

lemma strong_imp_weak: "strongETagMatches a b \<Longrightarrow> weakETagMatches a b"
  by (auto simp: strongETagMatches_def weakETagMatches_def Let_def split: if_splits)

lemma strong_not_weak_tag: "strongETagMatches a b \<Longrightarrow> \<not> is_weak (TrimSpace a) \<and> \<not> is_weak (TrimSpace b)"
  by (auto simp: strongETagMatches_def Let_def split: if_splits)

section \<open>Tags and Vary names\<close>

lemma split_when_no_sep: "f \<in> set (split_when p s) \<Longrightarrow> c \<in> set f \<Longrightarrow> \<not> p c"
proof (induction s arbitrary: f)
  case (Cons x xs)
  then show ?case by (fastforce split: if_splits list.splits)
qed simp

lemma splitAndTrimTags_clean:
  "t \<in> set (splitAndTrimTags s) \<Longrightarrow> t \<noteq> [] \<and> (\<forall>c \<in> set t. c \<noteq> CHR '','' \<and> \<not> is_space c)"
  by (auto simp: splitAndTrimTags_def FieldsFunc_def dest: split_when_no_sep)

lemma extractTags_clean:
  "t \<in> set (extractTags h n) \<Longrightarrow> t \<noteq> [] \<and> (\<forall>c \<in> set t. c \<noteq> CHR '','' \<and> \<not> is_space c)"
  by (auto simp: extractTags_def Let_def dest: splitAndTrimTags_clean split: if_splits)

definition vary_names_ok :: "bytes list \<Rightarrow> bool" where
  "vary_names_ok ns \<longleftrightarrow> distinct ns \<and> (\<forall>n \<in> set ns. n \<noteq> [] \<and> CanonicalHeaderKey n = n)"

lemma add_vary_name_ok: "vary_names_ok ns \<Longrightarrow> vary_names_ok (add_vary_name ns p)"
  by (auto simp: vary_names_ok_def add_vary_name_def Let_def)

lemma foldl_add_vary_name_ok: "vary_names_ok ns \<Longrightarrow> vary_names_ok (foldl add_vary_name ns ps)"
  by (induction ps arbitrary: ns) (auto intro: add_vary_name_ok)

lemma extractVaryHeaderNames_ok: "vary_names_ok (extractVaryHeaderNames h)"
proof -
  have "vary_names_ok (foldl (\<lambda>names vary. foldl add_vary_name names (SplitByte (CHR '','') vary)) ns vs)"
    if "vary_names_ok ns" for ns vs
    using that by (induction vs arbitrary: ns) (auto intro: foldl_add_vary_name_ok)
  from this [of "[]"] have "vary_names_ok (extractVaryHeaderNames h)"
    if "vary_names_ok []" using that by (simp add: extractVaryHeaderNames_def)
  then show ?thesis by (simp add: vary_names_ok_def)
qed

end
