(* ===== verification/CacheKeys.thy ===== *)
theory CacheKeys
  imports Headers "HOL-Library.Product_Lexorder" "HOL-Library.Multiset"
begin

text \<open>
  Model of \<^verbatim>\<open>src/cache_key.go\<close>: the primary key of a request, the filtered and sorted query
  string in it, and the variant key under a \<^verbatim>\<open>Vary\<close> header. Go's order on strings is the
  lexicographic order on bytes, and \<^verbatim>\<open>slices.Sort\<close> is \<open>sort\<close>.
\<close>

section \<open>Data\<close>

record CacheKey =
  IncludeProtocol :: bool
  ExcludeHost :: bool
  ExcludeQuery :: bool
  PreserveQueryOrder :: bool
  IncludedQueryParams :: "bytes list"
  ExcludedQueryParams :: "bytes list"
  ExcludeMarketingQueryParams :: bool
  IncludedHeaderNames :: "bytes list"
  IncludedCookieNames :: "bytes list"
  CaseInsensitivePath :: bool
  IncludedQueryParamValues :: "(bytes \<times> bytes list) list"

text \<open>The zero value \<^verbatim>\<open>CacheKey{}\<close>, which a nil configuration stands for.\<close>

definition zero_CacheKey :: CacheKey where
  "zero_CacheKey = \<lparr>IncludeProtocol = False, ExcludeHost = False, ExcludeQuery = False,
     PreserveQueryOrder = False, IncludedQueryParams = [], ExcludedQueryParams = [],
     ExcludeMarketingQueryParams = False, IncludedHeaderNames = [], IncludedCookieNames = [],
     CaseInsensitivePath = False, IncludedQueryParamValues = []\<rparr>"

definition defaultMarketingQueryParams :: "bytes list" where
  "defaultMarketingQueryParams = [''fbclid'', ''gclid'', ''igshid'', ''mc_cid'', ''mc_eid'',
     ''msclkid'', ''ttclid'', ''twclid'']"

section \<open>Operations\<close>

subsection \<open>Path, scheme and host\<close>

text \<open>Cleaning of a path, which \<^verbatim>\<open>generatePrimaryKey\<close> and the two purge builders share.\<close>

definition clean_key_path :: "CacheKey \<Rightarrow> bytes \<Rightarrow> bytes" where
  "clean_key_path cfg rawPath =
     (let cleaned = path_Clean rawPath;
          kept = (if cleaned = ''.'' then ''/''
                  else if HasSuffix rawPath ''/'' \<and> \<not> HasSuffix cleaned ''/'' then cleaned @ ''/''
                  else cleaned)
      in if CaseInsensitivePath cfg then ToLower kept else kept)"

definition writeEscapedPath :: "bytes \<Rightarrow> bytes" where
  "writeEscapedPath p =
     (let trimmed = TrimPrefix p ''/''
      in if trimmed = [] then ''/''
         else concat (map (\<lambda>part. CHR ''/'' # (if part \<noteq> [] then PathEscape part else []))
                (SplitByte (CHR ''/'') trimmed)))"

definition resolveScheme :: "Request \<Rightarrow> bytes" where
  "resolveScheme r =
     (if TLS r then ''https''
      else if Get (rHeader r) headerXForwardedProto = ''https'' then ''https''
      else if (case rURL r of None \<Rightarrow> False | Some u \<Rightarrow> Scheme u = ''https'') then ''https''
      else ''http'')"

definition normalizeHost :: "bytes \<Rightarrow> bytes \<Rightarrow> bytes" where
  "normalizeHost host scheme =
     (let h = ToLower host
      in if scheme = ''http'' then TrimSuffix h '':80''
         else if scheme = ''https'' then TrimSuffix h '':443''
         else h)"

subsection \<open>Query\<close>

definition isQueryParamAllowed :: "bytes \<Rightarrow> bytes \<Rightarrow> CacheKey \<Rightarrow> bool" where
  "isQueryParamAllowed k v cfg =
     (let hasIncludedParams = (IncludedQueryParams cfg \<noteq> [] \<or> IncludedQueryParamValues cfg \<noteq> [])
      in if hasIncludedParams then
           (if k \<in> set (IncludedQueryParams cfg) then True
            else case map_of (IncludedQueryParamValues cfg) k of
                   Some allowedVals \<Rightarrow> v \<in> set allowedVals
                 | None \<Rightarrow> False)
         else if k \<in> set (ExcludedQueryParams cfg) then False
         else if ExcludeMarketingQueryParams cfg \<and>
                 (HasPrefix (ToLower k) ''utm_'' \<or> ToLower k \<in> set defaultMarketingQueryParams) then False
         else True)"

definition render_param :: "bytes \<times> bytes \<Rightarrow> bytes" where
  "render_param kv = QueryEscape (fst kv) @ ''='' @ QueryEscape (snd kv)"

definition buildSortedQueryString :: "bytes \<Rightarrow> CacheKey \<Rightarrow> bytes" where
  "buildSortedQueryString rawQuery cfg =
     (let (values, err) = ParseQuery rawQuery
      in if err \<or> values = [] then []
         else let kept = filter (\<lambda>(k, vs). vs \<noteq> [])
                    (map (\<lambda>(k, vs). (k, filter (\<lambda>v. isQueryParamAllowed k v cfg) vs)) values);
                  keys = sort (map fst kept)
              in if keys = [] then []
                 else Join ''&'' (concat (map (\<lambda>k. map (\<lambda>v. render_param (k, v))
                        (sort (case map_of kept k of None \<Rightarrow> [] | Some vs \<Rightarrow> vs))) keys)))"

text \<open>One part of the query under \<^verbatim>\<open>PreserveQueryOrder\<close>: a bad escape keeps the raw text.\<close>

definition unsorted_param :: "bytes \<Rightarrow> bytes \<times> bytes" where
  "unsorted_param part =
     (let (rawKey, rawVal, hasVal) = Cut part ''='';
          k = (case QueryUnescape rawKey of None \<Rightarrow> rawKey | Some k \<Rightarrow> k);
          v = (if hasVal then (case QueryUnescape rawVal of None \<Rightarrow> rawVal | Some v \<Rightarrow> v) else [])
      in (k, v))"

definition buildUnsortedQueryString :: "bytes \<Rightarrow> CacheKey \<Rightarrow> bytes" where
  "buildUnsortedQueryString rawQuery cfg =
     Join ''&'' (map render_param
       (filter (\<lambda>(k, v). isQueryParamAllowed k v cfg)
         (map unsorted_param (filter (\<lambda>p. p \<noteq> []) (SplitByte (CHR ''&'') rawQuery)))))"

definition buildQueryString :: "bytes \<Rightarrow> CacheKey \<Rightarrow> bytes" where
  "buildQueryString rawQuery cfg =
     (if ExcludeQuery cfg then []
      else if PreserveQueryOrder cfg then buildUnsortedQueryString rawQuery cfg
      else buildSortedQueryString rawQuery cfg)"

subsection \<open>Primary key\<close>

definition key_host :: "Request \<Rightarrow> CacheKey \<Rightarrow> bytes" where
  "key_host r cfg =
     (if ExcludeHost cfg then []
      else let host0 = (if rHost r = [] then (case rURL r of None \<Rightarrow> [] | Some u \<Rightarrow> Host u) else rHost r)
           in if host0 = [] then []
              else let host = normalizeHost host0 (resolveScheme r)
                   in if host = [] then [] else ''h='' @ host @ '':'')"

definition key_query :: "Request \<Rightarrow> CacheKey \<Rightarrow> bytes" where
  "key_query r cfg =
     (case rURL r of
        None \<Rightarrow> []
      | Some u \<Rightarrow>
          if \<not> ExcludeQuery cfg \<and> RawQuery u \<noteq> [] then
            let qs = buildQueryString (RawQuery u) cfg
            in if qs \<noteq> [] then ''qs='' @ qs @ '':'' else []
          else [])"

definition key_header :: "Request \<Rightarrow> bytes \<Rightarrow> bytes" where
  "key_header r h =
     (let vals = Values (rHeader r) h
      in if vals = [] then []
         else ''he='' @ ToLower h @ ''~'' @ Join '','' (map (\<lambda>v. QueryEscape (TrimSpace v)) vals) @ '':'')"

definition key_cookie :: "Request \<Rightarrow> bytes \<Rightarrow> bytes" where
  "key_cookie r name =
     (case Cookie r name of
        None \<Rightarrow> []
      | Some v \<Rightarrow> if v = [] then [] else ''ck='' @ name @ ''~'' @ QueryEscape v @ '':'')"

definition generatePrimaryKey :: "Request \<Rightarrow> CacheKey option \<Rightarrow> bytes" where
  "generatePrimaryKey r cfg0 =
     (let cfg = (case cfg0 of None \<Rightarrow> zero_CacheKey | Some c \<Rightarrow> c);
          rawPath = (case rURL r of None \<Rightarrow> ''/'' | Some u \<Rightarrow> if Path u \<noteq> [] then Path u else ''/'');
          method = (if Method r = ''HEAD'' \<or> Method r = [] then ''GET'' else Method r)
      in ''p='' @ writeEscapedPath (clean_key_path cfg rawPath) @ '':''
         @ key_host r cfg
         @ (if IncludeProtocol cfg then ''s='' @ resolveScheme r @ '':'' else [])
         @ key_query r cfg
         @ ''m='' @ method @ '':''
         @ concat (map (key_header r) (sort (IncludedHeaderNames cfg)))
         @ concat (map (key_cookie r) (sort (IncludedCookieNames cfg))))"

subsection \<open>Variant key\<close>

definition isSortableVaryHeader :: "bytes \<Rightarrow> bool" where
  "isSortableVaryHeader name \<longleftrightarrow>
     ToLower (TrimSpace name) \<in> {''accept-encoding'', ''accept-language'', ''accept''}"

text \<open>The text one \<^verbatim>\<open>Vary\<close> name contributes; \<open>None\<close> for a blank name.\<close>

definition variant_part :: "Request \<Rightarrow> bytes \<Rightarrow> bytes option" where
  "variant_part r name =
     (let canonicalName = ToLower (TrimSpace name);
          vals = Values (rHeader r) canonicalName;
          tokens = filter (\<lambda>t. t \<noteq> []) (map TrimSpace (concat (map (SplitByte (CHR '','')) vals)));
          text = (if vals = [] then []
                  else if isSortableVaryHeader canonicalName then Join '','' (sort tokens)
                  else Join '','' (map TrimSpace (sort vals)))
      in if canonicalName = [] then None else Some (canonicalName @ ''='' @ text))"

definition generateVariantKey :: "Request \<Rightarrow> bytes list \<Rightarrow> bytes" where
  "generateVariantKey r varyHeaderNames =
     (if varyHeaderNames = [] then []
      else Join ''|'' (List.map_filter (variant_part r) (sort varyHeaderNames)))"

section \<open>url.ParseQuery as a list of pairs\<close>

text \<open>A part of the query: an error (\<open>None\<close>), nothing, or a pair.\<close>

definition decode_part :: "bytes \<Rightarrow> (bytes \<times> bytes) option option" where
  "decode_part part =
     (if CHR '';'' \<in> set part then None
      else if part = [] then Some None
      else let (k, v, _) = Cut part ''='' in
        (case QueryUnescape k of None \<Rightarrow> None
         | Some k' \<Rightarrow> (case QueryUnescape v of None \<Rightarrow> None | Some v' \<Rightarrow> Some (Some (k', v')))))"

definition query_pairs :: "bytes list \<Rightarrow> (bytes \<times> bytes) list" where
  "query_pairs parts = List.map_filter (\<lambda>p. case decode_part p of Some (Some kv) \<Rightarrow> Some kv | _ \<Rightarrow> None) parts"

definition vals_of :: "Header \<Rightarrow> bytes \<Rightarrow> bytes list" where
  "vals_of m k = (case map_of m k of None \<Rightarrow> [] | Some vs \<Rightarrow> vs)"

lemma query_pairs_Cons:
  "query_pairs (p # ps) = (case decode_part p of Some (Some kv) \<Rightarrow> kv # query_pairs ps | _ \<Rightarrow> query_pairs ps)"
  by (simp add: query_pairs_def List.map_filter_simps split: option.splits)

lemma query_pairs_Nil [simp]: "query_pairs [] = []"
  by (simp add: query_pairs_def List.map_filter_simps)

lemma parse_query_part_decode:
  "parse_query_part (m, e) p = (case decode_part p of
     None \<Rightarrow> (m, True) | Some None \<Rightarrow> (m, e)
   | Some (Some (k, v)) \<Rightarrow> (AList.update k (vals_of m k @ [v]) m, e))"
  by (simp add: parse_query_part_def decode_part_def vals_of_def Let_def
      split: prod.splits option.splits)

lemma foldl_parse_query:
  "foldl parse_query_part (m, e) ps =
     (foldl (\<lambda>m (k, v). AList.update k (vals_of m k @ [v]) m) m (query_pairs ps),
      e \<or> (\<exists>p \<in> set ps. decode_part p = None))"
proof (induction ps arbitrary: m e)
  case (Cons p ps)
  show ?case
    by (auto simp: Cons.IH parse_query_part_decode query_pairs_Cons split: option.splits)
qed simp

definition group_pairs :: "Header \<Rightarrow> (bytes \<times> bytes) list \<Rightarrow> Header" where
  "group_pairs m kvs = foldl (\<lambda>m (k, v). AList.update k (vals_of m k @ [v]) m) m kvs"

lemma group_pairs_Cons: "group_pairs m ((k, v) # kvs) = group_pairs (AList.update k (vals_of m k @ [v]) m) kvs"
  by (simp add: group_pairs_def)

lemma vals_of_group_pairs:
  "vals_of (group_pairs m kvs) k = vals_of m k @ map snd (filter (\<lambda>kv. fst kv = k) kvs)"
proof (induction kvs arbitrary: m)
  case (Cons kv kvs)
  obtain a b where "kv = (a, b)" by (cases kv)
  then show ?case by (simp add: group_pairs_Cons Cons.IH) (simp add: vals_of_def map_of_update)
qed (simp add: group_pairs_def)

lemma keys_group_pairs: "fst ` set (group_pairs m kvs) = fst ` set m \<union> fst ` set kvs"
proof (induction kvs arbitrary: m)
  case (Cons kv kvs)
  obtain a b where "kv = (a, b)" by (cases kv)
  then show ?case by (simp add: group_pairs_Cons Cons.IH dom_update)
qed (simp add: group_pairs_def)

lemma distinct_group_pairs: "distinct (map fst m) \<Longrightarrow> distinct (map fst (group_pairs m kvs))"
proof (induction kvs arbitrary: m)
  case (Cons kv kvs)
  obtain a b where "kv = (a, b)" by (cases kv)
  then show ?case using Cons by (simp add: group_pairs_Cons distinct_update)
qed (simp add: group_pairs_def)

section \<open>The query string against a reference\<close>

text \<open>
  Reference: decode the pairs, keep the allowed ones, sort them as pairs, and print. The
  code instead groups values by key in a map, filters each group, sorts the keys and then
  each group.
\<close>

definition query_error :: "bytes \<Rightarrow> bool" where
  "query_error rawQuery = snd (ParseQuery rawQuery)"

definition allowed_pairs :: "bytes \<Rightarrow> CacheKey \<Rightarrow> (bytes \<times> bytes) list" where
  "allowed_pairs rawQuery cfg =
     filter (\<lambda>(k, v). isQueryParamAllowed k v cfg) (query_pairs (SplitByte (CHR ''&'') rawQuery))"

definition canonical_query :: "(bytes \<times> bytes) list \<Rightarrow> bytes" where
  "canonical_query kvs = Join ''&'' (map render_param (sort kvs))"

lemma query_error_iff:
  "query_error q \<longleftrightarrow> max_query_params < length (SplitByte (CHR ''&'') q) \<or>
     (\<exists>p \<in> set (SplitByte (CHR ''&'') q). decode_part p = None)"
  by (simp add: query_error_def ParseQuery_def Let_def foldl_parse_query)

lemma fst_ParseQuery:
  "\<not> query_error q \<Longrightarrow> fst (ParseQuery q) = group_pairs [] (query_pairs (SplitByte (CHR ''&'') q))"
  by (auto simp: query_error_iff ParseQuery_def Let_def foldl_parse_query group_pairs_def)

lemma image_Pair_snd: "\<forall>kv \<in> set F. fst kv = k \<Longrightarrow> image_mset (Pair k) (image_mset snd (mset F)) = mset F"
  by (induction F) auto

text \<open>Grouping by a list of distinct keys that covers all the pairs loses and adds nothing.\<close>

definition by_key :: "(bytes \<times> bytes) list \<Rightarrow> bytes \<Rightarrow> (bytes \<times> bytes) list" where
  "by_key P k = map (Pair k) (sort (map snd (filter (\<lambda>kv. fst kv = k) P)))"

lemma mset_by_key: "mset (by_key P k) = mset (filter (\<lambda>kv. fst kv = k) P)"
  by (simp add: by_key_def image_Pair_snd del: mset_filter)

lemma mset_concat_by_key:
  "distinct ks \<Longrightarrow> fst ` set P \<subseteq> set ks \<Longrightarrow> mset (concat (map (by_key P) ks)) = mset P"
proof (induction ks arbitrary: P)
  case (Cons k ks)
  let ?Q = "filter (\<lambda>kv. fst kv \<noteq> k) P"
  have "by_key P x = by_key ?Q x" if "x \<in> set ks" for x
  proof -
    have "x \<noteq> k" using that Cons.prems(1) by auto
    then have "(\<lambda>kv. fst kv \<noteq> k \<and> fst kv = x) = (\<lambda>kv :: bytes \<times> bytes. fst kv = x)" by auto
    then show ?thesis by (simp add: by_key_def)
  qed
  then have "map (by_key P) ks = map (by_key ?Q) ks" by simp
  moreover have "mset (concat (map (by_key ?Q) ks)) = mset ?Q"
    using Cons.prems by (intro Cons.IH) auto
  moreover have "mset (concat (map (by_key P) (k # ks))) =
      mset (by_key P k) + mset (concat (map (by_key P) ks))" by simp
  moreover have "mset (filter (\<lambda>kv. fst kv = k) P) + mset ?Q = mset P"
    using multiset_partition [of "mset P" "\<lambda>kv. fst kv = k"] by simp
  ultimately show ?case by (simp only: mset_by_key)
qed simp

lemma sorted_by_key: "sorted (by_key P k)"
  using sorted_sort [of "map snd (filter (\<lambda>kv. fst kv = k) P)"]
  by (simp only: by_key_def sorted_map) (erule sorted_wrt_mono_rel [rotated], simp)

lemma sorted_concat_by_key: "sorted ks \<Longrightarrow> distinct ks \<Longrightarrow> sorted (concat (map (by_key P) ks))"
proof (induction ks)
  case (Cons k ks)
  have "x \<le> y" if "x \<in> set (by_key P k)" "y \<in> set (concat (map (by_key P) ks))" for x y
  proof -
    from that have "fst x = k" "fst y \<in> set ks" by (auto simp: by_key_def)
    moreover from this Cons.prems have "k \<noteq> fst y" "k \<le> fst y" by auto
    ultimately have "fst x < fst y" by simp
    then show ?thesis by (cases x; cases y) simp
  qed
  with Cons show ?case by (auto simp: sorted_append sorted_by_key)
qed simp

definition kept_of :: "(bytes \<Rightarrow> bytes \<Rightarrow> bool) \<Rightarrow> Header \<Rightarrow> Header" where
  "kept_of ok m = filter (\<lambda>(k, vs). vs \<noteq> []) (map (\<lambda>(k, vs). (k, filter (ok k) vs)) m)"

lemma kept_of_Cons:
  "kept_of ok ((k, vs) # m) =
     (if filter (ok k) vs \<noteq> [] then (k, filter (ok k) vs) # kept_of ok m else kept_of ok m)"
  by (simp add: kept_of_def)

lemma kept_of_keys: "fst ` set (kept_of ok m) \<subseteq> fst ` set m"
  by (force simp: kept_of_def)

lemma distinct_kept_of: "distinct (map fst m) \<Longrightarrow> distinct (map fst (kept_of ok m))"
proof (induction m)
  case (Cons p m)
  obtain k vs where p: "p = (k, vs)" by (cases p)
  with Cons have "distinct (map fst (kept_of ok m))" "k \<notin> fst ` set (kept_of ok m)"
    using kept_of_keys [of ok m] by auto
  then show ?case by (simp add: p kept_of_Cons)
qed (simp add: kept_of_def)

lemma vals_of_Cons: "vals_of ((k', vs) # m) k = (if k = k' then vs else vals_of m k)"
  by (simp add: vals_of_def)

lemma vals_of_notin: "k \<notin> fst ` set m \<Longrightarrow> vals_of m k = []"
  by (simp add: vals_of_def map_of_notin)

lemma vals_of_kept_of:
  "distinct (map fst m) \<Longrightarrow> vals_of (kept_of ok m) k = filter (ok k) (vals_of m k)"
proof (induction m)
  case (Cons p m)
  obtain k' vs where p: "p = (k', vs)" by (cases p)
  with Cons.prems have "k' \<notin> fst ` set (kept_of ok m)" using kept_of_keys [of ok m] by auto
  with Cons show ?case by (auto simp: p kept_of_Cons vals_of_Cons vals_of_notin)
qed (simp add: kept_of_def vals_of_def)

lemma keys_kept_of:
  assumes "distinct (map fst m)"
  shows "fst ` set (kept_of ok m) = {k. filter (ok k) (vals_of m k) \<noteq> []}"
proof -
  have ne: "vs \<noteq> []" if "(k, vs) \<in> set (kept_of ok m)" for k vs
    using that by (auto simp: kept_of_def)
  have "k \<in> fst ` set (kept_of ok m) \<longleftrightarrow> vals_of (kept_of ok m) k \<noteq> []" for k
  proof
    assume "k \<in> fst ` set (kept_of ok m)"
    then obtain vs where "(k, vs) \<in> set (kept_of ok m)" by auto
    then have "map_of (kept_of ok m) k = Some vs" using distinct_kept_of [OF assms] by simp
    with ne [OF \<open>(k, vs) \<in> _\<close>] show "vals_of (kept_of ok m) k \<noteq> []" by (simp add: vals_of_def)
  qed (metis vals_of_notin)
  then show ?thesis by (auto simp: vals_of_kept_of [OF assms] simp del: filter_empty_conv)
qed

text \<open>The code's query string is the reference on the allowed pairs.\<close>

lemma buildSortedQueryString_ref:
  assumes "\<not> query_error q"
  shows "buildSortedQueryString q cfg = canonical_query (allowed_pairs q cfg)"
proof -
  let ?pairs = "query_pairs (SplitByte (CHR ''&'') q)"
  let ?m = "group_pairs [] ?pairs"
  let ?ok = "\<lambda>k v. isQueryParamAllowed k v cfg"
  let ?P = "allowed_pairs q cfg"
  let ?kept = "kept_of ?ok ?m"
  let ?keys = "sort (map fst ?kept)"
  have d: "distinct (map fst ?m)" by (simp add: distinct_group_pairs)
  have vals: "vals_of ?kept k = map snd (filter (\<lambda>kv. fst kv = k) ?P)" for k
  proof -
    have "filter (?ok k) (map snd (filter (\<lambda>kv. fst kv = k) xs)) =
        map snd (filter (\<lambda>kv. fst kv = k) (filter (\<lambda>(k, v). ?ok k v) xs))" for xs
      by (induction xs) auto
    then show ?thesis
      by (simp add: vals_of_kept_of [OF d] vals_of_group_pairs allowed_pairs_def vals_of_def [of "[]"])
  qed
  have keys: "set ?keys = fst ` set ?P"
  proof -
    have "set ?keys = {k. vals_of ?kept k \<noteq> []}"
      by (simp add: keys_kept_of [OF d] vals_of_kept_of [OF d])
    then show ?thesis by (auto simp: vals filter_empty_conv)
  qed
  have "mset (concat (map (by_key ?P) ?keys)) = mset ?P"
    using distinct_kept_of [OF d] keys by (intro mset_concat_by_key) simp_all
  then have srt: "concat (map (by_key ?P) ?keys) = sort ?P"
    using distinct_kept_of [OF d]
    by (intro properties_for_sort [symmetric]) (simp_all add: sorted_concat_by_key del: mset_concat)
  have m: "ParseQuery q = (?m, False)"
    using fst_ParseQuery [OF assms] assms by (metis query_error_def prod.collapse)
  have "buildSortedQueryString q cfg =
      (if ?m = [] \<or> ?keys = [] then []
       else Join ''&'' (concat (map (\<lambda>k. map (\<lambda>v. render_param (k, v)) (sort (vals_of ?kept k))) ?keys)))"
    by (simp add: buildSortedQueryString_def m Let_def kept_of_def vals_of_def)
  also have "concat (map (\<lambda>k. map (\<lambda>v. render_param (k, v)) (sort (vals_of ?kept k))) ?keys) =
      map render_param (concat (map (by_key ?P) ?keys))"
    by (simp add: map_concat by_key_def vals comp_def)
  also have "(if ?m = [] \<or> ?keys = [] then [] else Join ''&'' (map render_param (concat (map (by_key ?P) ?keys)))) =
      Join ''&'' (map render_param (concat (map (by_key ?P) ?keys)))"
    by (auto simp: kept_of_def)
  finally show ?thesis by (simp only: srt canonical_query_def)
qed

subsection \<open>Two queries with the same text\<close>

lemma QueryEscape_no_sep: "c \<in> {CHR ''&'', CHR ''='', CHR '':'', CHR ''|''} \<Longrightarrow> c \<notin> set (QueryEscape s)"
  by (auto dest!: set_QueryEscape
      simp: is_alnum_def is_upper_def is_lower_def is_digit_def is_mark_def)

lemma append_sep_cancel:
  "x \<notin> set a \<Longrightarrow> x \<notin> set b \<Longrightarrow> a @ x # c = b @ x # d \<longleftrightarrow> a = b \<and> c = d"
proof (induction a arbitrary: b)
  case Nil
  then show ?case by (cases b) auto
next
  case (Cons y a)
  then show ?case by (cases b) auto
qed

lemma render_param_inj: "render_param kv = render_param kv' \<Longrightarrow> kv = kv'"
  using append_sep_cancel [of "CHR ''=''" "QueryEscape (fst kv)" "QueryEscape (fst kv')"]
  by (auto simp: render_param_def QueryEscape_no_sep prod_eq_iff dest: QueryEscape_inj)

lemma render_param_no_amp: "CHR ''&'' \<notin> set (render_param kv)" and
  render_param_no_colon: "CHR '':'' \<notin> set (render_param kv)"
  by (simp_all add: render_param_def QueryEscape_no_sep)

lemma Join_inj:
  assumes "Join [x] xs = Join [x] ys"
    and "\<forall>a \<in> set xs \<union> set ys. x \<notin> set a" and "[] \<notin> set xs \<union> set ys"
  shows "xs = ys"
proof -
  have e: "Join [x] zs = [] \<longleftrightarrow> zs = []" if "[] \<notin> set zs" for zs
    using that by (cases "([x], zs)" rule: Join.cases) auto
  show ?thesis
  proof (cases "xs = [] \<or> ys = []")
    case True
    then show ?thesis using assms(1,3) e [of xs] e [of ys] by fastforce
  next
    case False
    then have "SplitByte x (Join [x] xs) = xs" "SplitByte x (Join [x] ys) = ys"
      using assms(2) by (simp_all add: SplitByte_Join)
    then show ?thesis using assms(1) by metis
  qed
qed

lemma canonical_query_inj: "canonical_query xs = canonical_query ys \<longleftrightarrow> mset xs = mset ys"
proof
  assume "canonical_query xs = canonical_query ys"
  then have "map render_param (sort xs) = map render_param (sort ys)"
    unfolding canonical_query_def
    by (rule Join_inj) (auto simp: render_param_no_amp, auto simp: render_param_def)
  then have "sort xs = sort ys" by (rule inj_map_eq_map [THEN iffD1, rotated]) (auto intro: injI render_param_inj)
  then show "mset xs = mset ys" by (metis mset_sort)
next
  assume "mset xs = mset ys"
  then have "sort xs = sort ys" by (intro properties_for_sort) simp_all
  then show "canonical_query xs = canonical_query ys" by (simp add: canonical_query_def)
qed

lemma buildSortedQueryString_eq_iff:
  assumes "\<not> query_error q" and "\<not> query_error q'"
  shows "buildSortedQueryString q cfg = buildSortedQueryString q' cfg' \<longleftrightarrow>
    mset (allowed_pairs q cfg) = mset (allowed_pairs q' cfg')"
  by (simp add: assms buildSortedQueryString_ref canonical_query_inj)

section \<open>Separation of the parts of a primary key\<close>

text \<open>
  A key is read back part by part: the path and the host up to the first equals sign, the
  other parts up to the first colon.
\<close>

definition tagged :: "bytes set \<Rightarrow> bytes \<Rightarrow> bool" where
  "tagged ts R \<longleftrightarrow> (\<exists>t \<in> ts. \<exists>Y. R = t @ ''='' @ Y)"

definition opt_seg :: "bytes \<Rightarrow> bytes \<Rightarrow> bytes \<Rightarrow> bytes" where
  "opt_seg tag b R = (if b = [] then R else tag @ ''='' @ b @ '':'' @ R)"

lemma tagged_opt_seg: "tagged ts R \<Longrightarrow> tagged (insert t ts) (opt_seg t b R)"
  by (auto simp: tagged_def opt_seg_def)

lemma tagged_mono: "tagged ts R \<Longrightarrow> ts \<subseteq> ts' \<Longrightarrow> tagged ts' R"
  by (auto simp: tagged_def)

abbreviation key_tags :: "bytes set" where
  "key_tags \<equiv> {''h'', ''s'', ''qs'', ''m''}"

lemma tagged_not:
  assumes "tagged ts R" and "ts \<subseteq> key_tags" and "t \<in> key_tags - ts"
  shows "R \<noteq> t @ ''='' @ Y"
proof
  assume "R = t @ ''='' @ Y"
  moreover obtain u Z where "u \<in> ts" "R = u @ ''='' @ Z" using assms(1) unfolding tagged_def by blast
  ultimately have "t @ ''='' @ Y = u @ ''='' @ Z" "u \<in> key_tags" "t \<in> key_tags" "u \<noteq> t"
    using assms(2,3) by auto
  then show False by auto
qed

lemma colon_tag_cancel:
  assumes "P @ '':'' @ R = P' @ '':'' @ R'" and "tagged key_tags R" and "tagged key_tags R'"
    and "CHR ''='' \<notin> set P" and "CHR ''='' \<notin> set P'"
  shows "P = P' \<and> R = R'"
proof -
  obtain t Y where t: "t \<in> key_tags" "R = t @ ''='' @ Y" using assms(2) unfolding tagged_def by blast
  obtain t' Y' where t': "t' \<in> key_tags" "R' = t' @ ''='' @ Y'" using assms(3) unfolding tagged_def by blast
  have "(P @ '':'' @ t) @ CHR ''='' # Y = (P' @ '':'' @ t') @ CHR ''='' # Y'"
    using assms(1) t t' by simp
  moreover have "CHR ''='' \<notin> set (P @ '':'' @ t)" "CHR ''='' \<notin> set (P' @ '':'' @ t')"
    using assms(4,5) t(1) t'(1) by auto
  ultimately have PT: "P @ '':'' @ t = P' @ '':'' @ t'" and Y: "Y = Y'"
    using append_sep_cancel [of "CHR ''=''" "P @ '':'' @ t" "P' @ '':'' @ t'" Y Y'] by simp_all
  have "rev (P @ '':'' @ t) = rev (P' @ '':'' @ t')" by (simp only: PT)
  then have "rev t @ '':'' @ rev P = rev t' @ '':'' @ rev P'" by simp
  then have "t = t' \<and> P = P'" using t(1) t'(1) by auto
  with t t' Y show ?thesis by simp
qed

lemma opt_seg_cancel:
  assumes "opt_seg t b R = opt_seg t b' R'"
    and "\<And>Y. R \<noteq> t @ ''='' @ Y" and "\<And>Y. R' \<noteq> t @ ''='' @ Y"
    and "b @ '':'' @ R = b' @ '':'' @ R' \<Longrightarrow> b = b' \<and> R = R'"
  shows "b = b' \<and> R = R'"
proof (cases "b = []"; cases "b' = []")
  assume "b \<noteq> []" "b' \<noteq> []"
  with assms(1,4) show ?thesis by (simp add: opt_seg_def)
next
  assume "b \<noteq> []" "b' = []"
  with assms(1,3) [symmetric] show ?thesis by (auto simp: opt_seg_def)
next
  assume "b = []" "b' \<noteq> []"
  with assms(1,2) show ?thesis by (auto simp: opt_seg_def)
next
  assume "b = []" "b' = []"
  with assms(1) show ?thesis by (simp add: opt_seg_def)
qed

text \<open>The parts of the key of a request.\<close>

definition key_cfg :: "CacheKey option \<Rightarrow> CacheKey" where
  "key_cfg cfg0 = (case cfg0 of None \<Rightarrow> zero_CacheKey | Some c \<Rightarrow> c)"

definition request_path :: "Request \<Rightarrow> bytes" where
  "request_path r = (case rURL r of None \<Rightarrow> ''/'' | Some u \<Rightarrow> if Path u \<noteq> [] then Path u else ''/'')"

definition path_of_key :: "CacheKey \<Rightarrow> Request \<Rightarrow> bytes" where
  "path_of_key cfg r = clean_key_path cfg (request_path r)"

definition host_of_key :: "CacheKey \<Rightarrow> Request \<Rightarrow> bytes" where
  "host_of_key cfg r =
     (if ExcludeHost cfg then []
      else normalizeHost (if rHost r = [] then (case rURL r of None \<Rightarrow> [] | Some u \<Rightarrow> Host u) else rHost r)
             (resolveScheme r))"

definition query_of_key :: "CacheKey \<Rightarrow> Request \<Rightarrow> bytes" where
  "query_of_key cfg r = (case rURL r of None \<Rightarrow> [] | Some u \<Rightarrow>
     if RawQuery u = [] then [] else buildQueryString (RawQuery u) cfg)"

definition method_of_key :: "Request \<Rightarrow> bytes" where
  "method_of_key r = (if Method r = ''HEAD'' \<or> Method r = [] then ''GET'' else Method r)"

definition extra_of_key :: "CacheKey \<Rightarrow> Request \<Rightarrow> bytes" where
  "extra_of_key cfg r = concat (map (key_header r) (sort (IncludedHeaderNames cfg)))
     @ concat (map (key_cookie r) (sort (IncludedCookieNames cfg)))"

lemma extra_of_key_URL: "extra_of_key cfg (r\<lparr>rURL := u\<rparr>) = extra_of_key cfg r"
proof -
  have "key_header (r\<lparr>rURL := u\<rparr>) = key_header r" by (rule ext) (simp add: key_header_def)
  moreover have "key_cookie (r\<lparr>rURL := u\<rparr>) = key_cookie r"
    by (rule ext) (simp add: key_cookie_def Cookie_def)
  ultimately show ?thesis by (simp add: extra_of_key_def)
qed

lemma normalizeHost_Nil [simp]: "normalizeHost [] s = []"
  by (simp add: normalizeHost_def TrimSuffix_def HasSuffix_def ToLower_def)

lemma generatePrimaryKey_parts:
  assumes "cfg = key_cfg cfg0"
  shows "generatePrimaryKey r cfg0 = ''p='' @ writeEscapedPath (path_of_key cfg r) @ '':'' @
    opt_seg ''h'' (host_of_key cfg r)
      (opt_seg ''s'' (if IncludeProtocol cfg then resolveScheme r else [])
        (opt_seg ''qs'' (query_of_key cfg r)
          (''m='' @ method_of_key r @ '':'' @ extra_of_key cfg r)))"
proof -
  have h: "key_host r cfg @ X = opt_seg ''h'' (host_of_key cfg r) X" for X
    by (auto simp: key_host_def host_of_key_def opt_seg_def Let_def)
  have q: "key_query r cfg @ X = opt_seg ''qs'' (query_of_key cfg r) X" for X
    by (auto simp: key_query_def query_of_key_def opt_seg_def Let_def buildQueryString_def split: option.splits)
  have s: "(if IncludeProtocol cfg then ''s='' @ resolveScheme r @ '':'' else []) @ X =
      opt_seg ''s'' (if IncludeProtocol cfg then resolveScheme r else []) X" for X
    by (simp add: opt_seg_def resolveScheme_def)
  have "generatePrimaryKey r cfg0 = ''p='' @ writeEscapedPath (path_of_key cfg r) @ '':'' @
      key_host r cfg @ (if IncludeProtocol cfg then ''s='' @ resolveScheme r @ '':'' else []) @
      key_query r cfg @ ''m='' @ method_of_key r @ '':'' @ extra_of_key cfg r"
    unfolding generatePrimaryKey_def Let_def path_of_key_def request_path_def method_of_key_def
      extra_of_key_def assms key_cfg_def by (rule refl)
  then show ?thesis by (simp only: h q s)
qed

subsection \<open>Escaped paths\<close>

lemma writeEscapedPath_rooted:
  "writeEscapedPath (CHR ''/'' # q) = CHR ''/'' # Join ''/'' (map PathEscape (SplitByte (CHR ''/'') q))"
proof -
  have j: "concat (map (\<lambda>part. CHR ''/'' # (if part \<noteq> [] then PathEscape part else [])) ps) =
      CHR ''/'' # Join ''/'' (map PathEscape ps)" if "ps \<noteq> []" for ps
    using that
  proof (induction ps)
    case (Cons p ps)
    then show ?case by (cases ps) auto
  qed simp
  show ?thesis
    by (cases "q = []") (simp_all add: writeEscapedPath_def TrimPrefix_def HasPrefix_def Let_def j)
qed

lemma writeEscapedPath_bytes:
  assumes "c \<in> set (writeEscapedPath p)"
  shows "c = CHR ''/'' \<or> path_segment_byte c"
  using assms by (auto simp: writeEscapedPath_def Let_def dest!: set_PathEscape split: if_splits)

lemma writeEscapedPath_no_new:
  assumes "c \<in> set (writeEscapedPath p)" and "\<not> is_alnum c" and "c \<noteq> CHR ''%''"
  shows "c \<in> set p \<or> c = CHR ''/''"
proof -
  have "c \<in> set q" if "c \<in> set x" "x \<in> set (SplitByte y q)" for x y q
    using that
  proof (induction q arbitrary: x)
    case (Cons a q)
    obtain z zs where "SplitByte y q = z # zs" by (cases "SplitByte y q") auto
    with Cons.prems Cons.IH [of z] Cons.IH [of x] show ?case by (auto split: if_splits)
  qed auto
  moreover have "set (TrimPrefix p ''/'') \<subseteq> set p"
    by (auto simp: TrimPrefix_def dest: in_set_dropD)
  ultimately show ?thesis
    using assms by (auto simp: writeEscapedPath_def Let_def split: if_splits dest!: PathEscape_no_new)
qed

lemma writeEscapedPath_inj:
  assumes "writeEscapedPath p = writeEscapedPath p'"
    and "p \<noteq> []" "hd p = CHR ''/''" "p' \<noteq> []" "hd p' = CHR ''/''"
  shows "p = p'"
proof -
  obtain q q' where q: "p = CHR ''/'' # q" "p' = CHR ''/'' # q'"
    using assms by (metis list.collapse)
  let ?es = "\<lambda>q. map PathEscape (SplitByte (CHR ''/'') q)"
  have no: "\<forall>e \<in> set (?es q). CHR ''/'' \<notin> set e" for q
    by (auto dest!: PathEscape_no_new simp: SplitByte_no_sep is_alnum_def is_upper_def is_lower_def is_digit_def)
  have "SplitByte (CHR ''/'') (Join ''/'' (?es q)) = ?es q" for q
    using no by (intro SplitByte_Join) simp_all
  moreover have "Join ''/'' (?es q) = Join ''/'' (?es q')"
    using assms(1) by (simp add: q writeEscapedPath_rooted)
  ultimately have "?es q = ?es q'" by metis
  then have "SplitByte (CHR ''/'') q = SplitByte (CHR ''/'') q'"
    by (rule inj_map_eq_map [THEN iffD1, rotated]) (auto intro: injI PathEscape_inj)
  then show ?thesis by (metis q Join_SplitByte)
qed

lemma path_of_key_rooted:
  assumes "hd (request_path r) = CHR ''/''"
  shows "path_of_key cfg r \<noteq> [] \<and> hd (path_of_key cfg r) = CHR ''/''"
proof -
  have "request_path r \<noteq> []" by (auto simp: request_path_def split: option.splits)
  then obtain b where "path_Clean (request_path r) = CHR ''/'' # b"
    using assms path_Clean_rooted by blast
  then show ?thesis
    by (auto simp: path_of_key_def clean_key_path_def Let_def ToLower_def lower_byte_def is_upper_def)
qed

lemma query_of_key_no_colon: "CHR '':'' \<notin> set (query_of_key cfg r)"
proof -
  have j: "CHR '':'' \<notin> set (Join ''&'' xs)" if "\<forall>x \<in> set xs. \<exists>kv. x = render_param kv" for xs
    using that set_Join [of "''&''" xs] render_param_no_colon by fastforce
  have "CHR '':'' \<notin> set (buildSortedQueryString q cfg)" for q
  proof -
    have "CHR '':'' \<notin> set (Join ''&'' (concat (map (\<lambda>k. map (\<lambda>v. render_param (k, v)) (f k)) ks)))" for f ks
      by (intro j) auto
    then show ?thesis
      by (cases "ParseQuery q") (simp add: buildSortedQueryString_def Let_def del: map_map)
  qed
  moreover have "CHR '':'' \<notin> set (buildUnsortedQueryString q cfg)" for q
    unfolding buildUnsortedQueryString_def by (intro j) auto
  ultimately show ?thesis
    by (auto simp: query_of_key_def buildQueryString_def split: option.splits if_splits)
qed

lemma colon_cancel:
  "CHR '':'' \<notin> set b \<Longrightarrow> CHR '':'' \<notin> set b' \<Longrightarrow> b @ '':'' @ R = b' @ '':'' @ R' \<Longrightarrow> b = b' \<and> R = R'"
  using append_sep_cancel [of "CHR '':''" b b' R R'] by simp

section \<open>Separation of the parts of a variant key\<close>

lemma no_bar_ToLower: "CHR ''|'' \<notin> set s \<Longrightarrow> CHR ''|'' \<notin> set (ToLower s)"
proof -
  have "lower_byte c = CHR ''|'' \<Longrightarrow> c = CHR ''|''" for c
  proof -
    assume a: "lower_byte c = CHR ''|''"
    then have "\<not> is_upper c"
      by (auto simp: lower_byte_def is_upper_def dest!: arg_cong [where f = "of_char :: char \<Rightarrow> nat"])
    with a show "c = CHR ''|''" by (simp add: lower_byte_def)
  qed
  then show "CHR ''|'' \<notin> set s \<Longrightarrow> CHR ''|'' \<notin> set (ToLower s)"
    unfolding ToLower_def by (metis (no_types) imageE list.set_map)
qed

lemma set_SplitByte: "x \<in> set (SplitByte y q) \<Longrightarrow> set x \<subseteq> set q"
proof (induction q arbitrary: x)
  case (Cons a q)
  obtain z zs where "SplitByte y q = z # zs" by (cases "SplitByte y q") auto
  with Cons.prems Cons.IH [of z] Cons.IH [of x] show ?case by (auto split: if_splits)
qed auto

lemma no_bar_Join: "\<forall>x \<in> set xs. CHR ''|'' \<notin> set x \<Longrightarrow> CHR ''|'' \<notin> set (Join '','' xs)"
  using set_Join [of "'',''" xs] by fastforce

definition bar_free :: "Request \<Rightarrow> bytes \<Rightarrow> bool" where
  "bar_free r n \<longleftrightarrow> CHR ''|'' \<notin> set n \<and>
     (\<forall>v \<in> set (Values (rHeader r) (ToLower (TrimSpace n))). CHR ''|'' \<notin> set v)"

lemma variant_part_no_bar:
  assumes "bar_free r n" and "variant_part r n = Some t"
  shows "CHR ''|'' \<notin> set t \<and> t \<noteq> []"
proof -
  let ?vs = "Values (rHeader r) (ToLower (TrimSpace n))"
  have n: "CHR ''|'' \<notin> set (ToLower (TrimSpace n))"
    using assms(1) set_TrimSpace [of n] by (intro no_bar_ToLower) (auto simp: bar_free_def)
  have v: "CHR ''|'' \<notin> set v" if "v \<in> set ?vs" for v using assms(1) that by (auto simp: bar_free_def)
  have tv: "CHR ''|'' \<notin> set (TrimSpace v)" if "CHR ''|'' \<notin> set v" for v using that set_TrimSpace by blast
  have "CHR ''|'' \<notin> set (Join '','' (map TrimSpace (sort ?vs)))"
    using v tv by (intro no_bar_Join) auto
  moreover have "CHR ''|'' \<notin> set (Join '','' (sort (filter (\<lambda>t. t \<noteq> []) (map TrimSpace (concat (map (SplitByte (CHR '','')) ?vs))))))"
    using v tv set_SplitByte by (intro no_bar_Join) fastforce
  ultimately show ?thesis
    using assms(2) n by (auto simp: variant_part_def Let_def split: if_splits)
qed

lemma map_filter_eq_iff:
  assumes "\<forall>x \<in> set xs. (f x = None) = (g x = None)"
  shows "List.map_filter f xs = List.map_filter g xs \<longleftrightarrow> (\<forall>x \<in> set xs. f x = g x)"
  using assms by (induction xs) (auto simp: List.map_filter_simps split: option.splits)

lemma generateVariantKey_eq_iff:
  assumes "\<forall>n \<in> set ns. bar_free r n" and "\<forall>n \<in> set ns. bar_free r' n"
  shows "generateVariantKey r ns = generateVariantKey r' ns \<longleftrightarrow>
    (\<forall>n \<in> set ns. variant_part r n = variant_part r' n)"
proof -
  let ?L = "\<lambda>r. List.map_filter (variant_part r) (sort ns)"
  have ok: "CHR ''|'' \<notin> set x" "x \<noteq> []" if "x \<in> set (?L r) \<union> set (?L r')" for x
    using that assms by (auto simp: List.map_filter_def) (metis variant_part_no_bar)+
  have "generateVariantKey r ns = generateVariantKey r' ns \<longleftrightarrow> ?L r = ?L r'"
  proof
    assume "generateVariantKey r ns = generateVariantKey r' ns"
    then have "ns = [] \<or> Join ''|'' (?L r) = Join ''|'' (?L r')"
      by (auto simp: generateVariantKey_def split: if_splits)
    then show "?L r = ?L r'" using ok Join_inj [of "CHR ''|''" "?L r" "?L r'"] by auto
  qed (simp add: generateVariantKey_def)
  also have "\<dots> \<longleftrightarrow> (\<forall>n \<in> set (sort ns). variant_part r n = variant_part r' n)"
    by (rule map_filter_eq_iff) (simp add: variant_part_def Let_def)
  finally show ?thesis by simp
qed

text \<open>
  What two requests must agree on for one \<^verbatim>\<open>Vary\<close> name: the bag of comma-separated tokens, blanks
  around them dropped, for the three negotiation headers, and the bag of field values for the others.
\<close>

definition negotiation_name :: "bytes \<Rightarrow> bool" where
  "negotiation_name c \<longleftrightarrow> c = ''accept-encoding'' \<or> c = ''accept-language'' \<or> c = ''accept''"

definition vary_bag :: "Request \<Rightarrow> bytes \<Rightarrow> bytes multiset" where
  "vary_bag r c =
     (let vs = Values (rHeader r) c
      in if negotiation_name c then filter_mset (\<lambda>t. t \<noteq> []) (mset (map TrimSpace (concat (map (SplitByte (CHR '','')) vs))))
         else mset vs)"

text \<open>
  Field values that the comma of the key does not blur: trimmed and not empty, as a server delivers them, and
  either at most one value on each side or no comma in any of them.
\<close>

definition plain_values :: "bytes list \<Rightarrow> bytes list \<Rightarrow> bool" where
  "plain_values vs vs' \<longleftrightarrow>
     list_all (\<lambda>v. v \<noteq> [] \<and> TrimSpace v = v) (vs @ vs') \<and>
     (length vs \<le> 1 \<and> length vs' \<le> 1 \<or> list_all (\<lambda>v. CHR '','' \<notin> set v) (vs @ vs'))"

definition plain_field :: "Request \<Rightarrow> Request \<Rightarrow> bytes \<Rightarrow> bool" where
  "plain_field r r' c \<longleftrightarrow> negotiation_name c \<or> plain_values (Values (rHeader r) c) (Values (rHeader r') c)"

lemma is_space_lower_byte: "is_space (lower_byte c) = is_space c"
  by (auto simp: is_space_def lower_byte_def is_upper_def)

lemma TrimSpace_ToLower: "TrimSpace (ToLower s) = ToLower (TrimSpace s)"
proof -
  have "is_space \<circ> lower_byte = is_space" by (simp add: fun_eq_iff is_space_lower_byte)
  then show ?thesis by (simp add: TrimSpace_def ToLower_def dropWhile_map rev_map)
qed

lemma TrimSpace_idem: "TrimSpace (TrimSpace s) = TrimSpace s"
proof -
  let ?t = "dropWhile is_space s" and ?u = "TrimSpace s"
  have "dropWhile is_space ?u = ?u"
  proof (cases ?u)
    case (Cons a u)
    have "\<exists>v. ?t = ?u @ v" unfolding TrimSpace_def by (metis rev_append rev_rev_ident takeWhile_dropWhile_id)
    then have "?t \<noteq> [] \<and> a = hd ?t" using Cons by fastforce
    then have "\<not> is_space a" using hd_dropWhile [of is_space s] by blast
    then show ?thesis using Cons by simp
  qed simp
  moreover have "dropWhile is_space (rev ?u) = rev ?u" by (simp add: TrimSpace_def)
  ultimately show ?thesis by (metis TrimSpace_def rev_rev_ident)
qed

lemma sort_eq_iff: "sort xs = sort ys \<longleftrightarrow> mset xs = mset (ys :: 'a::linorder list)"
  by (metis mset_sort properties_for_sort sorted_sort)

lemma Join_sort_eq_iff:
  assumes "\<forall>v \<in> set xs \<union> set ys. CHR '','' \<notin> set v \<and> v \<noteq> []"
  shows "Join '','' (sort xs) = Join '','' (sort ys) \<longleftrightarrow> mset xs = mset ys"
proof -
  have "Join '','' (sort xs) = Join '','' (sort ys) \<longleftrightarrow> sort xs = sort ys"
    using assms Join_inj [of "CHR '',''" "sort xs" "sort ys"] by auto
  then show ?thesis by (simp add: sort_eq_iff)
qed

lemma Join_plain_eq_iff:
  assumes "plain_values xs ys"
  shows "Join '','' (map TrimSpace (sort xs)) = Join '','' (map TrimSpace (sort ys)) \<longleftrightarrow> mset xs = mset ys"
proof -
  have "map TrimSpace (sort zs) = sort zs" if "zs = xs \<or> zs = ys" for zs
    using assms that by (intro map_idI) (auto simp: plain_values_def list_all_iff)
  then have t: "map TrimSpace (sort xs) = sort xs" "map TrimSpace (sort ys) = sort ys" by blast+
  have ne: "\<forall>v \<in> set xs \<union> set ys. v \<noteq> []" using assms by (auto simp: plain_values_def list_all_iff)
  show ?thesis
  proof (cases "length xs \<le> 1 \<and> length ys \<le> 1")
    case True
    then have "xs = [] \<or> (\<exists>x. xs = [x])" "ys = [] \<or> (\<exists>y. ys = [y])" by (cases xs; cases ys; auto)+
    then show ?thesis using ne unfolding t by auto
  next
    case False
    then have "\<forall>v \<in> set xs \<union> set ys. CHR '','' \<notin> set v \<and> v \<noteq> []"
      using assms ne by (auto simp: plain_values_def list_all_iff)
    then show ?thesis unfolding t by (rule Join_sort_eq_iff)
  qed
qed

lemma variant_part_eq_iff:
  assumes "c = ToLower (TrimSpace n)" and "plain_field r r' c"
  shows "variant_part r n = variant_part r' n \<longleftrightarrow> c = [] \<or> vary_bag r c = vary_bag r' c"
proof -
  have s: "isSortableVaryHeader c \<longleftrightarrow> negotiation_name c"
    unfolding isSortableVaryHeader_def negotiation_name_def assms(1) TrimSpace_ToLower TrimSpace_idem ToLower_idem by simp
  let ?tok = "\<lambda>r. filter (\<lambda>t. t \<noteq> []) (map TrimSpace (concat (map (SplitByte (CHR '','')) (Values (rHeader r) c))))"
  have tok1: "CHR '','' \<notin> set v \<and> v \<noteq> []" if m: "v \<in> set (?tok q)" for v q
  proof -
    obtain x w where "x \<in> set (SplitByte (CHR '','') w)" "v = TrimSpace x" "v \<noteq> []" using m by auto
    then show ?thesis using SplitByte_no_sep [of x] set_TrimSpace [of x] by blast
  qed
  then have tok: "\<forall>v \<in> set (?tok r) \<union> set (?tok r'). CHR '','' \<notin> set v \<and> v \<noteq> []" by blast
  show ?thesis
  proof (cases "negotiation_name c")
    case True
    have "variant_part q n = (if c = [] then None else Some (c @ ''='' @ Join '','' (sort (?tok q))))" for q
      unfolding variant_part_def Let_def assms(1) [symmetric] using True s by (cases "Values (rHeader q) c = []") simp_all
    moreover have "mset (?tok q) = vary_bag q c" for q using True by (simp add: vary_bag_def Let_def)
    ultimately show ?thesis using Join_sort_eq_iff [OF tok] by simp
  next
    case False
    have "variant_part q n = (if c = [] then None else Some (c @ ''='' @ Join '','' (map TrimSpace (sort (Values (rHeader q) c)))))" for q
      unfolding variant_part_def Let_def assms(1) [symmetric] using False s by (cases "Values (rHeader q) c = []") simp_all
    moreover have "plain_values (Values (rHeader r) c) (Values (rHeader r') c)" using False assms(2) by (simp add: plain_field_def)
    ultimately show ?thesis using Join_plain_eq_iff False by (simp add: vary_bag_def Let_def)
  qed
qed

section \<open>Properties\<close>

definition demo_request :: "bytes \<Rightarrow> bytes \<Rightarrow> bytes \<Rightarrow> Header \<Rightarrow> Request" where
  "demo_request host path query hdr =
     \<lparr>Method = ''GET'', rURL = Some (empty_URL\<lparr>Path := path, RawQuery := query\<rparr>), rHost = host,
      rHeader = hdr, TLS = False\<rparr>"

text \<open>
  Property C28. Two well-formed queries give the same query string in the key exactly when
  they carry the same allowed parameters with the same multiplicity, in whatever order and
  under whatever percent-encoding: a filtered parameter never splits the cache, and no two
  different parameter lists share an entry.
\<close>

theorem sorted_query_exact:
  assumes "\<not> query_error q" and "\<not> query_error q'"
  shows "buildSortedQueryString q cfg = buildSortedQueryString q' cfg \<longleftrightarrow>
    mset (filter (\<lambda>(k, v). isQueryParamAllowed k v cfg) (query_pairs (SplitByte (CHR ''&'') q))) =
    mset (filter (\<lambda>(k, v). isQueryParamAllowed k v cfg) (query_pairs (SplitByte (CHR ''&'') q')))"
  using buildSortedQueryString_eq_iff [OF assms] by (simp add: allowed_pairs_def)

lemma sorted_query_exact_witness:
  "buildSortedQueryString ''b=2&utm_source=x&a=1'' (zero_CacheKey\<lparr>ExcludeMarketingQueryParams := True\<rparr>) =
   buildSortedQueryString ''a=%31&b=2'' (zero_CacheKey\<lparr>ExcludeMarketingQueryParams := True\<rparr>)"
proof -
  have "\<not> query_error ''b=2&utm_source=x&a=1''" "\<not> query_error ''a=%31&b=2''" by code_simp+
  moreover have "mset (allowed_pairs ''b=2&utm_source=x&a=1'' (zero_CacheKey\<lparr>ExcludeMarketingQueryParams := True\<rparr>)) =
      mset (allowed_pairs ''a=%31&b=2'' (zero_CacheKey\<lparr>ExcludeMarketingQueryParams := True\<rparr>))"
    by code_simp
  ultimately show ?thesis using sorted_query_exact by (simp add: allowed_pairs_def)
qed

text \<open>
  Property C29. With one configuration, two requests with the same primary key have the
  same cleaned path, host, scheme (where it is part of the key), query string, method and
  header and cookie part, provided that their paths are rooted, that no equals sign
  occurs in path or host and that the method has no colon.
\<close>

theorem primary_key_separates:
  assumes "generatePrimaryKey r cfg0 = generatePrimaryKey r' cfg0"
    and cfg: "cfg = key_cfg cfg0"
    and "hd (request_path r) = CHR ''/''" and "hd (request_path r') = CHR ''/''"
    and p: "CHR ''='' \<notin> set (path_of_key cfg r)" "CHR ''='' \<notin> set (path_of_key cfg r')"
    and h: "CHR ''='' \<notin> set (host_of_key cfg r)" "CHR ''='' \<notin> set (host_of_key cfg r')"
    and m: "CHR '':'' \<notin> set (Method r)" "CHR '':'' \<notin> set (Method r')"
  shows "path_of_key cfg r = path_of_key cfg r' \<and> host_of_key cfg r = host_of_key cfg r' \<and>
    (IncludeProtocol cfg \<longrightarrow> resolveScheme r = resolveScheme r') \<and>
    query_of_key cfg r = query_of_key cfg r' \<and> method_of_key r = method_of_key r' \<and>
    extra_of_key cfg r = extra_of_key cfg r'"
proof -
  let ?s = "\<lambda>r. if IncludeProtocol cfg then resolveScheme r else []"
  let ?M = "\<lambda>r. ''m='' @ method_of_key r @ '':'' @ extra_of_key cfg r"
  let ?Q = "\<lambda>r. opt_seg ''qs'' (query_of_key cfg r) (?M r)"
  let ?S = "\<lambda>r. opt_seg ''s'' (?s r) (?Q r)"
  let ?H = "\<lambda>r. opt_seg ''h'' (host_of_key cfg r) (?S r)"
  have tM: "tagged {''m''} (?M r)" for r by (auto simp: tagged_def)
  have tQ: "tagged {''qs'', ''m''} (?Q r)" for r by (intro tagged_opt_seg tM)
  have tS: "tagged {''s'', ''qs'', ''m''} (?S r)" for r by (intro tagged_opt_seg tQ)
  have tH: "tagged key_tags (?H r)" for r by (intro tagged_opt_seg tS)
  have tS': "tagged key_tags (?S r)" for r by (rule tagged_mono [OF tS]) auto
  have e: "CHR ''='' \<notin> set (writeEscapedPath x)" if "CHR ''='' \<notin> set x" for x
    using that writeEscapedPath_no_new [of "CHR ''=''" x]
    by (auto simp: is_alnum_def is_upper_def is_lower_def is_digit_def)
  have nS: "?S r \<noteq> ''h'' @ ''='' @ Y" for r Y by (rule tagged_not [OF tS]) auto
  have nQ: "?Q r \<noteq> ''s'' @ ''='' @ Y" for r Y by (rule tagged_not [OF tQ]) auto
  have nM: "?M r \<noteq> ''qs'' @ ''='' @ Y" for r Y by (rule tagged_not [OF tM]) auto
  have ns: "CHR '':'' \<notin> set (?s r)" for r by (simp add: resolveScheme_def)
  have nm: "CHR '':'' \<notin> set (method_of_key r)" "CHR '':'' \<notin> set (method_of_key r')"
    using m by (simp_all add: method_of_key_def)
  have "writeEscapedPath (path_of_key cfg r) @ '':'' @ ?H r = writeEscapedPath (path_of_key cfg r') @ '':'' @ ?H r'"
    using assms(1) by (simp only: generatePrimaryKey_parts [OF cfg] same_append_eq)
  from colon_tag_cancel [OF this tH tH e [OF p(1)] e [OF p(2)]]
  have P: "writeEscapedPath (path_of_key cfg r) = writeEscapedPath (path_of_key cfg r')" and "?H r = ?H r'"
    by blast+
  from opt_seg_cancel [OF this(2) nS nS colon_tag_cancel [OF _ tS' tS' h]]
  have H: "host_of_key cfg r = host_of_key cfg r'" and "?S r = ?S r'" by blast+
  from opt_seg_cancel [OF this(2) nQ nQ colon_cancel [OF ns ns]]
  have S: "?s r = ?s r'" and "?Q r = ?Q r'" by blast+
  from opt_seg_cancel [OF this(2) nM nM colon_cancel [OF query_of_key_no_colon query_of_key_no_colon]]
  have Q: "query_of_key cfg r = query_of_key cfg r'" and "?M r = ?M r'" by blast+
  from this(2) have "method_of_key r @ '':'' @ extra_of_key cfg r = method_of_key r' @ '':'' @ extra_of_key cfg r'"
    by (simp only: same_append_eq)
  from colon_cancel [OF nm this]
  have "method_of_key r = method_of_key r' \<and> extra_of_key cfg r = extra_of_key cfg r'" .
  moreover have "path_of_key cfg r = path_of_key cfg r'"
    using P path_of_key_rooted [OF assms(3), of cfg] path_of_key_rooted [OF assms(4), of cfg]
    by (blast intro: writeEscapedPath_inj)
  ultimately show ?thesis using H S Q by (simp split: if_splits)
qed

lemma primary_key_separates_witness:
  "path_of_key zero_CacheKey (demo_request ''A.org:80'' ''/x/../a'' ''b=2&a=1'' []) =
   path_of_key zero_CacheKey (demo_request ''a.org'' ''/a'' ''a=1&b=2'' [])"
proof -
  let ?r = "demo_request ''A.org:80'' ''/x/../a'' ''b=2&a=1'' []"
  let ?r' = "demo_request ''a.org'' ''/a'' ''a=1&b=2'' []"
  have "generatePrimaryKey ?r None = generatePrimaryKey ?r' None" by code_simp
  moreover have "zero_CacheKey = key_cfg None" by (simp add: key_cfg_def)
  moreover have "hd (request_path ?r) = CHR ''/''" "hd (request_path ?r') = CHR ''/''" by code_simp+
  moreover have "CHR ''='' \<notin> set (path_of_key zero_CacheKey ?r)" by code_simp
  moreover have "CHR ''='' \<notin> set (path_of_key zero_CacheKey ?r')" by code_simp
  moreover have "CHR ''='' \<notin> set (host_of_key zero_CacheKey ?r)" by code_simp
  moreover have "CHR ''='' \<notin> set (host_of_key zero_CacheKey ?r')" by code_simp
  moreover have "CHR '':'' \<notin> set (Method ?r)" "CHR '':'' \<notin> set (Method ?r')"
    by (simp_all add: demo_request_def)
  ultimately show ?thesis using primary_key_separates [of ?r None ?r' zero_CacheKey] by blast
qed

text \<open>
  Without that proviso keys collide: a path that holds the text of a host part
  and a host that holds the rest give one key to two different resources.
\<close>

theorem primary_key_collision:
  "generatePrimaryKey (demo_request ''y.org'' ''/a:h=x.org'' [] []) None =
   generatePrimaryKey (demo_request ''x.org:h=y.org'' ''/a'' [] []) None \<and>
   path_of_key zero_CacheKey (demo_request ''y.org'' ''/a:h=x.org'' [] []) \<noteq>
   path_of_key zero_CacheKey (demo_request ''x.org:h=y.org'' ''/a'' [] [])"
  by code_simp

text \<open>
  A query that \<^verbatim>\<open>url.ParseQuery\<close> rejects in any one part is dropped whole from
  a sorted key: the request shares the entry of the bare path, whatever its other
  parameters are.
\<close>

theorem malformed_query_dropped:
  assumes "query_error (RawQuery u)" and "\<not> PreserveQueryOrder (key_cfg cfg0)"
  shows "generatePrimaryKey (r\<lparr>rURL := Some u\<rparr>) cfg0 = generatePrimaryKey (r\<lparr>rURL := Some (u\<lparr>RawQuery := []\<rparr>)\<rparr>) cfg0"
proof -
  have "buildSortedQueryString (RawQuery u) cfg = []" for cfg
    using assms(1) by (cases "ParseQuery (RawQuery u)") (simp add: buildSortedQueryString_def query_error_def)
  then have "query_of_key (key_cfg cfg0) (r\<lparr>rURL := Some u\<rparr>) = []"
    using assms(2) by (simp add: query_of_key_def buildQueryString_def)
  moreover have "query_of_key (key_cfg cfg0) (r\<lparr>rURL := Some (u\<lparr>RawQuery := []\<rparr>)\<rparr>) = []"
    by (simp add: query_of_key_def)
  moreover have "resolveScheme (r\<lparr>rURL := Some (u\<lparr>RawQuery := []\<rparr>)\<rparr>) = resolveScheme (r\<lparr>rURL := Some u\<rparr>)"
    by (simp add: resolveScheme_def)
  moreover from this have "host_of_key cfg (r\<lparr>rURL := Some (u\<lparr>RawQuery := []\<rparr>)\<rparr>) = host_of_key cfg (r\<lparr>rURL := Some u\<rparr>)"
    for cfg by (simp add: host_of_key_def)
  moreover have "path_of_key cfg (r\<lparr>rURL := Some (u\<lparr>RawQuery := []\<rparr>)\<rparr>) = path_of_key cfg (r\<lparr>rURL := Some u\<rparr>)"
    for cfg by (simp add: path_of_key_def request_path_def)
  ultimately show ?thesis
    by (simp add: generatePrimaryKey_parts [OF refl] method_of_key_def extra_of_key_URL)
qed

lemma malformed_query_dropped_witness:
  "generatePrimaryKey (demo_request ''a.org'' ''/'' ''page=2&x=%zz'' []) None =
   generatePrimaryKey (demo_request ''a.org'' ''/'' [] []) None"
proof -
  have "query_error (RawQuery (empty_URL\<lparr>Path := ''/'', RawQuery := ''page=2&x=%zz''\<rparr>))"
    "\<not> PreserveQueryOrder (key_cfg None)" by code_simp+
  from malformed_query_dropped [OF this, of "demo_request ''a.org'' ''/'' [] []"]
  show ?thesis by (simp add: demo_request_def empty_URL_def)
qed

text \<open>
  Property C30. For one list of \<^verbatim>\<open>Vary\<close> names, two requests select the same variant exactly
  when for each name that is not blank they have the same bag of comma-separated tokens
  (\<^verbatim>\<open>Accept\<close>, \<^verbatim>\<open>Accept-Encoding\<close> and \<^verbatim>\<open>Accept-Language\<close>) or of field values (the others), as long
  as no vertical bar occurs in a name or value and the values of the other headers are trimmed, not
  empty, and single or free of commas.
\<close>

theorem variant_key_exact:
  assumes "\<forall>n \<in> set ns. bar_free r n" and "\<forall>n \<in> set ns. bar_free r' n"
    and "\<forall>n \<in> set ns. plain_field r r' (ToLower (TrimSpace n))"
  shows "generateVariantKey r ns = generateVariantKey r' ns \<longleftrightarrow>
    (\<forall>n \<in> set ns. ToLower (TrimSpace n) = [] \<or>
       vary_bag r (ToLower (TrimSpace n)) = vary_bag r' (ToLower (TrimSpace n)))"
  using generateVariantKey_eq_iff [OF assms(1,2)] variant_part_eq_iff [OF refl] assms(3) by blast

lemma variant_key_exact_witness:
  "generateVariantKey (demo_request ''a.org'' ''/'' [] [(''Accept-Encoding'', [''gzip, br'']), (''User-Agent'', [''a, b''])])
     [''Accept-Encoding'', ''User-Agent''] =
   generateVariantKey (demo_request ''a.org'' ''/'' [] [(''Accept-Encoding'', [''br'', ''gzip'']), (''User-Agent'', [''a, b''])])
     [''Accept-Encoding'', ''User-Agent''] \<and>
   generateVariantKey (demo_request ''a.org'' ''/'' [] [(''Accept-Encoding'', [''gzip''])]) [''Accept-Encoding''] \<noteq>
   generateVariantKey (demo_request ''a.org'' ''/'' [] [(''Accept-Encoding'', [''br''])]) [''Accept-Encoding'']"
proof -
  let ?ns = "[''Accept-Encoding'', ''User-Agent'']"
  let ?r = "demo_request ''a.org'' ''/'' [] [(''Accept-Encoding'', [''gzip, br'']), (''User-Agent'', [''a, b''])]"
  let ?r' = "demo_request ''a.org'' ''/'' [] [(''Accept-Encoding'', [''br'', ''gzip'']), (''User-Agent'', [''a, b''])]"
  let ?q = "demo_request ''a.org'' ''/'' [] [(''Accept-Encoding'', [''gzip''])]"
  let ?q' = "demo_request ''a.org'' ''/'' [] [(''Accept-Encoding'', [''br''])]"
  have b: "\<forall>n \<in> set ?ns. bar_free ?r n" "\<forall>n \<in> set ?ns. bar_free ?r' n"
    "\<forall>n \<in> set [''Accept-Encoding'']. bar_free ?q n" "\<forall>n \<in> set [''Accept-Encoding'']. bar_free ?q' n" by code_simp+
  have p: "\<forall>n \<in> set ?ns. plain_field ?r ?r' (ToLower (TrimSpace n))"
    "\<forall>n \<in> set [''Accept-Encoding'']. plain_field ?q ?q' (ToLower (TrimSpace n))" by code_simp+
  have v: "\<forall>n \<in> set ?ns. vary_bag ?r (ToLower (TrimSpace n)) = vary_bag ?r' (ToLower (TrimSpace n))" by code_simp
  have w: "\<not> (ToLower (TrimSpace ''Accept-Encoding'') = [] \<or>
      vary_bag ?q (ToLower (TrimSpace ''Accept-Encoding'')) = vary_bag ?q' (ToLower (TrimSpace ''Accept-Encoding'')))" by code_simp
  show ?thesis using variant_key_exact [OF b(1,2) p(1)] v variant_key_exact [OF b(3,4) p(2)] w by fastforce
qed

text \<open>The comma of the key blurs one value with a comma and two values without.\<close>

lemma variant_key_comma:
  "generateVariantKey (demo_request ''a.org'' ''/'' [] [(''X-A'', [''1,2''])]) [''x-a''] =
   generateVariantKey (demo_request ''a.org'' ''/'' [] [(''X-A'', [''1'', ''2''])]) [''x-a'']"
  by code_simp

text \<open>
  With a vertical bar in a header value two different header combinations
  select one variant.
\<close>

theorem variant_key_collision:
  "generateVariantKey (demo_request ''a.org'' ''/'' [] [(''X-A'', [''1|x-b=2'']), (''X-B'', [''3''])]) [''x-a'', ''x-b''] =
   generateVariantKey (demo_request ''a.org'' ''/'' [] [(''X-A'', [''1'']), (''X-B'', [''2|x-b=3''])]) [''x-a'', ''x-b'']"
  by code_simp

end
