(* ===== verification/StorageIface.thy ===== *)
theory StorageIface
  imports GoNet
begin

text \<open>
  The data of the cache (\<^verbatim>\<open>src/proto/titip.proto\<close>) and the interface of a storage backend
  (\<^verbatim>\<open>src/storage/storage.go\<close>): a dictionary of operations and, as the locale
  \<open>storage_contract\<close>, what a backend promises. An operation takes the current time, since
  entries expire; an error is its message.
\<close>

section \<open>Messages\<close>

record EsiFragment =
  StartPos :: int
  EndPos :: int
  Src :: bytes
  Alt :: bytes
  OnError :: bytes
  MaxDepth :: nat
  TimeoutMs :: int
  InnerStartPos :: int
  InnerEndPos :: int

record VariantInfo =
  VariantKey :: bytes
  VaryHeaders :: "(bytes \<times> bytes) list"
  StatusCode :: int
  ResponseHeaders :: Header
  Etag :: bytes
  LastModifiedUnixNano :: int
  RawBodySize :: int
  EsiFragments :: "EsiFragment list"
  StorageCompression :: bytes

record CacheMetadata =
  PrimaryKey :: bytes
  VaryHeaderNames :: "bytes list"
  Variants :: "(bytes \<times> VariantInfo) list"
  CreatedAtUnixNano :: int
  ExpiresAtUnixNano :: int
  StaleUntilUnixNano :: int
  CorrectedInitialAgeSeconds :: int
  Tags :: "bytes list"

section \<open>Operations of a backend\<close>

type_synonym error = bytes
type_synonym meta_result = "error + CacheMetadata option \<times> bool"
type_synonym variant_result = "error + (VariantInfo option \<times> bytes) option"

record 's Storage =
  opGetMeta :: "gotime \<Rightarrow> 's \<Rightarrow> bytes \<Rightarrow> meta_result"
  opGetVariant :: "gotime \<Rightarrow> 's \<Rightarrow> bytes \<Rightarrow> bytes \<Rightarrow> variant_result"
  opSetVariant :: "gotime \<Rightarrow> 's \<Rightarrow> bytes \<Rightarrow> CacheMetadata option \<Rightarrow> VariantInfo option \<Rightarrow> bytes \<Rightarrow> duration
                   \<Rightarrow> error option \<times> 's"
  opPurge :: "gotime \<Rightarrow> 's \<Rightarrow> bytes \<Rightarrow> bool \<Rightarrow> (error + int) \<times> 's"
  opPurgeByPattern :: "gotime \<Rightarrow> 's \<Rightarrow> bytes \<Rightarrow> bool \<Rightarrow> (error + int) \<times> 's"
  opPurgeByTag :: "gotime \<Rightarrow> 's \<Rightarrow> bytes \<Rightarrow> bool \<Rightarrow> (error + int) \<times> 's"
  opPurgeAll :: "gotime \<Rightarrow> 's \<Rightarrow> (error + int) \<times> 's"

text \<open>An empty variant key stands for \<^verbatim>\<open>default\<close>, in the key and in the stored variant.\<close>

definition variant_key :: "bytes \<Rightarrow> bytes" where
  "variant_key vk = (if vk = [] then ''default'' else vk)"

definition keyed :: "VariantInfo \<Rightarrow> VariantInfo" where
  "keyed v = v\<lparr>VariantKey := variant_key (VariantKey v)\<rparr>"

lemma variant_key_not_Nil [simp]: "variant_key vk \<noteq> []"
  by (simp add: variant_key_def)

lemma variant_key_idem [simp]: "variant_key (variant_key vk) = variant_key vk"
  by (simp add: variant_key_def)

section \<open>The contract\<close>

text \<open>
  \<open>up s\<close> says that the backend answers. A backend may round the time to live of an entry:
  \<open>life ttl\<close> is what an entry gets at least; and it may refuse entries: \<open>fits k m v\<close> says that it
  can hold these metadata and this variant under this key. The laws: a write succeeds and keeps
  the backend up; until the entry's life has passed, the metadata read back are the ones written
  (with the variants known to the backend), not soft-purged, and the variant read back is
  the one written, with its body; a write, a purge and a reading of one key leave the other
  keys alone; a hard purge removes, a soft purge only marks.
\<close>

locale storage_contract =
  fixes ops :: "'s Storage"
    and up :: "'s \<Rightarrow> bool"
    and life :: "duration \<Rightarrow> duration"
    and fits :: "bytes \<Rightarrow> CacheMetadata \<Rightarrow> VariantInfo \<Rightarrow> bool"
  assumes set_up: "up s \<Longrightarrow> fits k m v \<Longrightarrow>
      \<exists>s'. opSetVariant ops now s k (Some m) (Some v) b ttl = (None, s') \<and> up s'"
    and get_meta_up: "up s \<Longrightarrow> \<exists>r. opGetMeta ops t s k = Inr r"
    and get_variant_up: "up s \<Longrightarrow> \<exists>r. opGetVariant ops t s k vk = Inr r"
    and get_meta_set: "up s \<Longrightarrow> fits k m v \<Longrightarrow> opSetVariant ops now s k (Some m) (Some v) b ttl = (None, s') \<Longrightarrow>
      now \<le> t \<Longrightarrow> t < tadd now (life ttl) \<Longrightarrow>
      \<exists>vs. opGetMeta ops t s' k = Inr (Some (m\<lparr>Variants := vs\<rparr>), False) \<and>
           map_of vs (variant_key (VariantKey v)) = Some (keyed v)"
    and get_variant_set: "up s \<Longrightarrow> fits k m v \<Longrightarrow> opSetVariant ops now s k (Some m) (Some v) b ttl = (None, s') \<Longrightarrow>
      now \<le> t \<Longrightarrow> t < tadd now (life ttl) \<Longrightarrow> variant_key vk = variant_key (VariantKey v) \<Longrightarrow>
      opGetVariant ops t s' k vk = Inr (Some (Some (keyed v), b))"
    and set_frame: "up s \<Longrightarrow> fits k m v \<Longrightarrow> opSetVariant ops now s k (Some m) (Some v) b ttl = (None, s') \<Longrightarrow> k' \<noteq> k \<Longrightarrow>
      opGetMeta ops t s' k' = opGetMeta ops t s k' \<and> opGetVariant ops t s' k' vk = opGetVariant ops t s k' vk"
    and purge_up: "up s \<Longrightarrow> \<exists>n s'. opPurge ops now s k soft = (Inr n, s') \<and> up s'"
    and purge_hard: "up s \<Longrightarrow> opPurge ops now s k False = (Inr n, s') \<Longrightarrow> now \<le> t \<Longrightarrow>
      opGetMeta ops t s' k = Inr (None, False)"
    and purge_soft: "up s \<Longrightarrow> opPurge ops now s k True = (Inr n, s') \<Longrightarrow> now \<le> t \<Longrightarrow>
      opGetMeta ops t s k = Inr (mo, sp) \<Longrightarrow> opGetMeta ops t s' k = Inr (mo, mo \<noteq> None) \<and>
      opGetVariant ops t s' k vk = opGetVariant ops t s k vk"
    and purge_frame: "up s \<Longrightarrow> opPurge ops now s k soft = (Inr n, s') \<Longrightarrow> k' \<noteq> k \<Longrightarrow>
      opGetMeta ops t s' k' = opGetMeta ops t s k' \<and> opGetVariant ops t s' k' vk = opGetVariant ops t s k' vk"
begin

text \<open>A write undoes a soft purge of its key.\<close>

lemma set_clears_soft_purge:
  assumes "up s" and "opPurge ops now s k True = (Inr n, s')"
    and "fits k m v" "opSetVariant ops now' s' k (Some m) (Some v) b ttl = (None, s'')" and "now' \<le> t" "t < tadd now' (life ttl)"
  shows "\<exists>mo. opGetMeta ops t s'' k = Inr (Some mo, False)"
proof -
  have "up s'" using purge_up [OF assms(1), of now k True] assms(2) by auto
  from get_meta_set [OF this assms(3-6)] show ?thesis by auto
qed

text \<open>Purging one key after writing another leaves the written entry readable.\<close>

lemma set_purge_other:
  assumes "up s" "fits k m v" and "opSetVariant ops now s k (Some m) (Some v) b ttl = (None, s')"
    and "opPurge ops now' s' k' soft = (Inr n, s'')" and "k \<noteq> k'" and "now \<le> t" "t < tadd now (life ttl)"
  shows "opGetVariant ops t s'' k (VariantKey v) = Inr (Some (Some (keyed v), b))"
proof -
  have "up s'" using set_up [OF assms(1,2), of now b ttl] assms(3) by auto
  from purge_frame [OF this assms(4,5), of t "VariantKey v"]
  show ?thesis using get_variant_set [OF assms(1-3,6,7) refl] by simp
qed

end

end
