(* ===== verification/TestStore.thy ===== *)
theory TestStore
  imports StorageIface
begin

text \<open>
  Model of \<^verbatim>\<open>src/internal/teststore/store.go\<close>, the in-memory backend, in its default mode
  (\<^verbatim>\<open>zeroCopy\<close> off: every read returns a copy, so a value of the model is the Go value). Go's
  maps are association lists with distinct keys; a pointer that may be nil is an option;
  one operation sees one instant. The fault-injection hooks are functions of the call's
  arguments. \<^verbatim>\<open>GetMeta\<close> panics on an entry without metadata, which no caller writes; the
  model returns \<open>None\<close> there, and the invariant \<open>usable\<close> excludes it.

  A regular expression is not modelled as such: \<^verbatim>\<open>matchGlob\<close> builds one from a glob pattern,
  in which the only operators are the dot and the dot with a star. The model matches the
  pattern directly; both wildcards exclude the newline, as the dot does. Patterns and
  keys are ASCII.
\<close>

section \<open>Data\<close>

record variantEntry =
  variant :: "VariantInfo option"
  body :: bytes
  vExpiresAt :: gotime

record metaEntry =
  meta :: "CacheMetadata option"
  softPurged :: bool
  mExpiresAt :: gotime

record Store =
  closed :: bool
  sMeta :: "(bytes \<times> metaEntry) list"
  sVariants :: "(bytes \<times> (bytes \<times> variantEntry) list) list"
  tagIndex :: "(bytes \<times> bytes list) list"
  getMetaHook :: "(bytes \<Rightarrow> meta_result) option"
  getVariantHook :: "(bytes \<Rightarrow> bytes \<Rightarrow> variant_result) option"
  setVariantHook :: "(bytes \<Rightarrow> CacheMetadata option \<Rightarrow> VariantInfo option \<Rightarrow> bytes \<Rightarrow> duration \<Rightarrow> error option) option"
  purgeHook :: "(bytes \<Rightarrow> bool \<Rightarrow> error + int) option"
  purgeTagHook :: "(bytes \<Rightarrow> bool \<Rightarrow> error + int) option"

definition ErrClosed :: error where
  "ErrClosed = ''teststore: store is closed''"

definition NewStore :: Store where
  "NewStore = \<lparr>closed = False, sMeta = [], sVariants = [], tagIndex = [], getMetaHook = None,
     getVariantHook = None, setVariantHook = None, purgeHook = None, purgeTagHook = None\<rparr>"

section \<open>Operations\<close>

definition SetClosed :: "Store \<Rightarrow> bool \<Rightarrow> Store" where
  "SetClosed s c = s\<lparr>closed := c\<rparr>"

definition SetGetMetaHook :: "Store \<Rightarrow> (bytes \<Rightarrow> meta_result) option \<Rightarrow> Store" where
  "SetGetMetaHook s fn = s\<lparr>getMetaHook := fn\<rparr>"

definition SetGetVariantHook :: "Store \<Rightarrow> (bytes \<Rightarrow> bytes \<Rightarrow> variant_result) option \<Rightarrow> Store" where
  "SetGetVariantHook s fn = s\<lparr>getVariantHook := fn\<rparr>"

definition SetSetVariantHook ::
    "Store \<Rightarrow> (bytes \<Rightarrow> CacheMetadata option \<Rightarrow> VariantInfo option \<Rightarrow> bytes \<Rightarrow> duration \<Rightarrow> error option) option \<Rightarrow> Store" where
  "SetSetVariantHook s fn = s\<lparr>setVariantHook := fn\<rparr>"

definition SetPurgeHook :: "Store \<Rightarrow> (bytes \<Rightarrow> bool \<Rightarrow> error + int) option \<Rightarrow> Store" where
  "SetPurgeHook s fn = s\<lparr>purgeHook := fn\<rparr>"

definition SetPurgeByTagHook :: "Store \<Rightarrow> (bytes \<Rightarrow> bool \<Rightarrow> error + int) option \<Rightarrow> Store" where
  "SetPurgeByTagHook s fn = s\<lparr>purgeTagHook := fn\<rparr>"

definition Reset :: "Store \<Rightarrow> Store" where
  "Reset s = s\<lparr>closed := False, sMeta := [], sVariants := [], tagIndex := [], getMetaHook := None,
     getVariantHook := None, setVariantHook := None, purgeHook := None, purgeTagHook := None\<rparr>"

definition Close :: "Store \<Rightarrow> error option \<times> Store" where
  "Close s = (None, s\<lparr>closed := True\<rparr>)"

definition meta_live :: "gotime \<Rightarrow> metaEntry \<Rightarrow> bool" where
  "meta_live now e \<longleftrightarrow> \<not> (\<not> IsZero (mExpiresAt e) \<and> After now (mExpiresAt e))"

definition live_variants :: "gotime \<Rightarrow> (bytes \<times> variantEntry) list \<Rightarrow> (bytes \<times> VariantInfo) list" where
  "live_variants now vMap = List.map_filter (\<lambda>(vk, e).
     if IsZero (vExpiresAt e) \<or> now < vExpiresAt e
     then (case variant e of None \<Rightarrow> None | Some v \<Rightarrow> Some (vk, v)) else None) vMap"

definition GetMeta :: "gotime \<Rightarrow> Store \<Rightarrow> bytes \<Rightarrow> meta_result" where
  "GetMeta now s primaryKey =
     (if closed s then Inl ErrClosed
      else case getMetaHook s of
        Some hook \<Rightarrow> hook primaryKey
      | None \<Rightarrow>
          (case map_of (sMeta s) primaryKey of
             None \<Rightarrow> Inr (None, False)
           | Some entry \<Rightarrow>
               if \<not> IsZero (mExpiresAt entry) \<and> After now (mExpiresAt entry) then Inr (None, False)
               else
                 let vs = (case map_of (sVariants s) primaryKey of
                             None \<Rightarrow> [] | Some vMap \<Rightarrow> live_variants now vMap)
                 in Inr (map_option (\<lambda>m. m\<lparr>Variants := vs\<rparr>) (meta entry), softPurged entry)))"

definition GetVariant :: "gotime \<Rightarrow> Store \<Rightarrow> bytes \<Rightarrow> bytes \<Rightarrow> variant_result" where
  "GetVariant now s primaryKey vk0 =
     (let variantKey = (if vk0 = [] then ''default'' else vk0)
      in if closed s then Inl ErrClosed
         else case getVariantHook s of
           Some hook \<Rightarrow> hook primaryKey variantKey
         | None \<Rightarrow>
             (case map_of (sVariants s) primaryKey of
                None \<Rightarrow> Inr None
              | Some vMap \<Rightarrow>
                  (case map_of vMap variantKey of
                     None \<Rightarrow> Inr None
                   | Some entry \<Rightarrow>
                       if \<not> IsZero (vExpiresAt entry) \<and> After now (vExpiresAt entry) then Inr None
                       else Inr (Some (variant entry, body entry)))))"

definition index_tag :: "bytes \<Rightarrow> (bytes \<times> bytes list) list \<Rightarrow> bytes \<Rightarrow> (bytes \<times> bytes list) list" where
  "index_tag primaryKey idx tag =
     (let keys = (case map_of idx tag of None \<Rightarrow> [] | Some ks \<Rightarrow> ks)
      in AList.update tag (List.insert primaryKey keys) idx)"

definition set_meta_entry :: "gotime \<Rightarrow> CacheMetadata option \<Rightarrow> metaEntry option \<Rightarrow> metaEntry" where
  "set_meta_entry expiresAt m existing =
     (case existing of
        Some e \<Rightarrow> e\<lparr>mExpiresAt := (if After expiresAt (mExpiresAt e) then expiresAt else mExpiresAt e),
                    meta := (if m \<noteq> None then m else meta e), softPurged := False\<rparr>
      | None \<Rightarrow> \<lparr>meta = m, softPurged = False, mExpiresAt = expiresAt\<rparr>)"

definition SetVariant ::
    "gotime \<Rightarrow> Store \<Rightarrow> bytes \<Rightarrow> CacheMetadata option \<Rightarrow> VariantInfo option \<Rightarrow> bytes \<Rightarrow> duration
     \<Rightarrow> error option \<times> Store" where
  "SetVariant now s primaryKey m v b ttl =
     (if closed s then (Some ErrClosed, s)
      else case setVariantHook s of
        Some hook \<Rightarrow> (hook primaryKey m v b ttl, s)
      | None \<Rightarrow>
          let expiresAt = (if ttl > 0 then tadd now ttl else zero_time);
              idx = (case m of None \<Rightarrow> tagIndex s | Some md \<Rightarrow> foldl (index_tag primaryKey) (tagIndex s) (Tags md));
              vMap = (case map_of (sVariants s) primaryKey of None \<Rightarrow> [] | Some vm \<Rightarrow> vm);
              variantKey = (case v of None \<Rightarrow> ''default''
                            | Some vi \<Rightarrow> if VariantKey vi \<noteq> [] then VariantKey vi else ''default'');
              stored = (case v of None \<Rightarrow> None
                        | Some vi \<Rightarrow> Some (if VariantKey vi \<noteq> [] then vi else vi\<lparr>VariantKey := ''default''\<rparr>));
              entry = \<lparr>variant = stored, body = b, vExpiresAt = expiresAt\<rparr>
          in (None, s\<lparr>sMeta := AList.update primaryKey
                        (set_meta_entry expiresAt m (map_of (sMeta s) primaryKey)) (sMeta s),
                      tagIndex := idx,
                      sVariants := AList.update primaryKey (AList.update variantKey entry vMap) (sVariants s)\<rparr>))"

subsection \<open>Purging\<close>

definition unindex_tag :: "bytes \<Rightarrow> (bytes \<times> bytes list) list \<Rightarrow> bytes \<Rightarrow> (bytes \<times> bytes list) list" where
  "unindex_tag primaryKey idx tag =
     (case map_of idx tag of
        None \<Rightarrow> idx
      | Some keys \<Rightarrow> let rest = removeAll primaryKey keys
                    in if rest = [] then AList.delete tag idx else AList.update tag rest idx)"

text \<open>The two ways to invalidate an existing entry, which three operations share.\<close>

definition mark_soft :: "bytes \<Rightarrow> metaEntry \<Rightarrow> Store \<Rightarrow> Store" where
  "mark_soft k entry s = s\<lparr>sMeta := AList.update k (entry\<lparr>softPurged := True\<rparr>) (sMeta s)\<rparr>"

definition remove_hard :: "bytes \<Rightarrow> metaEntry \<Rightarrow> Store \<Rightarrow> Store" where
  "remove_hard k entry s =
     s\<lparr>tagIndex := (case meta entry of None \<Rightarrow> tagIndex s
                    | Some m \<Rightarrow> foldl (unindex_tag k) (tagIndex s) (Tags m)),
       sMeta := AList.delete k (sMeta s),
       sVariants := AList.delete k (sVariants s)\<rparr>"

definition Purge :: "gotime \<Rightarrow> Store \<Rightarrow> bytes \<Rightarrow> bool \<Rightarrow> (error + int) \<times> Store" where
  "Purge now s primaryKey soft =
     (if closed s then (Inl ErrClosed, s)
      else case purgeHook s of
        Some hook \<Rightarrow> (hook primaryKey soft, s)
      | None \<Rightarrow>
          (case map_of (sMeta s) primaryKey of
             None \<Rightarrow> (Inr 0, s)
           | Some entry \<Rightarrow>
               if soft then (Inr 1, mark_soft primaryKey entry s)
               else (Inr 1, remove_hard primaryKey entry s)))"

definition purge_one :: "bool \<Rightarrow> int \<times> Store \<Rightarrow> bytes \<Rightarrow> int \<times> Store" where
  "purge_one soft acc k =
     (let (count, s) = acc
      in case map_of (sMeta s) k of
           None \<Rightarrow> (count, s)
         | Some entry \<Rightarrow> (count + 1, if soft then mark_soft k entry s else remove_hard k entry s))"

definition PurgeByTag :: "gotime \<Rightarrow> Store \<Rightarrow> bytes \<Rightarrow> bool \<Rightarrow> (error + int) \<times> Store" where
  "PurgeByTag now s tag soft =
     (if closed s then (Inl ErrClosed, s)
      else case purgeTagHook s of
        Some hook \<Rightarrow> (hook tag soft, s)
      | None \<Rightarrow>
          (case map_of (tagIndex s) tag of
             None \<Rightarrow> (Inr 0, s)
           | Some keys \<Rightarrow>
               if keys = [] then (Inr 0, s)
               else let (count, s') = foldl (purge_one soft) (0, s) keys
                    in (Inr count, if soft then s' else s'\<lparr>tagIndex := AList.delete tag (tagIndex s')\<rparr>)))"

datatype glob_item = Lit char | AnyOne | AnySeq

fun glob_items :: "bytes \<Rightarrow> glob_item list" where
  "glob_items [] = []"
| "glob_items [c] = (if c = CHR ''*'' then [AnySeq] else if c = CHR ''?'' then [AnyOne] else [Lit c])"
| "glob_items (c # d # cs) =
     (if c = CHR 0x5C then Lit d # glob_items cs
      else (if c = CHR ''*'' then AnySeq else if c = CHR ''?'' then AnyOne else Lit c) # glob_items (d # cs))"

fun glob_match :: "glob_item list \<Rightarrow> bytes \<Rightarrow> bool" where
  "glob_match [] s \<longleftrightarrow> s = []"
| "glob_match (Lit c # ps) s \<longleftrightarrow> (case s of [] \<Rightarrow> False | d # ds \<Rightarrow> c = d \<and> glob_match ps ds)"
| "glob_match (AnyOne # ps) s \<longleftrightarrow> (case s of [] \<Rightarrow> False | d # ds \<Rightarrow> d \<noteq> CHR 0x0A \<and> glob_match ps ds)"
| "glob_match (AnySeq # ps) [] \<longleftrightarrow> glob_match ps []"
| "glob_match (AnySeq # ps) (d # ds) \<longleftrightarrow>
     glob_match ps (d # ds) \<or> (d \<noteq> CHR 0x0A \<and> glob_match (AnySeq # ps) ds)"

definition matchGlob :: "bytes \<Rightarrow> bytes \<Rightarrow> bool" where
  "matchGlob pattern s = glob_match (glob_items pattern) s"

definition PurgeByPattern :: "gotime \<Rightarrow> Store \<Rightarrow> bytes \<Rightarrow> bool \<Rightarrow> (error + int) \<times> Store" where
  "PurgeByPattern now s pattern soft =
     (if closed s then (Inl ErrClosed, s)
      else let matchingKeys = filter (matchGlob pattern) (map fst (sMeta s));
               (count, s') = foldl (purge_one soft) (0, s) matchingKeys
           in (Inr count, s'))"

definition PurgeAll :: "gotime \<Rightarrow> Store \<Rightarrow> (error + int) \<times> Store" where
  "PurgeAll now s =
     (if closed s then (Inl ErrClosed, s)
      else (Inr (int (length (sMeta s))), s\<lparr>sMeta := [], sVariants := [], tagIndex := []\<rparr>))"

definition teststore :: "Store Storage" where
  "teststore = \<lparr>opGetMeta = GetMeta, opGetVariant = GetVariant, opSetVariant = SetVariant, opPurge = Purge,
     opPurgeByPattern = PurgeByPattern, opPurgeByTag = PurgeByTag, opPurgeAll = PurgeAll\<rparr>"

section \<open>The backend meets the contract\<close>

definition usable :: "Store \<Rightarrow> bool" where
  "usable s \<longleftrightarrow> \<not> closed s \<and> getMetaHook s = None \<and> getVariantHook s = None \<and> setVariantHook s = None
     \<and> purgeHook s = None \<and> purgeTagHook s = None \<and> (\<forall>k e. map_of (sMeta s) k = Some e \<longrightarrow> meta e \<noteq> None)"

lemma usable_NewStore [simp]: "usable NewStore"
  by (simp add: usable_def NewStore_def)

lemma live_variants_update:
  assumes "t < vExpiresAt e" and "variant e = Some v"
  shows "map_of (live_variants t (AList.update vk e vMap)) vk = Some v"
proof (induction vMap)
  case Nil
  then show ?case using assms by (simp add: live_variants_def List.map_filter_simps)
next
  case (Cons p vMap)
  obtain a b where "p = (a, b)" by (cases p)
  with Cons show ?case
    using assms by (auto simp: live_variants_def List.map_filter_simps split: option.splits)
qed

lemma set_meta_entry_live:
  "t < expiresAt \<Longrightarrow> \<not> After t (mExpiresAt (set_meta_entry expiresAt m existing))"
  by (auto simp: set_meta_entry_def After_def split: option.splits)

lemma set_meta_entry_meta [simp]:
  "meta (set_meta_entry expiresAt (Some m) existing) = Some m"
  "softPurged (set_meta_entry expiresAt mo existing) = False"
  by (auto simp: set_meta_entry_def split: option.splits)

lemma usable_SetVariant:
  "usable s \<Longrightarrow> \<exists>s'. SetVariant now s k (Some m) (Some v) b ttl = (None, s') \<and> usable s'"
  by (auto simp: usable_def SetVariant_def Let_def map_of_update)

lemma SetVariant_GetMeta:
  assumes "usable s" and "SetVariant now s k (Some m) (Some v) b ttl = (None, s')"
    and "now \<le> t" and "t < tadd now ttl"
  shows "\<exists>vs. GetMeta t s' k = Inr (Some (m\<lparr>Variants := vs\<rparr>), False) \<and>
    map_of vs (variant_key (VariantKey v)) = Some (keyed v)"
proof -
  have "0 < ttl" using assms(3,4) by (simp add: tadd_def)
  with assms show ?thesis
    by (auto simp: usable_def SetVariant_def GetMeta_def Let_def map_of_update set_meta_entry_live
        live_variants_update variant_key_def keyed_def)
qed

lemma SetVariant_GetVariant:
  assumes "usable s" and "SetVariant now s k (Some m) (Some v) b ttl = (None, s')"
    and "now \<le> t" and "t < tadd now ttl" and "variant_key vk = variant_key (VariantKey v)"
  shows "GetVariant t s' k vk = Inr (Some (Some (keyed v), b))"
proof -
  have "0 < ttl" using assms(3,4) by (simp add: tadd_def)
  with assms show ?thesis
    by (auto simp: usable_def SetVariant_def GetVariant_def Let_def map_of_update After_def
        variant_key_def keyed_def split: if_splits)
qed

text \<open>What a read depends on.\<close>

definition same_at :: "bytes \<Rightarrow> Store \<Rightarrow> Store \<Rightarrow> bool" where
  "same_at k s s' \<longleftrightarrow> closed s' = closed s \<and> getMetaHook s' = getMetaHook s \<and> getVariantHook s' = getVariantHook s
     \<and> map_of (sMeta s') k = map_of (sMeta s) k \<and> map_of (sVariants s') k = map_of (sVariants s) k"

lemma same_at_reads: "same_at k s s' \<Longrightarrow> GetMeta t s' k = GetMeta t s k \<and> GetVariant t s' k vk = GetVariant t s k vk"
  by (simp add: same_at_def GetMeta_def GetVariant_def Let_def cong: option.case_cong if_cong)

lemma SetVariant_same_at:
  "usable s \<Longrightarrow> SetVariant now s k (Some m) (Some v) b ttl = (None, s') \<Longrightarrow> k' \<noteq> k \<Longrightarrow> same_at k' s s'"
  by (auto simp: usable_def SetVariant_def Let_def same_at_def map_of_update)

lemma mark_soft_same_at: "k' \<noteq> k \<Longrightarrow> same_at k' s (mark_soft k e s)"
  and remove_hard_same_at: "k' \<noteq> k \<Longrightarrow> same_at k' s (remove_hard k e s)"
  by (simp_all add: mark_soft_def remove_hard_def same_at_def map_of_update map_of_delete)

lemma same_at_refl [simp]: "same_at k s s"
  by (simp add: same_at_def)

lemma same_at_trans: "same_at k s s' \<Longrightarrow> same_at k s' s'' \<Longrightarrow> same_at k s s''"
  by (simp add: same_at_def)

lemma usable_mark_soft: "usable s \<Longrightarrow> map_of (sMeta s) k = Some e \<Longrightarrow> usable (mark_soft k e s)"
  and usable_remove_hard: "usable s \<Longrightarrow> usable (remove_hard k e s)"
  by (simp_all add: usable_def mark_soft_def remove_hard_def map_of_update map_of_delete)

lemma Purge_usable_eq: "usable s \<Longrightarrow> Purge now s k soft =
   (case map_of (sMeta s) k of None \<Rightarrow> (Inr 0, s)
    | Some e \<Rightarrow> (Inr 1, if soft then mark_soft k e s else remove_hard k e s))"
  by (simp add: usable_def Purge_def split: option.splits)

lemma Purge_usable: "usable s \<Longrightarrow> \<exists>n s'. Purge now s k soft = (Inr n, s') \<and> usable s'"
  by (auto simp: Purge_usable_eq usable_mark_soft usable_remove_hard split: option.splits)

lemma GetMeta_absent: "usable s \<Longrightarrow> map_of (sMeta s) k = None \<Longrightarrow> GetMeta t s k = Inr (None, False)"
  by (simp add: usable_def GetMeta_def)

lemma remove_hard_absent: "map_of (sMeta (remove_hard k e s)) k = None \<and> map_of (sVariants (remove_hard k e s)) k = None"
  by (simp add: remove_hard_def map_of_delete)

lemma Purge_hard: "usable s \<Longrightarrow> Purge now s k False = (Inr n, s') \<Longrightarrow> GetMeta t s' k = Inr (None, False)"
  by (auto simp: Purge_usable_eq GetMeta_absent remove_hard_absent usable_remove_hard split: option.splits)

lemma mark_soft_reads:
  assumes "usable s" and "map_of (sMeta s) k = Some e" and "GetMeta t s k = Inr (mo, sp)"
  shows "GetMeta t (mark_soft k e s) k = Inr (mo, mo \<noteq> None) \<and> GetVariant t (mark_soft k e s) k vk = GetVariant t s k vk"
proof -
  obtain m where "meta e = Some m" using assms(1,2) by (auto simp: usable_def)
  with assms show ?thesis
    by (auto simp: usable_def mark_soft_def GetMeta_def GetVariant_def map_of_update Let_def split: if_splits)
qed

lemma Purge_soft:
  assumes "usable s" and "Purge now s k True = (Inr n, s')" and "GetMeta t s k = Inr (mo, sp)"
  shows "GetMeta t s' k = Inr (mo, mo \<noteq> None) \<and> GetVariant t s' k vk = GetVariant t s k vk"
  using assms mark_soft_reads GetMeta_absent
  by (auto simp: Purge_usable_eq split: option.splits)

lemma Purge_same_at: "usable s \<Longrightarrow> Purge now s k soft = (Inr n, s') \<Longrightarrow> k' \<noteq> k \<Longrightarrow> same_at k' s s'"
  by (auto simp: Purge_usable_eq mark_soft_same_at remove_hard_same_at split: option.splits)

interpretation ts: storage_contract teststore usable "\<lambda>ttl. ttl" "\<lambda>_ _ _. True"
proof (unfold_locales, goal_cases)
  case (1 s k m v now b ttl)
  then show ?case using usable_SetVariant by (simp add: teststore_def)
next
  case (2 s t k)
  then show ?case by (auto simp: teststore_def usable_def GetMeta_def Let_def split: option.splits)
next
  case (3 s t k vk)
  then show ?case by (auto simp: teststore_def usable_def GetVariant_def Let_def split: option.splits)
next
  case (4 s k m v now b ttl s' t)
  then show ?case using SetVariant_GetMeta by (simp add: teststore_def)
next
  case (5 s k m v now b ttl s' t vk)
  then show ?case using SetVariant_GetVariant by (simp add: teststore_def)
next
  case (6 s k m v now b ttl s' k' t vk)
  then show ?case using same_at_reads [OF SetVariant_same_at] by (simp add: teststore_def)
next
  case (7 s now k soft)
  then show ?case using Purge_usable by (simp add: teststore_def)
next
  case (8 s now k n s' t)
  then show ?case using Purge_hard by (simp add: teststore_def)
next
  case (9 s now k n s' t mo sp vk)
  then show ?case using Purge_soft by (simp add: teststore_def)
next
  case (10 s now k soft n s' k' t vk)
  then show ?case using same_at_reads [OF Purge_same_at] by (simp add: teststore_def)
qed

section \<open>The invariant of the store\<close>

text \<open>
  The keys of the maps are distinct; an entry has metadata and a variant table, and the other
  way round; every tag of an entry is indexed.
\<close>

definition tag_keys :: "Store \<Rightarrow> bytes \<Rightarrow> bytes list" where
  "tag_keys s tag = (case map_of (tagIndex s) tag of None \<Rightarrow> [] | Some ks \<Rightarrow> ks)"

definition store_inv :: "Store \<Rightarrow> bool" where
  "store_inv s \<longleftrightarrow> distinct (map fst (sMeta s)) \<and> distinct (map fst (sVariants s))
     \<and> fst ` set (sVariants s) = fst ` set (sMeta s)
     \<and> (\<forall>k e. map_of (sMeta s) k = Some e \<longrightarrow> meta e \<noteq> None)
     \<and> (\<forall>k e m tag. map_of (sMeta s) k = Some e \<longrightarrow> meta e = Some m \<longrightarrow> tag \<in> set (Tags m) \<longrightarrow> k \<in> set (tag_keys s tag))"

definition idx_keys :: "(bytes \<times> bytes list) list \<Rightarrow> bytes \<Rightarrow> bytes set" where
  "idx_keys idx tag = set (case map_of idx tag of None \<Rightarrow> [] | Some ks \<Rightarrow> ks)"

lemma set_tag_keys: "set (tag_keys s tag) = idx_keys (tagIndex s) tag"
  by (simp add: tag_keys_def idx_keys_def)

lemma keys_delete: "fst ` set (AList.delete k xs) = fst ` set xs - {k}"
  by (metis delete_keys list.set_map set_removeAll)

lemma keys_update: "fst ` set (AList.update k v xs) = insert k (fst ` set xs)"
  by (simp add: dom_update)

lemma idx_keys_index: "idx_keys (index_tag k idx tag) t = (if t = tag then insert k (idx_keys idx t) else idx_keys idx t)"
  by (auto simp: idx_keys_def index_tag_def map_of_update split: option.splits)

lemma idx_keys_foldl_index:
  "idx_keys (foldl (index_tag k) idx tags) t = idx_keys idx t \<union> (if t \<in> set tags then {k} else {})"
  by (induction tags arbitrary: idx) (auto simp: idx_keys_index)

lemma idx_keys_unindex: "idx_keys (unindex_tag k idx tag) t = (if t = tag then idx_keys idx t - {k} else idx_keys idx t)"
proof (cases "map_of idx tag")
  case (Some ks)
  have "removeAll k ks = [] \<longleftrightarrow> set ks - {k} = {}" by (metis set_empty set_removeAll)
  with Some show ?thesis
    by (auto simp: idx_keys_def unindex_tag_def Let_def map_of_update map_of_delete)
qed (simp add: idx_keys_def unindex_tag_def)

lemma idx_keys_foldl_unindex:
  "idx_keys (foldl (unindex_tag k) idx tags) t = idx_keys idx t - (if t \<in> set tags then {k} else {})"
  by (induction tags arbitrary: idx) (auto simp: idx_keys_unindex)

lemma idx_keys_remove_hard:
  "idx_keys (tagIndex s) t - {k} \<subseteq> idx_keys (tagIndex (remove_hard k e s)) t"
  by (auto simp: remove_hard_def idx_keys_foldl_unindex split: option.splits)

lemma store_inv_mark_soft: "store_inv s \<Longrightarrow> map_of (sMeta s) k = Some e \<Longrightarrow> store_inv (mark_soft k e s)"
  by (auto simp: store_inv_def mark_soft_def map_of_update distinct_update dom_update tag_keys_def
      split: if_splits dest: map_of_SomeD intro: rev_image_eqI)

lemma store_inv_remove_hard:
  assumes "store_inv s"
  shows "store_inv (remove_hard k e s)"
proof -
  have "k' \<in> idx_keys (tagIndex (remove_hard k e s)) tag"
    if "map_of (sMeta (remove_hard k e s)) k' = Some e'" "meta e' = Some m" "tag \<in> set (Tags m)" for k' e' m tag
  proof -
    from that(1) have "k' \<noteq> k" "map_of (sMeta s) k' = Some e'"
      by (auto simp: remove_hard_def map_of_delete split: if_splits)
    then have "k' \<in> idx_keys (tagIndex s) tag - {k}"
      using assms that(2,3) by (auto simp: store_inv_def set_tag_keys)
    then show ?thesis using idx_keys_remove_hard by blast
  qed
  moreover have "meta e' \<noteq> None" if "map_of (sMeta (remove_hard k e s)) k' = Some e'" for k' e'
    using assms that unfolding store_inv_def remove_hard_def by (simp add: map_of_delete split: if_splits)
  ultimately show ?thesis
    using assms unfolding store_inv_def set_tag_keys
    by (simp add: distinct_delete remove_hard_def keys_delete)
qed

lemma store_inv_SetVariant:
  assumes "store_inv s" and "SetVariant now s k (Some m) (Some v) b ttl = (err, s')"
  shows "store_inv s'"
proof (cases "closed s \<or> setVariantHook s \<noteq> None")
  case True
  then show ?thesis
    using assms by (cases "setVariantHook s") (simp_all add: SetVariant_def split: if_splits)
next
  case False
  then obtain e vm where s': "s' = s\<lparr>sMeta := AList.update k e (sMeta s),
      tagIndex := foldl (index_tag k) (tagIndex s) (Tags m), sVariants := AList.update k vm (sVariants s)\<rparr>"
    and e: "meta e = Some m"
    using assms(2) by (auto simp: SetVariant_def Let_def)
  have "k' \<in> idx_keys (tagIndex s') tag"
    if "map_of (sMeta s') k' = Some e'" "meta e' = Some m'" "tag \<in> set (Tags m')" for k' e' m' tag
    using that e assms(1) by (auto simp: s' map_of_update idx_keys_foldl_index store_inv_def set_tag_keys split: if_splits)
  moreover have "meta e' \<noteq> None" if "map_of (sMeta s') k' = Some e'" for k' e'
    using that e assms(1) unfolding s' store_inv_def by (simp add: map_of_update split: if_splits)
  ultimately show ?thesis
    using assms(1) unfolding store_inv_def set_tag_keys by (simp add: s' distinct_update keys_update)
qed

subsection \<open>Purging many keys\<close>

lemma purge_one_inv: "store_inv s \<Longrightarrow> store_inv (snd (purge_one soft (c, s) k))"
  by (simp add: purge_one_def store_inv_mark_soft store_inv_remove_hard split: option.splits)

lemma purge_one_usable: "usable s \<Longrightarrow> usable (snd (purge_one soft (c, s) k))"
  by (simp add: purge_one_def usable_mark_soft usable_remove_hard split: option.splits)

lemma foldl_purge_one_inv: "store_inv s \<Longrightarrow> store_inv (snd (foldl (purge_one soft) (c, s) ks))"
proof (induction ks arbitrary: c s)
  case (Cons k ks)
  obtain c' s' where p: "purge_one soft (c, s) k = (c', s')" by (cases "purge_one soft (c, s) k")
  with purge_one_inv [OF Cons.prems, of soft c k] Cons.IH show ?case by simp
qed simp

lemma foldl_purge_one_usable: "usable s \<Longrightarrow> usable (snd (foldl (purge_one soft) (c, s) ks))"
proof (induction ks arbitrary: c s)
  case (Cons k ks)
  obtain c' s' where p: "purge_one soft (c, s) k = (c', s')" by (cases "purge_one soft (c, s) k")
  with purge_one_usable [OF Cons.prems, of soft c k] Cons.IH show ?case by simp
qed simp

definition soft_flag :: "metaEntry \<Rightarrow> metaEntry" where
  "soft_flag e = e\<lparr>softPurged := True\<rparr>"

lemma purge_one_meta:
  "map_of (sMeta (snd (purge_one soft (c, s) k))) k' =
     (if k' = k then (if soft then map_option soft_flag (map_of (sMeta s) k) else None) else map_of (sMeta s) k')"
  by (simp add: purge_one_def mark_soft_def remove_hard_def map_of_update map_of_delete soft_flag_def split: option.splits)

lemma soft_flag_idem: "map_option soft_flag (map_option soft_flag x) = map_option soft_flag x"
  by (cases x) (simp_all add: soft_flag_def)

lemma foldl_purge_one_meta:
  "map_of (sMeta (snd (foldl (purge_one soft) (c, s) ks))) k =
     (if k \<in> set ks then (if soft then map_option soft_flag (map_of (sMeta s) k) else None) else map_of (sMeta s) k)"
proof (induction ks arbitrary: c s)
  case (Cons a ks)
  obtain c' s' where p: "purge_one soft (c, s) a = (c', s')" by (cases "purge_one soft (c, s) a")
  then have "map_of (sMeta s') k = (if k = a then (if soft then map_option soft_flag (map_of (sMeta s) k) else None)
      else map_of (sMeta s) k)" using purge_one_meta [of soft c s a k] by simp
  with p Cons.IH [of c' s'] show ?case
    by (cases "k = a") (simp_all add: soft_flag_idem del: option.map_comp)
qed simp

lemma foldl_purge_one_count:
  "distinct ks \<Longrightarrow> fst (foldl (purge_one soft) (c, s) ks) = c + int (length (filter (\<lambda>k. map_of (sMeta s) k \<noteq> None) ks))"
proof (induction ks arbitrary: c s)
  case (Cons a ks)
  obtain c' s' where p: "purge_one soft (c, s) a = (c', s')" by (cases "purge_one soft (c, s) a")
  then have c': "c' = c + (if map_of (sMeta s) a = None then 0 else 1)"
    by (auto simp: purge_one_def split: option.splits)
  have "map_of (sMeta s') k = map_of (sMeta s) k" if "k \<in> set ks" for k
    using purge_one_meta [of soft c s a k] p that Cons.prems by auto
  then have "filter (\<lambda>k. map_of (sMeta s') k \<noteq> None) ks = filter (\<lambda>k. map_of (sMeta s) k \<noteq> None) ks"
    by (intro filter_cong) simp_all
  with p c' Cons show ?case by simp
qed simp

lemma purge_one_same_at: "k' \<noteq> k \<Longrightarrow> same_at k' s (snd (purge_one soft (c, s) k))"
  by (simp add: purge_one_def mark_soft_same_at remove_hard_same_at split: option.splits)

lemma foldl_purge_one_same_at: "k' \<notin> set ks \<Longrightarrow> same_at k' s (snd (foldl (purge_one soft) (c, s) ks))"
proof (induction ks arbitrary: c s)
  case (Cons k ks)
  obtain c' s' where p: "purge_one soft (c, s) k = (c', s')" by (cases "purge_one soft (c, s) k")
  with purge_one_same_at [of k' k s soft c] Cons show ?case by (auto intro: same_at_trans)
qed simp

subsection \<open>Reachable stores\<close>

inductive reachable :: "Store \<Rightarrow> bool" where
  new: "reachable NewStore"
| set: "reachable s \<Longrightarrow> SetVariant now s k (Some m) (Some v) b ttl = (err, s') \<Longrightarrow> reachable s'"
| purge: "reachable s \<Longrightarrow> Purge now s k soft = (r, s') \<Longrightarrow> reachable s'"
| purge_tag: "reachable s \<Longrightarrow> PurgeByTag now s tag soft = (r, s') \<Longrightarrow> reachable s'"
| purge_pattern: "reachable s \<Longrightarrow> PurgeByPattern now s pat soft = (r, s') \<Longrightarrow> reachable s'"
| purge_all: "reachable s \<Longrightarrow> PurgeAll now s = (r, s') \<Longrightarrow> reachable s'"
| set_closed: "reachable s \<Longrightarrow> reachable (SetClosed s c)"
| close: "reachable s \<Longrightarrow> Close s = (err, s') \<Longrightarrow> reachable s'"
| reset: "reachable s \<Longrightarrow> reachable (Reset s)"
| hook_get_meta: "reachable s \<Longrightarrow> reachable (SetGetMetaHook s h1)"
| hook_get_variant: "reachable s \<Longrightarrow> reachable (SetGetVariantHook s h2)"
| hook_set_variant: "reachable s \<Longrightarrow> reachable (SetSetVariantHook s h3)"
| hook_purge: "reachable s \<Longrightarrow> reachable (SetPurgeHook s h4)"
| hook_purge_tag: "reachable s \<Longrightarrow> reachable (SetPurgeByTagHook s h5)"

lemma store_inv_cong:
  "sMeta s' = sMeta s \<Longrightarrow> sVariants s' = sVariants s \<Longrightarrow> tagIndex s' = tagIndex s \<Longrightarrow> store_inv s \<Longrightarrow> store_inv s'"
  by (simp add: store_inv_def tag_keys_def)

lemma store_inv_empty: "sMeta s = [] \<Longrightarrow> sVariants s = [] \<Longrightarrow> store_inv s"
  by (simp add: store_inv_def)

lemma store_inv_Purge: "store_inv s \<Longrightarrow> Purge now s k soft = (r, s') \<Longrightarrow> store_inv s'"
  by (auto simp: Purge_def store_inv_mark_soft store_inv_remove_hard split: option.splits if_splits)

lemma store_inv_PurgeByPattern: "store_inv s \<Longrightarrow> PurgeByPattern now s pat soft = (r, s') \<Longrightarrow> store_inv s'"
  using foldl_purge_one_inv [of s soft 0 "filter (matchGlob pat) (map fst (sMeta s))"]
  by (auto simp: PurgeByPattern_def Let_def split: prod.splits if_splits)

text \<open>
  Dropping a tag whose keys are all purged: no entry that is left carries it.
\<close>

lemma store_inv_drop_tag:
  assumes "store_inv s"
  shows "store_inv ((snd (foldl (purge_one False) (c, s) (tag_keys s tag)))
    \<lparr>tagIndex := AList.delete tag (tagIndex (snd (foldl (purge_one False) (c, s) (tag_keys s tag))))\<rparr>)"
proof -
  let ?s = "snd (foldl (purge_one False) (c, s) (tag_keys s tag))"
  have inv: "store_inv ?s" by (rule foldl_purge_one_inv [OF assms])
  have tag: "tag \<notin> set (Tags m)" if "map_of (sMeta ?s) k = Some e" "meta e = Some m" for k e m
  proof -
    have "k \<notin> set (tag_keys s tag)" "map_of (sMeta s) k = Some e"
      using that(1) by (auto simp: foldl_purge_one_meta split: if_splits)
    then show ?thesis using assms that(2) by (auto simp: store_inv_def)
  qed
  have keys: "tag_keys (?s\<lparr>tagIndex := AList.delete tag (tagIndex ?s)\<rparr>) t = tag_keys ?s t" if "t \<noteq> tag" for t
    using that by (simp add: tag_keys_def map_of_delete)
  have "k \<in> set (tag_keys (?s\<lparr>tagIndex := AList.delete tag (tagIndex ?s)\<rparr>) t)"
    if "map_of (sMeta ?s) k = Some e" "meta e = Some m" "t \<in> set (Tags m)" for k e m t
  proof -
    have "t \<noteq> tag" using tag [OF that(1,2)] that(3) by auto
    moreover have "k \<in> set (tag_keys ?s t)" using inv that unfolding store_inv_def by blast
    ultimately show ?thesis using keys [of t] by metis
  qed
  with inv show ?thesis unfolding store_inv_def by simp
qed

lemma PurgeByTag_eq:
  assumes "\<not> closed s" and "purgeTagHook s = None"
  shows "PurgeByTag now s tag soft = (let (count, s') = foldl (purge_one soft) (0, s) (tag_keys s tag) in
     (Inr count, if soft \<or> tag_keys s tag = [] then s' else s'\<lparr>tagIndex := AList.delete tag (tagIndex s')\<rparr>))"
  using assms by (simp add: PurgeByTag_def tag_keys_def split: option.splits prod.splits)

lemma store_inv_PurgeByTag:
  assumes "store_inv s" and "PurgeByTag now s tag soft = (r, s')"
  shows "store_inv s'"
proof (cases "closed s \<or> purgeTagHook s \<noteq> None")
  case True
  then show ?thesis using assms by (cases "purgeTagHook s") (simp_all add: PurgeByTag_def split: if_splits)
next
  case False
  then show ?thesis
    using assms PurgeByTag_eq [of s now tag soft] store_inv_drop_tag [OF assms(1), where c = 0 and tag = tag]
      foldl_purge_one_inv [OF assms(1), of soft 0 "tag_keys s tag"]
    by (auto split: prod.splits if_splits)
qed

lemma reachable_inv: "reachable s \<Longrightarrow> store_inv s"
proof (induction rule: reachable.induct)
  case (purge_all s now r s')
  then show ?case by (auto simp: PurgeAll_def store_inv_empty split: if_splits)
qed (auto simp: NewStore_def SetClosed_def Close_def Reset_def SetGetMetaHook_def SetGetVariantHook_def
      SetSetVariantHook_def SetPurgeHook_def SetPurgeByTagHook_def
      intro: store_inv_SetVariant store_inv_Purge store_inv_PurgeByTag store_inv_PurgeByPattern store_inv_empty
      elim: store_inv_cong [rotated 3])

section \<open>Properties\<close>

definition demo_meta :: "bytes list \<Rightarrow> CacheMetadata" where
  "demo_meta tags = \<lparr>PrimaryKey = ''k'', VaryHeaderNames = [], Variants = [], CreatedAtUnixNano = 0,
     ExpiresAtUnixNano = 0, StaleUntilUnixNano = 0, CorrectedInitialAgeSeconds = 0, Tags = tags\<rparr>"

definition demo_variant :: VariantInfo where
  "demo_variant = \<lparr>VariantKey = [], VaryHeaders = [], StatusCode = 200, ResponseHeaders = [], Etag = [],
     LastModifiedUnixNano = 0, RawBodySize = 2, EsiFragments = [], StorageCompression = ''none''\<rparr>"

definition demo_store :: Store where
  "demo_store = snd (SetVariant 0 NewStore ''k'' (Some (demo_meta [''t''])) (Some demo_variant) ''hi'' 10)"

lemma demo_store_set:
  "SetVariant 0 NewStore ''k'' (Some (demo_meta [''t''])) (Some demo_variant) ''hi'' 10 = (None, demo_store)"
  by (simp add: demo_store_def SetVariant_def NewStore_def Let_def)

lemma demo_store_usable: "usable demo_store"
  using usable_SetVariant [OF usable_NewStore, of 0 "''k''" "demo_meta [''t'']" demo_variant "''hi''" 10]
  by (simp add: demo_store_set)

lemma demo_store_reachable: "reachable demo_store"
  by (rule reachable.set [OF reachable.new demo_store_set])

text \<open>
  Property C32. In every reachable state of the in-memory backend, faults and hooks included,
  the maps have distinct keys, metadata and variant tables belong to the same keys, and
  every tag of a stored entry leads to its key in the tag index.
\<close>

theorem reachable_store_inv: "reachable s \<Longrightarrow> store_inv s"
  by (rule reachable_inv)

lemma reachable_store_inv_witness: "store_inv demo_store"
  by (rule reachable_store_inv [OF demo_store_reachable])

text \<open>
  Property C31. What is stored is read back: until the time to live has passed, the metadata
  and the variant with its body come back as written and not soft-purged, under an empty
  variant key as \<^verbatim>\<open>default\<close>, and no other key is touched.
\<close>

theorem store_roundtrip:
  assumes "usable s" and "SetVariant now s k (Some m) (Some v) b ttl = (None, s')"
    and "now \<le> t" and "t < tadd now ttl"
  shows "(\<exists>vs. GetMeta t s' k = Inr (Some (m\<lparr>Variants := vs\<rparr>), False) \<and>
      map_of vs (variant_key (VariantKey v)) = Some (keyed v)) \<and>
    GetVariant t s' k (VariantKey v) = Inr (Some (Some (keyed v), b)) \<and>
    (\<forall>k' vk. k' \<noteq> k \<longrightarrow> GetMeta t s' k' = GetMeta t s k' \<and> GetVariant t s' k' vk = GetVariant t s k' vk)"
  using ts.get_meta_set [of s now k m v b ttl s' t] ts.get_variant_set [of s now k m v b ttl s' t "VariantKey v"]
    ts.set_frame [of s now k m v b ttl s' _ t] assms
  by (simp add: teststore_def)

lemma store_roundtrip_witness:
  "GetVariant 5 demo_store ''k'' [] = Inr (Some (Some (demo_variant\<lparr>VariantKey := ''default''\<rparr>), ''hi''))"
  using store_roundtrip [OF usable_NewStore demo_store_set, of 5]
  by (simp add: tadd_def keyed_def variant_key_def demo_variant_def)

text \<open>
  A purge reports whether the key was stored. A hard purge removes the metadata
  and every variant; a soft purge keeps both readable and marks the entry. Other keys are
  not touched.
\<close>

theorem purge_one_key:
  assumes "usable s" and "store_inv s" and "Purge now s k soft = (r, s')"
  shows "r = Inr (if map_of (sMeta s) k = None then 0 else 1) \<and>
    (\<not> soft \<longrightarrow> GetMeta t s' k = Inr (None, False) \<and> GetVariant t s' k vk = Inr None) \<and>
    (soft \<longrightarrow> (\<exists>mo sp. GetMeta t s k = Inr (mo, sp) \<and> GetMeta t s' k = Inr (mo, mo \<noteq> None)) \<and>
      GetVariant t s' k vk = GetVariant t s k vk) \<and>
    (\<forall>k'. k' \<noteq> k \<longrightarrow> GetMeta t s' k' = GetMeta t s k' \<and> GetVariant t s' k' vk = GetVariant t s k' vk)"
proof -
  obtain n where r: "r = Inr n" using Purge_usable [OF assms(1), of now k soft] assms(3) by auto
  obtain mo sp where g: "GetMeta t s k = Inr (mo, sp)"
    using ts.get_meta_up [OF assms(1), of t k] by (auto simp: teststore_def)
  have "usable s'" using Purge_usable [OF assms(1), of now k soft] assms(3) by auto
  moreover have "map_of (sVariants s') k = None" if "\<not> soft"
  proof (cases "map_of (sMeta s) k")
    case None
    then have "k \<notin> fst ` set (sVariants s)" using assms(2) by (simp add: store_inv_def map_of_eq_None_iff)
    moreover have "s' = s" using None assms(1,3) by (simp add: Purge_usable_eq)
    ultimately show ?thesis by (simp add: map_of_eq_None_iff)
  next
    case (Some e)
    then show ?thesis using that assms(1,3) remove_hard_absent by (auto simp: Purge_usable_eq)
  qed
  ultimately have "GetVariant t s' k vk = Inr None" if "\<not> soft"
    using that by (simp add: usable_def GetVariant_def)
  moreover have "r = Inr (if map_of (sMeta s) k = None then 0 else 1)"
    using assms(1,3) by (auto simp: Purge_usable_eq split: option.splits)
  moreover have "GetMeta t s' k = Inr (None, False)" if "\<not> soft" using Purge_hard [OF assms(1)] that assms(3) r by simp
  moreover have "GetMeta t s' k = Inr (mo, mo \<noteq> None) \<and> GetVariant t s' k vk = GetVariant t s k vk" if soft
    using Purge_soft [OF assms(1) _ g, of now n s' vk] that assms(3) r by simp
  moreover have "GetMeta t s' k' = GetMeta t s k' \<and> GetVariant t s' k' vk = GetVariant t s k' vk" if "k' \<noteq> k" for k'
    using same_at_reads [OF Purge_same_at [OF assms(1) _ that]] assms(3) r by simp
  ultimately show ?thesis using g by blast
qed

lemma purge_one_key_witness:
  "\<exists>s'. Purge 1 demo_store ''k'' True = (Inr 1, s') \<and> GetMeta 5 s' ''k'' = Inr (fst (projr (GetMeta 5 demo_store ''k'')), True)"
proof -
  obtain r s' where p: "Purge 1 demo_store ''k'' True = (r, s')" by (cases "Purge 1 demo_store ''k'' True")
  have k: "map_of (sMeta demo_store) ''k'' \<noteq> None"
    by (simp add: demo_store_def SetVariant_def NewStore_def Let_def)
  obtain vs where g: "GetMeta 5 demo_store ''k'' = Inr (Some (demo_meta [''t'']\<lparr>Variants := vs\<rparr>), False)"
    using store_roundtrip [OF usable_NewStore demo_store_set, of 5] by (auto simp: tadd_def)
  from purge_one_key [OF demo_store_usable reachable_inv [OF demo_store_reachable] p, of 5 "[]"] k g p
  show ?thesis by auto
qed

text \<open>
  A hard purge by tag leaves no readable entry that carries the tag, and does
  not change the entry of any key that was not indexed under it; a soft purge marks every
  readable entry that carries the tag.
\<close>

theorem tag_purge_complete:
  assumes "reachable s" and "usable s" and "PurgeByTag now s tag soft = (r, s')"
  shows "(\<not> soft \<longrightarrow> GetMeta t s' k = Inr (Some m, sp) \<longrightarrow> tag \<notin> set (Tags m)) \<and>
    (soft \<longrightarrow> GetMeta t s' k = Inr (Some m, sp) \<longrightarrow> tag \<in> set (Tags m) \<longrightarrow> sp) \<and>
    (k \<notin> set (tag_keys s tag) \<longrightarrow> GetMeta t s' k = GetMeta t s k \<and> GetVariant t s' k vk = GetVariant t s k vk)"
proof -
  let ?s = "snd (foldl (purge_one soft) (0, s) (tag_keys s tag))"
  have s': "sMeta s' = sMeta ?s" "sVariants s' = sVariants ?s" "closed s' = closed ?s"
    "getMetaHook s' = getMetaHook ?s" "getVariantHook s' = getVariantHook ?s"
    using assms(2,3) PurgeByTag_eq [of s now tag soft]
    by (cases "soft \<or> tag_keys s tag = []"; simp add: usable_def split: prod.splits; fastforce)+
  have same: "same_at k s s'" if "k \<notin> set (tag_keys s tag)"
    using foldl_purge_one_same_at [OF that, of s soft 0] s' by (simp add: same_at_def)
  have us: "\<not> closed s'" "getMetaHook s' = None"
    using foldl_purge_one_usable [OF assms(2), of soft 0 "tag_keys s tag"] s' by (simp_all add: usable_def)
  have "k \<notin> set (tag_keys s tag) \<and> tag \<notin> set (Tags m) \<or> soft \<and> sp"
    if "GetMeta t s' k = Inr (Some m, sp)"
  proof -
    from that us obtain e m0 where e: "map_of (sMeta s') k = Some e" "meta e = Some m0" "Tags m = Tags m0" "sp = softPurged e"
      by (auto simp: GetMeta_def Let_def split: option.splits if_splits)
    show ?thesis
    proof (cases "k \<in> set (tag_keys s tag)")
      case True
      then show ?thesis using e s' by (auto simp: foldl_purge_one_meta soft_flag_def split: if_splits)
    next
      case False
      then have "map_of (sMeta s) k = Some e" using e s' by (simp add: foldl_purge_one_meta)
      then show ?thesis using False e reachable_inv [OF assms(1)] by (auto simp: store_inv_def)
    qed
  qed
  then show ?thesis using same same_at_reads [of k s s' t vk] by blast
qed

lemma tag_purge_complete_witness:
  "\<exists>r s'. PurgeByTag 1 demo_store ''t'' True = (r, s') \<and> (\<forall>m sp. GetMeta 5 s' ''k'' = Inr (Some m, sp) \<longrightarrow> ''t'' \<in> set (Tags m) \<longrightarrow> sp)"
proof -
  obtain r s' where p: "PurgeByTag 1 demo_store ''t'' True = (r, s')" by (cases "PurgeByTag 1 demo_store ''t'' True")
  from tag_purge_complete [OF demo_store_reachable demo_store_usable p, of 5 "''k''"] p show ?thesis by blast
qed

text \<open>
  A hard purge by pattern removes exactly the entries whose key matches and
  reports their number; a soft purge marks exactly these. Other entries are not touched.
\<close>

theorem pattern_purge_exact:
  assumes "reachable s" and "usable s" and "PurgeByPattern now s pat soft = (r, s')"
  shows "r = Inr (int (card {k \<in> fst ` set (sMeta s). matchGlob pat k})) \<and>
    (matchGlob pat k \<and> \<not> soft \<longrightarrow> GetMeta t s' k = Inr (None, False)) \<and>
    (matchGlob pat k \<and> soft \<longrightarrow> GetMeta t s' k = Inr (Some m, sp) \<longrightarrow> sp) \<and>
    (\<not> matchGlob pat k \<longrightarrow> GetMeta t s' k = GetMeta t s k \<and> GetVariant t s' k vk = GetVariant t s k vk)"
proof -
  let ?ks = "filter (matchGlob pat) (map fst (sMeta s))"
  have d: "distinct ?ks" using reachable_inv [OF assms(1)] by (simp add: store_inv_def)
  have s': "s' = snd (foldl (purge_one soft) (0, s) ?ks)" and r: "r = Inr (fst (foldl (purge_one soft) (0, s) ?ks))"
    using assms(2,3) by (auto simp: usable_def PurgeByPattern_def Let_def split: prod.splits)
  have us: "usable s'" using foldl_purge_one_usable [OF assms(2)] by (simp add: s')
  have "filter (\<lambda>k. map_of (sMeta s) k \<noteq> None) ?ks = ?ks"
    by (rule filter_True) (auto simp: map_of_eq_None_iff)
  then have "r = Inr (int (length ?ks))" using foldl_purge_one_count [OF d, of soft 0 s] by (simp only: r) simp
  also have "length ?ks = card {k \<in> fst ` set (sMeta s). matchGlob pat k}"
  proof -
    have "set ?ks = {k \<in> fst ` set (sMeta s). matchGlob pat k}" by auto
    then show ?thesis using distinct_card [OF d] by simp
  qed
  finally have "r = Inr (int (card {k \<in> fst ` set (sMeta s). matchGlob pat k}))" .
  moreover have mo: "map_of (sMeta s') k = (if matchGlob pat k then if soft then map_option soft_flag (map_of (sMeta s) k) else None
      else map_of (sMeta s) k)"
    by (auto simp: s' foldl_purge_one_meta map_of_eq_None_iff) (metis map_of_eq_None_iff option.map_disc_iff)+
  then have "matchGlob pat k \<and> \<not> soft \<longrightarrow> GetMeta t s' k = Inr (None, False)" using GetMeta_absent [OF us] by simp
  moreover have "matchGlob pat k \<and> soft \<longrightarrow> GetMeta t s' k = Inr (Some m, sp) \<longrightarrow> sp"
    using mo us by (auto simp: usable_def GetMeta_def Let_def soft_flag_def split: option.splits if_splits)
  moreover have "\<not> matchGlob pat k \<longrightarrow> same_at k s s'" using foldl_purge_one_same_at [of k ?ks s soft 0] by (simp add: s')
  ultimately show ?thesis using same_at_reads [of k s s' t vk] by blast
qed

lemma pattern_purge_exact_witness:
  "\<exists>s'. PurgeByPattern 1 demo_store ''k*'' False = (Inr 1, s') \<and> GetMeta 5 s' ''k'' = Inr (None, False)"
proof -
  obtain r s' where p: "PurgeByPattern 1 demo_store ''k*'' False = (r, s')" by (cases "PurgeByPattern 1 demo_store ''k*'' False")
  have m: "matchGlob ''k*'' ''k''" by code_simp
  have "sMeta demo_store = [(''k'', snd (hd (sMeta demo_store)))]"
    by (simp add: demo_store_def SetVariant_def NewStore_def Let_def)
  then have "fst ` set (sMeta demo_store) = {''k''}" by (metis fst_conv image_empty image_insert list.set(1) list.set(2))
  with m have "{k \<in> fst ` set (sMeta demo_store). matchGlob ''k*'' k} = {''k''}" by auto
  with pattern_purge_exact [OF demo_store_reachable demo_store_usable p, of "''k''" 5] m p
  show ?thesis by auto
qed

end
