(* ===== verification/PurgeOps.thy ===== *)
theory PurgeOps
  imports CacheKeys TestStore
begin

text \<open>
  Model of \<^verbatim>\<open>src/purge.go\<close>: a purge target (a path or a URL) becomes an exact primary key or
  a glob pattern over primary keys. An error of \<^verbatim>\<open>url.Parse\<close> is \<open>Inl\<close>.
\<close>

section \<open>Operations\<close>

text \<open>The scheme is taken from the text of the target, not from the parsed URL.\<close>

definition target_scheme :: "bytes \<Rightarrow> bytes" where
  "target_scheme target =
     (if HasPrefix target ''/'' then []
      else if HasPrefix target ''https://'' then ''https''
      else if HasPrefix target ''http://'' then ''http''
      else [])"

definition parse_target :: "goenv \<Rightarrow> bytes \<Rightarrow> URL option" where
  "parse_target env target =
     (if HasPrefix target ''/'' then url_Parse env target
      else url_Parse env (if Contains target ''://'' then target else ''http://'' @ target))"

text \<open>
  The query string of a target. The code parses \<^verbatim>\<open>http://x?\<close> followed by the raw query again
  and ignores the error; \<open>reparsed_query\<close> below shows that this gives the raw query back.
\<close>

definition target_query :: "goenv \<Rightarrow> URL \<Rightarrow> CacheKey \<Rightarrow> bytes" where
  "target_query env parsed cfg =
     (case url_Parse env (''http://x?'' @ RawQuery parsed) of
        None \<Rightarrow> []
      | Some fakeURL \<Rightarrow> buildQueryString (RawQuery fakeURL) cfg)"

definition scheme_part :: "CacheKey \<Rightarrow> bytes \<Rightarrow> bytes" where
  "scheme_part cfg scheme = (if IncludeProtocol cfg \<and> scheme \<noteq> [] then ''s='' @ scheme @ '':'' else [])"

definition target_path :: "CacheKey \<Rightarrow> URL \<Rightarrow> bytes" where
  "target_path cfg parsed = clean_key_path cfg (if Path parsed = [] then ''/'' else Path parsed)"

definition buildPurgeOperation :: "goenv \<Rightarrow> bytes \<Rightarrow> CacheKey option \<Rightarrow> error + (bool \<times> bytes list)" where
  "buildPurgeOperation env target cfg0 =
     (if target = [] then Inr (False, [])
      else
        let cfg = (case cfg0 of None \<Rightarrow> zero_CacheKey | Some c \<Rightarrow> c)
        in case parse_target env target of
             None \<Rightarrow> Inl ''parse error''
           | Some parsed \<Rightarrow>
               let scheme = target_scheme target;
                   host = normalizeHost (Host parsed) scheme;
                   start = ''p='' @ writeEscapedPath (target_path cfg parsed);
                   hasQuery = (\<not> ExcludeQuery cfg \<and> RawQuery parsed \<noteq> []);
                   qs = (if hasQuery then target_query env parsed cfg else [])
               in if qs \<noteq> [] then
                    if ExcludeHost cfg \<or> host \<noteq> [] then
                      let key = start @ '':''
                            @ (if \<not> ExcludeHost cfg \<and> host \<noteq> [] then ''h='' @ host @ '':'' else [])
                            @ scheme_part cfg scheme @ ''qs='' @ qs
                      in if IncludedHeaderNames cfg = [] \<and> IncludedCookieNames cfg = []
                         then Inr (True, [key @ '':m=GET:''])
                         else Inr (False, [key @ '':*''])
                    else Inr (False, [start @ '':h=*:'' @ scheme_part cfg scheme @ ''qs='' @ qs @ '':*''])
                  else if \<not> ExcludeHost cfg \<and> host \<noteq> []
                    then Inr (False, [start @ '':h='' @ host @ '':'' @ scheme_part cfg scheme @ ''*''])
                  else Inr (False, [start @ '':*'']))"

definition buildPurgePrefixOperation :: "goenv \<Rightarrow> bytes \<Rightarrow> CacheKey option \<Rightarrow> error + bytes list" where
  "buildPurgePrefixOperation env pre cfg0 =
     (if pre = [] then Inl ''empty prefix is not allowed''
      else
        let cfg = (case cfg0 of None \<Rightarrow> zero_CacheKey | Some c \<Rightarrow> c)
        in case parse_target env pre of
             None \<Rightarrow> Inl ''parse error''
           | Some parsed \<Rightarrow>
               let scheme = target_scheme pre;
                   host = normalizeHost (Host parsed) scheme;
                   start = ''p='' @ writeEscapedPath (target_path cfg parsed) @ ''*''
               in if \<not> ExcludeHost cfg \<and> host \<noteq> []
                  then Inr [start @ '':h='' @ host @ '':'' @ scheme_part cfg scheme @ ''*'']
                  else Inr [start])"

section \<open>Glob patterns\<close>

definition glob_literal :: "bytes \<Rightarrow> bool" where
  "glob_literal s \<longleftrightarrow> CHR ''*'' \<notin> set s \<and> CHR ''?'' \<notin> set s \<and> CHR 0x5C \<notin> set s"

lemma glob_items_literal: "glob_literal s \<Longrightarrow> glob_items (s @ t) = map Lit s @ glob_items t"
proof (induction s)
  case (Cons c s)
  then show ?case by (cases "s @ t") (auto simp: glob_literal_def)
qed simp

lemma glob_items_star: "glob_items (CHR ''*'' # t) = AnySeq # glob_items t"
  by (cases t) auto

lemma glob_match_Lits: "glob_match (map Lit s @ ps) t \<longleftrightarrow> (\<exists>r. t = s @ r \<and> glob_match ps r)"
  by (induction s arbitrary: t) (auto split: list.splits)

lemma glob_match_AnySeq:
  "glob_match (AnySeq # ps) t \<longleftrightarrow> (\<exists>u r. t = u @ r \<and> CHR 0x0A \<notin> set u \<and> glob_match ps r)"
proof (induction t)
  case (Cons d t)
  show ?case
  proof
    assume "glob_match (AnySeq # ps) (d # t)"
    then show "\<exists>u r. d # t = u @ r \<and> CHR 0x0A \<notin> set u \<and> glob_match ps r"
      using Cons.IH by (auto intro: exI [of _ "[]"]) (metis append_Cons set_ConsD)
  next
    assume "\<exists>u r. d # t = u @ r \<and> CHR 0x0A \<notin> set u \<and> glob_match ps r"
    then obtain u r where u: "d # t = u @ r" "CHR 0x0A \<notin> set u" "glob_match ps r" by blast
    then show "glob_match (AnySeq # ps) (d # t)"
      using Cons.IH by (cases u) auto
  qed
qed simp

lemma matchGlob_prefix:
  assumes "glob_literal s"
  shows "matchGlob (s @ ''*'') t \<longleftrightarrow> (\<exists>r. t = s @ r \<and> CHR 0x0A \<notin> set r)"
proof -
  have "glob_items (s @ ''*'') = map Lit s @ [AnySeq]"
    using glob_items_literal [OF assms, of "''*''"] by simp
  then show ?thesis by (simp add: matchGlob_def glob_match_Lits glob_match_AnySeq)
qed

lemma matchGlob_two:
  assumes "glob_literal s" and "glob_literal u" and "CHR 0x0A \<notin> set x" and "CHR 0x0A \<notin> set r"
  shows "matchGlob (s @ ''*'' @ u @ ''*'') (s @ x @ u @ r)"
proof -
  have items: "glob_items (s @ ''*'' @ u @ ''*'') = map Lit s @ AnySeq # map Lit u @ [AnySeq]"
    using glob_items_literal [OF assms(1), of "''*'' @ u @ ''*''"] glob_items_literal [OF assms(2), of "''*''"]
      glob_items_star [of "u @ ''*''"] by simp
  have "glob_match (map Lit u @ [AnySeq]) (u @ r)"
    using assms(4) by (simp add: glob_match_Lits glob_match_AnySeq)
  then have "glob_match (AnySeq # map Lit u @ [AnySeq]) (x @ u @ r)"
    using assms(3) glob_match_AnySeq [of "map Lit u @ [AnySeq]" "x @ u @ r"] by blast
  then have "glob_match (map Lit s @ AnySeq # map Lit u @ [AnySeq]) (s @ x @ u @ r)"
    using glob_match_Lits [of s "AnySeq # map Lit u @ [AnySeq]" "s @ x @ u @ r"] by blast
  then show ?thesis unfolding matchGlob_def items .
qed

text \<open>No byte of an escaped path is a glob operator.\<close>

lemma writeEscapedPath_literal: "glob_literal (writeEscapedPath p)"
proof -
  have "\<not> path_segment_byte c" if "c \<in> {CHR ''*'', CHR ''?'', CHR 0x5C}" for c
    using that by (auto simp: path_segment_byte_def is_alnum_def is_upper_def is_lower_def is_digit_def is_mark_def)
  then have "c \<notin> set (writeEscapedPath p)" if "c \<in> {CHR ''*'', CHR ''?'', CHR 0x5C}" for c
    using that writeEscapedPath_bytes [of c p] by auto
  then show ?thesis by (simp add: glob_literal_def)
qed

lemma writeEscapedPath_no_newline: "CHR 0x0A \<notin> set (writeEscapedPath p)"
  by (auto dest!: writeEscapedPath_bytes
      simp: path_segment_byte_def is_alnum_def is_upper_def is_lower_def is_digit_def is_mark_def)

text \<open>Parsing \<^verbatim>\<open>http://x?q\<close> gives the query \<open>q\<close> back.\<close>

lemma cut_query_x:
  assumes "q \<noteq> []"
  shows "cut_query (''//x?'' @ q) = (''//x'', q, False)"
proof -
  have "\<not> (HasSuffix (''//x?'' @ q) ''?'' \<and> count_list (''//x?'' @ q) (CHR ''?'') = 1)"
  proof
    assume a: "HasSuffix (''//x?'' @ q) ''?'' \<and> count_list (''//x?'' @ q) (CHR ''?'') = 1"
    then obtain p where "''//x?'' @ q = p @ ''?''" by (auto simp: HasSuffix_iff)
    then have "last q = CHR ''?''" using assms by (metis last_appendR last_snoc)
    then have "CHR ''?'' \<in> set q" using assms last_in_set by metis
    then show False using a count_list_0_iff [of q "CHR ''?''"] by simp
  qed
  then show ?thesis by (simp add: cut_query_def Cut_def HasPrefix_def)
qed

lemma reparsed_query:
  assumes "parseAuthority env ''x'' = Some (user, h)" and "q \<noteq> []"
    and "CHR ''#'' \<notin> set q" and "\<not> list_ex is_ctl_byte q"
  shows "\<exists>u. url_Parse env (''http://x?'' @ q) = Some u \<and> RawQuery u = q"
proof -
  let ?s = "''http://x?'' @ q"
  have ix: "Index t ''#'' = None" if "CHR ''#'' \<notin> set t" for t
    using that by (induction t) (auto simp: HasPrefix_def)
  have cut: "Cut ?s ''#'' = (?s, [], False)" using ix [of ?s] assms(3) by (simp add: Cut_def)
  have ctl: "\<not> list_ex is_ctl_byte ?s" using assms(4) by (simp add: is_ctl_byte_def)
  have sch: "getScheme ?s = Some (''http'', ''//x?'' @ q)"
    by (simp add: getScheme_def is_upper_def is_lower_def is_digit_def)
  have ne: "?s \<noteq> ''*''" by simp
  have "parse_after_scheme env ''http'' (''//x?'' @ q) =
      setPath (empty_URL\<lparr>Scheme := ''http'', RawQuery := q, ForceQuery := False, User := user, Host := h\<rparr>) []"
    using assms(1) by (simp add: parse_after_scheme_def cut_query_x [OF assms(2), simplified] HasPrefix_def)
  moreover have "ToLower ''http'' = ''http''" by (simp add: ToLower_def lower_byte_def is_upper_def)
  ultimately show ?thesis
    using ne ctl by (simp add: url_Parse_def cut sch Let_def setPath_def del: append_Cons append.simps)
qed

lemma set_cut_query:
  assumes "cut_query rest = (r, q, f)"
  shows "set q \<subseteq> set rest"
  using assms by (auto simp: cut_query_def Cut_def split: option.splits if_splits dest: in_set_dropD)

lemma setPath_RawQuery: "setPath u p = Some v \<Longrightarrow> RawQuery v = RawQuery u"
  by (auto simp: setPath_def split: option.splits)

lemma parse_after_scheme_RawQuery:
  assumes "parse_after_scheme env sch rest = Some u"
  shows "set (RawQuery u) \<subseteq> set rest"
proof -
  obtain r q f where c: "cut_query rest = (r, q, f)" by (cases "cut_query rest") auto
  have "RawQuery u = q"
    using assms
    by (auto simp: parse_after_scheme_def c Let_def dest!: setPath_RawQuery split: if_splits option.splits)
  then show ?thesis using set_cut_query [OF c] by simp
qed

lemma getScheme_subset: "getScheme s = Some (sch, rest) \<Longrightarrow> set rest \<subseteq> set s"
  by (auto simp: getScheme_def split: option.splits dest: in_set_dropD)

lemma url_Parse_RawQuery:
  assumes "url_Parse env raw = Some u"
  shows "CHR ''#'' \<notin> set (RawQuery u) \<and> \<not> list_ex is_ctl_byte (RawQuery u)"
proof -
  let ?s = "fst (Cut raw ''#'')"
  have "Index raw ''#'' = Some i \<Longrightarrow> CHR ''#'' \<notin> set (take i raw)" for i
    by (induction raw arbitrary: i) (auto simp: HasPrefix_def split: if_splits)
  moreover have "Index raw ''#'' = None \<Longrightarrow> CHR ''#'' \<notin> set raw"
    by (induction raw) (auto simp: HasPrefix_def split: if_splits)
  ultimately have h: "CHR ''#'' \<notin> set ?s" by (auto simp: Cut_def split: option.splits)
  obtain v where v: "RawQuery u = RawQuery v" and
    p: "(if ?s = ''*'' then Some (empty_URL\<lparr>Path := ''*''\<rparr>)
         else case getScheme ?s of None \<Rightarrow> None | Some (sch, rest) \<Rightarrow> parse_after_scheme env (ToLower sch) rest) = Some v"
    and ctl: "\<not> list_ex is_ctl_byte ?s"
    using assms by (auto simp: url_Parse_def Let_def split: prod.splits if_splits option.splits)
  have "set (RawQuery v) \<subseteq> set ?s"
    using p parse_after_scheme_RawQuery getScheme_subset
    by (auto split: if_splits option.splits simp: empty_URL_def) blast+
  then show ?thesis using h ctl v by (auto simp: list_ex_iff)
qed

lemma target_query_eq:
  assumes "parse_target env target = Some u" and "parseAuthority env ''x'' = Some (user, h)" and "RawQuery u \<noteq> []"
  shows "target_query env u cfg = buildQueryString (RawQuery u) cfg"
proof -
  have "CHR ''#'' \<notin> set (RawQuery u) \<and> \<not> list_ex is_ctl_byte (RawQuery u)"
    using assms(1) url_Parse_RawQuery by (auto simp: parse_target_def split: if_splits)
  with reparsed_query [OF assms(2,3)] show ?thesis by (auto simp: target_query_def)
qed

section \<open>The requests a purge target aims at\<close>

definition target_host :: "bytes \<Rightarrow> URL \<Rightarrow> bytes" where
  "target_host target u = normalizeHost (Host u) (target_scheme target)"

definition target_qs :: "CacheKey \<Rightarrow> URL \<Rightarrow> bytes" where
  "target_qs cfg u = (if \<not> ExcludeQuery cfg \<and> RawQuery u \<noteq> [] then buildQueryString (RawQuery u) cfg else [])"

text \<open>
  The request has the target's path; where the target names a host or has a query string,
  the same host and query string; where the scheme is part of the key, the target names it,
  unless the pattern leaves it open.
\<close>

definition aimed_at :: "CacheKey \<Rightarrow> bytes \<Rightarrow> URL \<Rightarrow> Request \<Rightarrow> bool" where
  "aimed_at cfg target u r \<longleftrightarrow>
     path_of_key cfg r = target_path cfg u \<and>
     (\<not> ExcludeHost cfg \<and> target_host target u \<noteq> [] \<longrightarrow> host_of_key cfg r = target_host target u) \<and>
     (target_qs cfg u \<noteq> [] \<longrightarrow> query_of_key cfg r = target_qs cfg u) \<and>
     (target_qs cfg u \<noteq> [] \<and> \<not> ExcludeHost cfg \<longrightarrow> host_of_key cfg r \<noteq> []) \<and>
     (IncludeProtocol cfg \<longrightarrow> resolveScheme r = target_scheme target \<or>
        target_scheme target = [] \<and> (target_qs cfg u = [] \<or> \<not> ExcludeHost cfg \<and> target_host target u = []))"

lemma buildPurgeOperation_eq:
  assumes "cfg = key_cfg cfg0" and "parse_target env target = Some u" and "target \<noteq> []"
    and "parseAuthority env ''x'' = Some (user, h)"
  shows "buildPurgeOperation env target cfg0 =
    (let start = ''p='' @ writeEscapedPath (target_path cfg u); sp = scheme_part cfg (target_scheme target);
         host = target_host target u; qs = target_qs cfg u
     in if qs \<noteq> [] \<and> (ExcludeHost cfg \<or> host \<noteq> []) then
          if IncludedHeaderNames cfg = [] \<and> IncludedCookieNames cfg = []
          then Inr (True, [start @ '':'' @ opt_seg ''h'' (if ExcludeHost cfg then [] else host) (sp @ ''qs='' @ qs @ '':m=GET:'')])
          else Inr (False, [start @ '':'' @ opt_seg ''h'' (if ExcludeHost cfg then [] else host) (sp @ ''qs='' @ qs @ '':*'')])
        else if qs \<noteq> [] then Inr (False, [start @ '':h=*:'' @ sp @ ''qs='' @ qs @ '':*''])
        else if \<not> ExcludeHost cfg \<and> host \<noteq> [] then Inr (False, [start @ '':h='' @ host @ '':'' @ sp @ ''*''])
        else Inr (False, [start @ '':*'']))"
proof -
  have q: "(if \<not> ExcludeQuery cfg \<and> RawQuery u \<noteq> [] then target_query env u cfg else []) = target_qs cfg u"
    using target_query_eq [OF assms(2,4)] by (simp add: target_qs_def)
  have c: "(case cfg0 of None \<Rightarrow> zero_CacheKey | Some c \<Rightarrow> c) = cfg" by (simp add: assms(1) key_cfg_def)
  show ?thesis
    using assms(2,3) by (simp add: buildPurgeOperation_def c q Let_def target_host_def opt_seg_def)
qed

lemma glob_literal_append [simp]: "glob_literal (s @ t) \<longleftrightarrow> glob_literal s \<and> glob_literal t"
  and glob_literal_Nil [simp]: "glob_literal []"
  and glob_literal_Cons [simp]: "glob_literal (c # t) \<longleftrightarrow> c \<notin> {CHR ''*'', CHR ''?'', CHR 0x5C} \<and> glob_literal t"
  by (auto simp: glob_literal_def)

lemma QueryEscape_literal [simp]: "glob_literal (QueryEscape s)"
  by (auto simp: glob_literal_def is_alnum_def is_upper_def is_lower_def is_digit_def is_mark_def
      dest!: set_QueryEscape)

lemma Join_literal: "glob_literal sep \<Longrightarrow> \<forall>x \<in> set xs. glob_literal x \<Longrightarrow> glob_literal (Join sep xs)"
  by (induction sep xs rule: Join.induct) auto

lemma buildQueryString_literal: "glob_literal (buildQueryString q cfg)"
proof -
  have r: "glob_literal (render_param kv)" for kv by (simp add: render_param_def)
  have "glob_literal (buildUnsortedQueryString q cfg)"
    unfolding buildUnsortedQueryString_def using r by (intro Join_literal) auto
  moreover have "glob_literal (Join ''&'' (concat (map (\<lambda>k. map (\<lambda>v. render_param (k, v)) (f k)) ks)))" for f ks
    using r by (intro Join_literal) auto
  then have "glob_literal (buildSortedQueryString q cfg)"
    by (cases "ParseQuery q") (simp add: buildSortedQueryString_def Let_def del: map_map)
  ultimately show ?thesis by (simp add: buildQueryString_def)
qed

lemma target_qs_literal: "glob_literal (target_qs cfg u)"
  by (simp add: target_qs_def buildQueryString_literal)

lemma scheme_part_literal: "glob_literal (scheme_part cfg (target_scheme target))"
  by (simp add: scheme_part_def target_scheme_def)

lemma resolveScheme_not_Nil [simp]: "resolveScheme r \<noteq> []"
  by (simp add: resolveScheme_def)

lemma aimed_scheme:
  assumes "IncludeProtocol cfg \<longrightarrow> resolveScheme r = sch"
  shows "opt_seg ''s'' (if IncludeProtocol cfg then resolveScheme r else []) R = scheme_part cfg sch @ R"
  using assms resolveScheme_not_Nil [of r] by (auto simp: opt_seg_def scheme_part_def)

lemma matchGlob_prefixI:
  "glob_literal s \<Longrightarrow> CHR 0x0A \<notin> set (s @ r) \<Longrightarrow> matchGlob (s @ ''*'') (s @ r)"
  by (simp add: matchGlob_prefix)

text \<open>The four shapes of a pattern, each against the key of a request.\<close>

lemma host_pattern_matches:
  assumes "CHR 0x0A \<notin> set (A @ '':h='' @ H @ '':'' @ opt_seg ''s'' S R)" and "glob_literal A" and "glob_literal H"
    and "sp = [] \<or> opt_seg ''s'' S R = sp @ R" and "glob_literal sp"
  shows "matchGlob (A @ '':h='' @ H @ '':'' @ sp @ ''*'') (A @ '':h='' @ H @ '':'' @ opt_seg ''s'' S R)"
proof -
  obtain R' where R': "opt_seg ''s'' S R = sp @ R'" using assms(4) by auto
  show ?thesis
    using matchGlob_prefixI [of "A @ '':h='' @ H @ '':'' @ sp" R'] assms by (simp add: R')
qed

lemma open_host_pattern_matches:
  assumes "CHR 0x0A \<notin> set (A @ '':h='' @ H @ '':'' @ opt_seg ''s'' S (''qs='' @ Q @ '':'' @ R))"
    and "glob_literal A" and "glob_literal Q"
    and "sp = [] \<or> opt_seg ''s'' S (''qs='' @ Q @ '':'' @ R) = sp @ ''qs='' @ Q @ '':'' @ R" and "glob_literal sp"
  shows "matchGlob (A @ '':h=*:'' @ sp @ ''qs='' @ Q @ '':*'')
    (A @ '':h='' @ H @ '':'' @ opt_seg ''s'' S (''qs='' @ Q @ '':'' @ R))"
proof -
  obtain x where x: "H @ '':'' @ opt_seg ''s'' S (''qs='' @ Q @ '':'' @ R) = x @ ('':'' @ sp @ ''qs='' @ Q @ '':'') @ R"
  proof (cases "opt_seg ''s'' S (''qs='' @ Q @ '':'' @ R) = sp @ ''qs='' @ Q @ '':'' @ R")
    case True
    then show ?thesis using that [of H] by simp
  next
    case False
    then have "sp = []" "S \<noteq> []" using assms(4) by (auto simp: opt_seg_def)
    then show ?thesis using that [of "H @ '':s='' @ S"] by (simp add: opt_seg_def)
  qed
  then have "CHR 0x0A \<notin> set (x @ R)" using assms(1) by auto
  then have "matchGlob ((A @ '':h='') @ ''*'' @ ('':'' @ sp @ ''qs='' @ Q @ '':'') @ ''*'')
      ((A @ '':h='') @ x @ ('':'' @ sp @ ''qs='' @ Q @ '':'') @ R)"
    using assms by (intro matchGlob_two) auto
  moreover have "A @ '':h=*:'' @ sp @ ''qs='' @ Q @ '':*'' =
      (A @ '':h='') @ ''*'' @ ('':'' @ sp @ ''qs='' @ Q @ '':'') @ ''*''" by simp
  moreover have "A @ '':h='' @ H @ '':'' @ opt_seg ''s'' S (''qs='' @ Q @ '':'' @ R) =
      (A @ '':h='') @ x @ ('':'' @ sp @ ''qs='' @ Q @ '':'') @ R" by (simp only: x append.assoc)
  ultimately show ?thesis by (simp only:)
qed

section \<open>Properties\<close>

lemma target_covers:
  assumes cfg: "cfg = key_cfg cfg0" and "parse_target env target = Some u" and "target \<noteq> []"
    and "parseAuthority env ''x'' = Some (user, h)"
    and res: "buildPurgeOperation env target cfg0 = Inr (exact, ks)"
    and aim: "aimed_at cfg target u r"
    and host: "glob_literal (target_host target u)" and nl: "CHR 0x0A \<notin> set (generatePrimaryKey r cfg0)"
  shows "(exact \<longrightarrow> method_of_key r = ''GET'' \<longrightarrow> ks = [generatePrimaryKey r cfg0]) \<and>
    (\<not> exact \<longrightarrow> (\<exists>p. ks = [p] \<and> matchGlob p (generatePrimaryKey r cfg0)))"
proof -
  let ?A = "''p='' @ writeEscapedPath (target_path cfg u)" and ?sch = "target_scheme target"
  let ?sp = "scheme_part cfg ?sch" and ?host = "target_host target u" and ?qs = "target_qs cfg u"
  let ?H = "if ExcludeHost cfg then [] else ?host"
  let ?S = "if IncludeProtocol cfg then resolveScheme r else []"
  let ?M = "''m='' @ method_of_key r @ '':'' @ extra_of_key cfg r"
  let ?Q = "opt_seg ''qs'' (query_of_key cfg r) ?M"
  have key: "generatePrimaryKey r cfg0 = ?A @ '':'' @ opt_seg ''h'' (host_of_key cfg r) (opt_seg ''s'' ?S ?Q)"
    using aim by (simp add: generatePrimaryKey_parts [OF cfg] aimed_at_def)
  have lit: "glob_literal ?A" "glob_literal ?sp" "glob_literal ?qs" "glob_literal ?H"
    using host by (simp_all add: writeEscapedPath_literal scheme_part_literal target_qs_literal)
  have spc: "?sp = [] \<or> opt_seg ''s'' ?S R = ?sp @ R" for R
    using aim aimed_scheme [of cfg r ?sch R] by (auto simp: aimed_at_def scheme_part_def)
  note op = res [unfolded buildPurgeOperation_eq [OF cfg assms(2-4)] Let_def]
  consider (known) "?qs \<noteq> []" "ExcludeHost cfg \<or> ?host \<noteq> []" | (open_host) "?qs \<noteq> []" "\<not> ExcludeHost cfg" "?host = []"
    | (host) "?qs = []" "\<not> ExcludeHost cfg" "?host \<noteq> []" | (path) "?qs = []" "ExcludeHost cfg \<or> ?host = []"
    by blast
  then show ?thesis
  proof cases
    case known
    have H: "host_of_key cfg r = ?H" using aim known by (auto simp: aimed_at_def host_of_key_def)
    have "IncludeProtocol cfg \<longrightarrow> resolveScheme r = ?sch" using aim known by (auto simp: aimed_at_def)
    then have "opt_seg ''s'' ?S ?Q = ?sp @ ?Q" by (rule aimed_scheme)
    moreover have "?Q = ''qs='' @ ?qs @ '':'' @ ?M" using aim known by (simp add: aimed_at_def opt_seg_def)
    ultimately have k: "generatePrimaryKey r cfg0 = ?A @ '':'' @ opt_seg ''h'' ?H (?sp @ ''qs='' @ ?qs @ '':'' @ ?M)"
      using key H by simp
    show ?thesis
    proof (cases "IncludedHeaderNames cfg = [] \<and> IncludedCookieNames cfg = []")
      case True
      then show ?thesis using op known k by (simp add: extra_of_key_def opt_seg_def split: if_splits)
    next
      case False
      let ?p = "?A @ '':'' @ opt_seg ''h'' ?H (?sp @ ''qs='' @ ?qs @ '':'')"
      have e: "generatePrimaryKey r cfg0 = ?p @ ?M" using k by (simp add: opt_seg_def)
      have "glob_literal ?p" using lit by (simp add: opt_seg_def)
      from matchGlob_prefixI [OF this, of ?M] nl
      have "matchGlob (?p @ ''*'') (generatePrimaryKey r cfg0)" unfolding e by blast
      then show ?thesis using op known False by (auto simp: opt_seg_def split: if_splits)
    qed
  next
    case open_host
    have Q: "?Q = ''qs='' @ ?qs @ '':'' @ ?M" and H: "host_of_key cfg r \<noteq> []"
      using aim open_host by (simp_all add: aimed_at_def opt_seg_def)
    have "generatePrimaryKey r cfg0 = ?A @ '':h='' @ host_of_key cfg r @ '':'' @ opt_seg ''s'' ?S (''qs='' @ ?qs @ '':'' @ ?M)"
      using key H by (simp only: Q) (simp add: opt_seg_def)
    with open_host_pattern_matches [OF _ lit(1,3) spc lit(2), of "host_of_key cfg r" ?M] nl
    show ?thesis using op open_host by (simp only:) auto
  next
    case host
    have "generatePrimaryKey r cfg0 = ?A @ '':h='' @ ?host @ '':'' @ opt_seg ''s'' ?S ?Q"
      using key aim host by (simp add: aimed_at_def opt_seg_def)
    with host_pattern_matches [OF _ lit(1) _ spc lit(2), of ?host ?Q] nl lit(4) host
    show ?thesis using op by (simp only:) auto
  next
    case path
    have "matchGlob ((?A @ '':'') @ ''*'') (generatePrimaryKey r cfg0)"
      using matchGlob_prefixI [of "?A @ '':''"] nl lit(1) by (simp add: key)
    then show ?thesis using op path by auto
  qed
qed

text \<open>
  Property C33. A purge by target reaches every request it aims at: an exact purge names the
  primary key of the \<^verbatim>\<open>GET\<close> request for that URL, and otherwise the single pattern matches
  the primary key of each such request, whatever its method, headers and cookies.
\<close>

theorem purge_covers:
  assumes cfg: "cfg = key_cfg cfg0" and "parse_target env target = Some u" and "target \<noteq> []"
    and "parseAuthority env ''x'' = Some (user, h)"
    and res: "buildPurgeOperation env target cfg0 = Inr (exact, ks)"
    and aim: "aimed_at cfg target u r"
    and host: "glob_literal (target_host target u)" and nl: "CHR 0x0A \<notin> set (generatePrimaryKey r cfg0)"
  shows "(exact \<longrightarrow> method_of_key r = ''GET'' \<longrightarrow> ks = [generatePrimaryKey r cfg0]) \<and>
    (\<not> exact \<longrightarrow> (\<exists>p. ks = [p] \<and> matchGlob p (generatePrimaryKey r cfg0)))"
  using assms by (rule target_covers)

lemma purge_covers_witness:
  "matchGlob ''p=/a:h=a.org:*'' (generatePrimaryKey (demo_request ''A.org'' ''/a'' ''x=1'' []) None)"
proof -
  let ?r = "demo_request ''A.org'' ''/a'' ''x=1'' []"
  let ?u = "empty_URL\<lparr>Scheme := ''http'', Host := ''a.org'', Path := ''/a''\<rparr>"
  have "zero_CacheKey = key_cfg None" by (simp add: key_cfg_def)
  moreover have "parse_target demo_env ''http://a.org/a'' = Some ?u" by code_simp
  moreover have "parseAuthority demo_env ''x'' = Some (None, ''x'')" by (simp add: demo_env_def)
  moreover have "buildPurgeOperation demo_env ''http://a.org/a'' None = Inr (False, [''p=/a:h=a.org:*''])" by code_simp
  moreover have "aimed_at zero_CacheKey ''http://a.org/a'' ?u ?r" by code_simp
  moreover have "glob_literal (target_host ''http://a.org/a'' ?u)" by code_simp
  moreover have "CHR 0x0A \<notin> set (generatePrimaryKey ?r None)" by code_simp
  ultimately show ?thesis using purge_covers [of zero_CacheKey None demo_env "''http://a.org/a''" ?u] by force
qed

text \<open>
  A purge by prefix reaches every request whose escaped path starts with the
  escaped path of the prefix and, where the prefix names a host, has that host (and the
  named scheme, where the scheme is part of the key).
\<close>

theorem prefix_purge_covers:
  assumes cfg: "cfg = key_cfg cfg0" and pt: "parse_target env pre = Some u" and "pre \<noteq> []"
    and path: "HasPrefix (writeEscapedPath (path_of_key cfg r)) (writeEscapedPath (target_path cfg u))"
    and h: "\<not> ExcludeHost cfg \<and> target_host pre u \<noteq> [] \<longrightarrow> host_of_key cfg r = target_host pre u"
    and s: "IncludeProtocol cfg \<longrightarrow> target_scheme pre = [] \<or> resolveScheme r = target_scheme pre"
    and host: "glob_literal (target_host pre u)" and nl: "CHR 0x0A \<notin> set (generatePrimaryKey r cfg0)"
  shows "\<exists>p. buildPurgePrefixOperation env pre cfg0 = Inr [p] \<and> matchGlob p (generatePrimaryKey r cfg0)"
proof -
  let ?A = "''p='' @ writeEscapedPath (target_path cfg u)" and ?sp = "scheme_part cfg (target_scheme pre)"
  let ?host = "target_host pre u" and ?S = "if IncludeProtocol cfg then resolveScheme r else []"
  let ?Q = "opt_seg ''qs'' (query_of_key cfg r) (''m='' @ method_of_key r @ '':'' @ extra_of_key cfg r)"
  obtain x where x: "writeEscapedPath (path_of_key cfg r) = writeEscapedPath (target_path cfg u) @ x"
    using path by (auto simp: HasPrefix_iff)
  have key: "generatePrimaryKey r cfg0 = ?A @ x @ '':'' @ opt_seg ''h'' (host_of_key cfg r) (opt_seg ''s'' ?S ?Q)"
    by (simp add: generatePrimaryKey_parts [OF cfg] x)
  have A: "glob_literal ?A" by (simp add: writeEscapedPath_literal)
  have c: "(case cfg0 of None \<Rightarrow> zero_CacheKey | Some c \<Rightarrow> c) = cfg" by (simp add: cfg key_cfg_def)
  have op: "buildPurgePrefixOperation env pre cfg0 = Inr [if \<not> ExcludeHost cfg \<and> ?host \<noteq> []
      then ?A @ ''*'' @ ('':h='' @ ?host @ '':'' @ ?sp) @ ''*'' else ?A @ ''*'']"
    using pt assms(3) by (simp add: buildPurgePrefixOperation_def c Let_def target_host_def)
  show ?thesis
  proof (cases "\<not> ExcludeHost cfg \<and> ?host \<noteq> []")
    case True
    obtain R where R: "opt_seg ''s'' ?S ?Q = ?sp @ R"
      using s aimed_scheme [of cfg r "target_scheme pre" ?Q] by (auto simp: scheme_part_def)
    have e: "generatePrimaryKey r cfg0 = ?A @ x @ ('':h='' @ ?host @ '':'' @ ?sp) @ R"
      using True h by (simp only: key R) (simp add: opt_seg_def [of "''h''"])
    have "matchGlob (?A @ ''*'' @ ('':h='' @ ?host @ '':'' @ ?sp) @ ''*'') (generatePrimaryKey r cfg0)"
      unfolding e using nl host by (intro matchGlob_two A) (auto simp: e scheme_part_literal)
    then show ?thesis using op True by simp
  next
    case False
    have "matchGlob (?A @ ''*'') (generatePrimaryKey r cfg0)"
      using matchGlob_prefixI [OF A] nl by (simp add: key)
    then show ?thesis using op False by auto
  qed
qed

lemma prefix_purge_covers_witness:
  "matchGlob ''p=/a*'' (generatePrimaryKey (demo_request ''a.org'' ''/ab/c'' [] []) None)"
proof -
  let ?r = "demo_request ''a.org'' ''/ab/c'' [] []" and ?u = "empty_URL\<lparr>Path := ''/a''\<rparr>"
  have "zero_CacheKey = key_cfg None" by (simp add: key_cfg_def)
  moreover have "parse_target demo_env ''/a'' = Some ?u" by code_simp
  moreover have "HasPrefix (writeEscapedPath (path_of_key zero_CacheKey ?r)) (writeEscapedPath (target_path zero_CacheKey ?u))"
    by code_simp
  moreover have "target_host ''/a'' ?u = []" by code_simp
  moreover have "\<not> IncludeProtocol zero_CacheKey" by (simp add: zero_CacheKey_def)
  moreover have "CHR 0x0A \<notin> set (generatePrimaryKey ?r None)" by code_simp
  moreover have "buildPurgePrefixOperation demo_env ''/a'' None = Inr [''p=/a*'']" by code_simp
  ultimately show ?thesis using prefix_purge_covers [of zero_CacheKey None demo_env "''/a''" ?u ?r] by simp
qed

text \<open>
  A purge of a path also hits entries of other paths: a colon is not escaped in a
  key, so the pattern for \<^verbatim>\<open>/a\<close> matches the key of \<^verbatim>\<open>/a:b\<close>.
\<close>

theorem path_purge_overmatch:
  "\<exists>p. buildPurgeOperation demo_env ''/a'' None = Inr (False, [p]) \<and>
     matchGlob p (generatePrimaryKey (demo_request ''a.org'' ''/a:b'' [] []) None)"
proof -
  have "buildPurgeOperation demo_env ''/a'' None = Inr (False, [''p=/a:*''])" by code_simp
  moreover have "matchGlob ''p=/a:*'' (generatePrimaryKey (demo_request ''a.org'' ''/a:b'' [] []) None)" by code_simp
  ultimately show ?thesis by blast
qed

text \<open>
  When the scheme is part of the key, an exact purge of a target that names a
  host but no scheme misses the entry under either scheme.
\<close>

theorem schemeless_purge_misses:
  "\<exists>cfg k. IncludeProtocol cfg \<and> buildPurgeOperation demo_env ''a.org/x?q=1'' (Some cfg) = Inr (True, [k]) \<and>
    generatePrimaryKey (demo_request ''a.org'' ''/x'' ''q=1'' []) (Some cfg) \<noteq> k \<and>
    generatePrimaryKey (demo_request ''a.org'' ''/x'' ''q=1'' []\<lparr>TLS := True\<rparr>) (Some cfg) \<noteq> k"
proof -
  let ?k = "''p=/x:h=a.org:qs=q=1:m=GET:''"
  have "buildPurgeOperation demo_env ''a.org/x?q=1'' (Some (zero_CacheKey\<lparr>IncludeProtocol := True\<rparr>)) = Inr (True, [?k])"
    by code_simp
  moreover have "generatePrimaryKey (demo_request ''a.org'' ''/x'' ''q=1'' []) (Some (zero_CacheKey\<lparr>IncludeProtocol := True\<rparr>)) \<noteq> ?k"
    by code_simp
  moreover have "generatePrimaryKey (demo_request ''a.org'' ''/x'' ''q=1'' []\<lparr>TLS := True\<rparr>) (Some (zero_CacheKey\<lparr>IncludeProtocol := True\<rparr>)) \<noteq> ?k"
    by code_simp
  moreover have "IncludeProtocol (zero_CacheKey\<lparr>IncludeProtocol := True\<rparr>)" by simp
  ultimately show ?thesis by blast
qed

end
