(* ===== verification/EsiScan.thy ===== *)
theory EsiScan
  imports GoURL StorageIface
begin

text \<open>
  Model of \<^verbatim>\<open>src/esi/scanner.go\<close>: the scanner that finds the ESI tags of a body and returns a
  list of fragments. The result \<open>None\<close> of \<open>Scan\<close> is a Go panic (an index out of range).
  Offsets are natural numbers here and \<^verbatim>\<open>int64\<close> in a fragment; a body is shorter than
  \<open>2 ^ 63\<close>.
\<close>

section \<open>Tags and attributes\<close>

abbreviation tagESIIncludeOpen :: bytes where
  "tagESIIncludeOpen \<equiv> ''<esi:include''"
abbreviation tagESIIncludeClose :: bytes where
  "tagESIIncludeClose \<equiv> ''</esi:include>''"
abbreviation tagESIRemoveOpen :: bytes where
  "tagESIRemoveOpen \<equiv> ''<esi:remove''"
abbreviation tagESIRemoveClose :: bytes where
  "tagESIRemoveClose \<equiv> ''</esi:remove>''"
abbreviation tagESICommentOpen :: bytes where
  "tagESICommentOpen \<equiv> ''<esi:comment''"
abbreviation tagESICommentClose :: bytes where
  "tagESICommentClose \<equiv> ''</esi:comment>''"
abbreviation tagESIInlineComment :: bytes where
  "tagESIInlineComment \<equiv> ''<!--esi''"
abbreviation tagHTMLCommentClose :: bytes where
  "tagHTMLCommentClose \<equiv> ''-->''"

definition isASCIIWhitespace :: "char \<Rightarrow> bool" where
  "isASCIIWhitespace c \<longleftrightarrow> c = CHR '' '' \<or> c = CHR 0x09 \<or> c = CHR 0x0A \<or> c = CHR 0x0D"

text \<open>\<^verbatim>\<open>scanTagHeaderEnd\<close>: the offset after the closing bracket and whether a slash precedes it.\<close>

fun header_end :: "nat \<Rightarrow> char option \<Rightarrow> char \<Rightarrow> bytes \<Rightarrow> (nat \<times> bool) option" where
  "header_end i inQuote prev [] = None"
| "header_end i inQuote prev (c # cs) =
     (case inQuote of
        Some q \<Rightarrow> header_end (Suc i) (if c = q then None else inQuote) c cs
      | None \<Rightarrow>
          if c = CHR 0x22 \<or> c = CHR 0x27 then header_end (Suc i) (Some c) c cs
          else if c = CHR ''>'' then Some (Suc i, prev = CHR ''/'')
          else header_end (Suc i) None c cs)"

definition scanTagHeaderEnd :: "bytes \<Rightarrow> nat \<Rightarrow> (nat \<times> bool) option" where
  "scanTagHeaderEnd b tagStart = header_end (Suc tagStart) None (b ! tagStart) (drop (Suc tagStart) b)"

fun unquoted_value :: "bytes \<Rightarrow> bytes" where
  "unquoted_value [] = []"
| "unquoted_value (c # cs) =
     (if isASCIIWhitespace c \<or> c = CHR ''>'' then []
      else if c = CHR ''/'' \<and> (cs = [] \<or> hd cs = CHR ''>'') then []
      else c # unquoted_value cs)"

text \<open>The value that starts at the first byte after the equals sign and blanks.\<close>

definition attribute_value :: "bytes \<Rightarrow> bytes" where
  "attribute_value s =
     (case s of
        [] \<Rightarrow> []
      | q # cs \<Rightarrow>
          if q = CHR 0x22 \<or> q = CHR 0x27
          then (case IndexByte cs q of None \<Rightarrow> cs | Some n \<Rightarrow> take n cs)
          else unquoted_value s)"

text \<open>
  \<^verbatim>\<open>extractAttributeRaw\<close>; nil and the empty slice are both the empty list. The callers pass
  non-empty names (an empty one would loop).
\<close>

function attribute_from :: "bytes \<Rightarrow> bytes \<Rightarrow> nat \<Rightarrow> bytes" where
  "attribute_from tagHeader attrName idx =
     (if attrName = [] \<or> length tagHeader \<le> idx then []
      else case Index (drop idx tagHeader) attrName of
        None \<Rightarrow> []
      | Some matchIdx \<Rightarrow>
          let attrStart = idx + matchIdx;
              afterIdx = attrStart + length attrName;
              validBefore = (attrStart = 0 \<or> isASCIIWhitespace (tagHeader ! (attrStart - 1)));
              rest = dropWhile isASCIIWhitespace (drop afterIdx tagHeader)
          in if \<not> validBefore \<or> length tagHeader \<le> afterIdx then attribute_from tagHeader attrName afterIdx
             else if rest = [] \<or> hd rest \<noteq> CHR ''='' then attribute_from tagHeader attrName afterIdx
             else attribute_value (dropWhile isASCIIWhitespace (tl rest)))"
  by pat_completeness auto
termination
proof (relation "measure (\<lambda>(h, n, i). length h - i)")
  have "length h - (i + x + length n) < length h - i" if "\<not> (n = [] \<or> length h \<le> i)" for h n :: bytes and i x
    using that by (cases n) auto
  then show "\<not> (n = [] \<or> length h \<le> i) \<Longrightarrow> Index (drop i h) n = Some x \<Longrightarrow> a = i + x \<Longrightarrow> e = a + length n \<Longrightarrow>
      v = (a = 0 \<or> isASCIIWhitespace (h ! (a - 1))) \<Longrightarrow> r = dropWhile isASCIIWhitespace (drop e h) \<Longrightarrow>
      \<not> v \<or> length h \<le> e \<Longrightarrow> ((h, n, e), h, n, i) \<in> measure (\<lambda>(h, n, i). length h - i)"
    and "\<not> (n = [] \<or> length h \<le> i) \<Longrightarrow> Index (drop i h) n = Some x \<Longrightarrow> a = i + x \<Longrightarrow> e = a + length n \<Longrightarrow>
      v = (a = 0 \<or> isASCIIWhitespace (h ! (a - 1))) \<Longrightarrow> r = dropWhile isASCIIWhitespace (drop e h) \<Longrightarrow>
      \<not> (\<not> v \<or> length h \<le> e) \<Longrightarrow> r = [] \<or> hd r \<noteq> CHR ''='' \<Longrightarrow> ((h, n, e), h, n, i) \<in> measure (\<lambda>(h, n, i). length h - i)"
    for h n i x a e v r by simp_all
qed simp

declare attribute_from.simps [simp del]

definition extractAttributeRaw :: "bytes \<Rightarrow> bytes \<Rightarrow> bytes" where
  "extractAttributeRaw tagHeader attrName = attribute_from tagHeader attrName 0"

definition extractAttribute :: "bytes \<Rightarrow> bytes \<Rightarrow> bytes" where
  "extractAttribute tagHeader attrName =
     (let b = extractAttributeRaw tagHeader attrName in if b = [] then [] else b)"

definition parseTimeout :: "goenv \<Rightarrow> bytes \<Rightarrow> int" where
  "parseTimeout env b =
     (let s = TrimSpace b
      in if s = [] then 0
         else case ParseDuration env s of
                Some d \<Rightarrow> if d \<le> 0 then 0 else quot d Millisecond
              | None \<Rightarrow>
                  (case ParseDuration env (s @ ''s'') of
                     Some d \<Rightarrow> if d \<le> 0 then 0 else quot d Millisecond
                   | None \<Rightarrow> 0))"

section \<open>Fragments\<close>

definition empty_fragment :: EsiFragment where
  "empty_fragment = \<lparr>StartPos = 0, EndPos = 0, Src = [], Alt = [], OnError = [], MaxDepth = 0, TimeoutMs = 0,
     InnerStartPos = 0, InnerEndPos = 0\<rparr>"

text \<open>A fragment without a source: the text from \<open>a\<close> to \<open>e\<close> is dropped.\<close>

definition strip :: "nat \<Rightarrow> nat \<Rightarrow> EsiFragment" where
  "strip a e = empty_fragment\<lparr>StartPos := int a, EndPos := int e\<rparr>"

definition parseESIInclude :: "goenv \<Rightarrow> bytes \<Rightarrow> nat \<Rightarrow> EsiFragment option \<times> nat" where
  "parseESIInclude env b tagStart =
     (case scanTagHeaderEnd b tagStart of
        None \<Rightarrow> (None, tagStart + 1)
      | Some (tagEndOffset, isSelfClosing) \<Rightarrow>
          let stop = (if isSelfClosing then tagEndOffset - 2 else tagEndOffset - 1);
              tagHeader = take (stop - tagStart) (drop tagStart b);
              timeoutRaw = extractAttributeRaw tagHeader ''timeout'';
              maxDepthRaw = extractAttributeRaw tagHeader ''max-depth'';
              maxDepth = (if maxDepthRaw = [] then 0
                          else case ParseUint (TrimSpace maxDepthRaw) 32 of Some v \<Rightarrow> v | None \<Rightarrow> 0);
              frag = \<lparr>StartPos = int tagStart, EndPos = int tagEndOffset,
                      Src = extractAttribute tagHeader ''src'', Alt = extractAttribute tagHeader ''alt'',
                      OnError = extractAttribute tagHeader ''onerror'', MaxDepth = maxDepth,
                      TimeoutMs = (if timeoutRaw = [] then 0 else parseTimeout env timeoutRaw),
                      InnerStartPos = 0, InnerEndPos = 0\<rparr>
          in if isSelfClosing then (Some frag, tagEndOffset)
             else case Index (drop tagEndOffset b) tagESIIncludeClose of
                    Some closeIdx \<Rightarrow>
                      let bodyEnd = tagEndOffset + closeIdx; fullEnd = bodyEnd + length tagESIIncludeClose
                      in (Some (frag\<lparr>EndPos := int fullEnd, InnerStartPos := int tagEndOffset,
                                     InnerEndPos := int bodyEnd\<rparr>), fullEnd)
                  | None \<Rightarrow> (Some frag, tagEndOffset))"

section \<open>Scanning\<close>

text \<open>
  What the loop does at one opening bracket: it goes on at an offset after emitting
  fragments, it enters a comment block, or it panics.
\<close>

datatype scan_action = Advance "EsiFragment list" nat | Block nat nat | ScanPanic

definition tag_at :: "bytes \<Rightarrow> nat \<Rightarrow> bytes \<Rightarrow> bool" where
  "tag_at b tagStart tag \<longleftrightarrow> tagStart + length tag \<le> length b \<and> take (length tag) (drop tagStart b) = tag"

definition scan_comment :: "bytes \<Rightarrow> nat \<Rightarrow> scan_action" where
  "scan_comment b tagStart =
     (if tag_at b tagStart tagESICommentOpen then
        if length b \<le> tagStart + length tagESICommentOpen then ScanPanic
        else let nextChar = b ! (tagStart + length tagESICommentOpen)
             in if isASCIIWhitespace nextChar \<or> nextChar = CHR ''/'' \<or> nextChar = CHR ''>'' then
                  (case scanTagHeaderEnd b tagStart of
                     None \<Rightarrow> Advance [] (tagStart + 1)
                   | Some (endOffset, isSelfClosing) \<Rightarrow>
                       if isSelfClosing then Advance [strip tagStart endOffset] endOffset
                       else case Index (drop endOffset b) tagESICommentClose of
                              Some closeIdx \<Rightarrow>
                                let tagEnd = endOffset + closeIdx + length tagESICommentClose
                                in Advance [strip tagStart tagEnd] tagEnd
                            | None \<Rightarrow> Advance [] (tagStart + 1))
                else Advance [] (tagStart + 1)
      else Advance [] (tagStart + 1))"

definition scan_remove :: "bytes \<Rightarrow> nat \<Rightarrow> scan_action" where
  "scan_remove b tagStart =
     (if tag_at b tagStart tagESIRemoveOpen then
        if length b \<le> tagStart + length tagESIRemoveOpen then ScanPanic
        else let nextChar = b ! (tagStart + length tagESIRemoveOpen)
             in if isASCIIWhitespace nextChar \<or> nextChar = CHR ''>'' then
                  (case Index (drop tagStart b) tagESIRemoveClose of
                     Some closeIdx \<Rightarrow>
                       let tagEnd = tagStart + closeIdx + length tagESIRemoveClose
                       in Advance [strip tagStart tagEnd] tagEnd
                   | None \<Rightarrow> scan_comment b tagStart)
                else scan_comment b tagStart
      else scan_comment b tagStart)"

definition scan_tag :: "goenv \<Rightarrow> bytes \<Rightarrow> nat \<Rightarrow> scan_action" where
  "scan_tag env b tagStart =
     (if tag_at b tagStart tagESIInlineComment then
        let contentStart = tagStart + length tagESIInlineComment
        in (case Index (drop contentStart b) tagHTMLCommentClose of
              Some closeIdx \<Rightarrow> Block contentStart (contentStart + closeIdx)
            | None \<Rightarrow> Advance [strip tagStart contentStart] contentStart)
      else if tag_at b tagStart tagESIIncludeOpen then
        if length b \<le> tagStart + length tagESIIncludeOpen then ScanPanic
        else let nextChar = b ! (tagStart + length tagESIIncludeOpen)
             in if isASCIIWhitespace nextChar \<or> nextChar = CHR ''/'' \<or> nextChar = CHR ''>''
                then (let (frag, nextPos) = parseESIInclude env b tagStart
                      in Advance (case frag of None \<Rightarrow> [] | Some f \<Rightarrow> [f]) nextPos)
                else scan_remove b tagStart
      else scan_remove b tagStart)"

definition shift :: "nat \<Rightarrow> EsiFragment \<Rightarrow> EsiFragment" where
  "shift n f =
     (let g = f\<lparr>StartPos := StartPos f + int n, EndPos := EndPos f + int n\<rparr>
      in if InnerStartPos f > 0
         then g\<lparr>InnerStartPos := InnerStartPos f + int n, InnerEndPos := InnerEndPos f + int n\<rparr> else g)"

definition needs_scan :: "bytes \<Rightarrow> bool" where
  "needs_scan b \<longleftrightarrow> b \<noteq> [] \<and> (Contains b ''<esi:'' \<or> Contains b tagESIInlineComment)"

lemma header_end_bounds:
  "header_end i q p cs = Some (e, sc) \<Longrightarrow> i < e \<and> e \<le> i + length cs"
  by (induction i q p cs rule: header_end.induct) (auto split: option.splits if_splits)

lemma scanTagHeaderEnd_bounds:
  "scanTagHeaderEnd b tagStart = Some (e, sc) \<Longrightarrow> tagStart < length b \<Longrightarrow> tagStart + 1 < e \<and> e \<le> length b"
  by (auto simp: scanTagHeaderEnd_def dest!: header_end_bounds)

lemma parseESIInclude_advance: "tagStart < snd (parseESIInclude env b tagStart)"
  by (auto simp: parseESIInclude_def scanTagHeaderEnd_def Let_def dest!: header_end_bounds split: option.splits)

lemma scan_tag_advance: "scan_tag env b tagStart = Advance fs p \<Longrightarrow> tagStart < p"
  using parseESIInclude_advance [of tagStart env b]
  by (auto simp: scan_tag_def scan_remove_def scan_comment_def Let_def scanTagHeaderEnd_def
      dest!: header_end_bounds split: if_splits option.splits prod.splits)

lemma scan_tag_block:
  assumes "scan_tag env b tagStart = Block cs ce"
  shows "tagStart < cs \<and> cs \<le> ce \<and> ce + 3 \<le> length b \<and> cs = tagStart + 7"
proof -
  from assms have t: "tag_at b tagStart tagESIInlineComment"
    by (auto simp: scan_tag_def scan_remove_def scan_comment_def Let_def split: if_splits option.splits prod.splits)
  with assms obtain n where n: "Index (drop (tagStart + 7) b) tagHTMLCommentClose = Some n"
    "cs = tagStart + 7" "ce = tagStart + 7 + n"
    by (auto simp: scan_tag_def Let_def eval_nat_numeral split: option.splits)
  from Index_Some_bound [OF n(1)] t have "tagStart + 7 + n + 3 \<le> length b"
    by (simp add: tag_at_def)
  with n show ?thesis by simp
qed

function scan_from :: "goenv \<Rightarrow> bytes \<Rightarrow> nat \<Rightarrow> EsiFragment list option" where
  "scan_from env b pos =
     (if length b \<le> pos then Some []
      else case IndexByte (drop pos b) (CHR ''<'') of
        None \<Rightarrow> Some []
      | Some nextIdx \<Rightarrow>
          (case scan_tag env b (pos + nextIdx) of
             ScanPanic \<Rightarrow> None
           | Advance fs p \<Rightarrow> map_option (\<lambda>rest. fs @ rest) (scan_from env b p)
           | Block contentStart closeStart \<Rightarrow>
               let innerBlock = take (closeStart - contentStart) (drop contentStart b)
               in (case (if needs_scan innerBlock then scan_from env innerBlock 0 else Some []) of
                     None \<Rightarrow> None
                   | Some inner \<Rightarrow>
                       map_option (\<lambda>rest. strip (pos + nextIdx) contentStart # map (shift contentStart) inner
                           @ strip closeStart (closeStart + length tagHTMLCommentClose) # rest)
                         (scan_from env b (closeStart + length tagHTMLCommentClose)))))"
  by pat_completeness auto
termination
  by (relation "measures [\<lambda>(e, b, p). length b, \<lambda>(e, b, p). length b - p]")
     (auto dest!: scan_tag_advance scan_tag_block simp: min_def)

declare scan_from.simps [simp del]

definition Scan :: "goenv \<Rightarrow> bytes \<Rightarrow> EsiFragment list option" where
  "Scan env b = (if needs_scan b then scan_from env b 0 else Some [])"

section \<open>Fragments in order\<close>

text \<open>
  The fragments lie between two offsets, are non-empty, do not overlap and are ordered; the
  inner body of a paired tag lies inside its fragment.
\<close>

definition frag_ok :: "EsiFragment \<Rightarrow> bool" where
  "frag_ok f \<longleftrightarrow> StartPos f < EndPos f \<and>
     (InnerStartPos f = 0 \<and> InnerEndPos f = 0 \<or>
      StartPos f < InnerStartPos f \<and> InnerStartPos f \<le> InnerEndPos f \<and> InnerEndPos f < EndPos f)"

fun frags_ok :: "int \<Rightarrow> int \<Rightarrow> EsiFragment list \<Rightarrow> bool" where
  "frags_ok lo hi [] \<longleftrightarrow> lo \<le> hi"
| "frags_ok lo hi (f # fs) \<longleftrightarrow> lo \<le> StartPos f \<and> frag_ok f \<and> frags_ok (EndPos f) hi fs"

lemma frags_ok_le: "frags_ok lo hi fs \<Longrightarrow> lo \<le> hi"
proof (induction fs arbitrary: lo)
  case (Cons f fs)
  then have "lo \<le> StartPos f" "StartPos f < EndPos f" "EndPos f \<le> hi" by (simp_all add: frag_ok_def)
  then show ?case by simp
qed simp

lemma frags_ok_append: "frags_ok lo mid fs \<Longrightarrow> frags_ok mid hi gs \<Longrightarrow> frags_ok lo hi (fs @ gs)"
proof (induction fs arbitrary: lo)
  case Nil
  then show ?case by (cases gs) auto
qed auto

lemma frags_ok_weaken: "frags_ok lo hi fs \<Longrightarrow> lo' \<le> lo \<Longrightarrow> hi \<le> hi' \<Longrightarrow> frags_ok lo' hi' fs"
  by (induction fs arbitrary: lo lo') auto

lemma frag_ok_strip [simp]: "a < e \<Longrightarrow> frag_ok (strip a e)"
  and strip_pos [simp]: "StartPos (strip a e) = int a" "EndPos (strip a e) = int e"
  by (simp_all add: frag_ok_def strip_def empty_fragment_def)

lemma frags_ok_shift: "frags_ok lo hi fs \<Longrightarrow> 0 \<le> lo \<Longrightarrow> frags_ok (lo + int n) (hi + int n) (map (shift n) fs)"
proof (induction fs arbitrary: lo)
  case (Cons f fs)
  then have "frag_ok f" "lo \<le> StartPos f" "frags_ok (EndPos f) hi fs" "0 \<le> EndPos f"
    by (auto simp: frag_ok_def)
  with Cons.IH [of "EndPos f"] Cons.prems(2) show ?case by (auto simp: frag_ok_def shift_def Let_def)
qed simp

lemma parseESIInclude_ok:
  assumes "parseESIInclude env b tagStart = (fo, p)" and "tagStart < length b"
  shows "p \<le> length b \<and> frags_ok (int tagStart) (int p) (case fo of None \<Rightarrow> [] | Some f \<Rightarrow> [f])"
proof (cases "scanTagHeaderEnd b tagStart")
  case None
  then show ?thesis using assms by (auto simp: parseESIInclude_def)
next
  case (Some es)
  obtain e sc where es: "es = (e, sc)" by (cases es)
  with Some scanTagHeaderEnd_bounds [of b tagStart e sc] assms(2)
  have e: "tagStart + 1 < e" "e \<le> length b" by auto
  show ?thesis
  proof (cases "Index (drop e b) tagESIIncludeClose")
    case None
    then show ?thesis using assms Some es e by (cases sc) (auto simp: parseESIInclude_def Let_def frag_ok_def)
  next
    case (Some n)
    then have "n + 14 \<le> length b - e" using Index_Some_bound [OF Some] by simp
    then show ?thesis using assms Some \<open>scanTagHeaderEnd b tagStart = Some es\<close> es e
      by (cases sc) (auto simp: parseESIInclude_def Let_def frag_ok_def)
  qed
qed

lemma scan_comment_ok:
  assumes "scan_comment b tagStart = Advance fs p" and "tagStart < length b"
  shows "p \<le> length b \<and> frags_ok (int tagStart) (int p) fs"
proof -
  have "e + n + 14 \<le> length b" if "Index (drop e b) tagESICommentClose = Some n" "e \<le> length b" for e n
    using Index_Some_bound [OF that(1)] that(2) by simp
  with assms show ?thesis
    by (auto simp: scan_comment_def Let_def dest!: scanTagHeaderEnd_bounds split: if_splits option.splits) force+
qed

lemma scan_remove_ok:
  assumes "scan_remove b tagStart = Advance fs p" and "tagStart < length b"
  shows "p \<le> length b \<and> frags_ok (int tagStart) (int p) fs"
proof -
  have "tagStart + n + 13 \<le> length b" if "Index (drop tagStart b) tagESIRemoveClose = Some n" for n
    using Index_Some_bound [OF that] assms(2) by simp
  with assms scan_comment_ok [of b tagStart fs p] show ?thesis
    by (auto simp: scan_remove_def Let_def split: if_splits option.splits)
qed

lemma scan_tag_ok:
  assumes "scan_tag env b tagStart = Advance fs p" and "tagStart < length b"
  shows "p \<le> length b \<and> frags_ok (int tagStart) (int p) fs"
proof (cases "tag_at b tagStart tagESIInlineComment")
  case True
  then have "tagStart + 7 \<le> length b" by (simp add: tag_at_def)
  then show ?thesis using True assms(1) by (auto simp: scan_tag_def Let_def split: option.splits)
next
  case False
  then show ?thesis
    using assms scan_remove_ok [of b tagStart fs p] parseESIInclude_ok [OF _ assms(2), of env]
    by (auto simp: scan_tag_def Let_def split: if_splits prod.splits)
qed

lemma scan_from_ok:
  "scan_from env b pos = Some fs \<Longrightarrow> pos \<le> length b \<Longrightarrow> frags_ok (int pos) (int (length b)) fs"
proof (induction env b pos arbitrary: fs rule: scan_from.induct)
  case (1 env b pos)
  show ?case
  proof (cases "length b \<le> pos \<or> IndexByte (drop pos b) (CHR ''<'') = None")
    case True
    then show ?thesis using "1.prems" by (auto simp: scan_from.simps [of env b pos] split: if_splits)
  next
    case False
    then obtain n where n: "IndexByte (drop pos b) (CHR ''<'') = Some n" and pos: "\<not> length b \<le> pos" by auto
    have ts: "pos + n < length b" using IndexByte_Some_bound [OF n] by (auto simp: less_diff_conv)
    show ?thesis
    proof (cases "scan_tag env b (pos + n)")
      case (Advance gs p)
      then obtain rest where r: "scan_from env b p = Some rest" "fs = gs @ rest"
        using "1.prems"(1) n pos by (auto simp: scan_from.simps [of env b pos])
      have "p \<le> length b" "frags_ok (int (pos + n)) (int p) gs" using scan_tag_ok [OF Advance ts] by auto
      moreover have "frags_ok (int p) (int (length b)) rest"
        using "1.IH"(1) [OF pos n Advance] r calculation(1) by auto
      ultimately show ?thesis using r(2) by (auto intro: frags_ok_append frags_ok_weaken)
    next
      case (Block cs ce)
      let ?inner = "take (ce - cs) (drop cs b)"
      from scan_tag_block [OF Block] have cs: "pos + n < cs" "cs \<le> ce" "ce + 3 \<le> length b" by auto
      obtain inner rest where r: "(if needs_scan ?inner then scan_from env ?inner 0 else Some []) = Some inner"
        "scan_from env b (ce + 3) = Some rest"
        "fs = strip (pos + n) cs # map (shift cs) inner @ strip ce (ce + 3) # rest"
        using "1.prems"(1) n pos Block
        by (auto simp: scan_from.simps [of env b pos] Let_def eval_nat_numeral split: option.splits if_splits)
      have "frags_ok 0 (int (ce - cs)) inner"
      proof (cases "needs_scan ?inner")
        case True
        then show ?thesis using "1.IH"(2) [OF pos n Block refl True] r(1) cs by (auto simp: min_def split: if_splits)
      next
        case False
        then show ?thesis using r(1) by simp
      qed
      from frags_ok_shift [OF this, of cs] cs have i: "frags_ok (int cs) (int ce) (map (shift cs) inner)" by simp
      have "frags_ok (int (ce + 3)) (int (length b)) rest"
        using "1.IH"(3) [OF pos n Block refl r(1)] r(2) cs by (auto simp: eval_nat_numeral)
      then have "frags_ok (int ce) (int (length b)) (strip ce (ce + 3) # rest)" by simp
      with i have "frags_ok (int cs) (int (length b)) (map (shift cs) inner @ strip ce (ce + 3) # rest)"
        by (rule frags_ok_append)
      then show ?thesis using cs by (simp add: r(3))
    next
      case ScanPanic
      then show ?thesis using "1.prems"(1) n pos by (simp add: scan_from.simps [of env b pos])
    qed
  qed
qed

lemma Scan_ok: "Scan env b = Some fs \<Longrightarrow> frags_ok 0 (int (length b)) fs"
  using scan_from_ok [of env b 0 fs] by (auto simp: Scan_def split: if_splits)

section \<open>Properties\<close>

text \<open>
  Property C35. When the scanner returns, its fragments lie inside the body, are non-empty,
  ordered and disjoint, also inside comment blocks, and the inner body of a paired include
  lies inside its fragment.
\<close>

theorem scan_fragments_ordered:
  "Scan env b = Some fs \<Longrightarrow> frags_ok 0 (int (length b)) fs"
  by (rule Scan_ok)

lemma scan_fragments_ordered_witness:
  "\<exists>fs. Scan demo_env ''a<!--esi <esi:include src=x/>--><esi:remove>y</esi:remove>'' = Some fs \<and> length fs = 4 \<and>
     frags_ok 0 (int (length ''a<!--esi <esi:include src=x/>--><esi:remove>y</esi:remove>'')) fs"
proof -
  let ?b = "''a<!--esi <esi:include src=x/>--><esi:remove>y</esi:remove>''"
  have "Scan demo_env ?b \<noteq> None \<and> length (the (Scan demo_env ?b)) = 4" by code_simp
  then obtain fs where "Scan demo_env ?b = Some fs" "length fs = 4" by auto
  with scan_fragments_ordered [of demo_env ?b fs] show ?thesis by blast
qed

text \<open>
  A body that ends in the name of an include tag makes the scanner read past its
  end, which is a panic in Go.
\<close>

theorem scan_panics_at_end:
  assumes "CHR ''<'' \<notin> set pre"
  shows "Scan env (pre @ tagESIIncludeOpen) = None"
proof -
  let ?b = "pre @ tagESIIncludeOpen"
  have "IndexByte (pre @ CHR ''<'' # t) (CHR ''<'') = Some (length pre)" for t
    using assms by (induction pre) auto
  then have i: "IndexByte (drop 0 ?b) (CHR ''<'') = Some (length pre)" by simp
  have t: "tag_at ?b (length pre) tagESIIncludeOpen" "\<not> tag_at ?b (length pre) tagESIInlineComment"
    by (simp_all add: tag_at_def)
  have "scan_tag env ?b (length pre) = ScanPanic" unfolding scan_tag_def using t by simp
  then have "scan_from env ?b 0 = None" using i by (simp add: scan_from.simps [of env ?b 0])
  moreover have "?b = pre @ ''<esi:'' @ ''include''" by simp
  then have "Contains ?b ''<esi:''" unfolding Contains_iff by blast
  then have "needs_scan ?b" by (simp add: needs_scan_def)
  ultimately show ?thesis by (simp add: Scan_def)
qed

lemma scan_panics_at_end_witness: "Scan demo_env ''page <esi:include'' = None"
  using scan_panics_at_end [of "''page ''" demo_env] by simp

end
