(* ===== verification/EsiProcess.thy ===== *)
theory EsiProcess
  imports Headers EsiScan
begin

text \<open>
  Model of \<^verbatim>\<open>src/esi/processor.go\<close>: the header operations of the ESI processor, the resolution
  of fragments with depth limit, loop check, \<^verbatim>\<open>alt\<close> and fallback, nested expansion, and the
  splicing of the results into the document.

  What the fetch of one URL answers (in process or over the network, within the timeout of the tag
  and of the page) is the parameter \<open>fetch\<close>: a function of the URL and of the state that the code
  passes along in the context, so one reading of a page is taken against one snapshot of answers.
  The timeouts themselves and the flight group that fragments with the same URL share are not part of
  this theory: \<open>EsiFlight\<close> models the group and \<open>EsiRunner\<close> lets every fragment of a page have a
  \<open>fetch\<close> of its own. Whether time is left for the \<^verbatim>\<open>alt\<close> URL is the parameter \<open>alt_in_time\<close>.
\<close>

section \<open>Configuration and headers\<close>

record esi_config =
  requireSurrogateControl :: bool
  maxDepth :: nat
  maxTimeout :: duration
  maxConcurrentRequests :: int
  allowPrivateIPs :: bool
  allowedHosts :: "bytes list"
  allowPrivateIPsForAllowedHosts :: bool
  maxResponseSize :: int
  disableForwardCookies :: bool
  preserveETag :: bool
  includeErrorMarker :: bytes

text \<open>
  An option is a function that updates the configuration or fails; a nil option is \<open>None\<close>.
  The logger, the metrics registry, the HTTP client and the in-process fetcher are not part
  of the configuration here (\<^verbatim>\<open>src/esi/config.go\<close>).
\<close>

type_synonym esi_option = "esi_config \<Rightarrow> error + esi_config"

definition WithoutSurrogateControlRequirement :: esi_option where
  "WithoutSurrogateControlRequirement c = Inr (c\<lparr>requireSurrogateControl := False\<rparr>)"

definition WithMaxDepth :: "nat \<Rightarrow> esi_option" where
  "WithMaxDepth d c = (if d = 0 then Inl ''max depth must be greater than 0'' else Inr (c\<lparr>maxDepth := d\<rparr>))"

definition WithMaxTimeout :: "duration \<Rightarrow> esi_option" where
  "WithMaxTimeout d c = (if d \<le> 0 then Inl ''max timeout must be positive'' else Inr (c\<lparr>maxTimeout := d\<rparr>))"

definition WithMaxConcurrentRequests :: "int \<Rightarrow> esi_option" where
  "WithMaxConcurrentRequests n c =
     (if n \<le> 0 then Inl ''max concurrent requests must be positive'' else Inr (c\<lparr>maxConcurrentRequests := n\<rparr>))"

definition WithAllowPrivateIPs :: esi_option where
  "WithAllowPrivateIPs c = Inr (c\<lparr>allowPrivateIPs := True\<rparr>)"

definition WithAllowedHosts :: "bytes list \<Rightarrow> esi_option" where
  "WithAllowedHosts hosts c =
     (if list_ex (\<lambda>h. TrimSpace h = []) hosts then Inl ''allowed host cannot be empty''
      else Inr (c\<lparr>allowedHosts := hosts\<rparr>))"

definition WithAllowPrivateIPsForAllowedHosts :: esi_option where
  "WithAllowPrivateIPsForAllowedHosts c = Inr (c\<lparr>allowPrivateIPsForAllowedHosts := True\<rparr>)"

definition WithMaxResponseSize :: "int \<Rightarrow> esi_option" where
  "WithMaxResponseSize n c =
     (if n < 0 then Inl ''max response size cannot be negative'' else Inr (c\<lparr>maxResponseSize := n\<rparr>))"

definition WithoutForwardCookies :: esi_option where
  "WithoutForwardCookies c = Inr (c\<lparr>disableForwardCookies := True\<rparr>)"

definition WithIncludeErrorMarker :: "bytes \<Rightarrow> esi_option" where
  "WithIncludeErrorMarker m c = Inr (c\<lparr>includeErrorMarker := m\<rparr>)"

definition WithPreserveETag :: esi_option where
  "WithPreserveETag c = Inr (c\<lparr>preserveETag := True\<rparr>)"

definition default_esi_config :: esi_config where
  "default_esi_config = \<lparr>requireSurrogateControl = True, maxDepth = 3, maxTimeout = 30 * Second,
     maxConcurrentRequests = 8, allowPrivateIPs = False, allowedHosts = [],
     allowPrivateIPsForAllowedHosts = False, maxResponseSize = 10 * 1024 * 1024,
     disableForwardCookies = False, preserveETag = False, includeErrorMarker = []\<rparr>"

fun apply_esi_options :: "esi_option option list \<Rightarrow> esi_config \<Rightarrow> error + esi_config" where
  "apply_esi_options [] c = Inr c"
| "apply_esi_options (None # os) c = Inl ''esi: invalid option: option cannot be nil''"
| "apply_esi_options (Some o1 # os) c =
     (case o1 c of Inl e \<Rightarrow> Inl (''esi: invalid option: '' @ e) | Inr c' \<Rightarrow> apply_esi_options os c')"

definition NewProcessor :: "esi_option option list \<Rightarrow> error + esi_config" where
  "NewProcessor opts = apply_esi_options opts default_esi_config"

abbreviation headerSurrogateControl :: bytes where
  "headerSurrogateControl \<equiv> ''Surrogate-Control''"
abbreviation headerSurrogateCapability :: bytes where
  "headerSurrogateCapability \<equiv> ''Surrogate-Capability''"
abbreviation headerContentLength :: bytes where
  "headerContentLength \<equiv> ''Content-Length''"

definition surrogateCapabilityTitip :: bytes where
  "surrogateCapabilityTitip = ''titip='' @ [CHR 0x22] @ ''ESI/1.0'' @ [CHR 0x22]"

definition addSurrogateCapability :: "Header \<Rightarrow> bytes \<Rightarrow> Header" where
  "addSurrogateCapability h deviceToken =
     (let capability = (if deviceToken = [] \<or> deviceToken = ''titip'' then surrogateCapabilityTitip
                        else deviceToken @ ''='' @ [CHR 0x22] @ ''ESI/1.0'' @ [CHR 0x22]);
          existing = Get h headerSurrogateCapability
      in if existing = [] then Set h headerSurrogateCapability capability
         else if \<not> Contains existing capability
           then Set h headerSurrogateCapability (existing @ '', '' @ capability)
         else h)"

definition containsESI :: "bytes \<Rightarrow> bool" where
  "containsESI s \<longleftrightarrow> Contains s ''ESI/1.0'' \<or> Contains s ''esi/1.0''"

text \<open>The header of that name in any case, the canonical key first.\<close>

definition find_surrogate_control :: "Header \<Rightarrow> (bytes \<times> bytes list) option" where
  "find_surrogate_control h =
     (case map_of h headerSurrogateControl of
        Some vals \<Rightarrow> Some (headerSurrogateControl, vals)
      | None \<Rightarrow> List.find (\<lambda>(k, vv). EqualFold k headerSurrogateControl) h)"

definition CanProcess :: "esi_config \<Rightarrow> Header \<Rightarrow> bool" where
  "CanProcess p h =
     (if \<not> requireSurrogateControl p then True
      else case find_surrogate_control h of
             None \<Rightarrow> False
           | Some (k, vals) \<Rightarrow> list_ex containsESI vals)"

definition remaining_directives :: "bytes \<Rightarrow> bytes list" where
  "remaining_directives val =
     (if \<not> containsESI val then [val]
      else filter (\<lambda>t. t \<noteq> [] \<and> \<not> containsESI t) (map TrimSpace (SplitByte (CHR '','') val)))"

definition CleanSurrogateControl :: "Header \<Rightarrow> Header" where
  "CleanSurrogateControl h =
     (case find_surrogate_control h of
        None \<Rightarrow> h
      | Some (key, vals) \<Rightarrow>
          if vals = [] \<or> \<not> list_ex containsESI vals then h
          else let remaining = concat (map remaining_directives vals);
                   h1 = (if key \<noteq> headerSurrogateControl then AList.delete key h else h)
               in if remaining = [] then AList.delete headerSurrogateControl h1
                  else AList.update headerSurrogateControl [Join '', '' remaining] h1)"

record esi_result =
  resBody :: bytes
  resCookies :: "bytes list"

definition ReconcileHeaders :: "esi_config \<Rightarrow> Header \<Rightarrow> esi_result option \<Rightarrow> Header" where
  "ReconcileHeaders p h0 res =
     (let h = CleanSurrogateControl h0;
          etag = Get h headerETag;
          h = (if preserveETag p
               then (if etag \<noteq> [] \<and> \<not> HasPrefix etag ''W/'' \<and> \<not> HasPrefix etag ''w/''
                     then Set h headerETag (''W/'' @ etag) else h)
               else Del (Del h headerETag) headerLastModified)
      in case res of
           None \<Rightarrow> h
         | Some r \<Rightarrow>
             let h = (if Get h headerContentLength \<noteq> []
                      then Set h headerContentLength (FormatInt (int (length (resBody r)))) else h)
             in foldl (\<lambda>d c. Add d headerSetCookie c) h (resCookies r))"

section \<open>Resolution of fragments\<close>

record esiExecutionState =
  depth :: nat
  sMaxDepth :: nat
  visited :: "bytes list"

record rawFetchResult =
  rawBody :: bytes
  rawCookies :: "bytes list"

record fragmentResult =
  spec :: EsiFragment
  fBody :: bytes
  fCookies :: "bytes list"

definition safeSlice :: "bytes \<Rightarrow> int \<Rightarrow> int \<Rightarrow> bytes" where
  "safeSlice body start end1 =
     (if start \<le> 0 \<or> end1 \<le> start \<or> end1 > int (length body) then []
      else take (nat (end1 - start)) (drop (nat start) body))"

definition resolveFallback :: "esi_config \<Rightarrow> bytes \<Rightarrow> bytes \<Rightarrow> bytes" where
  "resolveFallback p innerBody onError =
     (if innerBody \<noteq> [] then innerBody
      else if EqualFold onError ''continue'' then []
      else if includeErrorMarker p \<noteq> [] then includeErrorMarker p
      else [])"

definition fallback_result :: "esi_config \<Rightarrow> bytes \<Rightarrow> EsiFragment \<Rightarrow> fragmentResult" where
  "fallback_result p parentBody f =
     \<lparr>spec = f, fBody = resolveFallback p (safeSlice parentBody (InnerStartPos f) (InnerEndPos f)) (OnError f),
      fCookies = []\<rparr>"

fun splice_from :: "bytes \<Rightarrow> nat \<Rightarrow> fragmentResult list \<Rightarrow> bytes" where
  "splice_from parent lastPos [] = (if lastPos < length parent then drop lastPos parent else [])"
| "splice_from parent lastPos (r # rs) =
     (let start = StartPos (spec r); end1 = EndPos (spec r)
      in if start < int lastPos \<or> start > int (length parent) \<or> end1 > int (length parent) \<or> start > end1
         then splice_from parent lastPos rs
         else take (nat start - lastPos) (drop lastPos parent) @ fBody r @ splice_from parent (nat end1) rs)"

definition spliceFragments :: "bytes \<Rightarrow> fragmentResult list \<Rightarrow> bytes" where
  "spliceFragments parent results = (if results = [] then parent else splice_from parent 0 results)"

definition effective_max_depth :: "esiExecutionState \<Rightarrow> EsiFragment \<Rightarrow> nat" where
  "effective_max_depth st f = (if MaxDepth f > 0 \<and> MaxDepth f < sMaxDepth st then MaxDepth f else sMaxDepth st)"

definition child_state :: "esiExecutionState \<Rightarrow> EsiFragment \<Rightarrow> bytes \<Rightarrow> esiExecutionState" where
  "child_state st f url = \<lparr>depth = depth st + 1, sMaxDepth = effective_max_depth st f, visited = url # visited st\<rparr>"

text \<open>
  One fragment, as \<^verbatim>\<open>executeFragments\<close> treats it: without a source it is its fallback; otherwise
  \<^verbatim>\<open>executeFragment\<close>. A panic of the scanner in the nested expansion is recovered there and
  gives the fallback.
\<close>

function executeFragment ::
    "goenv \<Rightarrow> esi_config \<Rightarrow> (bytes \<Rightarrow> esiExecutionState \<Rightarrow> rawFetchResult option) \<Rightarrow> (EsiFragment \<Rightarrow> bool)
     \<Rightarrow> bytes \<Rightarrow> EsiFragment \<Rightarrow> esiExecutionState \<Rightarrow> fragmentResult" where
  "executeFragment env p fetch alt_in_time parentBody f st =
     (if Src f = [] then fallback_result p parentBody f
      else if depth st \<ge> effective_max_depth st f then fallback_result p parentBody f
      else if Src f \<in> set (visited st) then fallback_result p parentBody f
      else
        let src_state = child_state st f (Src f); alt_state = child_state st f (Alt f)
        in case fetch (Src f) src_state of
             Some raw \<Rightarrow>
               (case Scan env (rawBody raw) of
                  None \<Rightarrow> fallback_result p parentBody f
                | Some frags \<Rightarrow>
                    let results = map (\<lambda>g. executeFragment env p fetch alt_in_time (rawBody raw) g src_state) frags
                    in \<lparr>spec = f, fBody = spliceFragments (rawBody raw) results,
                        fCookies = rawCookies raw @ concat (map fCookies results)\<rparr>)
           | None \<Rightarrow>
               if Alt f \<noteq> [] \<and> alt_in_time f then
                 (case fetch (Alt f) alt_state of
                    Some raw \<Rightarrow>
                      (case Scan env (rawBody raw) of
                         None \<Rightarrow> fallback_result p parentBody f
                       | Some frags \<Rightarrow>
                           let results = map (\<lambda>g. executeFragment env p fetch alt_in_time (rawBody raw) g alt_state) frags
                           in \<lparr>spec = f, fBody = spliceFragments (rawBody raw) results,
                               fCookies = rawCookies raw @ concat (map fCookies results)\<rparr>)
                  | None \<Rightarrow> fallback_result p parentBody f)
               else fallback_result p parentBody f)"
  by pat_completeness auto
termination
  by (relation "measure (\<lambda>(env, p, fetch, alt, b, f, st). sMaxDepth st - depth st)")
     (auto simp: child_state_def effective_max_depth_def split: if_splits)

declare executeFragment.simps [simp del]

definition executeFragments ::
    "goenv \<Rightarrow> esi_config \<Rightarrow> (bytes \<Rightarrow> esiExecutionState \<Rightarrow> rawFetchResult option) \<Rightarrow> (EsiFragment \<Rightarrow> bool)
     \<Rightarrow> bytes \<Rightarrow> EsiFragment list \<Rightarrow> esiExecutionState \<Rightarrow> fragmentResult list \<times> bytes list" where
  "executeFragments env p fetch alt_in_time parentBody fragments st =
     (let results = map (\<lambda>f. executeFragment env p fetch alt_in_time parentBody f st) fragments
      in (results, concat (map fCookies results)))"

definition initial_state :: "esi_config \<Rightarrow> Request \<Rightarrow> esiExecutionState" where
  "initial_state p r = \<lparr>depth = 0, sMaxDepth = maxDepth p,
     visited = (case rURL r of None \<Rightarrow> [] | Some u \<Rightarrow> if Path u \<noteq> [] then [Path u] else [])\<rparr>"

text \<open>\<open>st\<close> is the state found in the context of a nested in-process request, if any.\<close>

definition ProcessFragments ::
    "goenv \<Rightarrow> esi_config \<Rightarrow> (bytes \<Rightarrow> esiExecutionState \<Rightarrow> rawFetchResult option) \<Rightarrow> (EsiFragment \<Rightarrow> bool)
     \<Rightarrow> esiExecutionState option \<Rightarrow> Request \<Rightarrow> bytes \<Rightarrow> EsiFragment list \<Rightarrow> esi_result" where
  "ProcessFragments env p fetch alt_in_time st r parentBody fragments =
     (let (results, allCookies) = executeFragments env p fetch alt_in_time parentBody fragments
            (case st of Some s \<Rightarrow> s | None \<Rightarrow> initial_state p r)
      in \<lparr>resBody = spliceFragments parentBody results, resCookies = allCookies\<rparr>)"

section \<open>Splicing\<close>

text \<open>The text of a body outside its fragments, piece by piece, and its interleaving with replacements.\<close>

fun pieces :: "bytes \<Rightarrow> nat \<Rightarrow> EsiFragment list \<Rightarrow> bytes list" where
  "pieces b pos [] = [drop pos b]"
| "pieces b pos (f # fs) = take (nat (StartPos f) - pos) (drop pos b) # pieces b (nat (EndPos f)) fs"

fun weave :: "bytes list \<Rightarrow> bytes list \<Rightarrow> bytes" where
  "weave (x # xs) (y # ys) = x @ y @ weave xs ys"
| "weave xs ys = concat xs"

definition tag_text :: "bytes \<Rightarrow> EsiFragment \<Rightarrow> bytes" where
  "tag_text b f = take (nat (EndPos f) - nat (StartPos f)) (drop (nat (StartPos f)) b)"

lemma splice_from_weave:
  "frags_ok (int pos) (int (length b)) (map spec rs) \<Longrightarrow>
     splice_from b pos rs = weave (pieces b pos (map spec rs)) (map fBody rs)"
proof (induction rs arbitrary: pos)
  case (Cons r rs)
  let ?f = "spec r"
  from Cons.prems have f: "int pos \<le> StartPos ?f" "StartPos ?f < EndPos ?f"
    and rest: "frags_ok (EndPos ?f) (int (length b)) (map spec rs)" by (auto simp: frag_ok_def)
  have "EndPos ?f \<le> int (length b)" using frags_ok_le [OF rest] .
  moreover have "int (nat (EndPos ?f)) = EndPos ?f" using f by simp
  ultimately show ?case using f rest Cons.IH [of "nat (EndPos ?f)"] by (simp add: Let_def)
qed simp

lemma weave_tag_text:
  "frags_ok (int pos) (int (length b)) fs \<Longrightarrow> weave (pieces b pos fs) (map (tag_text b) fs) = drop pos b"
proof (induction fs arbitrary: pos)
  case (Cons f fs)
  from Cons.prems have f: "int pos \<le> StartPos f" "StartPos f < EndPos f"
    and rest: "frags_ok (EndPos f) (int (length b)) fs" by (auto simp: frag_ok_def)
  have "EndPos f \<le> int (length b)" using frags_ok_le [OF rest] .
  moreover have "int (nat (EndPos f)) = EndPos f" using f by simp
  ultimately have "weave (pieces b (nat (EndPos f)) fs) (map (tag_text b) fs) = drop (nat (EndPos f)) b"
    using rest Cons.IH [of "nat (EndPos f)"] by simp
  moreover have "pos \<le> nat (StartPos f)" "nat (StartPos f) \<le> nat (EndPos f)" using f by simp_all
  then have "take (nat (StartPos f) - pos) (drop pos b) @ tag_text b f @ drop (nat (EndPos f)) b = drop pos b"
    unfolding tag_text_def
    by (metis append_take_drop_id diff_add drop_drop le_add_diff_inverse2)
  ultimately show ?case by simp
qed simp

lemma length_splice_from:
  "frags_ok (int pos) (int (length b)) (map spec rs) \<Longrightarrow>
     int (length (splice_from b pos rs)) = int (length b) - int pos +
       (\<Sum>r\<leftarrow>rs. int (length (fBody r)) - (EndPos (spec r) - StartPos (spec r)))"
proof (induction rs arbitrary: pos)
  case (Cons r rs)
  let ?f = "spec r"
  from Cons.prems have f: "int pos \<le> StartPos ?f" "StartPos ?f < EndPos ?f"
    and rest: "frags_ok (EndPos ?f) (int (length b)) (map spec rs)" by (auto simp: frag_ok_def)
  have "EndPos ?f \<le> int (length b)" using frags_ok_le [OF rest] .
  moreover have "int (nat (EndPos ?f)) = EndPos ?f" using f by simp
  moreover from calculation f have "length (take (nat (StartPos ?f) - pos) (drop pos b)) = nat (StartPos ?f) - pos" by simp
  ultimately show ?case using f rest Cons.IH [of "nat (EndPos ?f)"] by (simp add: Let_def)
qed simp

lemma spec_executeFragment [simp]: "spec (executeFragment env p fetch alt b f st) = f"
  by (simp add: executeFragment.simps [of env p fetch alt b f st] fallback_result_def Let_def split: option.splits)

text \<open>A scanned body is spliced into the text outside its tags and the results of the tags.\<close>

lemma spliceFragments_weave:
  assumes "frags_ok 0 (int (length b)) (map spec rs)"
  shows "spliceFragments b rs = weave (pieces b 0 (map spec rs)) (map fBody rs)"
  using splice_from_weave [of 0 b rs] assms by (simp add: spliceFragments_def)

lemma executeFragment_guarded:
  assumes "sMaxDepth st \<le> M"
  shows "executeFragment env p (\<lambda>u s. if depth s \<le> M \<and> hd (visited s) = u then fetch u s else None) alt b f st =
    executeFragment env p fetch alt b f st"
  using assms
proof (induction env p fetch alt b f st rule: executeFragment.induct)
  case (1 env p fetch alt b f st)
  let ?g = "\<lambda>u s. if depth s \<le> M \<and> hd (visited s) = u then fetch u s else None"
  have c: "sMaxDepth (child_state st f u) \<le> M" "hd (visited (child_state st f u)) = u" for u
    using "1.prems" by (auto simp: child_state_def effective_max_depth_def)
  show ?case
  proof (cases "Src f = [] \<or> depth st \<ge> effective_max_depth st f \<or> Src f \<in> set (visited st)")
    case True
    then show ?thesis by (auto simp: executeFragment.simps [of _ _ _ _ b f st])
  next
    case False
    then have n: "Src f \<noteq> []" "\<not> effective_max_depth st f \<le> depth st" "Src f \<notin> set (visited st)" by auto
    then have d: "depth (child_state st f u) \<le> M" for u
      using "1.prems" by (auto simp: child_state_def effective_max_depth_def split: if_splits)
    have g: "?g u (child_state st f u) = fetch u (child_state st f u)" for u using c d by simp
    have src: "executeFragment env p ?g alt (rawBody raw) x (child_state st f (Src f)) =
        executeFragment env p fetch alt (rawBody raw) x (child_state st f (Src f))"
      if "fetch (Src f) (child_state st f (Src f)) = Some raw" "Scan env (rawBody raw) = Some frags" "x \<in> set frags" for raw frags x
      using "1.IH"(2) [OF n(1) n(2) n(3) refl refl that(1,2,3)] c by simp
    have alt: "executeFragment env p ?g alt (rawBody raw) x (child_state st f (Alt f)) =
        executeFragment env p fetch alt (rawBody raw) x (child_state st f (Alt f))"
      if "fetch (Src f) (child_state st f (Src f)) = None" "Alt f \<noteq> [] \<and> alt f"
        "fetch (Alt f) (child_state st f (Alt f)) = Some raw" "Scan env (rawBody raw) = Some frags" "x \<in> set frags" for raw frags x
      using "1.IH"(1) [OF n(1) n(2) n(3) refl refl that] c by simp
    show ?thesis
      using n src alt
      by (auto simp: executeFragment.simps [of _ _ _ _ b f st] d c(2) Let_def comp_def cong: map_cong split: option.splits)
  qed
qed

section \<open>Properties\<close>

text \<open>
  Property C34. ESI processing of a scanned document changes nothing outside its tags: the
  result is the text between the tags (which together with the tags themselves is the
  document) interleaved with the resolved fragments, in order. Its length is the one the
  code computes in advance.
\<close>

theorem esi_document:
  assumes "Scan env b = Some fs" and "start = (case st of Some s \<Rightarrow> s | None \<Rightarrow> initial_state p r)"
  shows "resBody (ProcessFragments env p fetch alt st r b fs) =
      weave (pieces b 0 fs) (map (\<lambda>f. fBody (executeFragment env p fetch alt b f start)) fs) \<and>
    weave (pieces b 0 fs) (map (tag_text b) fs) = b \<and>
    int (length (resBody (ProcessFragments env p fetch alt st r b fs))) = int (length b) +
      (\<Sum>f\<leftarrow>fs. int (length (fBody (executeFragment env p fetch alt b f start))) - (EndPos f - StartPos f))"
proof -
  let ?rs = "map (\<lambda>f. executeFragment env p fetch alt b f start) fs"
  have s: "map spec ?rs = fs" by (simp add: comp_def)
  have ok: "frags_ok 0 (int (length b)) fs" by (rule Scan_ok [OF assms(1)])
  have r: "resBody (ProcessFragments env p fetch alt st r b fs) = spliceFragments b ?rs"
    by (simp add: ProcessFragments_def executeFragments_def Let_def assms(2))
  have "spliceFragments b ?rs = weave (pieces b 0 fs) (map fBody ?rs)"
    using spliceFragments_weave [of b ?rs] ok by (simp only: s)
  moreover have "int (length (spliceFragments b ?rs)) = int (length b) +
      (\<Sum>r\<leftarrow>?rs. int (length (fBody r)) - (EndPos (spec r) - StartPos (spec r)))"
    using length_splice_from [of 0 b ?rs] ok by (simp only: s) (simp add: spliceFragments_def)
  moreover have "weave (pieces b 0 fs) (map (tag_text b) fs) = b" using weave_tag_text [of 0 b fs] ok by simp
  ultimately show ?thesis by (simp add: r comp_def)
qed

definition demo_esi :: esi_config where
  "demo_esi = default_esi_config"

definition demo_fetch :: "bytes \<Rightarrow> esiExecutionState \<Rightarrow> rawFetchResult option" where
  "demo_fetch u st = (if u = ''/f'' then Some \<lparr>rawBody = ''F'', rawCookies = []\<rparr> else None)"

definition demo_page :: Request where
  "demo_page = \<lparr>Method = ''GET'', rURL = None, rHost = ''a.org'', rHeader = [], TLS = False\<rparr>"

lemma esi_document_witness:
  "\<exists>fs. Scan demo_env ''a<esi:include src=/f />b'' = Some fs \<and>
     weave (pieces ''a<esi:include src=/f />b'' 0 fs) (map (tag_text ''a<esi:include src=/f />b'') fs) = ''a<esi:include src=/f />b'' \<and>
     resBody (ProcessFragments demo_env demo_esi demo_fetch (\<lambda>_. True) None demo_page ''a<esi:include src=/f />b'' fs) = ''aFb''"
proof -
  let ?b = "''a<esi:include src=/f />b''" and ?st = "initial_state demo_esi demo_page"
  have "Scan demo_env ?b \<noteq> None" by code_simp
  then obtain fs where fs: "Scan demo_env ?b = Some fs" by auto
  have "weave (pieces ?b 0 (the (Scan demo_env ?b)))
      (map (\<lambda>f. fBody (executeFragment demo_env demo_esi demo_fetch (\<lambda>_. True) ?b f ?st)) (the (Scan demo_env ?b))) = ''aFb''"
    by code_simp
  with esi_document [OF fs, where start = ?st and st = None and p = demo_esi and r = demo_page and fetch = demo_fetch
      and alt = "\<lambda>_. True"] fs
  show ?thesis by auto
qed

text \<open>
  Property C36. No include is fetched deeper than the configured depth, however the fetched
  documents include each other: cutting off every fetch beyond that depth changes no result.
\<close>

theorem fetch_depth_bounded:
  "fst (executeFragments env p fetch alt b fs (initial_state p r)) =
   fst (executeFragments env p (\<lambda>u s. if depth s \<le> maxDepth p \<and> hd (visited s) = u then fetch u s else None)
     alt b fs (initial_state p r))"
  by (simp add: executeFragments_def initial_state_def executeFragment_guarded)

end
