(* ===== verification/Compression.thy ===== *)
theory Compression
  imports Headers
begin

text \<open>
  Model of \<^verbatim>\<open>src/compress.go\<close>: a storage codec as a record of functions (\<open>None\<close> is an error; the
  destination buffer is always a fresh, non-nil one), the identity codec, the rules that
  bypass compression, and the contract of a codec. LZ4 and Zstandard are third-party streams:
  their encoder and decoder are parameters.
\<close>

section \<open>Codecs\<close>

record Compressor =
  cName :: bytes
  Compress :: "bytes \<Rightarrow> bytes option"
  Decompress :: "bytes \<Rightarrow> bytes option"

abbreviation StorageCompressionLZ4 :: bytes where
  "StorageCompressionLZ4 \<equiv> ''lz4''"
abbreviation StorageCompressionZstd :: bytes where
  "StorageCompressionZstd \<equiv> ''zstd''"
abbreviation StorageCompressionNone :: bytes where
  "StorageCompressionNone \<equiv> ''none''"

definition minCompressionSize :: nat where
  "minCompressionSize = 256"

definition noneCompressor :: Compressor where
  "noneCompressor = \<lparr>cName = StorageCompressionNone, Compress = Some, Decompress = Some\<rparr>"

definition lz4Compressor :: "(bytes \<Rightarrow> bytes option) \<Rightarrow> (bytes \<Rightarrow> bytes option) \<Rightarrow> Compressor" where
  "lz4Compressor enc dec = \<lparr>cName = StorageCompressionLZ4, Compress = enc, Decompress = dec\<rparr>"

definition zstdCompressor :: "(bytes \<Rightarrow> bytes option) \<Rightarrow> (bytes \<Rightarrow> bytes option) \<Rightarrow> Compressor" where
  "zstdCompressor enc dec = \<lparr>cName = StorageCompressionZstd, Compress = enc, Decompress = dec\<rparr>"

section \<open>Bypass of compression\<close>

definition isPrecompressedContentType :: "bytes \<Rightarrow> bool" where
  "isPrecompressedContentType ct0 =
     (if ct0 = [] then False
      else
        let (base, _, _) = Cut ct0 '';''; ct = TrimSpace (ToLower base)
        in if HasPrefix ct ''text/'' \<or> ct = ''application/json'' \<or> ct = ''application/javascript''
              \<or> ct = ''application/xml'' then False
           else if HasPrefix ct ''image/'' \<or> HasPrefix ct ''video/'' \<or> HasPrefix ct ''audio/''
             then ct \<noteq> ''image/svg+xml'' \<and> ct \<noteq> ''image/x-icon'' \<and> ct \<noteq> ''image/vnd.microsoft.icon''
           else Contains ct ''zip'' \<or> Contains ct ''gzip'' \<or> Contains ct ''compressed'' \<or> Contains ct ''zstd''
             \<or> Contains ct ''brotli'' \<or> Contains ct ''pdf'' \<or> Contains ct ''/tar'' \<or> Contains ct ''/x-tar'')"

definition resolveCompressor :: "Compressor option \<Rightarrow> Header \<Rightarrow> nat \<Rightarrow> Compressor" where
  "resolveCompressor configured headers bodyLen =
     (if bodyLen < minCompressionSize then noneCompressor
      else if Get headers headerContentEncoding \<noteq> [] then noneCompressor
      else if isPrecompressedContentType (Get headers headerContentType) then noneCompressor
      else case configured of None \<Rightarrow> noneCompressor | Some c \<Rightarrow> c)"

section \<open>The contract of a codec\<close>

text \<open>What is compressed is decompressed to the same bytes, and is not empty unless they are.\<close>

locale codec =
  fixes c :: Compressor
  assumes round_trip: "Compress c b = Some z \<Longrightarrow> Decompress c z = Some b"
    and not_empty: "Compress c b = Some z \<Longrightarrow> b \<noteq> [] \<Longrightarrow> z \<noteq> []"
begin

text \<open>A codec is injective on what it can compress.\<close>

lemma compress_inj: "Compress c b = Some z \<Longrightarrow> Compress c b' = Some z \<Longrightarrow> b = b'"
  using round_trip [of b z] round_trip [of b' z] by simp

end

interpretation identity: codec noneCompressor
  by unfold_locales (auto simp: noneCompressor_def)

text \<open>The codec that is resolved is the configured one or the identity, so the contract carries over.\<close>

lemma resolveCompressor_codec:
  assumes "codec cc"
  shows "codec (resolveCompressor (Some cc) h n)"
  using assms identity.codec_axioms by (simp add: resolveCompressor_def)

lemma resolveCompressor_name:
  "cName (resolveCompressor (Some cc) h n) \<in> {cName cc, StorageCompressionNone}"
  by (simp add: resolveCompressor_def noneCompressor_def)

end
