(* ===== verification/HttpWriter.thy ===== *)
theory HttpWriter
  imports GoNet
begin

text \<open>
  The response writer. \<open>writer\<close> models both the \<^verbatim>\<open>http.ResponseWriter\<close> of the client and the
  recorder of \<^verbatim>\<open>src/recorder.go\<close> (and \<^verbatim>\<open>src/esi/recorder.go\<close>), which the middleware passes to the
  origin: the header map, the status once it is written, the header as it was at that moment
  (what a client receives), and the body. The first call of \<open>WriteHeader\<close> decides; a \<open>Write\<close>
  without one implies status 200. This is what the recorder does with every number; the client's
  writer of \<^verbatim>\<open>net/http\<close> agrees with it on statuses from 200 to 999 (and 101), panics on a first status
  below 100 or above 999 and sends other 1xx ones without taking them as final. A property that
  claims the absence of panics restricts statuses accordingly (\<open>valid_writer\<close> in \<open>HandlerProps\<close>).

  An \<^verbatim>\<open>http.Handler\<close> is a function of the request, the writer it gets and the time; it returns
  the writer and the time when it is done, or \<open>None\<close> for a panic (in which case it is taken to
  have written nothing). Between two calls of handlers the clock stands still.
\<close>

record writer =
  wHeader :: Header
  wCode :: "int option"
  wSent :: Header
  wBody :: bytes

definition new_writer :: writer where
  "new_writer = \<lparr>wHeader = [], wCode = None, wSent = [], wBody = []\<rparr>"

definition WriteHeader :: "writer \<Rightarrow> int \<Rightarrow> writer" where
  "WriteHeader w code = (case wCode w of Some _ \<Rightarrow> w | None \<Rightarrow> w\<lparr>wCode := Some code, wSent := wHeader w\<rparr>)"

definition Write :: "writer \<Rightarrow> bytes \<Rightarrow> writer" where
  "Write w b = (let w1 = WriteHeader w 200 in w1\<lparr>wBody := wBody w1 @ b\<rparr>)"

text \<open>\<^verbatim>\<open>rec.Code\<close>: 200 until a header is written.\<close>

definition rec_Code :: "writer \<Rightarrow> int" where
  "rec_Code w = (case wCode w of None \<Rightarrow> 200 | Some c \<Rightarrow> c)"

definition upd_header :: "(Header \<Rightarrow> Header) \<Rightarrow> writer \<Rightarrow> writer" where
  "upd_header f w = w\<lparr>wHeader := f (wHeader w)\<rparr>"

definition rec_Reset :: "writer \<Rightarrow> writer" where
  "rec_Reset w = w\<lparr>wHeader := [], wCode := None, wSent := [], wBody := []\<rparr>"

text \<open>\<^verbatim>\<open>http.Error\<close>.\<close>

definition http_Error :: "writer \<Rightarrow> bytes \<Rightarrow> int \<Rightarrow> writer" where
  "http_Error w msg code =
     Write (WriteHeader
       (upd_header (\<lambda>h. Set (Set (Del h ''Content-Length'') ''Content-Type'' ''text/plain; charset=utf-8'')
                          ''X-Content-Type-Options'' ''nosniff'') w) code) (msg @ [CHR 0x0A])"

type_synonym handler = "Request \<Rightarrow> writer \<Rightarrow> gotime \<Rightarrow> writer option \<times> gotime"

lemma rec_Reset_new [simp]: "rec_Reset w = new_writer"
  by (cases w) (simp add: rec_Reset_def new_writer_def)

lemma WriteHeader_fresh: "wCode w = None \<Longrightarrow> WriteHeader w code = w\<lparr>wCode := Some code, wSent := wHeader w\<rparr>"
  by (simp add: WriteHeader_def)

text \<open>The recorder takes an informational status for the final one: what the origin writes after it is lost.\<close>

lemma informational_status_final: "rec_Code (WriteHeader (WriteHeader new_writer 103) 404) = 103"
  by (simp add: WriteHeader_def new_writer_def rec_Code_def)

lemma upd_header_simps [simp]:
  "wHeader (upd_header f w) = f (wHeader w)" "wCode (upd_header f w) = wCode w"
  "wSent (upd_header f w) = wSent w" "wBody (upd_header f w) = wBody w"
  by (simp_all add: upd_header_def)

lemma Write_after: "wCode w = Some c \<Longrightarrow> Write w b = w\<lparr>wBody := wBody w @ b\<rparr>"
  by (simp add: Write_def WriteHeader_def)

lemma http_Error_code: "wCode w = None \<Longrightarrow> wCode (http_Error w msg code) = Some code"
  by (simp add: http_Error_def WriteHeader_fresh Write_after)

end
