(* ===== verification/TitipCore.thy ===== *)
theory TitipCore
  imports PurgeOps EsiProcess Compression HttpWriter
begin

text \<open>
  Model of \<^verbatim>\<open>src/config.go\<close> and \<^verbatim>\<open>src/titip.go\<close>: the configuration and its options, \<^verbatim>\<open>New\<close>, the
  purge operations of the middleware and \<^verbatim>\<open>Close\<close>. The middleware instance \<open>'s Titip\<close> holds the
  state \<open>'s\<close> of its storage backend, whose operations are the dictionary \<open>ops\<close>, and the
  background revalidations that are pending (the code's wait group). Logger and metrics are
  not modelled; of the Server-Timing diagnostics the configuration is, and the handler runs without them.
\<close>

section \<open>Configuration\<close>

datatype CacheStatusMode = CacheStatusSimple | CacheStatusRFC9211 | CacheStatusNone

record serverTimingConfig =
  active :: bool
  cookieName :: bytes
  cookieValue :: bytes

record config =
  storageTimeout :: duration
  storageCompression :: bytes
  compressors :: "(bytes \<times> Compressor) list"
  cacheKey :: CacheKey
  tagHeaderName :: bytes
  cacheStatusMode :: CacheStatusMode
  respectClientCacheControl :: bool
  convertHeadToGet :: bool
  autoInvalidateMutatingMethods :: bool
  backgroundFetchTimeout :: duration
  esiOptions :: "esi_option option list option"
  serverTiming :: serverTimingConfig

type_synonym Option = "config \<Rightarrow> error + config"

definition WithoutConvertHeadToGet :: Option where
  "WithoutConvertHeadToGet c = Inr (c\<lparr>convertHeadToGet := False\<rparr>)"

definition WithAutoInvalidateMutatingMethods :: Option where
  "WithAutoInvalidateMutatingMethods c = Inr (c\<lparr>autoInvalidateMutatingMethods := True\<rparr>)"

definition WithStorageTimeout :: "duration \<Rightarrow> Option" where
  "WithStorageTimeout d c =
     (if d \<le> 0 then Inl ''storage timeout must be positive'' else Inr (c\<lparr>storageTimeout := d\<rparr>))"

text \<open>Out-of-range modes cannot be written in the model.\<close>

definition WithCacheStatus :: "CacheStatusMode \<Rightarrow> Option" where
  "WithCacheStatus mode c = Inr (c\<lparr>cacheStatusMode := mode\<rparr>)"

definition WithRespectClientCacheControl :: Option where
  "WithRespectClientCacheControl c = Inr (c\<lparr>respectClientCacheControl := True\<rparr>)"

definition WithCacheKey :: "CacheKey \<Rightarrow> Option" where
  "WithCacheKey k c = Inr (c\<lparr>cacheKey := k\<rparr>)"

definition WithTagHeader :: "bytes \<Rightarrow> Option" where
  "WithTagHeader name c =
     (let trimmed = TrimSpace name
      in if trimmed = [] then Inl ''tag header name cannot be empty'' else Inr (c\<lparr>tagHeaderName := trimmed\<rparr>))"

definition WithBackgroundFetchTimeout :: "duration \<Rightarrow> Option" where
  "WithBackgroundFetchTimeout d c =
     (if d < 0 then Inl ''background fetch timeout cannot be negative'' else Inr (c\<lparr>backgroundFetchTimeout := d\<rparr>))"

definition WithESI :: "esi_option option list \<Rightarrow> Option" where
  "WithESI opts c =
     (if list_ex (\<lambda>o1. o1 = None) opts then Inl ''ESI option cannot be nil''
      else Inr (c\<lparr>esiOptions := Some ((case esiOptions c of None \<Rightarrow> [] | Some os \<Rightarrow> os) @ opts)\<rparr>))"

definition WithStorageCompression :: "bytes \<Rightarrow> Option" where
  "WithStorageCompression name c =
     (let trimmed = ToLower (TrimSpace name)
      in if trimmed = [] then Inl ''storage compression name cannot be empty''
         else Inr (c\<lparr>storageCompression := trimmed\<rparr>))"

definition WithStorageCompressor :: "Compressor option \<Rightarrow> Option" where
  "WithStorageCompressor cmp c =
     (case cmp of
        None \<Rightarrow> Inl ''compressor cannot be nil''
      | Some cc \<Rightarrow>
          let name = ToLower (TrimSpace (cName cc))
          in if name = [] then Inl ''compressor name cannot be empty''
             else if map_of (compressors c) name \<noteq> None then Inl ''compressor already registered''
             else Inr (c\<lparr>compressors := AList.update name cc (compressors c)\<rparr>))"

definition WithServerTiming :: Option where
  "WithServerTiming c = Inr (c\<lparr>serverTiming := (serverTiming c)\<lparr>active := True\<rparr>\<rparr>)"

definition WithServerTimingCookie :: "bytes \<Rightarrow> bytes \<Rightarrow> Option" where
  "WithServerTimingCookie name value c =
     (let trimmedName = TrimSpace name; trimmedVal = TrimSpace value
      in if trimmedName = [] \<or> trimmedVal = [] then Inl ''server timing cookie name and value cannot be empty''
         else Inr (c\<lparr>serverTiming := \<lparr>active = True, cookieName = trimmedName, cookieValue = trimmedVal\<rparr>\<rparr>))"

section \<open>The instance\<close>

text \<open>A pending background revalidation: the request and the two keys.\<close>

type_synonym swr_task = "Request \<times> bytes \<times> bytes"

record 's Titip =
  tConfig :: config
  tStore :: 's
  tClosed :: bool
  tPending :: "swr_task list"
  esiProcessor :: "esi_config option"

datatype new_error = ErrStorageRequired | ErrInvalidOption bytes

definition default_config :: "Compressor \<Rightarrow> Compressor \<Rightarrow> config" where
  "default_config lz4 zstd = \<lparr>storageTimeout = 5 * Second, storageCompression = StorageCompressionLZ4,
     compressors = [(StorageCompressionLZ4, lz4), (StorageCompressionNone, noneCompressor), (StorageCompressionZstd, zstd)],
     cacheKey = zero_CacheKey, tagHeaderName = headerCacheTag, cacheStatusMode = CacheStatusSimple,
     respectClientCacheControl = False, convertHeadToGet = True, autoInvalidateMutatingMethods = False,
     backgroundFetchTimeout = 125 * Second, esiOptions = None,
     serverTiming = \<lparr>active = False, cookieName = [], cookieValue = []\<rparr>\<rparr>"

fun apply_options :: "Option option list \<Rightarrow> config \<Rightarrow> new_error + config" where
  "apply_options [] c = Inr c"
| "apply_options (None # os) c = Inl (ErrInvalidOption ''option cannot be nil'')"
| "apply_options (Some o1 # os) c =
     (case o1 c of Inl e \<Rightarrow> Inl (ErrInvalidOption e) | Inr c' \<Rightarrow> apply_options os c')"

definition New :: "Compressor \<Rightarrow> Compressor \<Rightarrow> 's option \<Rightarrow> Option option list \<Rightarrow> new_error + 's Titip" where
  "New lz4 zstd store opts =
     (case store of
        None \<Rightarrow> Inl ErrStorageRequired
      | Some s \<Rightarrow>
          (case apply_options opts (default_config lz4 zstd) of
             Inl e \<Rightarrow> Inl e
           | Inr cfg \<Rightarrow>
               if map_of (compressors cfg) (storageCompression cfg) = None
               then Inl (ErrInvalidOption ''unknown storage compression'')
               else
                 let t = \<lparr>tConfig = cfg, tStore = s, tClosed = False, tPending = [], esiProcessor = None\<rparr>
                 in (case esiOptions cfg of
                       None \<Rightarrow> Inr t
                     | Some os \<Rightarrow>
                         (case NewProcessor os of
                            Inl e \<Rightarrow> Inl (ErrInvalidOption (''ESI configuration: '' @ e))
                          | Inr proc \<Rightarrow> Inr (t\<lparr>esiProcessor := Some proc\<rparr>)))))"

section \<open>Purging\<close>

record purgeConfig =
  pcSoft :: bool

definition WithSoftPurge :: "purgeConfig \<Rightarrow> purgeConfig" where
  "WithSoftPurge c = c\<lparr>pcSoft := True\<rparr>"

text \<open>The options of a purge come down to whether it is soft, which is what the operations below take.\<close>

definition purge_options :: "(purgeConfig \<Rightarrow> purgeConfig) list \<Rightarrow> bool" where
  "purge_options opts = pcSoft (foldl (\<lambda>c o1. o1 c) \<lparr>pcSoft = False\<rparr> opts)"

text \<open>The loop over patterns stops at the first error.\<close>

fun purge_patterns :: "'s Storage \<Rightarrow> gotime \<Rightarrow> bool \<Rightarrow> bytes list \<Rightarrow> int \<Rightarrow> 's \<Rightarrow> (error + int) \<times> 's" where
  "purge_patterns ops now soft [] acc s = (Inr acc, s)"
| "purge_patterns ops now soft (p # ps) acc s =
     (case opPurgeByPattern ops now s p soft of
        (Inl e, s') \<Rightarrow> (Inl e, s')
      | (Inr n, s') \<Rightarrow> purge_patterns ops now soft ps (wrap64 (acc + n)) s')"

definition t_Purge :: "goenv \<Rightarrow> 's Storage \<Rightarrow> gotime \<Rightarrow> 's Titip \<Rightarrow> bytes \<Rightarrow> bool \<Rightarrow> (error + int) \<times> 's Titip" where
  "t_Purge env ops now t target soft =
     (case buildPurgeOperation env target (Some (cacheKey (tConfig t))) of
        Inl e \<Rightarrow> (Inl e, t)
      | Inr (isExact, keys) \<Rightarrow>
          (case keys of
             [] \<Rightarrow> (Inr 0, t)
           | k # _ \<Rightarrow>
               let (r, s) = (if isExact then opPurge ops now (tStore t) k soft
                             else purge_patterns ops now soft keys 0 (tStore t))
               in (r, t\<lparr>tStore := s\<rparr>)))"

definition t_PurgePrefix :: "goenv \<Rightarrow> 's Storage \<Rightarrow> gotime \<Rightarrow> 's Titip \<Rightarrow> bytes \<Rightarrow> bool \<Rightarrow> (error + int) \<times> 's Titip" where
  "t_PurgePrefix env ops now t pre soft =
     (case buildPurgePrefixOperation env pre (Some (cacheKey (tConfig t))) of
        Inl e \<Rightarrow> (Inl e, t)
      | Inr keys \<Rightarrow>
          let (r, s) = purge_patterns ops now soft keys 0 (tStore t) in (r, t\<lparr>tStore := s\<rparr>))"

definition t_PurgeTag :: "'s Storage \<Rightarrow> gotime \<Rightarrow> 's Titip \<Rightarrow> bytes \<Rightarrow> bool \<Rightarrow> (error + int) \<times> 's Titip" where
  "t_PurgeTag ops now t tag soft =
     (let (r, s) = opPurgeByTag ops now (tStore t) tag soft in (r, t\<lparr>tStore := s\<rparr>))"

definition t_PurgeAll :: "'s Storage \<Rightarrow> gotime \<Rightarrow> 's Titip \<Rightarrow> (error + int) \<times> 's Titip" where
  "t_PurgeAll ops now t = (let (r, s) = opPurgeAll ops now (tStore t) in (r, t\<lparr>tStore := s\<rparr>))"

text \<open>
  \<^verbatim>\<open>Close\<close> marks the instance closed before it waits for the pending revalidations and closes
  the storage; the wait ends in time or not (\<open>in_time\<close>), and the storage's own \<^verbatim>\<open>Close\<close>, if it has
  one, is the parameter \<open>close_store\<close>. The result holds the two errors that are joined.
\<close>

definition t_Close :: "('s \<Rightarrow> error option \<times> 's) option \<Rightarrow> bool \<Rightarrow> 's Titip \<Rightarrow> (bool \<times> error option) \<times> 's Titip" where
  "t_Close close_store in_time t =
     (let t1 = t\<lparr>tClosed := True\<rparr>
      in case close_store of
           None \<Rightarrow> ((\<not> in_time, None), t1)
         | Some f \<Rightarrow> let (e, s) = f (tStore t1) in ((\<not> in_time, e), t1\<lparr>tStore := s\<rparr>))"

end
