(* ===== verification/Ssrf.thy ===== *)
theory Ssrf
  imports EsiProcess "HOL-Library.Word"
begin

text \<open>
  Model of \<^verbatim>\<open>src/esi/ssrf.go\<close>: which URLs an include may name, which hosts it may reach and to
  which addresses the transport connects. Addresses are machine words; \<^verbatim>\<open>netip\<close>'s predicates
  and prefixes are written out on them. The parser of an address text is a parameter.
\<close>

unbundle bit_operations_syntax

section \<open>Addresses\<close>

text \<open>\<^verbatim>\<open>netip.Addr\<close>: an IPv4 address, or an IPv6 address with its zone.\<close>

datatype Addr = V4 "32 word" | V6 "128 word" bytes

definition octet :: "nat \<Rightarrow> 32 word \<Rightarrow> 32 word" where
  "octet i a = take_bit 8 (drop_bit (8 * (3 - i)) a)"

fun Unmap :: "Addr \<Rightarrow> Addr" where
  "Unmap (V4 a) = V4 a"
| "Unmap (V6 a z) = (if drop_bit 32 a = 0xFFFF then V4 (ucast a) else V6 a z)"

fun IsUnspecified :: "Addr \<Rightarrow> bool" where
  "IsUnspecified (V4 a) = (a = 0)"
| "IsUnspecified (V6 a z) = (a = 0 \<and> z = [])"

fun IsLoopback :: "Addr \<Rightarrow> bool" where
  "IsLoopback (V4 a) = (octet 0 a = 127)"
| "IsLoopback (V6 a z) = (a = 1)"

fun IsLinkLocalUnicast :: "Addr \<Rightarrow> bool" where
  "IsLinkLocalUnicast (V4 a) = (octet 0 a = 169 \<and> octet 1 a = 254)"
| "IsLinkLocalUnicast (V6 a z) = (drop_bit 112 a AND 0xFFC0 = 0xFE80)"

fun IsLinkLocalMulticast :: "Addr \<Rightarrow> bool" where
  "IsLinkLocalMulticast (V4 a) = (octet 0 a = 224 \<and> octet 1 a = 0 \<and> octet 2 a = 0)"
| "IsLinkLocalMulticast (V6 a z) = (drop_bit 112 a AND 0xFF0F = 0xFF02)"

fun IsMulticast :: "Addr \<Rightarrow> bool" where
  "IsMulticast (V4 a) = (octet 0 a AND 0xF0 = 0xE0)"
| "IsMulticast (V6 a z) = (drop_bit 120 a = 0xFF)"

fun IsPrivate :: "Addr \<Rightarrow> bool" where
  "IsPrivate (V4 a) = (octet 0 a = 10 \<or> octet 0 a = 172 \<and> octet 1 a AND 0xF0 = 16 \<or> octet 0 a = 192 \<and> octet 1 a = 168)"
| "IsPrivate (V6 a z) = (drop_bit 120 a AND 0xFE = 0xFC)"

datatype Prefix = P4 "32 word" nat | P6 "128 word" nat

fun prefix_Contains :: "Prefix \<Rightarrow> Addr \<Rightarrow> bool" where
  "prefix_Contains (P4 p bits) (V4 a) = (drop_bit (32 - bits) (a XOR p) = 0)"
| "prefix_Contains (P6 p bits) (V6 a z) = (z = [] \<and> drop_bit (128 - bits) (a XOR p) = 0)"
| "prefix_Contains _ _ = False"

definition blockedCIDRs :: "Prefix list" where
  "blockedCIDRs = [P4 0 8, P4 0x64400000 10, P4 0xC0000000 24, P4 0xC6120000 15, P4 0xF0000000 4,
     P6 (push_bit 120 0xFC) 7]"

definition isIPBlocked :: "Addr \<Rightarrow> bool" where
  "isIPBlocked ip0 =
     (let ip = Unmap ip0
      in if IsUnspecified ip \<or> IsLoopback ip \<or> IsLinkLocalUnicast ip \<or> IsLinkLocalMulticast ip \<or> IsMulticast ip \<or> IsPrivate ip
         then True
         else list_ex (\<lambda>p. prefix_Contains p ip) blockedCIDRs)"

section \<open>The blocked IPv4 ranges\<close>

text \<open>
  The IPv4 ranges the guard means to cover, first and last address as a number: those of the comments
  of \<^verbatim>\<open>blockedCIDRs\<close> and the private, loopback, link-local and multicast ones. Other
  special-purpose ranges, such as the documentation networks, are not among them.
\<close>

definition ip4 :: "nat \<Rightarrow> nat \<Rightarrow> nat \<Rightarrow> nat \<Rightarrow> nat" where
  "ip4 a b c d = ((a * 256 + b) * 256 + c) * 256 + d"

definition blocked_ranges_v4 :: "(nat \<times> nat) list" where
  "blocked_ranges_v4 = [(ip4 0 0 0 0, ip4 0 255 255 255), (ip4 10 0 0 0, ip4 10 255 255 255), (ip4 100 64 0 0, ip4 100 127 255 255),
     (ip4 127 0 0 0, ip4 127 255 255 255), (ip4 169 254 0 0, ip4 169 254 255 255), (ip4 172 16 0 0, ip4 172 31 255 255),
     (ip4 192 0 0 0, ip4 192 0 0 255), (ip4 192 168 0 0, ip4 192 168 255 255), (ip4 198 18 0 0, ip4 198 19 255 255),
     (ip4 224 0 0 0, ip4 239 255 255 255), (ip4 240 0 0 0, ip4 255 255 255 255)]"

definition in_ranges :: "(nat \<times> nat) list \<Rightarrow> nat \<Rightarrow> bool" where
  "in_ranges rs n \<longleftrightarrow> list_ex (\<lambda>(lo, hi). lo \<le> n \<and> n \<le> hi) rs"

lemma unat_drop: "unat (drop_bit k (a :: 'a::len word)) = unat a div 2 ^ k"
  unfolding unat_drop_bit_eq by (rule drop_bit_eq_div)

lemma unat_take: "unat (take_bit k (a :: 'a::len word)) = unat a mod 2 ^ k"
  unfolding unsigned_take_bit_eq by (rule take_bit_eq_mod)

lemma unat_octet: "unat (octet i a) = unat a div 2 ^ (8 * (3 - i)) mod 256"
  by (simp only: octet_def unat_take unat_drop) simp

lemma word_eq_unat: "(a :: 'a::len word) = b \<longleftrightarrow> unat a = unat b"
  by (simp add: word_unat_eq_iff)

lemma xor_zero_iff: "(a :: 'a::len word) XOR b = 0 \<longleftrightarrow> a = b"
  by (metis xor.assoc xor.right_neutral xor_self_eq)

lemma drop_bit_xor_zero: "drop_bit k ((a :: 'a::len word) XOR b) = 0 \<longleftrightarrow> unat a div 2 ^ k = unat b div 2 ^ k"
  unfolding drop_bit_xor xor_zero_iff unfolding word_eq_unat unat_drop by (rule refl)

lemma and_shift_mask: "(w :: 'a::len word) AND push_bit m (mask k) = push_bit m (take_bit k (drop_bit m w))"
  by (rule bit_word_eqI) (auto simp: bit_simps)

lemma unat_and_shift_mask:
  assumes "m + k \<le> LENGTH('a)"
  shows "unat ((w :: 'a::len word) AND push_bit m (mask k)) = unat w div 2 ^ m mod 2 ^ k * 2 ^ m"
proof -
  let ?x = "unat w div 2 ^ m mod 2 ^ k"
  have "?x * 2 ^ m < 2 ^ k * 2 ^ m" by simp
  also have "\<dots> \<le> 2 ^ LENGTH('a)" using assms by (simp add: add.commute flip: power_add)
  finally have "?x * 2 ^ m < 2 ^ LENGTH('a)" .
  then show ?thesis
    unfolding and_shift_mask unsigned_push_bit_eq unat_take unat_drop by (simp add: push_bit_eq_mult take_bit_nat_eq_self)
qed

lemma unat_and_F0: "unat ((w :: 32 word) AND 0xF0) = 16 * (unat w div 16 mod 16)"
proof -
  have "(0xF0 :: 32 word) = push_bit 4 (mask 4)" by (simp add: mask_eq_exp_minus_1)
  then show ?thesis using unat_and_shift_mask [of 4 4 w] by simp
qed

lemma octet_and_F0: "octet i a AND 0xF0 = n \<longleftrightarrow> unat a div 2 ^ (8 * (3 - i) + 4) mod 16 * 16 = unat n"
proof -
  have "unat a div 2 ^ (8 * (3 - i)) mod 256 div 16 mod 16 = unat a div 2 ^ (8 * (3 - i) + 4) mod 16"
  proof -
    let ?M = "unat a div 2 ^ (8 * (3 - i))"
    have "?M mod 256 div 16 mod 16 = ?M div 16 mod 16" using mod_mult2_eq [of ?M 16 16] by simp
    also have "?M div 16 = unat a div 2 ^ (8 * (3 - i) + 4)" by (simp add: power_add div_mult2_eq)
    finally show ?thesis .
  qed
  then show ?thesis by (simp only: word_eq_unat unat_and_F0 unat_octet) (simp add: mult.commute)
qed

text \<open>The tests of one octet, or of the leading bits, as a quotient of the number.\<close>

lemma range_div:
  assumes m: "0 < m" and lo: "lo = c * m" and hi: "hi + 1 = (c + 1) * m"
  shows "(lo \<le> n \<and> n \<le> hi) \<longleftrightarrow> (n::nat) div m = c"
proof
  assume "lo \<le> n \<and> n \<le> hi"
  then have "c * m \<le> n" "n < Suc c * m" using lo hi by auto
  then show "n div m = c" by (simp add: div_nat_eqI mult.commute)
next
  assume "n div m = c"
  then have "c * m \<le> n" "n < m + c * m" using m dividend_less_div_times [of m n] by auto
  then show "lo \<le> n \<and> n \<le> hi" using lo hi by simp
qed

lemma div_split: "y < 256 \<Longrightarrow> (n::nat) div (m * 256) = x \<and> n div m mod 256 = y \<longleftrightarrow> n div m = x * 256 + y"
  by (auto simp: div_mult2_eq)

lemma div_split_16: "y < 16 \<Longrightarrow> (n::nat) div (m * 16) = x \<and> n div m mod 16 = y \<longleftrightarrow> n div m = x * 16 + y"
  by (auto simp: div_mult2_eq)

lemma isIPBlocked_v4:
  "isIPBlocked (V4 a) \<longleftrightarrow> in_ranges blocked_ranges_v4 (unat a)"
proof -
  define n where "n = unat a"
  have "unat a < 2 ^ LENGTH(32)" by (rule unsigned_less)
  then have lt: "n < 2 ^ 32" unfolding n_def by simp
  have o0: "octet 0 a = c \<longleftrightarrow> n div 16777216 = unat c" for c
    using lt by (simp only: word_eq_unat unat_octet n_def) simp
  have o1: "octet 1 a = c \<longleftrightarrow> n div 65536 mod 256 = unat c" for c by (simp only: word_eq_unat unat_octet n_def) simp
  have o2: "octet 2 a = c \<longleftrightarrow> n div 256 mod 256 = unat c" for c by (simp only: word_eq_unat unat_octet n_def) simp
  have m0: "octet 0 a AND 0xF0 = 0xE0 \<longleftrightarrow> n div 268435456 = 14"
    using lt by (simp only: octet_and_F0 n_def) simp
  have m1: "octet 1 a AND 0xF0 = 16 \<longleftrightarrow> n div 1048576 mod 16 = 1"
    by (simp only: octet_and_F0 n_def) simp
  have ll: "n div 16777216 = 169 \<and> n div 65536 mod 256 = 254 \<longleftrightarrow> n div 65536 = 43518"
    using div_split [of 254 n 65536 169] by simp
  have p12: "n div 16777216 = 172 \<and> n div 1048576 mod 16 = 1 \<longleftrightarrow> n div 1048576 = 2753"
    using div_split_16 [of 1 n 1048576 172] by simp
  have p16: "n div 16777216 = 192 \<and> n div 65536 mod 256 = 168 \<longleftrightarrow> n div 65536 = 49320"
    using div_split [of 168 n 65536 192] by simp
  have u: "unat (10 :: 32 word) = 10" "unat (172 :: 32 word) = 172" "unat (192 :: 32 word) = 192" "unat (168 :: 32 word) = 168"
      "unat (169 :: 32 word) = 169" "unat (254 :: 32 word) = 254" by simp_all
  have t0: "IsUnspecified (V4 a) \<longleftrightarrow> n = 0" by (simp only: IsUnspecified.simps word_eq_unat n_def unsigned_0)
  have t1: "IsLoopback (V4 a) \<longleftrightarrow> n div 16777216 = 127" unfolding IsLoopback.simps o0 by simp
  have t2: "IsLinkLocalUnicast (V4 a) \<longleftrightarrow> n div 65536 = 43518" unfolding IsLinkLocalUnicast.simps o0 o1 u ll by (rule refl)
  have t3: "IsMulticast (V4 a) \<longleftrightarrow> n div 268435456 = 14" unfolding IsMulticast.simps m0 by (rule refl)
  have t4: "IsPrivate (V4 a) \<longleftrightarrow> n div 16777216 = 10 \<or> n div 1048576 = 2753 \<or> n div 65536 = 49320"
    unfolding IsPrivate.simps m1 o0 o1 u p12 p16 by (rule refl)
  note t = t0 t1 t2 t3 t4
  have llm: "IsLinkLocalMulticast (V4 a) \<Longrightarrow> n div 268435456 = 14"
  proof -
    assume "IsLinkLocalMulticast (V4 a)"
    then have "n div 16777216 = 224" unfolding IsLinkLocalMulticast.simps o0 by simp
    then show ?thesis using div_mult2_eq [of n 16777216 16] by simp
  qed
  have c: "prefix_Contains (P4 0 8) (V4 a) \<longleftrightarrow> n div 16777216 = 0" "prefix_Contains (P4 0x64400000 10) (V4 a) \<longleftrightarrow> n div 4194304 = 401"
      "prefix_Contains (P4 0xC0000000 24) (V4 a) \<longleftrightarrow> n div 256 = 12582912" "prefix_Contains (P4 0xC6120000 15) (V4 a) \<longleftrightarrow> n div 131072 = 25353"
      "prefix_Contains (P4 0xF0000000 4) (V4 a) \<longleftrightarrow> n div 268435456 = 15"
    by (simp_all only: prefix_Contains.simps drop_bit_xor_zero n_def) simp_all
  have b: "isIPBlocked (V4 a) \<longleftrightarrow> n = 0 \<or> n div 16777216 = 127 \<or> n div 65536 = 43518 \<or> n div 268435456 = 14 \<or>
      n div 16777216 = 10 \<or> n div 1048576 = 2753 \<or> n div 65536 = 49320 \<or> n div 16777216 = 0 \<or> n div 4194304 = 401 \<or>
      n div 256 = 12582912 \<or> n div 131072 = 25353 \<or> n div 268435456 = 15"
    using llm by (simp only: isIPBlocked_def Let_def Unmap.simps t blockedCIDRs_def list_ex_Nil_iff list_ex_Cons_iff c [unfolded prefix_Contains.simps] prefix_Contains.simps if_bool_eq_disj) blast
  have r: "in_ranges blocked_ranges_v4 n \<longleftrightarrow> n div 16777216 = 0 \<or> n div 16777216 = 10 \<or> n div 4194304 = 401 \<or> n div 16777216 = 127 \<or>
      n div 65536 = 43518 \<or> n div 1048576 = 2753 \<or> n div 256 = 12582912 \<or> n div 65536 = 49320 \<or> n div 131072 = 25353 \<or>
      n div 268435456 = 14 \<or> n div 268435456 = 15"
    using range_div [of 16777216 0 0 16777215 n]
    by (simp add: in_ranges_def blocked_ranges_v4_def ip4_def range_div [of 16777216 _ 10]
        range_div [of 4194304 _ 401] range_div [of 16777216 _ 127] range_div [of 65536 _ 43518] range_div [of 1048576 _ 2753]
        range_div [of 256 _ 12582912] range_div [of 65536 _ 49320] range_div [of 131072 _ 25353] range_div [of 268435456 _ 14]
        range_div [of 268435456 _ 15])
  have z: "n = 0 \<Longrightarrow> n div 16777216 = 0" by simp
  show ?thesis unfolding n_def [symmetric] b r using z by meson
qed

section \<open>The blocked IPv6 ranges\<close>

definition block6 :: "nat \<Rightarrow> nat \<Rightarrow> nat \<times> nat" where
  "block6 c k = (c * 2 ^ k, (c + 1) * 2 ^ k - 1)"

text \<open>Loopback, unique local \<^verbatim>\<open>fc00::/7\<close>, link local \<^verbatim>\<open>fe80::/10\<close> and multicast \<^verbatim>\<open>ff00::/8\<close>.\<close>

definition blocked_ranges_v6 :: "(nat \<times> nat) list" where
  "blocked_ranges_v6 = [block6 1 0, block6 126 121, block6 0x3FA 118, block6 255 120]"

lemma in_block6: "(case block6 c k of (lo, hi) \<Rightarrow> lo \<le> n \<and> n \<le> hi) \<longleftrightarrow> n div 2 ^ k = c"
  unfolding block6_def prod.case by (rule range_div) simp_all

lemma mapped_v6_blocked: "drop_bit 32 a = 0xFFFF \<Longrightarrow> isIPBlocked (V6 a z) = isIPBlocked (V4 (ucast a))"
  by (simp add: isIPBlocked_def)

lemma unat_top:
  assumes "k < LENGTH('a)"
  shows "unat (drop_bit k (a :: 'a::len word)) < 2 ^ (LENGTH('a) - k)"
proof -
  have "unat a < 2 ^ k * 2 ^ (LENGTH('a) - k)"
    using unsigned_less [of a] assms by (simp flip: power_add)
  then show ?thesis unfolding unat_drop by (simp add: less_mult_imp_div_less mult.commute)
qed

lemma isIPBlocked_v6:
  assumes "drop_bit 32 a \<noteq> 0xFFFF"
  shows "isIPBlocked (V6 a z) \<longleftrightarrow> a = 0 \<and> z = [] \<or> in_ranges blocked_ranges_v6 (unat a)"
proof -
  let ?v = "drop_bit 112 a" and ?u = "drop_bit 120 a"
  have u: "unat ?u < 256" using unat_top [of 120 a] by simp
  have v: "unat ?v < 65536" using unat_top [of 112 a] by simp
  have "(0xFFC0 :: 128 word) = push_bit 6 (mask 10)" by (simp add: mask_eq_exp_minus_1)
  then have "unat (?v AND 0xFFC0) = unat ?v div 64 * 64" using unat_and_shift_mask [of 6 10 ?v] v by simp
  then have t1: "IsLinkLocalUnicast (V6 a z) \<longleftrightarrow> unat a div 2 ^ 118 = 0x3FA"
    unfolding IsLinkLocalUnicast.simps word_eq_unat unat_drop by (simp flip: div_mult2_eq)
  have "(0xFE :: 128 word) = push_bit 1 (mask 7)" by (simp add: mask_eq_exp_minus_1)
  then have "unat (?u AND 0xFE) = unat ?u div 2 * 2" using unat_and_shift_mask [of 1 7 ?u] u by simp
  then have t2: "IsPrivate (V6 a z) \<longleftrightarrow> unat a div 2 ^ 121 = 126"
    unfolding IsPrivate.simps word_eq_unat unat_drop by (simp flip: div_mult2_eq)
  have t3: "IsMulticast (V6 a z) \<longleftrightarrow> unat a div 2 ^ 120 = 255"
    unfolding IsMulticast.simps word_eq_unat unat_drop by simp
  have t4: "IsLoopback (V6 a z) \<longleftrightarrow> unat a div 2 ^ 0 = 1"
    unfolding IsLoopback.simps word_eq_unat by simp
  have p: "prefix_Contains (P6 (push_bit 120 0xFC) 7) (V6 a z) \<Longrightarrow> unat a div 2 ^ 121 = 126"
    unfolding prefix_Contains.simps drop_bit_xor_zero by simp
  have f: "prefix_Contains (P4 q n) (V6 a z) = False" for q n by simp
  have m: "IsLinkLocalMulticast (V6 a z) \<Longrightarrow> unat a div 2 ^ 120 = 255"
  proof -
    assume "IsLinkLocalMulticast (V6 a z)"
    then have "(?v AND 0xFF0F) AND 0xFF00 = 0xFF02 AND 0xFF00" unfolding IsLinkLocalMulticast.simps by (rule arg_cong)
    then have "?v AND 0xFF00 = 0xFF00" unfolding and.assoc by simp
    moreover have "(0xFF00 :: 128 word) = push_bit 8 (mask 8)" by (simp add: mask_eq_exp_minus_1)
    ultimately have "unat ?v div 256 * 256 = 0xFF00" using unat_and_shift_mask [of 8 8 ?v] v by simp
    then show ?thesis unfolding unat_drop by (simp flip: div_mult2_eq)
  qed
  show ?thesis
    unfolding isIPBlocked_def Let_def Unmap.simps if_not_P [OF assms] IsUnspecified.simps t1 t2 t3 t4 f blockedCIDRs_def
      in_ranges_def blocked_ranges_v6_def list_ex_Cons_iff list_ex_Nil_iff in_block6 if_bool_eq_disj
    using p m by meson
qed

text \<open>The addresses no include may reach.\<close>

fun in_blocked_range :: "Addr \<Rightarrow> bool" where
  "in_blocked_range (V4 a) = in_ranges blocked_ranges_v4 (unat a)"
| "in_blocked_range (V6 a z) =
     (if drop_bit 32 a = 0xFFFF then in_ranges blocked_ranges_v4 (unat (ucast a :: 32 word))
      else a = 0 \<and> z = [] \<or> in_ranges blocked_ranges_v6 (unat a))"

lemma isIPBlocked_iff: "isIPBlocked ip = in_blocked_range ip"
  by (cases ip) (simp_all add: isIPBlocked_v4 isIPBlocked_v6 mapped_v6_blocked)

section \<open>Addresses as text\<close>

text \<open>\<^verbatim>\<open>net.SplitHostPort\<close> and \<^verbatim>\<open>net.JoinHostPort\<close>.\<close>

fun LastIndexByte :: "bytes \<Rightarrow> char \<Rightarrow> nat option" where
  "LastIndexByte [] c = None"
| "LastIndexByte (x # xs) c =
     (case LastIndexByte xs c of Some i \<Rightarrow> Some (Suc i) | None \<Rightarrow> if x = c then Some 0 else None)"

definition SplitHostPort :: "bytes \<Rightarrow> (bytes \<times> bytes) option" where
  "SplitHostPort hostport =
     (case LastIndexByte hostport (CHR '':'') of
        None \<Rightarrow> None
      | Some i \<Rightarrow>
          if hd hostport = CHR ''['' then
            (case IndexByte hostport (CHR '']'') of
               None \<Rightarrow> None
             | Some e \<Rightarrow>
                 if e + 1 = length hostport \<or> e + 1 \<noteq> i then None
                 else if CHR ''['' \<in> set (drop 1 hostport) \<or> CHR '']'' \<in> set (drop (e + 1) hostport) then None
                 else Some (take (e - 1) (drop 1 hostport), drop (i + 1) hostport))
          else if CHR '':'' \<in> set (take i hostport) then None
          else if CHR ''['' \<in> set hostport \<or> CHR '']'' \<in> set hostport then None
          else Some (take i hostport, drop (i + 1) hostport))"

definition JoinHostPort :: "bytes \<Rightarrow> bytes \<Rightarrow> bytes" where
  "JoinHostPort host port =
     (if CHR '':'' \<in> set host then ''['' @ host @ '']:'' @ port else host @ '':'' @ port)"

text \<open>\<^verbatim>\<open>netip.ParseAddr\<close>: four decimal octets without leading zeros, or groups of hexadecimal digits
  with at most one ellipsis, perhaps ending in four octets, perhaps with a zone.\<close>

definition parse_octet :: "bytes \<Rightarrow> nat option" where
  "parse_octet s =
     (if s = [] \<or> \<not> list_all is_digit s \<or> (hd s = CHR ''0'' \<and> length s > 1) \<or> digits_value s > 255 then None
      else Some (digits_value s))"

definition parseIPv4Fields :: "bytes \<Rightarrow> nat list option" where
  "parseIPv4Fields s =
     (let fields = map parse_octet (SplitByte (CHR ''.'') s)
      in if length fields = 4 \<and> None \<notin> set fields then Some (map the fields) else None)"

definition of_octets :: "nat list \<Rightarrow> nat" where
  "of_octets bs = foldl (\<lambda>n b. n * 256 + b) 0 bs"

definition hex_value :: "bytes \<Rightarrow> nat" where
  "hex_value s = foldl (\<lambda>n c. n * 16 + (case unhex c of None \<Rightarrow> 0 | Some d \<Rightarrow> d)) 0 s"

function parse_groups :: "bytes \<Rightarrow> nat list \<Rightarrow> nat option \<Rightarrow> (bytes \<times> nat list \<times> nat option) option" where
  "parse_groups s out ellipsis =
     (if length out \<ge> 16 then Some (s, out, ellipsis)
      else
        let run = takeWhile (\<lambda>c. unhex c \<noteq> None) s; rest = drop (length run) s; acc = hex_value run;
            out1 = out @ [acc div 256, acc mod 256]
        in if run = [] \<or> length run > 4 then None
           else if rest \<noteq> [] \<and> hd rest = CHR ''.'' then
             if ellipsis = None \<and> length out \<noteq> 12 \<or> length out + 4 > 16 then None
             else map_option (\<lambda>fs. ([], out @ fs, ellipsis)) (parseIPv4Fields s)
           else if rest = [] then Some ([], out1, ellipsis)
           else if hd rest \<noteq> CHR '':'' \<or> tl rest = [] then None
           else if hd (tl rest) = CHR '':'' then
             if ellipsis \<noteq> None then None
             else if tl (tl rest) = [] then Some ([], out1, Some (length out1))
             else parse_groups (tl (tl rest)) out1 (Some (length out1))
           else parse_groups (tl rest) out1 ellipsis)"
  by pat_completeness auto
termination
  by (relation "measure (\<lambda>(s, out, ellipsis). 16 - length out)") auto

declare parse_groups.simps [simp del]

definition parseIPv6 :: "bytes \<Rightarrow> Addr option" where
  "parseIPv6 txt =
     (let (s, zone, found) = Cut txt ''%''
      in if found \<and> zone = [] then None
         else if s = ''::'' then Some (V6 0 zone)
         else case (if HasPrefix s ''::'' then parse_groups (drop 2 s) [] (Some 0) else parse_groups s [] None) of
                None \<Rightarrow> None
              | Some (rest, out, ellipsis) \<Rightarrow>
                  if rest \<noteq> [] then None
                  else if length out < 16 then
                    (case ellipsis of None \<Rightarrow> None
                     | Some e \<Rightarrow> Some (V6 (of_nat (of_octets (take e out @ replicate (16 - length out) 0 @ drop e out))) zone))
                  else if ellipsis \<noteq> None then None
                  else Some (V6 (of_nat (of_octets out)) zone))"

definition ParseAddr :: "bytes \<Rightarrow> Addr option" where
  "ParseAddr s =
     (case dropWhile (\<lambda>c. c \<notin> {CHR ''.'', CHR '':'', CHR ''%''}) s of
        [] \<Rightarrow> None
      | c # _ \<Rightarrow> if c = CHR ''.'' then map_option (\<lambda>fs. V4 (of_nat (of_octets fs))) (parseIPv4Fields s)
          else if c = CHR '':'' then parseIPv6 s
          else None)"

section \<open>Schemes and hosts\<close>

datatype ssrf_error = errSSRFBlocked | errInvalidScheme | errHostNotAllowed | errAddress | errDial

record ssrfConfig =
  BlockPrivateIPs :: bool
  AllowedHosts :: "bytes list"
  AllowPrivateIPsForAllowedHosts :: bool

definition validateURLScheme :: "goenv \<Rightarrow> bytes \<Rightarrow> ssrf_error + URL" where
  "validateURLScheme env rawURL =
     (if rawURL = [] then Inl errInvalidScheme
      else if HasPrefix rawURL ''/'' then
        if HasPrefix rawURL ''//'' then Inl errInvalidScheme
        else if \<not> ContainsAny rawURL ''?#%'' then Inr (empty_URL\<lparr>Path := rawURL\<rparr>)
        else (case url_Parse env rawURL of None \<Rightarrow> Inl errInvalidScheme | Some parsed \<Rightarrow> Inr parsed)
      else
        (case url_Parse env rawURL of
           None \<Rightarrow> Inl errInvalidScheme
         | Some parsed \<Rightarrow>
             if ToLower (Scheme parsed) \<noteq> ''http'' \<and> ToLower (Scheme parsed) \<noteq> ''https'' then Inl errInvalidScheme
             else Inr parsed))"

definition strip_port :: "bytes \<Rightarrow> bytes" where
  "strip_port h = (case SplitHostPort h of Some (parsedHost, _) \<Rightarrow> parsedHost | None \<Rightarrow> h)"

definition match_pattern :: "bytes \<Rightarrow> bytes \<Rightarrow> bool" where
  "match_pattern h pattern =
     (let p = ToLower (TrimSpace pattern)
      in if p = [] then False
         else
           let p = strip_port p
           in p = ''*'' \<or> p = h \<or>
              HasPrefix p ''*.'' \<and> (HasSuffix h (drop 1 p) \<and> length h > length (drop 1 p) \<or> h = drop 2 p))"

definition matchHost :: "bytes \<Rightarrow> bytes list \<Rightarrow> bool" where
  "matchHost host patterns =
     (if patterns = [] then True
      else list_ex (match_pattern (ToLower (TrimSpace (strip_port host)))) patterns)"

section \<open>The transport\<close>

text \<open>
  A \<^verbatim>\<open>net.Dialer\<close> turns an address text into socket addresses and runs \<open>control\<close> on each before a
  connection to it is opened. By default it dials the two address families side by side, so any
  address that passes \<open>control\<close> and accepts may be the one it returns; it reports an error of
  \<open>control\<close>, or fails when a deadline passes or nothing accepts. What a name resolves to and which
  socket addresses accept a connection are parameters; the relation holds of every possible result.
\<close>

inductive dialer_DialContext ::
    "(bytes \<Rightarrow> bytes list) \<Rightarrow> (bytes \<Rightarrow> bool) \<Rightarrow> (bytes \<Rightarrow> ssrf_error + unit) \<Rightarrow> bytes \<Rightarrow> ssrf_error + bytes \<Rightarrow> bool"
  for resolve connect control address
where
  connected: "a \<in> set (resolve address) \<Longrightarrow> control a = Inr () \<Longrightarrow> connect a \<Longrightarrow>
    dialer_DialContext resolve connect control address (Inr a)"
| refused: "a \<in> set (resolve address) \<Longrightarrow> control a = Inl e \<Longrightarrow>
    dialer_DialContext resolve connect control address (Inl e)"
| failed: "dialer_DialContext resolve connect control address (Inl errDial)"

inductive_simps dialer_connected: "dialer_DialContext resolve connect control address (Inr a)"

definition dialer_Control :: "ssrfConfig \<Rightarrow> bytes \<Rightarrow> ssrf_error + unit" where
  "dialer_Control cfg address =
     (if \<not> BlockPrivateIPs cfg then Inr ()
      else case ParseAddr (strip_port address) of
             None \<Rightarrow> Inr ()
           | Some ip \<Rightarrow> if isIPBlocked ip then Inl errSSRFBlocked else Inr ())"

definition transport_DialContext ::
    "(bytes \<Rightarrow> bytes list) \<Rightarrow> (bytes \<Rightarrow> bool) \<Rightarrow> ssrfConfig \<Rightarrow> bytes \<Rightarrow> ssrf_error + bytes \<Rightarrow> bool" where
  "transport_DialContext resolve connect cfg addr r =
     (case SplitHostPort addr of
        None \<Rightarrow> r = Inl errAddress
      | Some (host, port) \<Rightarrow>
          if AllowedHosts cfg \<noteq> [] \<and> \<not> matchHost host (AllowedHosts cfg) then r = Inl errHostNotAllowed
          else if AllowedHosts cfg \<noteq> [] \<and> AllowPrivateIPsForAllowedHosts cfg
          then dialer_DialContext resolve connect (\<lambda>_. Inr ()) addr r
          else dialer_DialContext resolve connect (dialer_Control cfg) (JoinHostPort host port) r)"

definition ssrf_of :: "esi_config \<Rightarrow> ssrfConfig" where
  "ssrf_of c = \<lparr>BlockPrivateIPs = \<not> allowPrivateIPs c, AllowedHosts = allowedHosts c,
     AllowPrivateIPsForAllowedHosts = allowPrivateIPsForAllowedHosts c\<rparr>"

lemma dialer_Control_iff:
  "BlockPrivateIPs cfg \<Longrightarrow>
    dialer_Control cfg a = Inr () \<longleftrightarrow> pred_option (\<lambda>ip. \<not> in_blocked_range ip) (ParseAddr (strip_port a))"
  by (simp add: dialer_Control_def isIPBlocked_iff split: option.split)

text \<open>
  Property C13. With private addresses blocked and no exemption for allowed hosts, the transport may
  connect to \<open>a\<close> exactly when the host of the target is allowed and \<open>a\<close> is a socket address of its
  resolution that accepts a connection and lies in none of the listed IPv4 and IPv6 ranges; an IPv4
  address written as an IPv6 one is judged by the IPv4 ranges.
\<close>

theorem dial_outside_blocked_ranges:
  assumes "BlockPrivateIPs cfg" and "AllowedHosts cfg = [] \<or> \<not> AllowPrivateIPsForAllowedHosts cfg"
  shows "transport_DialContext resolve connect cfg addr (Inr a) \<longleftrightarrow>
    (\<exists>host port. SplitHostPort addr = Some (host, port) \<and> matchHost host (AllowedHosts cfg) \<and>
       a \<in> set (resolve (JoinHostPort host port)) \<and> connect a \<and>
       pred_option (\<lambda>ip. \<not> in_blocked_range ip) (ParseAddr (strip_port a)))"
  using assms
  by (auto simp: transport_DialContext_def dialer_connected dialer_Control_iff matchHost_def split: option.splits if_splits)

definition demo_resolve :: "bytes \<Rightarrow> bytes list" where
  "demo_resolve addr = [''10.0.0.5:80'', ''93.184.216.34:80'']"

lemma dial_outside_blocked_ranges_witness:
  "\<not> transport_DialContext demo_resolve (\<lambda>_. True) (ssrf_of default_esi_config) ''partner.example:80'' (Inr ''10.0.0.5:80'') \<and>
   transport_DialContext demo_resolve (\<lambda>_. True) (ssrf_of default_esi_config) ''partner.example:80'' (Inr ''93.184.216.34:80'')"
proof -
  let ?P = "\<lambda>a. pred_option (\<lambda>ip. \<not> in_blocked_range ip) (ParseAddr (strip_port a))"
  have s: "SplitHostPort ''partner.example:80'' = Some (''partner.example'', ''80'')" by code_simp
  have h: "strip_port ''10.0.0.5:80'' = ''10.0.0.5''" "strip_port ''93.184.216.34:80'' = ''93.184.216.34''" by code_simp+
  have q: "parseIPv4Fields ''10.0.0.5'' = Some [10, 0, 0, 5]" "parseIPv4Fields ''93.184.216.34'' = Some [93, 184, 216, 34]"
    by code_simp+
  have p: "\<not> ?P ''10.0.0.5:80''" "?P ''93.184.216.34:80''"
    unfolding h ParseAddr_def by (simp_all add: q of_octets_def in_ranges_def blocked_ranges_v4_def ip4_def)
  have c: "BlockPrivateIPs (ssrf_of default_esi_config)" "AllowedHosts (ssrf_of default_esi_config) = []"
    by (simp_all add: ssrf_of_def default_esi_config_def)
  then show ?thesis
    using s p dial_outside_blocked_ranges [OF c(1) disjI1 [OF c(2)], of demo_resolve "\<lambda>_. True"]
    by (simp add: matchHost_def demo_resolve_def)
qed

text \<open>
  Addresses outside the listed ranges: the documentation network \<^verbatim>\<open>192.0.2.0/24\<close>, and the private
  address \<^verbatim>\<open>10.0.0.5\<close> embedded by NAT64 (\<^verbatim>\<open>64:ff9b::/96\<close>) and by 6to4 (\<^verbatim>\<open>2002::/16\<close>).
\<close>

lemma embedded_private_not_blocked:
  "isIPBlocked (V4 0x0A000005)"
  "\<not> isIPBlocked (V4 0xC0000207)"
  "\<not> isIPBlocked (V6 0x0064FF9B00000000000000000A000005 [])"
  "\<not> isIPBlocked (V6 0x20020A00000500000000000000000000 [])"
  by (simp_all add: isIPBlocked_iff in_ranges_def blocked_ranges_v4_def blocked_ranges_v6_def ip4_def block6_def)

text \<open>What a wildcard pattern matches: the domain and its subdomains, never a host that merely ends in its letters.\<close>

lemma match_wildcard:
  assumes "ToLower (TrimSpace pattern) = ''*.'' @ d" and "CHR '':'' \<notin> set d"
  shows "match_pattern h pattern \<longleftrightarrow> h = d \<or> (\<exists>l. l \<noteq> [] \<and> h = l @ ''.'' @ d) \<or> h = ''*.'' @ d"
proof -
  have "LastIndexByte xs c = None" if "c \<notin> set xs" for xs c using that by (induction xs) auto
  then have "SplitHostPort (''*.'' @ d) = None" using assms(2) by (simp add: SplitHostPort_def)
  moreover have "HasSuffix h (CHR ''.'' # d) \<longleftrightarrow> (\<exists>l. h = l @ ''.'' @ d)"
    by (simp add: HasSuffix_iff)
  ultimately show ?thesis using assms(1) by (auto simp: match_pattern_def strip_port_def HasPrefix_def)
qed

end
