(* ===== verification/EsiFetch.thy ===== *)
theory EsiFetch
  imports Ssrf HttpWriter
begin

text \<open>
  How the content of an include is obtained (\<^verbatim>\<open>src/esi/processor.go\<close>, \<^verbatim>\<open>fetchFragment\<close> and what it
  calls; \<^verbatim>\<open>HandlerFetcher\<close> of \<^verbatim>\<open>src/esi/config.go\<close>; \<^verbatim>\<open>src/esi/recorder.go\<close>). The HTTP client is a
  parameter \<open>Do\<close>: it maps the request that is sent to a response, \<open>None\<close> for a transport error or a
  timeout. An in-process fetcher returns a body and a header, or an error; \<open>None\<close> is a panic.
\<close>

section \<open>Requests and fetchers\<close>

datatype fetch_error = ErrFallbackToHTTP | Rejected ssrf_error | Failed

record outRequest =
  oURL :: URL
  oHeader :: Header

record httpResponse =
  StatusCode :: int
  respHeader :: Header
  respBody :: "bytes option"

type_synonym InternalFetcherFunc = "bytes \<Rightarrow> Request \<Rightarrow> (fetch_error + bytes \<times> Header) option"

type_synonym fetched = "bytes \<times> bytes list \<times> bytes"

record fetch_env =
  Do :: "outRequest \<Rightarrow> httpResponse option"
  internalFetcher :: "InternalFetcherFunc option"
  ctxErr :: bool

definition stripDefaultPort :: "bytes \<Rightarrow> bytes" where
  "stripDefaultPort h = TrimSuffix (TrimSuffix h '':80'') '':443''"

definition cloneRequestHeader :: "Header \<Rightarrow> Header" where
  "cloneRequestHeader src =
     (let existing = (case map_of src headerSurrogateCapability of None \<Rightarrow> [] | Some vs \<Rightarrow> vs)
      in if existing = [] then AList.update headerSurrogateCapability [surrogateCapabilityTitip] src
         else if \<not> Contains (hd existing) surrogateCapabilityTitip
         then AList.update headerSurrogateCapability [hd existing @ '', '' @ surrogateCapabilityTitip] src
         else src)"

text \<open>\<^verbatim>\<open>http.NewRequestWithContext\<close> for a GET: the URL is parsed and an empty port dropped from its host.\<close>

definition removeEmptyPort :: "bytes \<Rightarrow> bytes" where
  "removeEmptyPort h =
     (case LastIndexByte h (CHR '':'') of
        None \<Rightarrow> h
      | Some i \<Rightarrow> if (case LastIndexByte h (CHR '']'') of None \<Rightarrow> True | Some j \<Rightarrow> j < i) then TrimSuffix h '':'' else h)"

definition http_NewRequest :: "goenv \<Rightarrow> bytes \<Rightarrow> outRequest option" where
  "http_NewRequest env target =
     map_option (\<lambda>u. \<lparr>oURL = u\<lparr>Host := removeEmptyPort (Host u)\<rparr>, oHeader = []\<rparr>) (url_Parse env target)"

section \<open>Outbound fetches\<close>

definition same_host :: "outRequest \<Rightarrow> Request \<Rightarrow> bool" where
  "same_host q r \<longleftrightarrow> Host (oURL q) = [] \<or> EqualFold (stripDefaultPort (Host (oURL q))) (stripDefaultPort (rHost r))"

text \<open>The request of an outbound fetch: the first half of \<^verbatim>\<open>fetchOutboundHTTP\<close>.\<close>

definition set_nonempty :: "Header \<Rightarrow> bytes \<Rightarrow> bytes \<Rightarrow> Header" where
  "set_nonempty h k v = (if v \<noteq> [] then Set h k v else h)"

definition outbound_request :: "goenv \<Rightarrow> Request option \<Rightarrow> bytes \<Rightarrow> outRequest option" where
  "outbound_request env parentReq target =
     (case http_NewRequest env target of
        None \<Rightarrow> None
      | Some q \<Rightarrow>
          let h = addSurrogateCapability (Set [] ''Accept-Encoding'' ''identity'') ''titip''
          in Some (q\<lparr>oHeader :=
            (case parentReq of
               None \<Rightarrow> h
             | Some r \<Rightarrow>
                 let h = set_nonempty h ''User-Agent'' (Get (rHeader r) ''User-Agent'');
                     h = set_nonempty h ''Accept-Language'' (Get (rHeader r) ''Accept-Language'')
                 in if same_host q r
                    then set_nonempty (add_values ''Cookie'' (Values (rHeader r) ''Cookie'') h)
                           headerAuthorization (Get (rHeader r) headerAuthorization)
                    else h)\<rparr>))"

text \<open>\<^verbatim>\<open>io.ReadAll\<close> of an \<^verbatim>\<open>io.LimitReader\<close>: nothing is read at a limit of zero or below.\<close>

definition limit_read :: "int \<Rightarrow> bytes \<Rightarrow> bytes" where
  "limit_read n b = (if n \<le> 0 then [] else take (nat n) b)"

definition fetchOutboundHTTP ::
    "goenv \<Rightarrow> esi_config \<Rightarrow> fetch_env \<Rightarrow> Request option \<Rightarrow> bytes \<Rightarrow> fetch_error + fetched" where
  "fetchOutboundHTTP env p io parentReq target =
     (case outbound_request env parentReq target of
        None \<Rightarrow> Inl Failed
      | Some q \<Rightarrow>
          (case Do io q of
             None \<Rightarrow> Inl Failed
           | Some resp \<Rightarrow>
               if StatusCode resp \<ge> 400 then Inl Failed
               else
                 (case respBody resp of
                    None \<Rightarrow> Inl Failed
                  | Some stream \<Rightarrow>
                      let maxSize = maxResponseSize p;
                          data = (if maxSize > 0 then limit_read (wrap64 (maxSize + 1)) stream else stream)
                      in if maxSize > 0 \<and> int (length data) > maxSize then Inl Failed
                         else Inr (data,
                           (if disableForwardCookies p then []
                            else case map_of (respHeader resp) headerSetCookie of None \<Rightarrow> [] | Some cs \<Rightarrow> cs), ''http''))))"

section \<open>In-process fetches\<close>

definition fetchViaCustomFetcher ::
    "goenv \<Rightarrow> esi_config \<Rightarrow> fetch_env \<Rightarrow> InternalFetcherFunc \<Rightarrow> Request option \<Rightarrow> bytes \<Rightarrow> fetch_error + fetched" where
  "fetchViaCustomFetcher env p io fetcher parentReq targetPath =
     (let req = (case parentReq of
            Some r \<Rightarrow> Some (r\<lparr>rHeader := cloneRequestHeader (rHeader r)\<rparr>)
          | None \<Rightarrow> map_option (\<lambda>q. \<lparr>Method = ''GET'', rURL = Some (oURL q), rHost = Host (oURL q),
              rHeader = addSurrogateCapability [] ''titip'', TLS = False\<rparr>) (http_NewRequest env targetPath))
      in case req of
           None \<Rightarrow> Inl Failed
         | Some r \<Rightarrow>
             (case fetcher targetPath r of
                None \<Rightarrow> Inl Failed
              | Some (Inl e) \<Rightarrow> Inl e
              | Some (Inr (data, headers)) \<Rightarrow>
                  if ctxErr io then Inl Failed
                  else if maxResponseSize p > 0 \<and> int (length data) > maxResponseSize p then Inl Failed
                  else Inr (data,
                    (if disableForwardCookies p then []
                     else case map_of headers headerSetCookie of None \<Rightarrow> [] | Some cs \<Rightarrow> cs), ''in_process'')))"

definition outbound_url :: "Request option \<Rightarrow> URL \<Rightarrow> bytes" where
  "outbound_url parentReq parsed =
     (if Host parsed = [] then
        (case parentReq of
           Some r \<Rightarrow>
             (if TLS r \<or> EqualFold (Get (rHeader r) headerXForwardedProto) ''https'' then ''https'' else ''http'')
               @ ''://'' @ rHost r @ RequestURI parsed
         | None \<Rightarrow> ''http://localhost'' @ RequestURI parsed)
      else url_String parsed)"

definition fetchFragment ::
    "goenv \<Rightarrow> esi_config \<Rightarrow> fetch_env \<Rightarrow> Request option \<Rightarrow> bytes \<Rightarrow> fetch_error + fetched" where
  "fetchFragment env p io parentReq target =
     (case validateURLScheme env target of
        Inl e \<Rightarrow> Inl (Rejected e)
      | Inr parsed \<Rightarrow>
          let parentHost = (case parentReq of None \<Rightarrow> [] | Some r \<Rightarrow> rHost r);
              isSameHost = (Host parsed = [] \<or> parentHost \<noteq> [] \<and> EqualFold (Host parsed) parentHost)
          in case (if isSameHost then internalFetcher io else None) of
               Some fetcher \<Rightarrow>
                 let targetPath = (if RequestURI parsed = [] then ''/'' else RequestURI parsed)
                 in (case fetchViaCustomFetcher env p io fetcher parentReq targetPath of
                       Inr res \<Rightarrow> Inr res
                     | Inl e \<Rightarrow>
                         if e = ErrFallbackToHTTP then fetchOutboundHTTP env p io parentReq (outbound_url parentReq parsed)
                         else Inl e)
             | None \<Rightarrow> fetchOutboundHTTP env p io parentReq (outbound_url parentReq parsed))"

text \<open>
  \<^verbatim>\<open>HandlerFetcher\<close>: an \<^verbatim>\<open>http.Handler\<close> as a fetcher, \<open>None\<close> for a nil router. The recorder it writes
  to is fresh (below); the clock it leaves behind is not read.
\<close>

definition HandlerFetcher :: "goenv \<Rightarrow> gotime \<Rightarrow> handler option \<Rightarrow> InternalFetcherFunc" where
  "HandlerFetcher env now router targetPath r =
     (case router of
        None \<Rightarrow> Some (Inl Failed)
      | Some serve \<Rightarrow>
          (case (if HasPrefix targetPath ''/'' \<and> \<not> ContainsAny targetPath ''?#%''
                 then Some (empty_URL\<lparr>Path := targetPath\<rparr>) else url_Parse env targetPath) of
             None \<Rightarrow> Some (Inl Failed)
           | Some parsedURL \<Rightarrow>
               let subReq = r\<lparr>Method := ''GET'', rURL := Some parsedURL,
                     rHeader := AList.update ''Accept-Encoding'' [''identity''] (rHeader r)\<rparr>
               in (case fst (serve subReq new_writer now) of
                     None \<Rightarrow> None
                   | Some w \<Rightarrow>
                       if rec_Code w = 404 then Some (Inl ErrFallbackToHTTP)
                       else if rec_Code w \<ge> 400 then Some (Inl Failed)
                       else Some (Inr (wBody w, wHeader w)))))"

text \<open>What the resolution of fragments calls, with the mode dropped.\<close>

definition raw_fetch ::
    "goenv \<Rightarrow> esi_config \<Rightarrow> fetch_env \<Rightarrow> Request \<Rightarrow> bytes \<Rightarrow> esiExecutionState \<Rightarrow> rawFetchResult option" where
  "raw_fetch env p io r target st =
     (case fetchFragment env p io (Some r) target of
        Inl _ \<Rightarrow> None
      | Inr (data, cookies, mode) \<Rightarrow> Some \<lparr>rawBody = data, rawCookies = cookies\<rparr>)"

section \<open>The pooled recorder\<close>

text \<open>
  \<^verbatim>\<open>subrequestRecorder\<close>: the header map is nil after it was detached, the buffer when a large one was
  dropped. A handler acts on it by changing the header, writing a status and writing bytes.
\<close>

record subrequestRecorder =
  sCode :: int
  sHeader :: "Header option"
  sBody :: "bytes option"
  sWroteHeader :: bool

definition new_recorder :: subrequestRecorder where
  "new_recorder = \<lparr>sCode = 200, sHeader = Some [], sBody = Some [], sWroteHeader = False\<rparr>"

definition releaseSubrequestRecorder :: "subrequestRecorder \<Rightarrow> subrequestRecorder" where
  "releaseSubrequestRecorder r =
     (let r = (if sBody r = None then r\<lparr>sBody := Some []\<rparr> else r);
          r = r\<lparr>sCode := 200, sWroteHeader := False\<rparr>;
          r = (if sHeader r \<noteq> None then r\<lparr>sHeader := Some []\<rparr> else r)
      in r\<lparr>sBody := Some []\<rparr>)"

definition sub_Header :: "subrequestRecorder \<Rightarrow> Header \<times> subrequestRecorder" where
  "sub_Header r = (case sHeader r of Some h \<Rightarrow> (h, r) | None \<Rightarrow> ([], r\<lparr>sHeader := Some []\<rparr>))"

definition detachHeader :: "subrequestRecorder \<Rightarrow> Header option \<times> subrequestRecorder" where
  "detachHeader r = (sHeader r, r\<lparr>sHeader := None\<rparr>)"

definition sub_WriteHeader :: "subrequestRecorder \<Rightarrow> int \<Rightarrow> subrequestRecorder" where
  "sub_WriteHeader r code = (if sWroteHeader r then r else r\<lparr>sCode := code, sWroteHeader := True\<rparr>)"

definition sub_Write :: "subrequestRecorder \<Rightarrow> bytes \<Rightarrow> subrequestRecorder" where
  "sub_Write r b =
     (let r = (if \<not> sWroteHeader r then r\<lparr>sCode := 200, sWroteHeader := True\<rparr> else r)
      in r\<lparr>sBody := Some ((case sBody r of None \<Rightarrow> [] | Some x \<Rightarrow> x) @ b)\<rparr>)"

datatype rec_event = UpdHeader "Header \<Rightarrow> Header" | SendHeader int | SendBody bytes

fun sub_event :: "subrequestRecorder \<Rightarrow> rec_event \<Rightarrow> subrequestRecorder" where
  "sub_event r (UpdHeader f) = (let (h, r') = sub_Header r in r'\<lparr>sHeader := Some (f h)\<rparr>)"
| "sub_event r (SendHeader c) = sub_WriteHeader r c"
| "sub_event r (SendBody b) = sub_Write r b"

fun writer_event :: "writer \<Rightarrow> rec_event \<Rightarrow> writer" where
  "writer_event w (UpdHeader f) = upd_header f w"
| "writer_event w (SendHeader c) = WriteHeader w c"
| "writer_event w (SendBody b) = Write w b"

text \<open>The simulation: a recorder and a writer agree on header, status and body.\<close>

definition rec_sim :: "subrequestRecorder \<Rightarrow> writer \<Rightarrow> bool" where
  "rec_sim r w \<longleftrightarrow> (case sHeader r of None \<Rightarrow> [] | Some h \<Rightarrow> h) = wHeader w \<and>
     sCode r = rec_Code w \<and> sWroteHeader r = (wCode w \<noteq> None) \<and>
     (case sBody r of None \<Rightarrow> [] | Some b \<Rightarrow> b) = wBody w"

lemma rec_sim_event: "rec_sim r w \<Longrightarrow> rec_sim (sub_event r e) (writer_event w e)"
  by (cases e)
     (auto simp: rec_sim_def sub_Header_def sub_WriteHeader_def sub_Write_def rec_Code_def WriteHeader_def Write_def
        split: option.splits)

lemma rec_sim_events: "rec_sim r w \<Longrightarrow> rec_sim (foldl sub_event r es) (foldl writer_event w es)"
  by (induction es arbitrary: r w) (simp_all add: rec_sim_event)

lemma rec_sim_released: "rec_sim (releaseSubrequestRecorder r) new_writer"
  by (cases "sHeader r"; cases "sBody r")
     (simp_all add: rec_sim_def releaseSubrequestRecorder_def new_writer_def rec_Code_def Let_def)

text \<open>
  A recorder taken from the pool shows nothing of the response it recorded before:
  whatever a handler does with it, its status, header and body are those of the same actions on a
  new response writer.
\<close>

theorem pooled_recorder_fresh:
  "let r = foldl sub_event (releaseSubrequestRecorder (snd (detachHeader old))) es;
       w = foldl writer_event new_writer es
   in fst (sub_Header r) = wHeader w \<and> sCode r = rec_Code w \<and> (case sBody r of None \<Rightarrow> [] | Some b \<Rightarrow> b) = wBody w"
  using rec_sim_events [OF rec_sim_released, of "snd (detachHeader old)" es]
  by (auto simp: rec_sim_def sub_Header_def Let_def split: option.splits)

section \<open>What an include may send and receive\<close>

lemma Values_set_nonempty:
  "Values (set_nonempty h k v) j =
     (if v \<noteq> [] \<and> CanonicalHeaderKey j = CanonicalHeaderKey k then [v] else Values h j)"
  by (simp add: set_nonempty_def)

lemma Get_set_nonempty: "Values h k = [] \<Longrightarrow> Get (set_nonempty h k v) k = v"
  by (simp add: Get_def Values_set_nonempty)

lemma keys_set_nonempty: "fst ` set h \<subseteq> K \<Longrightarrow> fst ` set (set_nonempty h k v) \<subseteq> insert (CanonicalHeaderKey k) K"
  by (auto simp: set_nonempty_def Set_def dom_update)

lemma keys_add_values: "fst ` set (add_values k vs h) \<subseteq> insert (CanonicalHeaderKey k) (fst ` set h)"
  unfolding add_values_def
proof (induction vs arbitrary: h)
  case (Cons v vs)
  then show ?case using Cons.IH [of "Add h k v"] by (simp only: foldl.simps keys_Add insert_absorb2)
qed auto

lemma canon_outbound [simp]:
  "CanonicalHeaderKey ''Cookie'' = ''Cookie''" "CanonicalHeaderKey ''Authorization'' = ''Authorization''"
  "CanonicalHeaderKey ''User-Agent'' = ''User-Agent''" "CanonicalHeaderKey ''Accept-Language'' = ''Accept-Language''"
  "CanonicalHeaderKey ''Accept-Encoding'' = ''Accept-Encoding''" "CanonicalHeaderKey ''Surrogate-Capability'' = ''Surrogate-Capability''"
  by code_simp+

definition outbound_base :: Header where
  "outbound_base = addSurrogateCapability (Set [] ''Accept-Encoding'' ''identity'') ''titip''"

lemma outbound_base: "outbound_base =
    [(''Accept-Encoding'', [''identity'']), (''Surrogate-Capability'', [surrogateCapabilityTitip])]"
  by (simp add: outbound_base_def addSurrogateCapability_def Get_def Values_def Set_def)

lemma outbound_headers:
  assumes "outbound_request env (Some r) target = Some q"
  shows "Values (oHeader q) ''Cookie'' = (if same_host q r then Values (rHeader r) ''Cookie'' else []) \<and>
    Get (oHeader q) ''Authorization'' = (if same_host q r then Get (rHeader r) ''Authorization'' else []) \<and>
    fst ` set (oHeader q) \<subseteq>
      {''Accept-Encoding'', ''Surrogate-Capability'', ''User-Agent'', ''Accept-Language''} \<union>
      (if same_host q r then {''Cookie'', ''Authorization''} else {})"
proof -
  define h where "h = set_nonempty (set_nonempty outbound_base ''User-Agent'' (Get (rHeader r) ''User-Agent''))
    ''Accept-Language'' (Get (rHeader r) ''Accept-Language'')"
  define h2 where "h2 = add_values ''Cookie'' (Values (rHeader r) ''Cookie'') h"
  have q: "oHeader q = (if same_host q r then set_nonempty h2 ''Authorization'' (Get (rHeader r) ''Authorization'') else h)"
    using assms by (auto simp: outbound_request_def h_def h2_def outbound_base_def Let_def same_host_def split: option.splits)
  have v: "Values h ''Cookie'' = []" "Values h ''Authorization'' = []"
    by (simp_all add: h_def Values_set_nonempty) (simp_all add: outbound_base Values_def)
  have k: "fst ` set h \<subseteq> {''Accept-Encoding'', ''Surrogate-Capability'', ''User-Agent'', ''Accept-Language''}"
  proof -
    have "fst ` set outbound_base \<subseteq> {''Accept-Encoding'', ''Surrogate-Capability''}" by (simp add: outbound_base)
    then have "fst ` set h \<subseteq> insert (CanonicalHeaderKey ''Accept-Language'')
        (insert (CanonicalHeaderKey ''User-Agent'') {''Accept-Encoding'', ''Surrogate-Capability''})"
      unfolding h_def by (intro keys_set_nonempty)
    then show ?thesis unfolding canon_outbound by (rule order.trans) simp
  qed
  show ?thesis
  proof (cases "same_host q r")
    case True
    have "fst ` set (oHeader q) \<subseteq> insert ''Authorization'' (insert ''Cookie'' (fst ` set h))"
      using keys_set_nonempty [OF keys_add_values] q True unfolding h2_def by (metis canon_outbound(1,2))
    also have "\<dots> \<subseteq> insert ''Authorization'' (insert ''Cookie'' {''Accept-Encoding'', ''Surrogate-Capability'', ''User-Agent'', ''Accept-Language''})"
      using k by (intro insert_mono)
    finally have "fst ` set (oHeader q) \<subseteq> {''Accept-Encoding'', ''Surrogate-Capability'', ''User-Agent'', ''Accept-Language''} \<union>
        {''Cookie'', ''Authorization''}" by (rule order.trans) simp
    moreover have "Values (oHeader q) ''Cookie'' = Values (rHeader r) ''Cookie''"
      "Get (oHeader q) ''Authorization'' = Get (rHeader r) ''Authorization''"
      using q True v by (simp_all add: Get_set_nonempty Values_set_nonempty h2_def Values_add_values)
    ultimately show ?thesis using True by simp
  qed (use q v k in \<open>simp add: Get_def\<close>)
qed

text \<open>
  A host as a name and a port: the name has no colon or is an address in brackets, the port is
  absent or a colon and digits. Two such hosts are the same when their names agree up to case and
  their ports are equal or both default, where no port, 80 and 443 all count as default.
\<close>

definition host_name :: "bytes \<Rightarrow> bool" where
  "host_name n \<longleftrightarrow> n \<noteq> [] \<and> (CHR '':'' \<notin> set n \<or> last n = CHR '']'')"

definition port_text :: "bytes \<Rightarrow> bool" where
  "port_text p \<longleftrightarrow> p = [] \<or> hd p = CHR '':'' \<and> list_all is_digit (tl p)"

definition default_port :: "bytes \<Rightarrow> bool" where
  "default_port p \<longleftrightarrow> p \<in> {[], '':80'', '':443''}"

definition same_origin_host :: "bytes \<Rightarrow> bytes \<Rightarrow> bytes \<Rightarrow> bytes \<Rightarrow> bool" where
  "same_origin_host n p n' p' \<longleftrightarrow> map lower_byte n = map lower_byte n' \<and> (p = p' \<or> default_port p \<and> default_port p')"

lemma lower_byte_digit: "is_digit c \<Longrightarrow> lower_byte c = c"
  by (auto simp: is_digit_def lower_byte_def is_upper_def)

lemma ToLower_port: "port_text p \<Longrightarrow> map lower_byte p = p"
  by (cases p) (auto simp: port_text_def list_all_iff lower_byte_digit intro: map_idI, simp add: lower_byte_def is_upper_def)

lemma TrimSuffix_append: "TrimSuffix (n @ p) p = n"
  by (simp add: TrimSuffix_def HasSuffix_iff)

lemma digits_no_colon: "list_all is_digit d \<Longrightarrow> CHR '':'' \<notin> set d"
  by (auto simp: list_all_iff is_digit_def)

lemma name_no_port:
  assumes "host_name n" and "list_all is_digit d"
  shows "n \<noteq> m @ CHR '':'' # d"
proof
  assume m: "n = m @ CHR '':'' # d"
  then have "last n = CHR '':'' \<or> is_digit (last n)" using assms(2) by (cases d rule: rev_cases) auto
  then show False using assms(1) m by (auto simp: host_name_def is_digit_def)
qed

lemma last_colon:
  assumes "n @ CHR '':'' # d = m @ CHR '':'' # e" "list_all is_digit d" "list_all is_digit e"
  shows "d = e"
proof -
  have "takeWhile (\<lambda>c. c \<noteq> CHR '':'') (rev (m @ CHR '':'' # x)) = rev x" if "list_all is_digit x" for m x
    using digits_no_colon [OF that] by (auto simp: takeWhile_append)
  from this [OF assms(2), of n] this [OF assms(3), of m] show ?thesis using assms(1) by simp
qed

lemma host_port_unique:
  assumes "host_name n" "port_text p" "host_name n'" "port_text p'" and "n @ p = n' @ p'"
  shows "n = n' \<and> p = p'"
proof -
  have c: "p = [] \<or> (\<exists>d. p = CHR '':'' # d \<and> list_all is_digit d)" if "port_text p" for p
    using that by (cases p) (auto simp: port_text_def)
  from c [OF assms(2)] c [OF assms(4)] show ?thesis
  proof (elim disjE exE conjE)
    fix d e assume "p = CHR '':'' # d" "list_all is_digit d" "p' = CHR '':'' # e" "list_all is_digit e"
    then show ?thesis using last_colon [of n d n' e] assms(5) by simp
  qed (use assms(5) name_no_port [OF assms(1)] name_no_port [OF assms(3)] in auto)
qed

text \<open>Whether a host ends in a given port is decided by its own port.\<close>

lemma TrimSuffix_port:
  assumes "host_name n" "port_text p" "list_all is_digit e"
  shows "TrimSuffix (n @ p) (CHR '':'' # e) = (if p = CHR '':'' # e then n else n @ p)"
proof (cases "HasSuffix (n @ p) (CHR '':'' # e)")
  case True
  then obtain m where m: "n @ p = m @ CHR '':'' # e" by (auto simp: HasSuffix_iff)
  then have "p \<noteq> []" using name_no_port [OF assms(1,3)] by auto
  then obtain d where p: "p = CHR '':'' # d" "list_all is_digit d" using assms(2) by (cases p) (auto simp: port_text_def)
  then have "d = e" using last_colon [OF _ p(2) assms(3)] m by simp
  then show ?thesis using p TrimSuffix_append by simp
next
  case False
  then show ?thesis by (auto simp: TrimSuffix_def HasSuffix_iff)
qed

lemma stripDefaultPort_host:
  assumes "host_name n" and "port_text p"
  shows "stripDefaultPort (n @ p) = n @ (if default_port p then [] else p)"
proof -
  have "list_all is_digit ''80''" "list_all is_digit ''443''" by (simp_all add: is_digit_def)
  note t = TrimSuffix_port [OF assms this(1)] TrimSuffix_port [OF assms this(2)] TrimSuffix_port [OF assms(1) _ this(2), of "[]"]
  show ?thesis using t by (auto simp: stripDefaultPort_def default_port_def port_text_def)
qed

lemma host_name_lower: "host_name n \<Longrightarrow> host_name (map lower_byte n)"
proof -
  have u: "char_of (n + 32) \<noteq> CHR '':''" if "65 \<le> n" "n \<le> (90::nat)" for n
  proof
    assume "char_of (n + 32) = CHR '':''"
    then have "of_char (char_of (n + 32)) = (58::nat)" by simp
    then show False using that by simp
  qed
  have v: "lower_byte c = CHR '':'' \<longleftrightarrow> c = CHR '':''" for c
  proof (cases "is_upper c")
    case True
    then have "lower_byte c \<noteq> CHR '':''" using u [of "of_char c"] by (simp add: lower_byte_def is_upper_def)
    moreover have "c \<noteq> CHR '':''" using True by (auto simp: is_upper_def)
    ultimately show ?thesis by simp
  qed (simp add: lower_byte_def)
  have w: "lower_byte (CHR '']'') = CHR '']''" by (simp add: lower_byte_def is_upper_def)
  have "CHR '':'' \<in> set (map lower_byte n) \<longleftrightarrow> CHR '':'' \<in> set n" using v by (metis (no_types, lifting) image_iff list.set_map)
  then show "host_name n \<Longrightarrow> host_name (map lower_byte n)" using w by (metis host_name_def last_map map_is_Nil_conv)
qed

lemma same_host_iff:
  assumes "host_name n" "port_text p" "host_name n'" "port_text p'" "Host (oURL q) = n @ p" "rHost r = n' @ p'"
  shows "same_host q r \<longleftrightarrow> same_origin_host n p n' p'"
proof -
  define e where "e p = (if default_port p then [] else p)" for p
  have e: "port_text (e p)" "port_text (e p')" using assms(2,4) by (simp_all add: e_def port_text_def)
  have "same_host q r \<longleftrightarrow> map lower_byte n @ e p = map lower_byte n' @ e p'"
    using assms(1) stripDefaultPort_host [OF assms(1,2)] stripDefaultPort_host [OF assms(3,4)] ToLower_port [OF e(1)] ToLower_port [OF e(2)]
    by (auto simp: same_host_def assms(5,6) EqualFold_def ToLower_def host_name_def e_def simp del: map_append simp add: map_append)
  also have "\<dots> \<longleftrightarrow> map lower_byte n = map lower_byte n' \<and> e p = e p'"
    using host_port_unique [OF host_name_lower [OF assms(1)] e(1) host_name_lower [OF assms(3)] e(2)] by auto
  also have "e p = e p' \<longleftrightarrow> p = p' \<or> default_port p \<and> default_port p'" by (auto simp: e_def default_port_def)
  finally show ?thesis unfolding same_origin_host_def .
qed

text \<open>
  Property C14. The request of an outbound include carries at most six headers of the middleware's
  own choosing; the client's cookies and credentials are among them exactly when the name of the
  target host is the name of the page's host up to case and the ports agree, where no port, 80 and
  443 count as one, and no other header of the client ever is.
\<close>

theorem credentials_stay_on_host:
  assumes "outbound_request env (Some r) target = Some q"
    and "Host (oURL q) = n @ p" and "host_name n" and "port_text p"
    and "rHost r = n' @ p'" and "host_name n'" and "port_text p'"
  shows "Values (oHeader q) ''Cookie'' = (if same_origin_host n p n' p' then Values (rHeader r) ''Cookie'' else []) \<and>
    Get (oHeader q) ''Authorization'' = (if same_origin_host n p n' p' then Get (rHeader r) ''Authorization'' else []) \<and>
    fst ` set (oHeader q) \<subseteq>
      {''Accept-Encoding'', ''Surrogate-Capability'', ''User-Agent'', ''Accept-Language''} \<union>
      (if same_origin_host n p n' p' then {''Cookie'', ''Authorization''} else {})"
  using outbound_headers [OF assms(1)] same_host_iff [OF assms(3,4,6,7,2,5)] by simp

definition demo_client :: Request where
  "demo_client = demo_page\<lparr>rHeader := [(''Cookie'', [''sid=1'']), (''X-Secret'', [''s''])]\<rparr>"

definition demo_outbound :: "bytes \<Rightarrow> outRequest" where
  "demo_outbound target = the (outbound_request demo_env (Some demo_client) target)"

lemma credentials_stay_on_host_witness:
  "(\<exists>q. outbound_request demo_env (Some demo_client) ''http://b.org/x'' = Some q \<and> Values (oHeader q) ''Cookie'' = []) \<and>
   (\<exists>q. outbound_request demo_env (Some demo_client) ''http://A.org:80/x'' = Some q \<and> Values (oHeader q) ''Cookie'' = [''sid=1''])"
proof -
  have q: "outbound_request demo_env (Some demo_client) ''http://b.org/x'' = Some (demo_outbound ''http://b.org/x'')"
    "outbound_request demo_env (Some demo_client) ''http://A.org:80/x'' = Some (demo_outbound ''http://A.org:80/x'')"
    by code_simp+
  have h: "Host (oURL (demo_outbound ''http://b.org/x'')) = ''b.org'' @ []"
    "Host (oURL (demo_outbound ''http://A.org:80/x'')) = ''A.org'' @ '':80''" "rHost demo_client = ''a.org'' @ []" by code_simp+
  have n: "host_name ''b.org''" "host_name ''A.org''" "host_name ''a.org''" "port_text []" "port_text '':80''" by code_simp+
  have s: "\<not> same_origin_host ''b.org'' [] ''a.org'' []" "same_origin_host ''A.org'' '':80'' ''a.org'' []"
    "Values (rHeader demo_client) ''Cookie'' = [''sid=1'']" by code_simp+
  have "Values (oHeader (demo_outbound ''http://b.org/x'')) ''Cookie'' = []"
    using credentials_stay_on_host [OF q(1) h(1) n(1,4) h(3) n(3,4)] s(1) by simp
  moreover have "Values (oHeader (demo_outbound ''http://A.org:80/x'')) ''Cookie'' = [''sid=1'']"
    using credentials_stay_on_host [OF q(2) h(2) n(2,5) h(3) n(3,4)] s(2,3) by simp
  ultimately show ?thesis using q by blast
qed

lemma fetchFragment_result:
  assumes "fetchFragment env p io parentReq target = Inr (data, cookies, mode)"
  shows "maxResponseSize p > 0 \<Longrightarrow> int (length data) \<le> maxResponseSize p"
    and fetchFragment_cookies: "disableForwardCookies p \<Longrightarrow> cookies = []"
proof -
  let ?ok = "(maxResponseSize p > 0 \<longrightarrow> int (length data) \<le> maxResponseSize p) \<and> (disableForwardCookies p \<longrightarrow> cookies = [])"
  have o: ?ok if "fetchOutboundHTTP env p io parentReq t = Inr (data, cookies, mode)" for t
    using that by (auto simp: fetchOutboundHTTP_def Let_def split: option.splits if_splits)
  have i: ?ok if "fetchViaCustomFetcher env p io f parentReq t = Inr (data, cookies, mode)" for f t
    using that by (auto simp: fetchViaCustomFetcher_def Let_def split: option.splits if_splits sum.splits)
  have "(\<exists>t. fetchOutboundHTTP env p io parentReq t = Inr (data, cookies, mode)) \<or>
      (\<exists>f t. fetchViaCustomFetcher env p io f parentReq t = Inr (data, cookies, mode))"
    using assms by (auto simp: fetchFragment_def Let_def split: option.splits if_splits sum.splits)
  then have ?ok using o i by blast
  then show "maxResponseSize p > 0 \<Longrightarrow> int (length data) \<le> maxResponseSize p" "disableForwardCookies p \<Longrightarrow> cookies = []"
    by blast+
qed

text \<open>
  Property C37. A fragment that was fetched, in process or over HTTP, is at most as long as the
  configured limit, brings no cookie when cookies are not forwarded, and its target was a path of
  the page's own host or an absolute http or https URL.
\<close>

theorem fetched_fragment_bounded:
  assumes "fetchFragment env p io parentReq target = Inr (data, cookies, mode)"
  shows "(maxResponseSize p > 0 \<longrightarrow> int (length data) \<le> maxResponseSize p) \<and>
    (disableForwardCookies p \<longrightarrow> cookies = []) \<and>
    (HasPrefix target ''/'' \<and> \<not> HasPrefix target ''//'' \<or>
     (\<exists>u. url_Parse env target = Some u \<and> ToLower (Scheme u) \<in> {''http'', ''https''}))"
proof -
  obtain u where "validateURLScheme env target = Inr u"
    using assms by (auto simp: fetchFragment_def split: sum.splits)
  then have "HasPrefix target ''/'' \<and> \<not> HasPrefix target ''//'' \<or>
     (\<exists>u. url_Parse env target = Some u \<and> ToLower (Scheme u) \<in> {''http'', ''https''})"
    by (auto simp: validateURLScheme_def split: if_splits option.splits)
  then show ?thesis using fetchFragment_result [OF assms] by blast
qed

definition demo_io :: fetch_env where
  "demo_io = \<lparr>Do = \<lambda>q. Some \<lparr>StatusCode = 200, respHeader = [(''Set-Cookie'', [''a=1''])], respBody = Some ''OK''\<rparr>,
     internalFetcher = None, ctxErr = False\<rparr>"

lemma fetched_fragment_bounded_witness:
  "fetchFragment demo_env (demo_esi\<lparr>maxResponseSize := 5\<rparr>) demo_io (Some demo_client) ''/f'' = Inr (''OK'', [''a=1''], ''http'') \<and>
   int (length ''OK'') \<le> maxResponseSize (demo_esi\<lparr>maxResponseSize := 5\<rparr>)"
proof -
  have f: "fetchFragment demo_env (demo_esi\<lparr>maxResponseSize := 5\<rparr>) demo_io (Some demo_client) ''/f'' = Inr (''OK'', [''a=1''], ''http'')"
    by code_simp
  have "maxResponseSize (demo_esi\<lparr>maxResponseSize := 5\<rparr>) > 0" by simp
  then show ?thesis using fetched_fragment_bounded [OF f] f by blast
qed

lemma executeFragment_cookies:
  assumes "\<And>u s raw. fetch u s = Some raw \<Longrightarrow> rawCookies raw = []"
  shows "fCookies (executeFragment env p fetch alt b f st) = []"
  using assms
proof (induction env p fetch alt b f st rule: executeFragment.induct)
  case (1 env p fetch alt b f st)
  then show ?case
    by (subst executeFragment.simps) (auto simp: fallback_result_def Let_def split: option.split)
qed

text \<open>
  When cookies are not forwarded, a page assembled from includes brings no cookie of
  any fragment, at whatever depth, to the client.
\<close>

theorem no_cookie_forwarded:
  assumes "disableForwardCookies p"
  shows "resCookies (ProcessFragments env p (raw_fetch env p io r) alt st r b fs) = []"
proof -
  have "rawCookies raw = []" if "raw_fetch env p io r u s = Some raw" for u s raw
    using that assms fetchFragment_cookies by (auto simp: raw_fetch_def split: sum.splits)
  then show ?thesis by (simp add: ProcessFragments_def executeFragments_def executeFragment_cookies)
qed

lemma no_cookie_forwarded_witness:
  "resCookies (ProcessFragments demo_env (demo_esi\<lparr>disableForwardCookies := True\<rparr>)
     (raw_fetch demo_env (demo_esi\<lparr>disableForwardCookies := True\<rparr>) demo_io demo_client) (\<lambda>_. True) None demo_client
     ''a<esi:include src=/f />b'' (the (Scan demo_env ''a<esi:include src=/f />b''))) = []"
  by (rule no_cookie_forwarded) simp

section \<open>Two oddities\<close>

text \<open>
  A limit of the largest 64-bit integer overflows when one is added to it, so that every outbound
  fragment is read as empty (and a limit of zero, no limit, reads it whole).
\<close>

lemma largest_limit_empties_fragment:
  "fetchOutboundHTTP demo_env (demo_esi\<lparr>maxResponseSize := max_int64\<rparr>) demo_io (Some demo_client) ''http://b.org/x'' =
     Inr ([], [''a=1''], ''http'') \<and>
   fetchOutboundHTTP demo_env (demo_esi\<lparr>maxResponseSize := 0\<rparr>) demo_io (Some demo_client) ''http://b.org/x'' =
     Inr (''OK'', [''a=1''], ''http'')"
  by (intro conjI; code_simp)

text \<open>
  The client's validators reach the in-process handler of a fragment: a handler that answers its
  own validator with 304 leaves the place of the fragment empty.
\<close>

definition validating_router :: handler where
  "validating_router r w now =
     (if Get (rHeader r) headerIfNoneMatch = ''v1'' then (Some (WriteHeader w 304), now)
      else (Some (Write (upd_header (\<lambda>h. Set h headerETag ''v1'') w) ''news''), now))"

lemma conditional_fragment_emptied:
  "fetchFragment demo_env demo_esi (demo_io\<lparr>internalFetcher := Some (HandlerFetcher demo_env 0 (Some validating_router))\<rparr>)
     (Some demo_client) ''/f'' = Inr (''news'', [], ''in_process'') \<and>
   fetchFragment demo_env demo_esi (demo_io\<lparr>internalFetcher := Some (HandlerFetcher demo_env 0 (Some validating_router))\<rparr>)
     (Some (demo_client\<lparr>rHeader := [(''If-None-Match'', [''v1''])]\<rparr>)) ''/f'' = Inr ([], [], ''in_process'')"
  by (intro conjI; code_simp)

end
