(* ===== verification/CaddyConfig.thy ===== *)
theory CaddyConfig
  imports TitipCore EsiFetch
begin

text \<open>
  Model of the configuration in \<^verbatim>\<open>src/adapter/caddy/caddy.go\<close> and \<^verbatim>\<open>src/adapter/caddy/app.go\<close>: the
  settings of a route and of the global app, and how \<^verbatim>\<open>Provision\<close> layers them into the options of
  an instance. Caddy itself and \<^verbatim>\<open>go-humanize\<close> are outside the repository: the context \<open>caddy_ctx\<close>
  holds what is asked of them. A pointer to a setting is an option; a storage is named by its
  address. Logger and metrics have no place in the model.
\<close>

section \<open>Settings\<close>

record key_settings =
  kIncludeProtocol :: "bool option"
  kExcludeHost :: "bool option"
  kExcludeQuery :: "bool option"
  kPreserveQueryOrder :: "bool option"
  kIncludedQueryParams :: "bytes list"
  kExcludedQueryParams :: "bytes list"
  kExcludeMarketingQueryParams :: "bool option"
  kIncludedHeaderNames :: "bytes list"
  kIncludedCookieNames :: "bytes list"
  kCaseInsensitivePath :: "bool option"
  kIncludedQueryParamValues :: "(bytes \<times> bytes list) list"

record ESIConfig =
  eEnabled :: "bool option"
  eRequireSurrogateControl :: "bool option"
  eMaxDepth :: "nat option"
  eMaxTimeout :: bytes
  eMaxConcurrentRequests :: "int option"
  eBlockPrivateIPs :: "bool option"
  eAllowedHosts :: "bytes list"
  eAllowPrivateIPsForAllowedHosts :: "bool option"
  eMaxResponseSize :: bytes
  eForwardFragmentCookies :: "bool option"
  ePreserveETag :: "bool option"
  eErrorMarker :: bytes

record timing_settings =
  stEnabled :: "bool option"
  stCookieName :: bytes
  stCookieValue :: bytes

text \<open>A loaded module is a storage module, with the address of its storage or nil, or something else.\<close>

type_synonym addr = nat

datatype loaded = StorageModule "addr option" | OtherModule

record App =
  aStorageRaw :: bytes
  aCacheStatus :: bytes
  aRespectClientCacheControl :: "bool option"
  aAutoInvalidateMutatingMethods :: "bool option"
  aConvertHeadToGet :: "bool option"
  aBackgroundFetchTimeout :: bytes
  aStorageTimeout :: bytes
  aCacheKey :: "key_settings option"
  aESI :: "ESIConfig option"
  aUseRewrittenURL :: "bool option"
  aServerTiming :: "timing_settings option"
  aStorageCompression :: bytes
  aStorageMod :: "addr option option"

record caddy_handler =
  hStorageRaw :: bytes
  hCacheStatus :: bytes
  hRespectClientCacheControl :: "bool option"
  hAutoInvalidateMutatingMethods :: "bool option"
  hConvertHeadToGet :: "bool option"
  hBackgroundFetchTimeout :: bytes
  hStorageTimeout :: bytes
  hTagHeader :: bytes
  hCacheKey :: "key_settings option"
  hESI :: "ESIConfig option"
  hUseRewrittenURL :: "bool option"
  hServerTiming :: "timing_settings option"
  hStorageCompression :: bytes
  hInstance :: "addr option"
  hId :: bytes
  useRewrittenURL :: bool

text \<open>What is asked of Caddy: the global app, if one is configured, modules, durations and sizes.\<close>

datatype app_error = ErrNotConfigured | AppError bytes

record caddy_ctx =
  AppIfConfigured :: "app_error + App option"
  LoadModule :: "bytes \<Rightarrow> error + loaded"
  ParseDuration :: "bytes \<Rightarrow> duration option"
  ParseBytes :: "bytes \<Rightarrow> nat option"

section \<open>Layering\<close>

text \<open>\<^verbatim>\<open>cmp.Or\<close> on strings, and the first pointer that is not nil.\<close>

definition cmp_Or :: "bytes \<Rightarrow> bytes \<Rightarrow> bytes" where
  "cmp_Or a b = (if a \<noteq> [] then a else b)"

fun coalesce :: "'a option list \<Rightarrow> 'a option" where
  "coalesce [] = None"
| "coalesce (Some v # vs) = Some v"
| "coalesce (None # vs) = coalesce vs"

definition set_opt :: "'a option \<Rightarrow> 'a \<Rightarrow> 'a" where
  "set_opt x d = (case x of None \<Rightarrow> d | Some v \<Rightarrow> v)"

definition set_list :: "'a list \<Rightarrow> 'a list \<Rightarrow> 'a list" where
  "set_list xs d = (if xs \<noteq> [] then xs else d)"

definition applyCacheKey :: "CacheKey \<Rightarrow> key_settings \<Rightarrow> CacheKey" where
  "applyCacheKey target src = target\<lparr>
     IncludeProtocol := set_opt (kIncludeProtocol src) (IncludeProtocol target),
     ExcludeHost := set_opt (kExcludeHost src) (ExcludeHost target),
     ExcludeQuery := (case kExcludeQuery src of
        Some b \<Rightarrow> b
      | None \<Rightarrow> if kIncludedQueryParams src \<noteq> [] \<or> kIncludedQueryParamValues src \<noteq> [] then False else ExcludeQuery target),
     PreserveQueryOrder := set_opt (kPreserveQueryOrder src) (PreserveQueryOrder target),
     IncludedQueryParams := set_list (kIncludedQueryParams src) (IncludedQueryParams target),
     ExcludedQueryParams := set_list (kExcludedQueryParams src) (ExcludedQueryParams target),
     ExcludeMarketingQueryParams := set_opt (kExcludeMarketingQueryParams src) (ExcludeMarketingQueryParams target),
     IncludedHeaderNames := set_list (kIncludedHeaderNames src) (IncludedHeaderNames target),
     IncludedCookieNames := set_list (kIncludedCookieNames src) (IncludedCookieNames target),
     CaseInsensitivePath := set_opt (kCaseInsensitivePath src) (CaseInsensitivePath target),
     IncludedQueryParamValues :=
       foldl (\<lambda>m (k, v). AList.update k v m) (IncludedQueryParamValues target) (kIncludedQueryParamValues src)\<rparr>"

definition opt_if :: "bool \<Rightarrow> 'a \<Rightarrow> 'a list" where
  "opt_if b x = (if b then [x] else [])"

text \<open>A size is a \<^verbatim>\<open>uint64\<close> that is converted to \<^verbatim>\<open>int64\<close>.\<close>

definition applyESIConfig :: "caddy_ctx \<Rightarrow> esi_option list \<Rightarrow> ESIConfig \<Rightarrow> error + esi_option list" where
  "applyESIConfig ctx opts src =
     (let opts1 = opts @ opt_if (eRequireSurrogateControl src = Some False) WithoutSurrogateControlRequirement
            @ (case eMaxDepth src of None \<Rightarrow> [] | Some d \<Rightarrow> [WithMaxDepth d])
      in case (if eMaxTimeout src = [] then Inr []
               else case ParseDuration ctx (eMaxTimeout src) of
                      None \<Rightarrow> Inl (''invalid esi max_timeout duration '' @ eMaxTimeout src)
                    | Some d \<Rightarrow> Inr [WithMaxTimeout d]) of
           Inl e \<Rightarrow> Inl e
         | Inr timeout \<Rightarrow>
             let opts2 = opts1 @ timeout
                   @ (case eMaxConcurrentRequests src of None \<Rightarrow> [] | Some n \<Rightarrow> [WithMaxConcurrentRequests n])
                   @ opt_if (eBlockPrivateIPs src = Some False) WithAllowPrivateIPs
                   @ opt_if (eAllowedHosts src \<noteq> []) (WithAllowedHosts (eAllowedHosts src))
                   @ opt_if (eAllowPrivateIPsForAllowedHosts src = Some True) WithAllowPrivateIPsForAllowedHosts
             in (case (if eMaxResponseSize src = [] then Inr []
                       else case ParseBytes ctx (eMaxResponseSize src) of
                              None \<Rightarrow> Inl (''invalid esi max_response_size '' @ eMaxResponseSize src)
                            | Some n \<Rightarrow> Inr [WithMaxResponseSize (wrap64 (int n))]) of
                   Inl e \<Rightarrow> Inl e
                 | Inr sz \<Rightarrow>
                     Inr (opts2 @ sz
                       @ opt_if (eForwardFragmentCookies src = Some False) WithoutForwardCookies
                       @ opt_if (ePreserveETag src = Some True) WithPreserveETag
                       @ opt_if (eErrorMarker src \<noteq> []) (WithIncludeErrorMarker (eErrorMarker src)))))"

section \<open>Options of an instance\<close>

definition cache_status_option :: "bytes \<Rightarrow> error + Option" where
  "cache_status_option s =
     (let l = ToLower s
      in if l = ''simple'' \<or> l = [] then Inr (WithCacheStatus CacheStatusSimple)
         else if l = ''rfc9211'' then Inr (WithCacheStatus CacheStatusRFC9211)
         else if l = ''none'' then Inr (WithCacheStatus CacheStatusNone)
         else Inl (''unknown cache_status mode '' @ s))"

definition timeout_option :: "caddy_ctx \<Rightarrow> bytes \<Rightarrow> bytes \<Rightarrow> (duration \<Rightarrow> Option) \<Rightarrow> error + Option list" where
  "timeout_option ctx what s opt =
     (if s = [] then Inr []
      else case ParseDuration ctx s of
             None \<Rightarrow> Inl (''invalid '' @ what @ '' duration '' @ s)
           | Some d \<Rightarrow> Inr [opt d])"

definition layered_key :: "key_settings option \<Rightarrow> key_settings option \<Rightarrow> CacheKey" where
  "layered_key app route =
     (let k1 = (case app of None \<Rightarrow> zero_CacheKey | Some s \<Rightarrow> applyCacheKey zero_CacheKey s)
      in case route of None \<Rightarrow> k1 | Some s \<Rightarrow> applyCacheKey k1 s)"

definition key_options :: "key_settings option \<Rightarrow> key_settings option \<Rightarrow> Option list" where
  "key_options app route = (if app = None \<and> route = None then [] else [WithCacheKey (layered_key app route)])"

definition apply_layer :: "caddy_ctx \<Rightarrow> ESIConfig option \<Rightarrow> esi_option list \<Rightarrow> error + esi_option list" where
  "apply_layer ctx layer opts = (case layer of None \<Rightarrow> Inr opts | Some s \<Rightarrow> applyESIConfig ctx opts s)"

text \<open>
  The in-process fetcher is no part of the configuration of the model: \<^verbatim>\<open>WithInternalFetcher\<close>
  changes nothing there.
\<close>

definition esi_layers :: "caddy_ctx \<Rightarrow> ESIConfig option \<Rightarrow> ESIConfig option \<Rightarrow> error + esi_option list option" where
  "esi_layers ctx app route =
     (if app = None \<and> route = None then Inr None
      else case apply_layer ctx app [] of
             Inl e \<Rightarrow> Inl e
           | Inr o1 \<Rightarrow>
               (case apply_layer ctx route o1 of
                  Inl e \<Rightarrow> Inl e
                | Inr o2 \<Rightarrow> Inr (Some (o2 @ [Inr]))))"

definition timing_options :: "timing_settings option \<Rightarrow> Option list" where
  "timing_options st =
     (case st of
        None \<Rightarrow> []
      | Some s \<Rightarrow>
          if stEnabled s = None \<or> stEnabled s = Some True then
            (if stCookieName s \<noteq> [] then [WithServerTimingCookie (stCookieName s) (stCookieValue s)] else [WithServerTiming])
          else [])"

text \<open>The settings of the app that a route may inherit; without an app all are unset.\<close>

definition no_app :: App where
  "no_app = \<lparr>aStorageRaw = [], aCacheStatus = [], aRespectClientCacheControl = None, aAutoInvalidateMutatingMethods = None,
     aConvertHeadToGet = None, aBackgroundFetchTimeout = [], aStorageTimeout = [], aCacheKey = None, aESI = None,
     aUseRewrittenURL = None, aServerTiming = None, aStorageCompression = [], aStorageMod = None\<rparr>"

definition titip_options :: "caddy_ctx \<Rightarrow> App \<Rightarrow> caddy_handler \<Rightarrow> error + Option list" where
  "titip_options ctx a h =
     (case cache_status_option (cmp_Or (hCacheStatus h) (aCacheStatus a)) of
        Inl e \<Rightarrow> Inl e
      | Inr status \<Rightarrow>
          let compression = cmp_Or (hStorageCompression h) (aStorageCompression a);
              o1 = [status] @ opt_if (compression \<noteq> []) (WithStorageCompression compression)
                @ opt_if (coalesce [hRespectClientCacheControl h, aRespectClientCacheControl a] = Some True) WithRespectClientCacheControl
                @ opt_if (coalesce [hAutoInvalidateMutatingMethods h, aAutoInvalidateMutatingMethods a] = Some True) WithAutoInvalidateMutatingMethods
                @ opt_if (coalesce [hConvertHeadToGet h, aConvertHeadToGet a] = Some False) WithoutConvertHeadToGet
          in case timeout_option ctx ''background_fetch_timeout''
                    (cmp_Or (hBackgroundFetchTimeout h) (aBackgroundFetchTimeout a)) WithBackgroundFetchTimeout of
               Inl e \<Rightarrow> Inl e
             | Inr bg \<Rightarrow>
                 (case timeout_option ctx ''storage_timeout'' (cmp_Or (hStorageTimeout h) (aStorageTimeout a)) WithStorageTimeout of
                    Inl e \<Rightarrow> Inl e
                  | Inr stor \<Rightarrow>
                      (case esi_layers ctx (aESI a) (hESI h) of
                         Inl e \<Rightarrow> Inl e
                       | Inr esi \<Rightarrow>
                           Inr (o1 @ bg @ stor @ opt_if (hTagHeader h \<noteq> []) (WithTagHeader (hTagHeader h))
                             @ key_options (aCacheKey a) (hCacheKey h)
                             @ (case esi of None \<Rightarrow> [] | Some os \<Rightarrow> [WithESI (map Some os)])
                             @ timing_options (coalesce [hServerTiming h, aServerTiming a])))))"

text \<open>The storage of a route: its own module, or the one of the app.\<close>

definition route_storage :: "caddy_ctx \<Rightarrow> App option \<Rightarrow> caddy_handler \<Rightarrow> error + addr" where
  "route_storage ctx app h =
     (case (if hStorageRaw h \<noteq> [] then
              (case LoadModule ctx (hStorageRaw h) of
                 Inl e \<Rightarrow> Inl (''storage module not installed or invalid: '' @ e)
               | Inr OtherModule \<Rightarrow> Inl ''module does not implement StorageModule''
               | Inr (StorageModule s) \<Rightarrow> Inr s)
            else case app of
                   Some a \<Rightarrow> (case aStorageMod a of
                                Some s \<Rightarrow> Inr s
                              | None \<Rightarrow> Inl ''storage configuration is required (neither route nor global storage provided)'')
                 | None \<Rightarrow> Inl ''storage configuration is required (neither route nor global storage provided)'') of
        Inl e \<Rightarrow> Inl e
      | Inr None \<Rightarrow> Inl ''storage backend failed to initialize''
      | Inr (Some s) \<Rightarrow> Inr s)"

definition configured_app :: "caddy_ctx \<Rightarrow> error + App option" where
  "configured_app ctx =
     (case AppIfConfigured ctx of
        Inl (AppError e) \<Rightarrow> Inl e
      | Inl ErrNotConfigured \<Rightarrow> Inr None
      | Inr a \<Rightarrow> Inr a)"

text \<open>\<^verbatim>\<open>App.Provision\<close>.\<close>

definition app_Provision :: "caddy_ctx \<Rightarrow> App \<Rightarrow> error + App" where
  "app_Provision ctx a =
     (if aStorageRaw a = [] then Inr a
      else case LoadModule ctx (aStorageRaw a) of
             Inl e \<Rightarrow> Inl (''loading global storage module: '' @ e)
           | Inr OtherModule \<Rightarrow> Inl ''global storage module does not implement StorageModule''
           | Inr (StorageModule s) \<Rightarrow> Inr (a\<lparr>aStorageMod := Some s\<rparr>))"

text \<open>
  The in-process fetcher of an ESI include: the server of the request's context (\<open>None\<close> when it is
  missing) answers a GET with the headers of the page. It differs from \<^verbatim>\<open>esi.HandlerFetcher\<close> in that
  the target is always parsed and the header is set under its canonical name.
\<close>

definition caddy_fetcher :: "goenv \<Rightarrow> gotime \<Rightarrow> handler option \<Rightarrow> InternalFetcherFunc" where
  "caddy_fetcher env now srv targetPath r =
     (case url_Parse env targetPath of
        None \<Rightarrow> Some (Inl Failed)
      | Some parsedURL \<Rightarrow>
          let virtReq = r\<lparr>Method := ''GET'', rURL := Some parsedURL, rHeader := Set (rHeader r) ''Accept-Encoding'' ''identity'', TLS := False\<rparr>
          in (case srv of
                None \<Rightarrow> Some (Inl Failed)
              | Some serve \<Rightarrow>
                  (case fst (serve virtReq new_writer now) of
                     None \<Rightarrow> None
                   | Some w \<Rightarrow>
                       if rec_Code w = 404 then Some (Inl ErrFallbackToHTTP)
                       else if rec_Code w \<ge> 400 then Some (Inl Failed)
                       else Some (Inr (wBody w, wHeader w)))))"

section \<open>What the layers come to\<close>

lemma set_opt_simps [simp]: "set_opt None d = d" "set_opt (Some v) d = v"
  by (simp_all add: set_opt_def)

lemma set_list_simps [simp]: "set_list [] d = d" "x \<noteq> [] \<Longrightarrow> set_list x d = x"
  by (simp_all add: set_list_def)

lemma apply_esi_options_append:
  "apply_esi_options (os @ os') c = (case apply_esi_options os c of Inl e \<Rightarrow> Inl e | Inr c' \<Rightarrow> apply_esi_options os' c')"
  by (induction os c rule: apply_esi_options.induct) (auto split: sum.split)

lemma apply_opt_if:
  "apply_esi_options (map Some (opt_if b o1)) c = Inr p \<longleftrightarrow> (if b then o1 c = Inr p else p = c)"
  by (auto simp: opt_if_def split: sum.splits)

text \<open>One layer on a configuration: a switch can only be moved away from its default, the other settings are replaced.\<close>

definition layer_config :: "caddy_ctx \<Rightarrow> ESIConfig \<Rightarrow> esi_config \<Rightarrow> esi_config" where
  "layer_config ctx src c = c\<lparr>
     requireSurrogateControl := requireSurrogateControl c \<and> eRequireSurrogateControl src \<noteq> Some False,
     maxDepth := set_opt (eMaxDepth src) (maxDepth c),
     maxTimeout := (if eMaxTimeout src = [] then maxTimeout c else set_opt (ParseDuration ctx (eMaxTimeout src)) 0),
     maxConcurrentRequests := set_opt (eMaxConcurrentRequests src) (maxConcurrentRequests c),
     allowPrivateIPs := allowPrivateIPs c \<or> eBlockPrivateIPs src = Some False,
     allowedHosts := set_list (eAllowedHosts src) (allowedHosts c),
     allowPrivateIPsForAllowedHosts := allowPrivateIPsForAllowedHosts c \<or> eAllowPrivateIPsForAllowedHosts src = Some True,
     maxResponseSize := (if eMaxResponseSize src = [] then maxResponseSize c
        else wrap64 (int (set_opt (ParseBytes ctx (eMaxResponseSize src)) 0))),
     disableForwardCookies := disableForwardCookies c \<or> eForwardFragmentCookies src = Some False,
     preserveETag := preserveETag c \<or> ePreserveETag src = Some True,
     includeErrorMarker := set_list (eErrorMarker src) (includeErrorMarker c)\<rparr>"

lemmas esi_option_defs = WithoutSurrogateControlRequirement_def WithMaxDepth_def WithMaxTimeout_def WithMaxConcurrentRequests_def
  WithAllowPrivateIPs_def WithAllowedHosts_def WithAllowPrivateIPsForAllowedHosts_def WithMaxResponseSize_def
  WithoutForwardCookies_def WithPreserveETag_def WithIncludeErrorMarker_def

lemma run_append: "apply_esi_options (map Some (os @ os')) c = Inr p \<longleftrightarrow>
  (\<exists>c'. apply_esi_options (map Some os) c = Inr c' \<and> apply_esi_options (map Some os') c' = Inr p)"
  by (auto simp: apply_esi_options_append split: sum.splits)

lemma run_opt_list: "apply_esi_options (map Some (case x of None \<Rightarrow> [] | Some v \<Rightarrow> [f v])) c = Inr p \<longleftrightarrow>
  (case x of None \<Rightarrow> p = c | Some v \<Rightarrow> f v c = Inr p)"
  by (auto split: option.split sum.splits)

lemma applyESIConfig_layer:
  assumes "applyESIConfig ctx opts src = Inr os" and "apply_esi_options (map Some os) c0 = Inr p"
  shows "\<exists>c. apply_esi_options (map Some opts) c0 = Inr c \<and> p = layer_config ctx src c"
proof -
  obtain t sz where t: "(if eMaxTimeout src = [] then t = [] else \<exists>d. ParseDuration ctx (eMaxTimeout src) = Some d \<and> t = [WithMaxTimeout d])"
    and sz: "(if eMaxResponseSize src = [] then sz = [] else \<exists>n. ParseBytes ctx (eMaxResponseSize src) = Some n \<and> sz = [WithMaxResponseSize (wrap64 (int n))])"
    and os: "os = (opts @ opt_if (eRequireSurrogateControl src = Some False) WithoutSurrogateControlRequirement
            @ (case eMaxDepth src of None \<Rightarrow> [] | Some d \<Rightarrow> [WithMaxDepth d])) @ t
            @ (case eMaxConcurrentRequests src of None \<Rightarrow> [] | Some n \<Rightarrow> [WithMaxConcurrentRequests n])
            @ opt_if (eBlockPrivateIPs src = Some False) WithAllowPrivateIPs
            @ opt_if (eAllowedHosts src \<noteq> []) (WithAllowedHosts (eAllowedHosts src))
            @ opt_if (eAllowPrivateIPsForAllowedHosts src = Some True) WithAllowPrivateIPsForAllowedHosts @ sz
            @ opt_if (eForwardFragmentCookies src = Some False) WithoutForwardCookies
            @ opt_if (ePreserveETag src = Some True) WithPreserveETag
            @ opt_if (eErrorMarker src \<noteq> []) (WithIncludeErrorMarker (eErrorMarker src))"
    using assms(1) by (auto simp: applyESIConfig_def Let_def split: sum.splits if_splits option.splits)
  have rt: "apply_esi_options (map Some t) c = Inr q \<Longrightarrow>
      q = c\<lparr>maxTimeout := (if eMaxTimeout src = [] then maxTimeout c else set_opt (ParseDuration ctx (eMaxTimeout src)) 0)\<rparr>" for c q
    using t by (auto simp: WithMaxTimeout_def split: if_splits)
  have rs: "apply_esi_options (map Some sz) c = Inr q \<Longrightarrow>
      q = c\<lparr>maxResponseSize := (if eMaxResponseSize src = [] then maxResponseSize c
        else wrap64 (int (set_opt (ParseBytes ctx (eMaxResponseSize src)) 0)))\<rparr>" for c q
    using sz by (auto simp: WithMaxResponseSize_def split: if_splits)
  from assms(2) obtain c c1 c2 c3 c4 c5 c6 c7 c8 c9 c10 where run: "apply_esi_options (map Some opts) c0 = Inr c"
    "apply_esi_options (map Some (opt_if (eRequireSurrogateControl src = Some False) WithoutSurrogateControlRequirement)) c = Inr c1"
    "apply_esi_options (map Some (case eMaxDepth src of None \<Rightarrow> [] | Some d \<Rightarrow> [WithMaxDepth d])) c1 = Inr c2"
    "apply_esi_options (map Some t) c2 = Inr c3"
    "apply_esi_options (map Some (case eMaxConcurrentRequests src of None \<Rightarrow> [] | Some n \<Rightarrow> [WithMaxConcurrentRequests n])) c3 = Inr c4"
    "apply_esi_options (map Some (opt_if (eBlockPrivateIPs src = Some False) WithAllowPrivateIPs)) c4 = Inr c5"
    "apply_esi_options (map Some (opt_if (eAllowedHosts src \<noteq> []) (WithAllowedHosts (eAllowedHosts src)))) c5 = Inr c6"
    "apply_esi_options (map Some (opt_if (eAllowPrivateIPsForAllowedHosts src = Some True) WithAllowPrivateIPsForAllowedHosts)) c6 = Inr c7"
    "apply_esi_options (map Some sz) c7 = Inr c8"
    "apply_esi_options (map Some (opt_if (eForwardFragmentCookies src = Some False) WithoutForwardCookies)) c8 = Inr c9"
    "apply_esi_options (map Some (opt_if (ePreserveETag src = Some True) WithPreserveETag)) c9 = Inr c10"
    "apply_esi_options (map Some (opt_if (eErrorMarker src \<noteq> []) (WithIncludeErrorMarker (eErrorMarker src)))) c10 = Inr p"
    unfolding os run_append by (elim exE conjE)
  have e1: "c1 = c\<lparr>requireSurrogateControl := requireSurrogateControl c \<and> eRequireSurrogateControl src \<noteq> Some False\<rparr>"
    using run(2) unfolding apply_opt_if run_opt_list by (auto simp: esi_option_defs split: if_splits option.splits)
  have e2: "c2 = c1\<lparr>maxDepth := set_opt (eMaxDepth src) (maxDepth c1)\<rparr>"
    using run(3) unfolding apply_opt_if run_opt_list by (auto simp: esi_option_defs split: if_splits option.splits)
  have e3: "c4 = c3\<lparr>maxConcurrentRequests := set_opt (eMaxConcurrentRequests src) (maxConcurrentRequests c3)\<rparr>"
    using run(5) unfolding apply_opt_if run_opt_list by (auto simp: esi_option_defs split: if_splits option.splits)
  have e4: "c5 = c4\<lparr>allowPrivateIPs := allowPrivateIPs c4 \<or> eBlockPrivateIPs src = Some False\<rparr>"
    using run(6) unfolding apply_opt_if run_opt_list by (auto simp: esi_option_defs split: if_splits option.splits)
  have e5: "c6 = c5\<lparr>allowedHosts := set_list (eAllowedHosts src) (allowedHosts c5)\<rparr>"
    using run(7) unfolding apply_opt_if run_opt_list by (auto simp: esi_option_defs split: if_splits option.splits)
  have e6: "c7 = c6\<lparr>allowPrivateIPsForAllowedHosts := allowPrivateIPsForAllowedHosts c6 \<or> eAllowPrivateIPsForAllowedHosts src = Some True\<rparr>"
    using run(8) unfolding apply_opt_if run_opt_list by (auto simp: esi_option_defs split: if_splits option.splits)
  have e7: "c9 = c8\<lparr>disableForwardCookies := disableForwardCookies c8 \<or> eForwardFragmentCookies src = Some False\<rparr>"
    using run(10) unfolding apply_opt_if run_opt_list by (auto simp: esi_option_defs split: if_splits option.splits)
  have e8: "c10 = c9\<lparr>preserveETag := preserveETag c9 \<or> ePreserveETag src = Some True\<rparr>"
    using run(11) unfolding apply_opt_if run_opt_list by (auto simp: esi_option_defs split: if_splits option.splits)
  have e9: "p = c10\<lparr>includeErrorMarker := set_list (eErrorMarker src) (includeErrorMarker c10)\<rparr>"
    using run(12) unfolding apply_opt_if run_opt_list by (auto simp: esi_option_defs split: if_splits option.splits)
  show ?thesis using run(1) by (intro exI [of _ c]) (simp add: e1 e2 e3 e4 e5 e6 e7 e8 e9 rt [OF run(4)] rs [OF run(9)] layer_config_def)
qed

definition layer_opt :: "caddy_ctx \<Rightarrow> ESIConfig option \<Rightarrow> esi_config \<Rightarrow> esi_config" where
  "layer_opt ctx src c = (case src of None \<Rightarrow> c | Some s \<Rightarrow> layer_config ctx s c)"

lemma apply_layer_config:
  assumes "apply_layer ctx layer opts = Inr os" and "apply_esi_options (map Some os) c0 = Inr p"
  shows "\<exists>c. apply_esi_options (map Some opts) c0 = Inr c \<and> p = layer_opt ctx layer c"
  using assms applyESIConfig_layer [of ctx opts _ os c0 p] by (cases layer) (auto simp: apply_layer_def layer_opt_def)

lemma esi_layers_config:
  assumes "esi_layers ctx app route = Inr (Some os)" and "NewProcessor (map Some os) = Inr p"
  shows "p = layer_opt ctx route (layer_opt ctx app default_esi_config)"
proof -
  obtain o1 o2 where a: "apply_layer ctx app [] = Inr o1" "apply_layer ctx route o1 = Inr o2" "os = o2 @ [Inr]"
    using assms(1) by (auto simp: esi_layers_def split: if_splits sum.splits)
  have "apply_esi_options (map Some o2) default_esi_config = Inr p"
    using assms(2) by (auto simp: NewProcessor_def a(3) apply_esi_options_append split: sum.splits)
  from apply_layer_config [OF a(2) this] obtain c where c: "apply_esi_options (map Some o1) default_esi_config = Inr c"
    "p = layer_opt ctx route c" by blast
  from apply_layer_config [OF a(1) c(1)] c(2) show ?thesis by auto
qed

text \<open>Of the options of an instance only \<^verbatim>\<open>WithESI\<close> changes the ESI options, and only \<^verbatim>\<open>WithCacheKey\<close> the key.\<close>

definition keeps :: "(config \<Rightarrow> 'a) \<Rightarrow> Option \<Rightarrow> bool" where
  "keeps f o1 \<longleftrightarrow> (\<forall>c c'. o1 c = Inr c' \<longrightarrow> f c' = f c)"

lemmas titip_option_defs = WithCacheStatus_def WithStorageCompression_def WithRespectClientCacheControl_def
  WithAutoInvalidateMutatingMethods_def WithoutConvertHeadToGet_def WithBackgroundFetchTimeout_def WithStorageTimeout_def
  WithTagHeader_def WithCacheKey_def WithServerTiming_def WithServerTimingCookie_def WithESI_def

lemma run_keeps:
  "apply_options (map Some os) c = Inr c' \<Longrightarrow> (\<And>o1. o1 \<in> set os \<Longrightarrow> keeps f o1) \<Longrightarrow> f c' = f c"
proof (induction os arbitrary: c)
  case (Cons o1 os)
  obtain c1 where c1: "o1 c = Inr c1" "apply_options (map Some os) c1 = Inr c'" using Cons.prems(1) by (auto split: sum.splits)
  have "f c' = f c1" by (rule Cons.IH [OF c1(2)]) (simp add: Cons.prems(2))
  then show ?case using c1(1) Cons.prems(2) [of o1] by (simp add: keeps_def)
qed simp

lemma run_options_append: "apply_options (map Some (os @ os')) c = Inr p \<longleftrightarrow>
  (\<exists>c'. apply_options (map Some os) c = Inr c' \<and> apply_options (map Some os') c' = Inr p)"
  by (induction os arbitrary: c) (auto split: sum.splits)

lemma set_opt_if: "o1 \<in> set (opt_if b x) \<Longrightarrow> o1 = x"
  by (cases b) (simp_all add: opt_if_def)

lemma keeps_options:
  "keeps esiOptions (WithCacheStatus m)" "keeps esiOptions (WithStorageCompression n)" "keeps esiOptions WithRespectClientCacheControl"
  "keeps esiOptions WithAutoInvalidateMutatingMethods" "keeps esiOptions WithoutConvertHeadToGet"
  "keeps esiOptions (WithBackgroundFetchTimeout d)" "keeps esiOptions (WithStorageTimeout d)" "keeps esiOptions (WithTagHeader n)"
  "keeps esiOptions (WithCacheKey k)" "keeps esiOptions WithServerTiming" "keeps esiOptions (WithServerTimingCookie n v)"
  "keeps cacheKey (WithESI os)" "keeps cacheKey WithServerTiming" "keeps cacheKey (WithServerTimingCookie n v)"
  "keeps cacheKey (WithCacheStatus m)" "keeps cacheKey (WithStorageCompression n)" "keeps cacheKey WithRespectClientCacheControl"
  "keeps cacheKey WithAutoInvalidateMutatingMethods" "keeps cacheKey WithoutConvertHeadToGet"
  "keeps cacheKey (WithBackgroundFetchTimeout d)" "keeps cacheKey (WithStorageTimeout d)" "keeps cacheKey (WithTagHeader n)"
  by (auto simp: keeps_def titip_option_defs Let_def split: if_splits)

text \<open>The options as three groups: those before the key and ESI, these two, and the diagnostics.\<close>

lemma titip_options_split:
  assumes "titip_options ctx a h = Inr opts"
  obtains pre os where "opts = pre @ key_options (aCacheKey a) (hCacheKey h)
      @ (case os of None \<Rightarrow> [] | Some os \<Rightarrow> [WithESI (map Some os)]) @ timing_options (coalesce [hServerTiming h, aServerTiming a])"
    "esi_layers ctx (aESI a) (hESI h) = Inr os" "\<forall>o1 \<in> set pre. keeps esiOptions o1" "\<forall>o1 \<in> set pre. keeps cacheKey o1"
proof -
  obtain status bg stor os where o: "cache_status_option (cmp_Or (hCacheStatus h) (aCacheStatus a)) = Inr status"
    "timeout_option ctx ''background_fetch_timeout'' (cmp_Or (hBackgroundFetchTimeout h) (aBackgroundFetchTimeout a)) WithBackgroundFetchTimeout = Inr bg"
    "timeout_option ctx ''storage_timeout'' (cmp_Or (hStorageTimeout h) (aStorageTimeout a)) WithStorageTimeout = Inr stor"
    "esi_layers ctx (aESI a) (hESI h) = Inr os"
    using assms by (auto simp: titip_options_def Let_def split: sum.splits)
  let ?compression = "cmp_Or (hStorageCompression h) (aStorageCompression a)"
  let ?pre = "([status] @ opt_if (?compression \<noteq> []) (WithStorageCompression ?compression)
      @ opt_if (coalesce [hRespectClientCacheControl h, aRespectClientCacheControl a] = Some True) WithRespectClientCacheControl
      @ opt_if (coalesce [hAutoInvalidateMutatingMethods h, aAutoInvalidateMutatingMethods a] = Some True) WithAutoInvalidateMutatingMethods
      @ opt_if (coalesce [hConvertHeadToGet h, aConvertHeadToGet a] = Some False) WithoutConvertHeadToGet) @ bg @ stor
      @ opt_if (hTagHeader h \<noteq> []) (WithTagHeader (hTagHeader h))"
  have k: "keeps esiOptions status" "\<And>o1. o1 \<in> set bg \<Longrightarrow> keeps esiOptions o1" "\<And>o1. o1 \<in> set stor \<Longrightarrow> keeps esiOptions o1"
    using o(1-3) keeps_options by (auto simp: cache_status_option_def timeout_option_def Let_def split: if_splits option.splits)
  have "keeps esiOptions o1" if "o1 \<in> set ?pre" for o1
    using that k keeps_options(1-11) by (auto dest!: set_opt_if)
  moreover have "keeps cacheKey status" "\<And>o1. o1 \<in> set bg \<Longrightarrow> keeps cacheKey o1" "\<And>o1. o1 \<in> set stor \<Longrightarrow> keeps cacheKey o1"
    using o(1-3) keeps_options by (auto simp: cache_status_option_def timeout_option_def Let_def split: if_splits option.splits)
  then have "keeps cacheKey o1" if "o1 \<in> set ?pre" for o1
    using that keeps_options(15-) by (auto dest!: set_opt_if)
  moreover have "opts = ?pre @ key_options (aCacheKey a) (hCacheKey h)
      @ (case os of None \<Rightarrow> [] | Some os \<Rightarrow> [WithESI (map Some os)]) @ timing_options (coalesce [hServerTiming h, aServerTiming a])"
    using assms o by (simp add: titip_options_def Let_def)
  ultimately show thesis using that o(4) by blast
qed

lemma timing_keeps: "o1 \<in> set (timing_options st) \<Longrightarrow> keeps esiOptions o1 \<and> keeps cacheKey o1"
  using keeps_options(10,11,13,14) by (auto simp: timing_options_def split: option.splits if_splits)

lemma provisioned_config:
  assumes "titip_options ctx a h = Inr opts" and "apply_options (map Some opts) (default_config lz4 zstd) = Inr cfg"
  shows "\<exists>os. esi_layers ctx (aESI a) (hESI h) = Inr os \<and> esiOptions cfg = map_option (map Some) os"
    and "cacheKey cfg = layered_key (aCacheKey a) (hCacheKey h)"
proof -
  obtain pre os where o: "opts = pre @ key_options (aCacheKey a) (hCacheKey h)
      @ (case os of None \<Rightarrow> [] | Some os \<Rightarrow> [WithESI (map Some os)]) @ timing_options (coalesce [hServerTiming h, aServerTiming a])"
    "esi_layers ctx (aESI a) (hESI h) = Inr os" "\<forall>o1 \<in> set pre. keeps esiOptions o1" "\<forall>o1 \<in> set pre. keeps cacheKey o1"
    by (rule titip_options_split [OF assms(1)])
  obtain c1 c2 c3 where c: "apply_options (map Some pre) (default_config lz4 zstd) = Inr c1"
    "apply_options (map Some (key_options (aCacheKey a) (hCacheKey h))) c1 = Inr c2"
    "apply_options (map Some (case os of None \<Rightarrow> [] | Some os \<Rightarrow> [WithESI (map Some os)])) c2 = Inr c3"
    "apply_options (map Some (timing_options (coalesce [hServerTiming h, aServerTiming a]))) c3 = Inr cfg"
    using assms(2) unfolding o(1) run_options_append by (elim exE conjE)
  have "esiOptions c1 = None" using run_keeps [OF c(1) bspec [OF o(3)]] by (simp add: default_config_def)
  moreover have "esiOptions c2 = esiOptions c1"
    using keeps_options(9) by (intro run_keeps [OF c(2)]) (auto simp: key_options_def Let_def split: if_splits)
  moreover have "esiOptions cfg = esiOptions c3" using timing_keeps by (intro run_keeps [OF c(4)]) blast
  ultimately have "esiOptions cfg = map_option (map Some) os"
    using c(3) by (auto simp: WithESI_def list_ex_iff split: option.splits if_splits)
  with o(2) show "\<exists>os. esi_layers ctx (aESI a) (hESI h) = Inr os \<and> esiOptions cfg = map_option (map Some) os" by blast
  have k3: "cacheKey cfg = cacheKey c3" using timing_keeps by (intro run_keeps [OF c(4)]) blast
  have k2: "cacheKey c3 = cacheKey c2" using keeps_options(12) by (intro run_keeps [OF c(3)]) (auto split: option.splits)
  have "cacheKey c1 = zero_CacheKey" using run_keeps [OF c(1) bspec [OF o(4)]] by (simp add: default_config_def)
  then show "cacheKey cfg = layered_key (aCacheKey a) (hCacheKey h)"
    using c(2) k3 k2 by (auto simp: key_options_def layered_key_def WithCacheKey_def split: if_splits)
qed

section \<open>Settings in layers\<close>

text \<open>The value of a setting in layers: that of the route, else that of the app, else the default.\<close>

definition layered :: "'v option \<Rightarrow> 'v option \<Rightarrow> 'v \<Rightarrow> 'v" where
  "layered route app d = (case route of Some v \<Rightarrow> v | None \<Rightarrow> (case app of Some v \<Rightarrow> v | None \<Rightarrow> d))"

text \<open>The same for one field of a group of settings that a layer may lack.\<close>

definition first_set :: "('s \<Rightarrow> 'v option) \<Rightarrow> 's option \<Rightarrow> 's option \<Rightarrow> 'v \<Rightarrow> 'v" where
  "first_set f route app d = layered (Option.bind route f) (Option.bind app f) d"

definition non_empty :: "'a list \<Rightarrow> 'a list option" where
  "non_empty xs = (if xs = [] then None else Some xs)"

lemma first_set_opt: "first_set f route app d =
    (case route of None \<Rightarrow> (case app of None \<Rightarrow> d | Some s \<Rightarrow> set_opt (f s) d)
     | Some r \<Rightarrow> set_opt (f r) (case app of None \<Rightarrow> d | Some s \<Rightarrow> set_opt (f s) d))"
  by (auto simp: first_set_def layered_def set_opt_def split: option.split)

lemma set_list_opt: "set_list xs d = set_opt (non_empty xs) d"
  by (simp add: set_list_def non_empty_def)

lemma layered_key_fields:
  "IncludeProtocol (layered_key app route) = first_set kIncludeProtocol route app False"
  "ExcludeHost (layered_key app route) = first_set kExcludeHost route app False"
  "PreserveQueryOrder (layered_key app route) = first_set kPreserveQueryOrder route app False"
  "ExcludeMarketingQueryParams (layered_key app route) = first_set kExcludeMarketingQueryParams route app False"
  "CaseInsensitivePath (layered_key app route) = first_set kCaseInsensitivePath route app False"
  "IncludedQueryParams (layered_key app route) = first_set (non_empty \<circ> kIncludedQueryParams) route app []"
  "ExcludedQueryParams (layered_key app route) = first_set (non_empty \<circ> kExcludedQueryParams) route app []"
  "IncludedHeaderNames (layered_key app route) = first_set (non_empty \<circ> kIncludedHeaderNames) route app []"
  "IncludedCookieNames (layered_key app route) = first_set (non_empty \<circ> kIncludedCookieNames) route app []"
  by (simp_all add: layered_key_def applyCacheKey_def first_set_opt set_list_opt zero_CacheKey_def split: option.split)

lemma layer_texts_parse:
  assumes "applyESIConfig ctx opts src = Inr os"
  shows "eMaxTimeout src \<noteq> [] \<Longrightarrow> ParseDuration ctx (eMaxTimeout src) \<noteq> None"
    and "eMaxResponseSize src \<noteq> [] \<Longrightarrow> ParseBytes ctx (eMaxResponseSize src) \<noteq> None"
  using assms by (auto simp: applyESIConfig_def Let_def split: sum.splits if_splits option.splits)

definition esi_timeout :: "caddy_ctx \<Rightarrow> ESIConfig \<Rightarrow> duration option" where
  "esi_timeout ctx s = (if eMaxTimeout s = [] then None else ParseDuration ctx (eMaxTimeout s))"

definition esi_size :: "caddy_ctx \<Rightarrow> ESIConfig \<Rightarrow> int option" where
  "esi_size ctx s = (if eMaxResponseSize s = [] then None else map_option (\<lambda>n. wrap64 (int n)) (ParseBytes ctx (eMaxResponseSize s)))"

lemma layer_config_texts:
  assumes "applyESIConfig ctx opts src = Inr os"
  shows "maxTimeout (layer_config ctx src c) = set_opt (esi_timeout ctx src) (maxTimeout c)"
    and "maxResponseSize (layer_config ctx src c) = set_opt (esi_size ctx src) (maxResponseSize c)"
  using layer_texts_parse [OF assms]
  by (auto simp: layer_config_def esi_timeout_def esi_size_def set_opt_def split: option.split)

lemma layered_esi_fields:
  assumes "esi_layers ctx app route = Inr (Some os)"
    and "p = layer_opt ctx route (layer_opt ctx app default_esi_config)"
  shows "maxDepth p = first_set eMaxDepth route app (maxDepth default_esi_config)"
    and "maxTimeout p = first_set (esi_timeout ctx) route app (maxTimeout default_esi_config)"
    and "maxConcurrentRequests p = first_set eMaxConcurrentRequests route app (maxConcurrentRequests default_esi_config)"
    and "allowedHosts p = first_set (non_empty \<circ> eAllowedHosts) route app (allowedHosts default_esi_config)"
    and "maxResponseSize p = first_set (esi_size ctx) route app (maxResponseSize default_esi_config)"
    and "includeErrorMarker p = first_set (non_empty \<circ> eErrorMarker) route app (includeErrorMarker default_esi_config)"
proof -
  have "\<exists>opts os. applyESIConfig ctx opts s = Inr os" if "route = Some s \<or> app = Some s" for s
    using assms(1) that by (auto simp: esi_layers_def apply_layer_def split: if_splits sum.splits option.splits)
  then have l: "maxTimeout (layer_config ctx s c) = set_opt (esi_timeout ctx s) (maxTimeout c)"
    "maxResponseSize (layer_config ctx s c) = set_opt (esi_size ctx s) (maxResponseSize c)" if "route = Some s \<or> app = Some s" for s c
    using that layer_config_texts by blast+
  show "maxTimeout p = first_set (esi_timeout ctx) route app (maxTimeout default_esi_config)"
    "maxResponseSize p = first_set (esi_size ctx) route app (maxResponseSize default_esi_config)"
    by (auto simp: assms(2) layer_opt_def first_set_opt l split: option.split)
qed (auto simp: assms(2) layer_opt_def first_set_opt layer_config_def set_list_opt split: option.split)


text \<open>The three switches of an instance.\<close>

definition switches :: "config \<Rightarrow> bool \<times> bool \<times> bool" where
  "switches c = (respectClientCacheControl c, autoInvalidateMutatingMethods c, convertHeadToGet c)"

lemma keeps_switches:
  "keeps switches (WithCacheStatus m)" "keeps switches (WithStorageCompression n)"
  "keeps switches (WithBackgroundFetchTimeout d)" "keeps switches (WithStorageTimeout d)" "keeps switches (WithTagHeader n)"
  "keeps switches (WithCacheKey k)" "keeps switches (WithESI os)" "keeps switches WithServerTiming" "keeps switches (WithServerTimingCookie n v)"
  by (auto simp: keeps_def switches_def titip_option_defs Let_def split: if_splits)

lemma coalesce_two: "coalesce [x, y] = (case x of Some v \<Rightarrow> Some v | None \<Rightarrow> y)"
  by (cases x; cases y) simp_all

lemma provisioned_switches:
  assumes "titip_options ctx a h = Inr opts" and "apply_options (map Some opts) (default_config lz4 zstd) = Inr cfg"
  shows "switches cfg = (layered (hRespectClientCacheControl h) (aRespectClientCacheControl a) False,
    layered (hAutoInvalidateMutatingMethods h) (aAutoInvalidateMutatingMethods a) False,
    layered (hConvertHeadToGet h) (aConvertHeadToGet a) True)"
proof -
  let ?compression = "cmp_Or (hStorageCompression h) (aStorageCompression a)"
  let ?r = "opt_if (coalesce [hRespectClientCacheControl h, aRespectClientCacheControl a] = Some True) WithRespectClientCacheControl"
  let ?m = "opt_if (coalesce [hAutoInvalidateMutatingMethods h, aAutoInvalidateMutatingMethods a] = Some True) WithAutoInvalidateMutatingMethods"
  let ?g = "opt_if (coalesce [hConvertHeadToGet h, aConvertHeadToGet a] = Some False) WithoutConvertHeadToGet"
  obtain status bg stor os where o: "cache_status_option (cmp_Or (hCacheStatus h) (aCacheStatus a)) = Inr status"
    "timeout_option ctx ''background_fetch_timeout'' (cmp_Or (hBackgroundFetchTimeout h) (aBackgroundFetchTimeout a)) WithBackgroundFetchTimeout = Inr bg"
    "timeout_option ctx ''storage_timeout'' (cmp_Or (hStorageTimeout h) (aStorageTimeout a)) WithStorageTimeout = Inr stor"
    "esi_layers ctx (aESI a) (hESI h) = Inr os"
    using assms(1) by (auto simp: titip_options_def Let_def split: sum.splits)
  let ?pre = "[status] @ opt_if (?compression \<noteq> []) (WithStorageCompression ?compression)"
  let ?post = "bg @ stor @ opt_if (hTagHeader h \<noteq> []) (WithTagHeader (hTagHeader h)) @ key_options (aCacheKey a) (hCacheKey h)
      @ (case os of None \<Rightarrow> [] | Some os \<Rightarrow> [WithESI (map Some os)]) @ timing_options (coalesce [hServerTiming h, aServerTiming a])"
  have opts: "opts = ?pre @ ?r @ ?m @ ?g @ ?post" using assms(1) o by (simp add: titip_options_def Let_def)
  obtain c1 c2 c3 c4 where c: "apply_options (map Some ?pre) (default_config lz4 zstd) = Inr c1" "apply_options (map Some ?r) c1 = Inr c2"
    "apply_options (map Some ?m) c2 = Inr c3" "apply_options (map Some ?g) c3 = Inr c4" "apply_options (map Some ?post) c4 = Inr cfg"
    using assms(2) unfolding opts run_options_append by (elim exE conjE) blast
  have "keeps switches status" "\<And>o1. o1 \<in> set bg \<Longrightarrow> keeps switches o1" "\<And>o1. o1 \<in> set stor \<Longrightarrow> keeps switches o1"
    "\<And>o1. o1 \<in> set (key_options (aCacheKey a) (hCacheKey h)) \<Longrightarrow> keeps switches o1"
    "\<And>o1. o1 \<in> set (timing_options (coalesce [hServerTiming h, aServerTiming a])) \<Longrightarrow> keeps switches o1"
    using o(1-3) keeps_switches
    by (auto simp: cache_status_option_def timeout_option_def key_options_def timing_options_def Let_def split: if_splits option.splits)
  then have "keeps switches o1" if "o1 \<in> set ?pre \<union> set ?post" for o1
    using that keeps_switches by (auto dest!: set_opt_if split: option.splits)
  then have k: "\<And>o1. o1 \<in> set ?pre \<Longrightarrow> keeps switches o1" "\<And>o1. o1 \<in> set ?post \<Longrightarrow> keeps switches o1" by blast+
  have "switches c1 = switches (default_config lz4 zstd)" by (rule run_keeps [OF c(1) k(1)])
  moreover have "switches cfg = switches c4" by (rule run_keeps [OF c(5) k(2)])
  moreover have "switches c2 = (respectClientCacheControl c1 \<or> coalesce [hRespectClientCacheControl h, aRespectClientCacheControl a] = Some True, snd (switches c1))"
    using c(2) by (auto simp: opt_if_def WithRespectClientCacheControl_def switches_def split: if_splits)
  moreover have "switches c3 = (fst (switches c2), autoInvalidateMutatingMethods c2 \<or> coalesce [hAutoInvalidateMutatingMethods h, aAutoInvalidateMutatingMethods a] = Some True, convertHeadToGet c2)"
    using c(3) by (auto simp: opt_if_def WithAutoInvalidateMutatingMethods_def switches_def split: if_splits)
  moreover have "switches c4 = (fst (switches c3), fst (snd (switches c3)), convertHeadToGet c3 \<and> coalesce [hConvertHeadToGet h, aConvertHeadToGet a] \<noteq> Some False)"
    using c(4) by (auto simp: opt_if_def WithoutConvertHeadToGet_def switches_def split: if_splits)
  ultimately have "switches cfg = (coalesce [hRespectClientCacheControl h, aRespectClientCacheControl a] = Some True,
      coalesce [hAutoInvalidateMutatingMethods h, aAutoInvalidateMutatingMethods a] = Some True,
      coalesce [hConvertHeadToGet h, aConvertHeadToGet a] \<noteq> Some False)"
    by (simp add: switches_def default_config_def)
  then show ?thesis by (simp add: coalesce_two layered_def split: option.split)
qed

end
