(* ===== verification/Freshness.thy ===== *)
theory Freshness
  imports Headers
begin

text \<open>
  Model of \<^verbatim>\<open>src/freshness.go\<close>: the age and freshness computation of RFC 9111 section 4.2
  and the decision whether a response may be stored. Durations are \<^verbatim>\<open>int64\<close> nanoseconds
  that wrap around. \<open>realNow\<close> is the clock value that \<^verbatim>\<open>isResponseCacheable\<close> reads itself.
\<close>

section \<open>Data\<close>

definition maxCacheTTL :: duration where
  "maxCacheTTL = 365 * 24 * 3600 * Second"

record freshnessInfo =
  ApparentAge :: duration
  CorrectedInitialAge :: duration
  CurrentAge :: duration
  EffectiveTTL :: duration
  FreshnessLifetime :: duration
  StaleWhileRevalidateTTL :: duration
  StaleIfErrorTTL :: duration
  IsCacheable :: bool
  Directives :: "ResponseCacheDirectives option"

section \<open>Operations\<close>

definition parseAge :: "bytes \<Rightarrow> duration" where
  "parseAge ageHeader =
     (let trimmed = TrimSpace ageHeader
      in if trimmed = [] then 0
         else case ParseInt trimmed of
                None \<Rightarrow> 0
              | Some seconds \<Rightarrow> if seconds < 0 then 0 else dmul seconds Second)"

definition parseDate :: "goenv \<Rightarrow> bytes \<Rightarrow> gotime option" where
  "parseDate env dateHeader =
     (let trimmed = TrimSpace dateHeader
      in if trimmed = [] \<or> trimmed = ''0'' \<or> trimmed = ''-1'' then Some zero_time
         else ParseTime env trimmed)"

text \<open>The value of \<^verbatim>\<open>t, _ := parseDate(s)\<close>: the zero time when there is an error.\<close>

definition date_or_zero :: "gotime option \<Rightarrow> gotime" where
  "date_or_zero d = (case d of None \<Rightarrow> zero_time | Some t \<Rightarrow> t)"

definition parseExpiresLifetime :: "goenv \<Rightarrow> bytes \<Rightarrow> gotime \<Rightarrow> gotime \<Rightarrow> duration" where
  "parseExpiresLifetime env expHeader dateVal respTime =
     (case parseDate env expHeader of
        None \<Rightarrow> 0
      | Some expDate \<Rightarrow>
          if IsZero expDate then 0
          else if \<not> IsZero dateVal \<and> After expDate dateVal then tsub expDate dateVal
          else if After expDate respTime then tsub expDate respTime
          else 0)"

definition extractTieredCacheControl :: "Header \<Rightarrow> bytes" where
  "extractTieredCacheControl respHeaders =
     (let titipCC = getHeaderValues respHeaders headerTitipCacheControl;
          cdnCC = getHeaderValues respHeaders headerCDNCacheControl;
          stdCC = getHeaderValues respHeaders headerCacheControl
      in if titipCC \<noteq> [] then Join '', '' titipCC
         else if cdnCC \<noteq> [] then Join '', '' cdnCC
         else if stdCC \<noteq> [] then Join '', '' stdCC
         else [])"

definition uncacheable_status :: "int \<Rightarrow> bool" where
  "uncacheable_status c \<longleftrightarrow> c \<in> {304, 205, 206, 303, 401, 407, 421, 426}"

definition hasFutureExpires :: "goenv \<Rightarrow> gotime \<Rightarrow> Header \<Rightarrow> bool" where
  "hasFutureExpires env realNow respHeaders =
     (if Get respHeaders headerExpires = [] then False
      else case parseDate env (Get respHeaders headerExpires) of
             None \<Rightarrow> False
           | Some expDate \<Rightarrow> \<not> IsZero expDate \<and> After expDate realNow)"

definition varies_on_star :: "Header \<Rightarrow> bool" where
  "varies_on_star h \<longleftrightarrow>
     list_ex (\<lambda>vary. list_ex (\<lambda>v. TrimSpace v = ''*'') (SplitByte (CHR '','') vary))
       (Values h headerVary)"

definition isResponseCacheable ::
    "goenv \<Rightarrow> gotime \<Rightarrow> int \<Rightarrow> Header \<Rightarrow> Header \<Rightarrow> ResponseCacheDirectives option \<Rightarrow> bool" where
  "isResponseCacheable env realNow statusCode reqHeaders respHeaders directives =
     (if uncacheable_status statusCode then False
      else if statusCode < 200 then False
      else if Get respHeaders headerSetCookie \<noteq> [] then False
      else if Contains (ToLower (Get respHeaders headerContentType)) contentTypeEventStream then False
      else if varies_on_star respHeaders then False
      else (case directives of
              None \<Rightarrow>
                if \<not> hasFutureExpires env realNow respHeaders then False
                else if Get reqHeaders headerAuthorization \<noteq> [] then False
                else True
            | Some d \<Rightarrow>
                if NoStore d then False
                else if PrivatePresent d \<or> Private d \<noteq> [] then False
                else if Get reqHeaders headerAuthorization \<noteq> [] \<and>
                        (\<not> Public d \<and> SMaxAge d < 0 \<and> \<not> MustRevalidate d) then False
                else if (MaxAge d < 0 \<and> SMaxAge d < 0 \<and> \<not> Public d \<and> \<not> NoCachePresent d \<and> NoCache d = [])
                        \<and> \<not> hasFutureExpires env realNow respHeaders then False
                else True))"

text \<open>The freshness lifetime, from the directives or from \<^verbatim>\<open>Expires\<close>.\<close>

definition freshness_lifetime ::
    "goenv \<Rightarrow> ResponseCacheDirectives option \<Rightarrow> Header \<Rightarrow> gotime \<Rightarrow> gotime \<Rightarrow> duration" where
  "freshness_lifetime env directives respHeaders dateVal respTime =
     (let expHeader = Get respHeaders headerExpires;
          fromExpires = (if expHeader \<noteq> [] then parseExpiresLifetime env expHeader dateVal respTime else 0)
      in case directives of
           None \<Rightarrow> fromExpires
         | Some d \<Rightarrow>
             let l = (if SMaxAge d \<ge> 0 then dmul (SMaxAge d) Second
                      else if MaxAge d \<ge> 0 then dmul (MaxAge d) Second
                      else fromExpires)
             in if NoCachePresent d \<or> NoCache d \<noteq> [] then 0 else l)"

definition stale_ttl :: "(ResponseCacheDirectives \<Rightarrow> int) \<Rightarrow> ResponseCacheDirectives option \<Rightarrow> duration" where
  "stale_ttl sel directives =
     (case directives of
        None \<Rightarrow> 0
      | Some d \<Rightarrow> if \<not> MustRevalidate d \<and> \<not> ProxyRevalidate d \<and> sel d > 0
                  then dmul (sel d) Second else 0)"

definition calculateFreshness ::
    "goenv \<Rightarrow> gotime \<Rightarrow> int \<Rightarrow> Header \<Rightarrow> Header \<Rightarrow> gotime \<Rightarrow> gotime \<Rightarrow> gotime \<Rightarrow> freshnessInfo" where
  "calculateFreshness env realNow statusCode reqHeaders respHeaders reqTime respTime now =
     (let ccHeader = extractTieredCacheControl respHeaders;
          directives = (if ccHeader \<noteq> [] then ParseResponseCacheControl env ccHeader else None);
          dateVal = date_or_zero (parseDate env (Get respHeaders headerDate));
          ageVal = parseAge (Get respHeaders headerAge);
          apparentAge = (if \<not> IsZero dateVal \<and> After respTime dateVal then tsub respTime dateVal else 0);
          responseDelay = (if After respTime reqTime then tsub respTime reqTime else 0);
          correctedAgeValue = dadd ageVal responseDelay;
          correctedInitialAge = max apparentAge correctedAgeValue;
          residentTime = (if After now respTime then tsub now respTime else 0);
          lifetime = freshness_lifetime env directives respHeaders dateVal respTime;
          ttl = (if lifetime > correctedInitialAge then dsub lifetime correctedInitialAge else 0)
      in \<lparr>ApparentAge = apparentAge,
          CorrectedInitialAge = correctedInitialAge,
          CurrentAge = dadd correctedInitialAge residentTime,
          EffectiveTTL = (if ttl > maxCacheTTL then maxCacheTTL else ttl),
          FreshnessLifetime = lifetime,
          StaleWhileRevalidateTTL = stale_ttl StaleWhileRevalidate directives,
          StaleIfErrorTTL = stale_ttl StaleIfError directives,
          IsCacheable = isResponseCacheable env realNow statusCode reqHeaders respHeaders directives,
          Directives = directives\<rparr>)"

section \<open>Ages and lifetimes are never negative\<close>

lemma maxCacheTTL_val: "maxCacheTTL = 31536000000000000"
  by (simp add: maxCacheTTL_def Second_def)

lemma parseExpiresLifetime_nonneg: "0 \<le> parseExpiresLifetime env h d r"
  by (auto simp: parseExpiresLifetime_def less_imp_le tsub_pos split: option.splits)

lemma parseExpiresLifetime_le: "parseExpiresLifetime env h d r \<le> max_int64"
  using tsub_range by (auto simp: parseExpiresLifetime_def max_int64_def split: option.splits)

lemma dmul_range: "min_int64 \<le> dmul n d \<and> dmul n d \<le> max_int64"
  using wrap64_range [of "n * d"] by (simp add: dmul_def min_int64_def max_int64_def)

lemma freshness_lifetime_le: "freshness_lifetime env ds h d r \<le> max_int64"
  using parseExpiresLifetime_le dmul_range
  by (auto simp: freshness_lifetime_def Let_def max_int64_def split: option.splits)

lemma corrected_age_nonneg:
  "0 \<le> CorrectedInitialAge (calculateFreshness env rn st rq rs t0 t1 t2)"
proof -
  have "0 \<le> ApparentAge (calculateFreshness env rn st rq rs t0 t1 t2)"
    by (simp add: calculateFreshness_def Let_def tsub_pos less_imp_le)
  moreover have "ApparentAge (calculateFreshness env rn st rq rs t0 t1 t2)
      \<le> CorrectedInitialAge (calculateFreshness env rn st rq rs t0 t1 t2)"
    by (simp add: calculateFreshness_def Let_def)
  ultimately show ?thesis by simp
qed

lemma ttl_no_wrap: "0 \<le> a \<Longrightarrow> a < l \<Longrightarrow> l \<le> max_int64 \<Longrightarrow> dsub l a = l - a"
  by (simp add: dsub_def wrap64_id max_int64_def)

text \<open>The stored time to live, on the values of the record.\<close>

lemma effective_ttl_eq:
  assumes f_def: "f = calculateFreshness env rn st rq rs t0 t1 t2"
  shows "EffectiveTTL f = min maxCacheTTL (max 0 (FreshnessLifetime f - CorrectedInitialAge f))"
proof -
  have a: "0 \<le> CorrectedInitialAge f" by (simp add: f_def corrected_age_nonneg)
  have l: "FreshnessLifetime f \<le> max_int64"
    by (simp add: f_def calculateFreshness_def Let_def freshness_lifetime_le)
  let ?ttl = "if FreshnessLifetime f > CorrectedInitialAge f
    then dsub (FreshnessLifetime f) (CorrectedInitialAge f) else 0"
  have "?ttl = max 0 (FreshnessLifetime f - CorrectedInitialAge f)"
    using a l by (auto simp: ttl_no_wrap)
  moreover have "EffectiveTTL f = (if ?ttl > maxCacheTTL then maxCacheTTL else ?ttl)"
    by (simp add: f_def calculateFreshness_def Let_def)
  ultimately show ?thesis by (auto simp: min_def)
qed

section \<open>Properties\<close>

text \<open>
  Property C27. The time to live under which a response is stored is never negative and
  never more than the one-year cap, for every response and every clock value: no
  combination of headers, not even one whose age overflows, makes it wrap around.
\<close>

theorem effective_ttl_bounds:
  "0 \<le> EffectiveTTL (calculateFreshness env rn st rq rs t0 t1 t2) \<and>
   EffectiveTTL (calculateFreshness env rn st rq rs t0 t1 t2) \<le> maxCacheTTL"
  by (simp add: effective_ttl_eq [OF refl] maxCacheTTL_val)

text \<open>RFC 9111 section 4.2 on unbounded integers: nothing wraps, a missing or malformed field counts as absent.\<close>

definition rfc_age_value :: "bytes \<Rightarrow> int" where
  "rfc_age_value age = (case ParseInt (TrimSpace age) of None \<Rightarrow> 0 | Some n \<Rightarrow> max 0 n)"

definition rfc_initial_age :: "int \<Rightarrow> gotime option \<Rightarrow> gotime \<Rightarrow> gotime \<Rightarrow> int" where
  "rfc_initial_age age date t0 t1 =
     max (case date of None \<Rightarrow> 0 | Some dt \<Rightarrow> max 0 (t1 - dt)) (age * Second + (t1 - t0))"

definition rfc_lifetime :: "ResponseCacheDirectives \<Rightarrow> int" where
  "rfc_lifetime d =
     (if NoCachePresent d \<or> NoCache d \<noteq> [] then 0
      else if 0 \<le> SMaxAge d then SMaxAge d * Second else MaxAge d * Second)"

definition date_field :: "goenv \<Rightarrow> Header \<Rightarrow> gotime option" where
  "date_field env rs =
     (case parseDate env (Get rs headerDate) of None \<Rightarrow> None | Some dt \<Rightarrow> if IsZero dt then None else Some dt)"

lemma lifetime_directives:
  assumes "directives_ok d" and "0 \<le> MaxAge d \<or> 0 \<le> SMaxAge d"
  shows "freshness_lifetime env (Some d) rs dt t = rfc_lifetime d"
  using assms by (auto simp: freshness_lifetime_def rfc_lifetime_def directives_ok_def dmul_Second)

lemma parseAge_rfc:
  assumes "rfc_age_value age < 2 ^ 31"
  shows "parseAge age = rfc_age_value age * Second" and "0 \<le> rfc_age_value age"
  using assms by (auto simp: parseAge_def rfc_age_value_def Let_def dmul_Second ParseInt_def split: option.splits if_splits)

lemma tsub_exact: "0 \<le> u \<Longrightarrow> u \<le> t \<Longrightarrow> t < 2 ^ 61 \<Longrightarrow> tsub t u = t - u"
  by (simp add: tsub_def max_int64_def min_int64_def)

text \<open>
  Property C26. For a response with \<^verbatim>\<open>max-age\<close> or \<^verbatim>\<open>s-maxage\<close> (which wins) and an \<^verbatim>\<open>Age\<close> that is
  absent, malformed or below 2147483648 seconds, the stored time to live is what RFC 9111 section
  4.2 gives on unbounded integers: the lifetime, none under \<^verbatim>\<open>no-cache\<close>, less the corrected initial
  age, the larger of \<open>response_time - date_value\<close> and \<open>age_value + response_delay\<close>, cut at 0 and
  at a year. The clocks lie between 1970 and 2043.
\<close>

theorem calculateFreshness_rfc9111:
  assumes env: "env_ok env" and f: "f = calculateFreshness env rn st rq rs t0 t1 t2"
    and d: "Directives f = Some d" "0 \<le> MaxAge d \<or> 0 \<le> SMaxAge d"
    and age: "rfc_age_value (Get rs headerAge) < 2 ^ 31"
    and times: "pred_option (\<lambda>dt. 0 \<le> dt) (date_field env rs)" "0 \<le> t0" "t0 \<le> t1" "t1 < 2 ^ 61"
  shows "EffectiveTTL f = min maxCacheTTL (max 0
     (rfc_lifetime d - rfc_initial_age (rfc_age_value (Get rs headerAge)) (date_field env rs) t0 t1))"
proof -
  let ?cc = "extractTieredCacheControl rs" and ?n = "rfc_age_value (Get rs headerAge)"
  let ?dt = "date_or_zero (parseDate env (Get rs headerDate))"
  have ds: "(if ?cc \<noteq> [] then ParseResponseCacheControl env ?cc else None) = Some d"
    using d(1) by (simp add: f calculateFreshness_def Let_def)
  then have "directives_ok d" using env by (auto simp: env_ok_def split: if_splits)
  then have life: "FreshnessLifetime f = rfc_lifetime d"
    using d(2) ds by (simp add: f calculateFreshness_def Let_def lifetime_directives)
  have "(if \<not> IsZero ?dt \<and> After t1 ?dt then tsub t1 ?dt else 0) =
      (case date_field env rs of None \<Rightarrow> 0 | Some dt \<Rightarrow> max 0 (t1 - dt))"
    using times tsub_exact [of ?dt t1]
    by (auto simp: date_field_def date_or_zero_def After_def IsZero_def split: option.splits if_splits)
  moreover have "(if After t1 t0 then tsub t1 t0 else 0) = t1 - t0"
    using times tsub_exact [of t0 t1] by (auto simp: After_def)
  moreover have "dadd (?n * Second) (t1 - t0) = ?n * Second + (t1 - t0)"
    using age parseAge_rfc(2) [OF age] times by (simp add: dadd_def wrap64_id Second_def)
  ultimately have "CorrectedInitialAge f = rfc_initial_age ?n (date_field env rs) t0 t1"
    using parseAge_rfc(1) [OF age] by (simp add: f calculateFreshness_def Let_def rfc_initial_age_def)
  then show ?thesis using life by (simp add: effective_ttl_eq [OF f])
qed

theorem calculateFreshness_rfc9111_witness:
  "EffectiveTTL (calculateFreshness demo_env 0 200 []
     [(''Cache-Control'', [''max-age=60'']), (''Age'', [''5'']), (''Date'', [''x''])]
     (10 ^ 18) (10 ^ 18 + 2 * Second) 0) = 53 * Second"
proof -
  let ?h = "[(''Cache-Control'', [''max-age=60'']), (''Age'', [''5'']), (''Date'', [''x''])]"
  let ?f = "calculateFreshness demo_env 0 200 [] ?h (10 ^ 18) (10 ^ 18 + 2 * Second) 0"
  have cc: "extractTieredCacheControl ?h = ''max-age=60''" by code_simp
  have 1: "Directives ?f = Some (no_directives\<lparr>MaxAge := 60\<rparr>)"
    by (simp add: calculateFreshness_def Let_def cc) (simp add: demo_env_def demo_directives_def)
  have 2: "rfc_age_value (Get ?h headerAge) = 5" by code_simp
  have "parseDate demo_env (Get ?h headerDate) = Some (10 ^ 18)" by code_simp
  then have 3: "date_field demo_env ?h = Some (10 ^ 18)" by (simp add: date_field_def IsZero_def zero_time_def)
  show ?thesis
    using calculateFreshness_rfc9111 [OF demo_env_ok refl 1, of ] 2 3
    by (simp add: no_directives_def Second_def maxCacheTTL_val rfc_lifetime_def rfc_initial_age_def)
qed

text \<open>
  An \<^verbatim>\<open>Age\<close> of 9223372037 seconds or more (up to 13835058055) overflows
  \<^verbatim>\<open>time.Duration\<close> and becomes negative, so the upstream age is dropped altogether: the
  corrected initial age is the apparent age alone. RFC 9111 section 1.2.2 asks for the
  largest representable age instead.
\<close>

theorem age_overflow_discarded:
  assumes "ParseInt (TrimSpace (Get rs headerAge)) = Some n"
    and "9223372037 \<le> n" "n \<le> 13835058055" and "t1 - t0 < 2 ^ 61"
  shows "CorrectedInitialAge (calculateFreshness env rn st rq rs t0 t1 t2) =
     ApparentAge (calculateFreshness env rn st rq rs t0 t1 t2)"
proof -
  let ?f = "calculateFreshness env rn st rq rs t0 t1 t2"
  have w: "dmul n Second = n * Second - 2 ^ 64"
  proof -
    have "(n * Second + 2 ^ 63) mod 2 ^ 64 = (n * Second + 2 ^ 63 - 2 ^ 64) mod 2 ^ 64"
      by (metis minus_mod_self2)
    also have "\<dots> = n * Second + 2 ^ 63 - 2 ^ 64"
      using assms(2,3) by (intro mod_pos_pos_trivial) (simp_all add: Second_def)
    finally show ?thesis by (simp add: dmul_def wrap64_def)
  qed
  have "TrimSpace (Get rs headerAge) \<noteq> []" using assms(1) by (auto simp: ParseInt_def)
  with assms have pa: "parseAge (Get rs headerAge) = n * Second - 2 ^ 64"
    by (simp add: parseAge_def Let_def w)
  let ?d = "if After t1 t0 then tsub t1 t0 else 0"
  have d: "0 \<le> ?d" "?d < 2 ^ 61"
    using assms(4) by (auto simp: After_def tsub_def max_int64_def min_int64_def)
  have neg: "dadd (n * Second - 2 ^ 64) ?d < 0"
    using assms(2,3) d by (simp add: dadd_def wrap64_id Second_def)
  have "0 \<le> ApparentAge ?f"
    by (simp add: calculateFreshness_def Let_def tsub_pos less_imp_le)
  moreover have "CorrectedInitialAge ?f = max (ApparentAge ?f) (dadd (n * Second - 2 ^ 64) ?d)"
    using pa by (simp add: calculateFreshness_def Let_def)
  ultimately show ?thesis using neg by simp
qed

theorem age_overflow_discarded_witness:
  "CorrectedInitialAge (calculateFreshness demo_env 0 200 [] [(''Age'', [''9223372037''])] 0 1 1) =
   ApparentAge (calculateFreshness demo_env 0 200 [] [(''Age'', [''9223372037''])] 0 1 1)"
proof -
  have "ParseInt (TrimSpace (Get [(''Age'', [''9223372037''])] headerAge)) = Some 9223372037"
    by (simp add: Get_def Values_def CanonicalHeaderKey_def is_token_byte_def TrimSpace_def
        ParseInt_def digits_value_def min_int64_def max_int64_def go_string)
  then show ?thesis by (rule age_overflow_discarded) simp_all
qed

text \<open>
  Response directives that forbid reuse without revalidation: \<^verbatim>\<open>no-cache\<close> gives
  the response no lifetime at all, and \<^verbatim>\<open>must-revalidate\<close> or \<^verbatim>\<open>proxy-revalidate\<close> gives it
  neither a stale-while-revalidate nor a stale-if-error window.
\<close>

theorem revalidation_directives:
  assumes "f = calculateFreshness env rn st rq rs t0 t1 t2" and "Directives f = Some d"
  shows "(NoCachePresent d \<or> NoCache d \<noteq> [] \<longrightarrow> FreshnessLifetime f = 0 \<and> EffectiveTTL f = 0) \<and>
    (MustRevalidate d \<or> ProxyRevalidate d \<longrightarrow>
       StaleWhileRevalidateTTL f = 0 \<and> StaleIfErrorTTL f = 0)"
proof -
  let ?cc = "extractTieredCacheControl rs"
  have ds: "(if ?cc \<noteq> [] then ParseResponseCacheControl env ?cc else None) = Some d"
    using assms(2) by (simp add: assms(1) calculateFreshness_def Let_def)
  have "NoCachePresent d \<or> NoCache d \<noteq> [] \<longrightarrow> FreshnessLifetime f = 0"
    using ds by (auto simp: assms(1) calculateFreshness_def Let_def freshness_lifetime_def)
  moreover have "MustRevalidate d \<or> ProxyRevalidate d \<longrightarrow>
      StaleWhileRevalidateTTL f = 0 \<and> StaleIfErrorTTL f = 0"
    using ds by (auto simp: assms(1) calculateFreshness_def Let_def stale_ttl_def)
  moreover have "0 \<le> CorrectedInitialAge f" by (simp add: assms(1) corrected_age_nonneg)
  ultimately show ?thesis by (simp add: effective_ttl_eq [OF assms(1)] maxCacheTTL_val)
qed

theorem revalidation_directives_witness:
  "\<exists>f d. f = calculateFreshness (demo_env\<lparr>ParseResponseCacheControl :=
        (\<lambda>s. Some (no_directives\<lparr>MaxAge := 60, NoCachePresent := True, MustRevalidate := True,
            StaleIfError := 9\<rparr>))\<rparr>) 0 200 [] [(''Cache-Control'', [''x''])] 0 1 1
     \<and> Directives f = Some d \<and> EffectiveTTL f = 0 \<and> StaleIfErrorTTL f = 0"
proof -
  let ?d = "no_directives\<lparr>MaxAge := 60, NoCachePresent := True, MustRevalidate := True,
    StaleIfError := 9\<rparr>"
  let ?e = "demo_env\<lparr>ParseResponseCacheControl := (\<lambda>s. Some ?d)\<rparr>"
  let ?f = "calculateFreshness ?e 0 200 [] [(''Cache-Control'', [''x''])] 0 1 1"
  have cc: "extractTieredCacheControl [(''Cache-Control'', [''x''])] = ''x''" by code_simp
  have d: "Directives ?f = Some ?d" by (simp add: calculateFreshness_def Let_def cc)
  with revalidation_directives [OF refl d] show ?thesis by auto
qed

text \<open>
  What is never stored (RFC 9111 section 3): a response judged cacheable has a
  status of at least 200 that is none of the excluded ones, an empty or no first \<^verbatim>\<open>Set-Cookie\<close>, no
  \<^verbatim>\<open>Vary: *\<close>, is no event stream; its directives have neither \<^verbatim>\<open>no-store\<close> nor \<^verbatim>\<open>private\<close>;
  and the response to a request with \<^verbatim>\<open>Authorization\<close> says \<^verbatim>\<open>public\<close>, \<^verbatim>\<open>s-maxage\<close> or
  \<^verbatim>\<open>must-revalidate\<close>.
\<close>

theorem cacheable_safe:
  assumes "IsCacheable (calculateFreshness env rn st rq rs t0 t1 t2)"
  shows "200 \<le> st \<and> st \<notin> {205, 206, 303, 304, 401, 407, 421, 426} \<and>
    Get rs headerSetCookie = [] \<and>
    (\<forall>vary \<in> set (Values rs headerVary). \<forall>v \<in> set (SplitByte (CHR '','') vary). TrimSpace v \<noteq> ''*'') \<and>
    \<not> Contains (ToLower (Get rs headerContentType)) contentTypeEventStream \<and>
    (case Directives (calculateFreshness env rn st rq rs t0 t1 t2) of
       None \<Rightarrow> Get rq headerAuthorization = []
     | Some d \<Rightarrow> \<not> NoStore d \<and> \<not> PrivatePresent d \<and> Private d = [] \<and>
         (Get rq headerAuthorization \<noteq> [] \<longrightarrow> Public d \<or> 0 \<le> SMaxAge d \<or> MustRevalidate d))"
proof -
  let ?f = "calculateFreshness env rn st rq rs t0 t1 t2"
  have c: "isResponseCacheable env rn st rq rs (Directives ?f)"
    using assms by (simp add: calculateFreshness_def Let_def)
  then show ?thesis
    by (auto simp: isResponseCacheable_def uncacheable_status_def varies_on_star_def list_ex_iff
        split: if_splits option.splits)
qed

theorem cacheable_safe_witness:
  "IsCacheable (calculateFreshness demo_env 0 200 [] [(''Cache-Control'', [''max-age=60''])] 0 1 1)
   \<and> (200::int) \<notin> {205, 206, 303, 304, 401, 407, 421, 426}"
proof -
  have h: "IsCacheable (calculateFreshness demo_env 0 200 [] [(''Cache-Control'', [''max-age=60''])] 0 1 1)"
    by code_simp
  from h cacheable_safe [OF h] show ?thesis by blast
qed

text \<open>What escapes the tests of \<^verbatim>\<open>isResponseCacheable\<close>: only the first \<^verbatim>\<open>Set-Cookie\<close> value is looked at, and a
  \<^verbatim>\<open>Cache-Control\<close> that the parser rejects counts as absent, so that \<^verbatim>\<open>Expires\<close> alone decides.\<close>

lemma second_cookie_cacheable:
  "IsCacheable (calculateFreshness demo_env 0 200 []
     [(''Cache-Control'', [''max-age=60'']), (''Set-Cookie'', [[], ''sid=1''])] 0 1 1)"
  by code_simp

lemma rejected_directives_ignored:
  assumes "ParseResponseCacheControl env (extractTieredCacheControl rs) = None"
  shows "Directives (calculateFreshness env rn st rq rs t0 t1 t2) = None"
  using assms by (simp add: calculateFreshness_def Let_def)
end
