(* ===== verification/HandlerParts.thy ===== *)
theory HandlerParts
  imports TitipCore Freshness
begin

text \<open>
  The helpers of \<^verbatim>\<open>src/handler.go\<close>, \<^verbatim>\<open>src/handler_context.go\<close> and \<^verbatim>\<open>src/handler_esi.go\<close>: the request
  context, conditional requests, header copying, storing a response and loading it again,
  ESI preparation, the background revalidation and the invalidation after unsafe methods.
\<close>

section \<open>Request context and environment\<close>

record requestContext =
  cw :: writer
  cr :: Request
  reqCC :: "RequestCacheDirectives option"
  primaryKey :: bytes
  variantKey :: bytes
  cmeta :: "CacheMetadata option"
  isSoftPurged :: bool
  varInfo :: "VariantInfo option"
  nowNano :: int
  isVaryMiss :: bool
  cNow :: gotime

record staleFallback =
  fbVarInfo :: VariantInfo
  fbBody :: bytes
  fbMeta :: "CacheMetadata option"

record fetchResult =
  frStatusCode :: int
  frIs304Origin :: bool
  frIsFallback :: bool
  frFallback :: "staleFallback option"
  frHeaders :: Header
  frBody :: bytes
  frFragments :: "EsiFragment list"
  frTtl :: duration

text \<open>
  What a request depends on besides the instance: the Go environment, the next handler, the
  ESI fetches, and what the single flight shares: the result of a revalidation of the same key
  that is in flight already and that this request joins (\<open>joined\<close>: \<open>None\<close> when it runs its own,
  \<open>Some None\<close> when the one it joins panics), and whether others join its own.
\<close>

record henv =
  genv :: goenv
  next_handler :: handler
  esiFetch :: "bytes \<Rightarrow> esiExecutionState \<Rightarrow> rawFetchResult option"
  esiAltInTime :: "EsiFragment \<Rightarrow> bool"
  esiContext :: "esiExecutionState option"
  esiDuration :: bytes
  joined :: "fetchResult option option"
  othersJoined :: bool

definition acquireRequestContext :: "writer \<Rightarrow> Request \<Rightarrow> gotime \<Rightarrow> requestContext" where
  "acquireRequestContext w r now = \<lparr>cw = w, cr = r, reqCC = None, primaryKey = [], variantKey = [], cmeta = None,
     isSoftPurged = False, varInfo = None, nowNano = UnixNano now, isVaryMiss = False, cNow = now\<rparr>"

definition on_writer :: "(writer \<Rightarrow> writer) \<Rightarrow> requestContext \<Rightarrow> requestContext" where
  "on_writer f ctx = ctx\<lparr>cw := f (cw ctx)\<rparr>"

abbreviation on_header :: "(Header \<Rightarrow> Header) \<Rightarrow> requestContext \<Rightarrow> requestContext" where
  "on_header f \<equiv> on_writer (upd_header f)"

definition rfc9211Prefix :: bytes where
  "rfc9211Prefix = ''titip; ''"

definition emitCacheStatus :: "config \<Rightarrow> bytes \<Rightarrow> bytes \<Rightarrow> requestContext \<Rightarrow> requestContext" where
  "emitCacheStatus cfg simpleStatus rfc9211Value =
     on_header (\<lambda>h.
       case cacheStatusMode cfg of
         CacheStatusRFC9211 \<Rightarrow> if rfc9211Value \<noteq> [] then Add h headerCacheStatus rfc9211Value else h
       | CacheStatusSimple \<Rightarrow> Set h headerCacheStatus simpleStatus
       | CacheStatusNone \<Rightarrow> h)"

text \<open>A detail that the code builds only in RFC 9211 mode.\<close>

definition rfc_detail :: "config \<Rightarrow> bytes \<Rightarrow> bytes" where
  "rfc_detail cfg s = (if cacheStatusMode cfg = CacheStatusRFC9211 then rfc9211Prefix @ s else [])"

section \<open>Small helpers\<close>

definition isMutatingMethod :: "bytes \<Rightarrow> bool" where
  "isMutatingMethod m \<longleftrightarrow> m \<in> {''POST'', ''PUT'', ''DELETE'', ''PATCH''}"

definition remainingTTL :: "int \<Rightarrow> int \<Rightarrow> duration" where
  "remainingTTL expiresAtUnixNano now =
     (let rem = wrap64 (expiresAtUnixNano - now) in if rem < 0 then 0 else rem)"

definition calcAgeString :: "CacheMetadata option \<Rightarrow> int \<Rightarrow> bytes" where
  "calcAgeString m now =
     (case m of
        None \<Rightarrow> ''0''
      | Some md \<Rightarrow>
          let residentSec = max (quot (wrap64 (now - CreatedAtUnixNano md)) Second) 0
          in FormatInt (wrap64 (CorrectedInitialAgeSeconds md + residentSec)))"

definition isHopByHopHeader :: "bytes \<Rightarrow> bool" where
  "isHopByHopHeader k \<longleftrightarrow> CanonicalHeaderKey k \<in> {''Connection'', ''Keep-Alive'', ''Proxy-Authenticate'',
     ''Proxy-Authorization'', ''Proxy-Connection'', ''Te'', ''Trailers'', ''Transfer-Encoding'', ''Upgrade''}"

definition copyNonHopHeaders :: "Header \<Rightarrow> Header \<Rightarrow> Header" where
  "copyNonHopHeaders src dst = add_all (filter (\<lambda>(k, vv). \<not> isHopByHopHeader k) src) dst"

definition connection_tokens :: "Header \<Rightarrow> bytes list" where
  "connection_tokens h =
     (let conn = Get h ''Connection''
      in if conn = [] then []
         else filter (\<lambda>t. t \<noteq> []) (map (\<lambda>t. CanonicalHeaderKey (TrimSpace t)) (SplitByte (CHR '','') conn)))"

definition protoHeadersFromHTTP :: "Header \<Rightarrow> Header" where
  "protoHeadersFromHTTP h =
     filter (\<lambda>(k, vv). let canon = CanonicalHeaderKey k
       in \<not> (isHopByHopHeader canon \<or> canon = ''Set-Cookie'') \<and> canon \<notin> set (connection_tokens h)) h"

definition copyProtoHeaders :: "Header \<Rightarrow> requestContext \<Rightarrow> requestContext" where
  "copyProtoHeaders protoHeaders = on_header (add_all protoHeaders)"

section \<open>Conditional requests\<close>

text \<open>\<open>None\<close> is to proceed, \<open>Some\<close> the status to end with.\<close>

definition not_newer :: "int \<Rightarrow> gotime \<Rightarrow> bool" where
  "not_newer lastModifiedUnixNano clientTime \<longleftrightarrow>
     \<not> After (TruncateSecond lastModifiedUnixNano) (TruncateSecond clientTime)"

definition evaluatePreconditionsHeaders :: "goenv \<Rightarrow> Request \<Rightarrow> bytes \<Rightarrow> int \<Rightarrow> int option" where
  "evaluatePreconditionsHeaders env r etag lm =
     (let h = rHeader r;
          ifMatch = Get h headerIfMatch; ifUnmod = Get h headerIfUnmodifiedSince;
          ifNone = Get h headerIfNoneMatch; ifMod = Get h headerIfModifiedSince;
          failed = (if ifMatch \<noteq> [] then
                      TrimSpace ifMatch \<noteq> ''*'' \<and>
                      \<not> list_ex (\<lambda>tag. strongETagMatches tag etag) (SplitByte (CHR '','') ifMatch)
                    else if ifUnmod \<noteq> [] \<and> lm > 0 then
                      (case parseDate env ifUnmod of
                         Some t \<Rightarrow> \<not> IsZero t \<and> \<not> not_newer lm t
                       | None \<Rightarrow> False)
                    else False)
      in if failed then Some 412
         else if ifNone \<noteq> [] then
           (if TrimSpace ifNone = ''*'' then Some 304
            else if etag \<noteq> [] \<and> list_ex (\<lambda>tag. weakETagMatches tag etag) (SplitByte (CHR '','') ifNone)
              then Some 304
            else None)
         else if ifMod \<noteq> [] \<and> lm > 0 then
           (case parseDate env ifMod of
              Some t \<Rightarrow> if \<not> IsZero t \<and> not_newer lm t then Some 304 else None
            | None \<Rightarrow> None)
         else None)"

definition evaluatePreconditions :: "goenv \<Rightarrow> Request \<Rightarrow> VariantInfo \<Rightarrow> int option" where
  "evaluatePreconditions env r v = evaluatePreconditionsHeaders env r (Etag v) (LastModifiedUnixNano v)"

section \<open>Storing a response\<close>

text \<open>The stored body and the name of the codec it is stored with.\<close>

definition encode_body :: "config \<Rightarrow> Header \<Rightarrow> bytes \<Rightarrow> bytes \<times> bytes" where
  "encode_body cfg headers bodyBytes =
     (if bodyBytes = [] then ([], StorageCompressionNone)
      else
        let cmp = resolveCompressor (map_of (compressors cfg) (storageCompression cfg)) headers (length bodyBytes)
        in case Compress cmp bodyBytes of
             Some z \<Rightarrow> (z, cName cmp)
           | None \<Rightarrow> (bodyBytes, StorageCompressionNone))"

definition lastModifiedNano :: "goenv \<Rightarrow> Header \<Rightarrow> int" where
  "lastModifiedNano env headers =
     (case parseDate env (Get headers headerLastModified) of
        Some lm \<Rightarrow> if IsZero lm then 0 else UnixNano lm
      | None \<Rightarrow> 0)"

definition storage_ttl :: "freshnessInfo \<Rightarrow> duration" where
  "storage_ttl f =
     (let staleWindow = max (StaleWhileRevalidateTTL f) (StaleIfErrorTTL f);
          ttl = dadd (EffectiveTTL f) staleWindow
      in if ttl \<le> 0 then EffectiveTTL f else ttl)"

definition defaultVariantKey :: bytes where
  "defaultVariantKey = ''default''"

definition new_variant_key :: "Request \<Rightarrow> bytes \<Rightarrow> bytes list \<Rightarrow> bytes" where
  "new_variant_key r vk varNames =
     (let varKey = (if vk = [] \<or> vk = defaultVariantKey then generateVariantKey r varNames else vk)
      in if varKey = [] then defaultVariantKey else varKey)"

definition new_meta :: "config \<Rightarrow> bytes \<Rightarrow> Header \<Rightarrow> freshnessInfo \<Rightarrow> gotime \<Rightarrow> CacheMetadata" where
  "new_meta cfg pk headers f respTime =
     (let expiresAt = UnixNano (tadd respTime (EffectiveTTL f))
      in \<lparr>PrimaryKey = pk, VaryHeaderNames = extractVaryHeaderNames headers, Variants = [],
          CreatedAtUnixNano = UnixNano respTime, ExpiresAtUnixNano = expiresAt,
          StaleUntilUnixNano = (if StaleWhileRevalidateTTL f > 0
                                then wrap64 (expiresAt + StaleWhileRevalidateTTL f) else 0),
          CorrectedInitialAgeSeconds = quot (CorrectedInitialAge f) Second,
          Tags = extractTags headers (tagHeaderName cfg)\<rparr>)"

definition new_variant ::
    "goenv \<Rightarrow> config \<Rightarrow> bytes \<Rightarrow> int \<Rightarrow> Request \<Rightarrow> Header \<Rightarrow> bytes \<Rightarrow> EsiFragment list \<Rightarrow> VariantInfo" where
  "new_variant env cfg vk statusCode r headers bodyBytes fragments =
     \<lparr>VariantKey = new_variant_key r vk (extractVaryHeaderNames headers), VaryHeaders = [],
      StatusCode = wrap32 statusCode, ResponseHeaders = protoHeadersFromHTTP headers, Etag = Get headers headerETag,
      LastModifiedUnixNano = lastModifiedNano env headers, RawBodySize = int (length bodyBytes),
      EsiFragments = fragments, StorageCompression = snd (encode_body cfg headers bodyBytes)\<rparr>"

text \<open>An error of the backend is logged and ignored.\<close>

definition saveVariantToStorage ::
    "goenv \<Rightarrow> 's Storage \<Rightarrow> bytes \<Rightarrow> bytes \<Rightarrow> int \<Rightarrow> Request \<Rightarrow> Header \<Rightarrow> bytes \<Rightarrow> EsiFragment list \<Rightarrow> freshnessInfo
     \<Rightarrow> gotime \<Rightarrow> 's Titip \<Rightarrow> 's Titip" where
  "saveVariantToStorage env ops pk vk statusCode r headers bodyBytes fragments f respTime t =
     t\<lparr>tStore := snd (opSetVariant ops respTime (tStore t) pk
          (Some (new_meta (tConfig t) pk headers f respTime))
          (Some (new_variant env (tConfig t) vk statusCode r headers bodyBytes fragments))
          (fst (encode_body (tConfig t) headers bodyBytes)) (storage_ttl f))\<rparr>"

section \<open>Loading a body\<close>

definition codec_name :: "VariantInfo \<Rightarrow> bytes" where
  "codec_name v = (if StorageCompression v = [] then StorageCompressionLZ4 else StorageCompression v)"

text \<open>
  The variant and its decompressed body, or \<open>None\<close> to fail open. A body that does not decompress
  to the recorded size soft-purges its entry.
\<close>

definition loadDecompressed ::
    "'s Storage \<Rightarrow> gotime \<Rightarrow> bytes \<Rightarrow> bytes \<Rightarrow> 's Titip \<Rightarrow> (VariantInfo \<times> bytes) option \<times> 's Titip" where
  "loadDecompressed ops now pk vk t =
     (case opGetVariant ops now (tStore t) pk vk of
        Inr (Some (Some v, compBody)) \<Rightarrow>
          if RawBodySize v > 0 \<and> compBody = [] then (None, t)
          else
            (case map_of (compressors (tConfig t)) (codec_name v) of
               None \<Rightarrow> (None, t)
             | Some cmp \<Rightarrow>
                 (case Decompress cmp compBody of
                    Some b \<Rightarrow>
                      if int (length b) \<noteq> RawBodySize v
                      then (None, t\<lparr>tStore := snd (opPurge ops now (tStore t) pk True)\<rparr>)
                      else (Some (v, b), t)
                  | None \<Rightarrow> (None, t\<lparr>tStore := snd (opPurge ops now (tStore t) pk True)\<rparr>)))
      | _ \<Rightarrow> (None, t))"

section \<open>ESI\<close>

text \<open>The cleaned header and the fragments; \<open>None\<close> is a panic of the scanner.\<close>

definition inspectAndPrepareESI :: "goenv \<Rightarrow> 's Titip \<Rightarrow> Header \<Rightarrow> bytes \<Rightarrow> (Header \<times> EsiFragment list) option" where
  "inspectAndPrepareESI env t h b =
     (case esiProcessor t of
        None \<Rightarrow> Some (h, [])
      | Some p \<Rightarrow> if \<not> CanProcess p h then Some (h, [])
                  else map_option (Pair (CleanSurrogateControl h)) (Scan env b))"

definition processESI ::
    "henv \<Rightarrow> 's Titip \<Rightarrow> bytes \<Rightarrow> EsiFragment list \<Rightarrow> int \<Rightarrow> bytes \<Rightarrow> bytes \<Rightarrow> requestContext \<Rightarrow> requestContext" where
  "processESI e t parentBody fragments statusCode simpleStatus detail ctx =
     (let cfg = tConfig t;
          (b, detail1, ctx1) =
            (case esiProcessor t of
               Some p \<Rightarrow>
                 let res = ProcessFragments (genv e) p (esiFetch e) (esiAltInTime e) (esiContext e) (cr ctx) parentBody fragments
                 in (resBody res,
                     (if cacheStatusMode cfg = CacheStatusRFC9211
                      then detail @ ''; detail='' @ [CHR 0x22] @ ''esi-includes='' @ FormatInt (int (length fragments))
                           @ '';time='' @ esiDuration e @ [CHR 0x22] else detail),
                     on_header (\<lambda>h. ReconcileHeaders p h (Some res)) ctx)
             | None \<Rightarrow> (parentBody, detail, on_header CleanSurrogateControl ctx));
          ctx2 = on_writer (\<lambda>w. WriteHeader w statusCode) (emitCacheStatus cfg simpleStatus detail1 ctx1)
      in if Method (cr ctx) \<noteq> ''HEAD'' then on_writer (\<lambda>w. Write w b) ctx2 else ctx2)"

definition adjustESIHeaders :: "'s Titip \<Rightarrow> VariantInfo \<Rightarrow> requestContext \<Rightarrow> requestContext" where
  "adjustESIHeaders t v =
     (case esiProcessor t of
        None \<Rightarrow> id
      | Some p \<Rightarrow> if EsiFragments v = [] then id else on_header (\<lambda>h. ReconcileHeaders p h None))"

section \<open>Background revalidation\<close>

definition spawnSWR :: "requestContext \<Rightarrow> 's Titip \<Rightarrow> 's Titip" where
  "spawnSWR ctx t = (if tClosed t then t
     else t\<lparr>tPending := tPending t @ [(cr ctx, primaryKey ctx, variantKey ctx)]\<rparr>)"

text \<open>The request that goes to the origin: HEAD becomes GET, the ESI capability is announced.\<close>

definition origin_request :: "'s Titip \<Rightarrow> Request \<Rightarrow> Request" where
  "origin_request t r =
     (let r1 = (if Method r = ''HEAD'' \<and> convertHeadToGet (tConfig t) then r\<lparr>Method := ''GET''\<rparr> else r)
      in case esiProcessor t of
           None \<Rightarrow> r1
         | Some _ \<Rightarrow> r1\<lparr>rHeader := addSurrogateCapability (rHeader r1) ''titip''\<rparr>)"

definition may_store :: "'s Titip \<Rightarrow> Request \<Rightarrow> freshnessInfo \<Rightarrow> bool" where
  "may_store t r f \<longleftrightarrow> IsCacheable f \<and> \<not> tClosed t \<and> \<not> (Method r = ''HEAD'' \<and> \<not> convertHeadToGet (tConfig t))"

definition revalidateOriginAsync :: "henv \<Rightarrow> 's Storage \<Rightarrow> gotime \<Rightarrow> swr_task \<Rightarrow> 's Titip \<Rightarrow> 's Titip" where
  "revalidateOriginAsync e ops now task t =
     (let (r, pk, vk) = task
      in case next_handler e (origin_request t r) new_writer now of
           (None, respTime) \<Rightarrow> t
         | (Some rec, respTime) \<Rightarrow>
             (case inspectAndPrepareESI (genv e) t (wHeader rec) (wBody rec) of
                None \<Rightarrow> t
              | Some (headers, fragments) \<Rightarrow>
                  let f = calculateFreshness (genv e) respTime (rec_Code rec) (rHeader r) headers now respTime respTime
                  in if may_store t r f
                     then saveVariantToStorage (genv e) ops pk vk (rec_Code rec) r headers (wBody rec) fragments f respTime t
                     else t))"

section \<open>Unsafe methods\<close>

definition sanitizePurgeURI :: "goenv \<Rightarrow> bytes \<Rightarrow> Request \<Rightarrow> bytes" where
  "sanitizePurgeURI env targetURI r =
     (let trimmed = TrimSpace targetURI; scheme = resolveScheme r; reqHost = normalizeHost (rHost r) scheme
      in if trimmed = [] then []
         else if HasPrefix trimmed ''/'' then scheme @ ''://'' @ rHost r @ trimmed
         else case url_Parse env trimmed of
                None \<Rightarrow> []
              | Some parsed \<Rightarrow>
                  let parsedHost = normalizeHost (Host parsed) (Scheme parsed)
                  in if parsedHost \<noteq> [] \<and> \<not> EqualFold parsedHost reqHost then [] else trimmed)"

definition mutating_target :: "Request \<Rightarrow> URL \<Rightarrow> bytes" where
  "mutating_target r u =
     (let reqTarget = url_String u
      in if reqTarget = [] \<or> \<not> Contains reqTarget ''://''
         then resolveScheme r @ ''://'' @ rHost r @ RequestURI u else reqTarget)"

definition purge_if :: "goenv \<Rightarrow> 's Storage \<Rightarrow> gotime \<Rightarrow> bytes \<Rightarrow> 's Titip \<Rightarrow> 's Titip" where
  "purge_if env ops now target t = (if target = [] then t else snd (t_Purge env ops now t target False))"

text \<open>\<open>None\<close> is a panic, with the state it leaves.\<close>

definition handleMutatingRequest ::
    "henv \<Rightarrow> 's Storage \<Rightarrow> gotime \<Rightarrow> writer \<Rightarrow> Request \<Rightarrow> 's Titip \<Rightarrow> writer option \<times> writer \<times> gotime \<times> 's Titip" where
  "handleMutatingRequest e ops now w r t =
     (if \<not> autoInvalidateMutatingMethods (tConfig t) then
        (case next_handler e r w now of (None, now') \<Rightarrow> (None, w, now', t) | (Some w', now') \<Rightarrow> (Some w', w', now', t))
      else
        (case next_handler e r new_writer now of
           (None, now') \<Rightarrow> (None, w, now', t)
         | (Some rec, now') \<Rightarrow>
             let w1 = WriteHeader (upd_header (add_all (wHeader rec)) w) (rec_Code rec);
                 w2 = (if wBody rec \<noteq> [] then Write w1 (wBody rec) else w1)
             in if 200 \<le> rec_Code rec \<and> rec_Code rec < 400 then
                  (case rURL r of
                     None \<Rightarrow> (None, w2, now', t)
                   | Some u \<Rightarrow>
                       let t1 = snd (t_Purge (genv e) ops now' t (mutating_target r u) False);
                           loc = Get (wHeader rec) headerLocation;
                           t2 = (if loc \<noteq> [] then purge_if (genv e) ops now' (sanitizePurgeURI (genv e) loc r) t1 else t1);
                           cloc = Get (wHeader rec) headerContentLocation;
                           t3 = (if cloc \<noteq> [] then purge_if (genv e) ops now' (sanitizePurgeURI (genv e) cloc r) t2 else t2)
                       in (Some w2, w2, now', t3))
                else (Some w2, w2, now', t)))"

end
