(* ===== verification/Handler.thy ===== *)
theory Handler
  imports HandlerParts
begin

text \<open>
  The request state machine of \<^verbatim>\<open>src/handler.go\<close>: one function per state, with the code's guards in
  the code's order, and the loop \<^verbatim>\<open>ServeHTTP\<close>. A state goes to another one, is done, or crashes
  (a panic that no state recovers and that leaves \<^verbatim>\<open>ServeHTTP\<close>).
\<close>

section \<open>States\<close>

datatype state = CheckBypass | LookupMetadata | MatchVariant | EvaluateFreshness | Serve304 | Serve412
  | ServeCachedHit | ServeSWR | FetchOriginMiss | FetchOriginRevalidate | BypassOrigin

datatype outcome = Goto state | Done | Crash

type_synonym 's step = "outcome \<times> requestContext \<times> 's Titip"

definition stop :: "requestContext \<Rightarrow> 's Titip \<Rightarrow> 's step" where
  "stop ctx t = (Done, ctx, t)"

text \<open>The recurring ends: a bypass, an error page, a 504 for \<^verbatim>\<open>only-if-cached\<close>, a status with a body.\<close>

definition bypass :: "config \<Rightarrow> bytes \<Rightarrow> requestContext \<Rightarrow> 's Titip \<Rightarrow> 's step" where
  "bypass cfg detail ctx t = (Goto BypassOrigin, emitCacheStatus cfg ''BYPASS'' (rfc9211Prefix @ detail) ctx, t)"

definition error_page :: "bytes \<Rightarrow> int \<Rightarrow> requestContext \<Rightarrow> requestContext" where
  "error_page msg code = on_writer (\<lambda>w. http_Error w msg code)"

definition gateway_timeout :: "config \<Rightarrow> bytes \<Rightarrow> requestContext \<Rightarrow> 's Titip \<Rightarrow> 's step" where
  "gateway_timeout cfg detail ctx t =
     stop (error_page ''Gateway Timeout'' 504 (emitCacheStatus cfg ''MISS'' (rfc9211Prefix @ detail) ctx)) t"

definition write_status :: "int \<Rightarrow> requestContext \<Rightarrow> requestContext" where
  "write_status code = on_writer (\<lambda>w. WriteHeader w code)"

definition write_body :: "bytes \<Rightarrow> requestContext \<Rightarrow> requestContext" where
  "write_body b ctx = (if Method (cr ctx) \<noteq> ''HEAD'' then on_writer (\<lambda>w. Write w b) ctx else ctx)"

definition set_age :: "CacheMetadata option \<Rightarrow> int \<Rightarrow> requestContext \<Rightarrow> requestContext" where
  "set_age m now = on_header (\<lambda>h. Set h headerAge (calcAgeString m now))"

definition stateCheckBypass :: "henv \<Rightarrow> 's Storage \<Rightarrow> requestContext \<Rightarrow> 's Titip \<Rightarrow> 's step" where
  "stateCheckBypass e ops ctx t =
     (let cfg = tConfig t; r = cr ctx; h = rHeader r
      in if containsToken (Get h headerUpgrade) upgradeWebSocket
           then bypass cfg ''fwd=bypass; detail=websocket-upgrade'' ctx t
         else if Contains (ToLower (Get h headerAccept)) contentTypeEventStream
           then bypass cfg ''fwd=bypass; detail=sse-stream'' ctx t
         else if Get h headerRange \<noteq> []
           then bypass cfg ''fwd=bypass; detail=range-request'' ctx t
         else if isMutatingMethod (Method r) then
           (let ctx1 = emitCacheStatus cfg ''BYPASS'' (rfc9211Prefix @ ''fwd=method'') ctx
            in case handleMutatingRequest e ops (cNow ctx1) (cw ctx1) r t of
                 (Some w, _, now', t') \<Rightarrow> stop (ctx1\<lparr>cw := w, cNow := now'\<rparr>) t'
               | (None, w, now', t') \<Rightarrow>
                   stop (error_page ''Internal Server Error'' 500 (ctx1\<lparr>cw := w, cNow := now'\<rparr>)) t')
         else if Method r \<noteq> ''GET'' \<and> Method r \<noteq> ''HEAD''
           then bypass cfg ''fwd=method'' ctx t
         else if respectClientCacheControl cfg then
           (let cc = Join '', '' (Values h headerCacheControl)
            in if cc \<noteq> [] then
                 (case ParseRequestCacheControl (genv e) cc of
                    Some d \<Rightarrow>
                      let ctx1 = ctx\<lparr>reqCC := Some d\<rparr>
                      in if rNoStore d \<or> rNoCache d then bypass cfg ''fwd=request; detail=no-store'' ctx1 t
                         else if rMaxAge d = 0 then bypass cfg ''fwd=request; detail=max-age-0'' ctx1 t
                         else (Goto LookupMetadata, ctx1, t)
                  | None \<Rightarrow> (Goto LookupMetadata, ctx, t))
               else if EqualFold (TrimSpace (Get h headerPragma)) ''no-cache''
                 then bypass cfg ''fwd=request; detail=pragma-no-cache'' ctx t
               else (Goto LookupMetadata, ctx, t))
         else (Goto LookupMetadata, ctx, t))"

definition only_if_cached :: "requestContext \<Rightarrow> bool" where
  "only_if_cached ctx = (case reqCC ctx of None \<Rightarrow> False | Some d \<Rightarrow> rOnlyIfCached d)"

definition stateLookupMetadata :: "henv \<Rightarrow> 's Storage \<Rightarrow> requestContext \<Rightarrow> 's Titip \<Rightarrow> 's step" where
  "stateLookupMetadata e ops ctx t =
     (let cfg = tConfig t; ctx1 = ctx\<lparr>primaryKey := generatePrimaryKey (cr ctx) (Some (cacheKey cfg))\<rparr>
      in case opGetMeta ops (cNow ctx1) (tStore t) (primaryKey ctx1) of
           Inl _ \<Rightarrow> bypass cfg ''fwd=bypass; detail=storage-fallback'' ctx1 t
         | Inr (m, sp) \<Rightarrow>
             let ctx2 = ctx1\<lparr>cmeta := m, isSoftPurged := sp\<rparr>
             in if m = None then
                  if only_if_cached ctx2 then gateway_timeout cfg ''miss; detail=only-if-cached'' ctx2 t
                  else (Goto FetchOriginMiss, ctx2\<lparr>isVaryMiss := False\<rparr>, t)
                else (Goto MatchVariant, ctx2, t))"

definition stateMatchVariant :: "henv \<Rightarrow> 's Storage \<Rightarrow> requestContext \<Rightarrow> 's Titip \<Rightarrow> 's step" where
  "stateMatchVariant e ops ctx t =
     (case cmeta ctx of
        None \<Rightarrow> (Crash, ctx, t)
      | Some m \<Rightarrow>
          let vk = generateVariantKey (cr ctx) (VaryHeaderNames m);
              ctx1 = ctx\<lparr>variantKey := (if vk = [] then defaultVariantKey else vk)\<rparr>
          in case map_of (Variants m) (variantKey ctx1) of
               None \<Rightarrow>
                 if only_if_cached ctx1 then gateway_timeout (tConfig t) ''miss; detail=only-if-cached'' ctx1 t
                 else (Goto FetchOriginMiss, ctx1\<lparr>isVaryMiss := True\<rparr>, t)
             | Some v \<Rightarrow> (Goto EvaluateFreshness, ctx1\<lparr>varInfo := Some v\<rparr>, t))"

definition has_esi :: "'s Titip \<Rightarrow> VariantInfo \<Rightarrow> bool" where
  "has_esi t v \<longleftrightarrow> esiProcessor t \<noteq> None \<and> EsiFragments v \<noteq> []"

definition checks_preconditions :: "'s Titip \<Rightarrow> VariantInfo \<Rightarrow> bool" where
  "checks_preconditions t v \<longleftrightarrow> \<not> has_esi t v \<or> (case esiProcessor t of None \<Rightarrow> False | Some p \<Rightarrow> preserveETag p)"

definition stateEvaluateFreshness :: "henv \<Rightarrow> 's Storage \<Rightarrow> requestContext \<Rightarrow> 's Titip \<Rightarrow> 's step" where
  "stateEvaluateFreshness e ops ctx t =
     (let ctx1 = ctx\<lparr>nowNano := UnixNano (cNow ctx)\<rparr>
      in if isSoftPurged ctx1 then (Goto FetchOriginRevalidate, ctx1, t)
         else
           (case (cmeta ctx1, varInfo ctx1) of
              (Some m, Some v) \<Rightarrow>
                if nowNano ctx1 \<le> ExpiresAtUnixNano m then
                  (case (if checks_preconditions t v then evaluatePreconditions (genv e) (cr ctx1) v else None) of
                     Some status \<Rightarrow>
                       if status = 304 then (Goto Serve304, ctx1, t)
                       else if status = 412 then (Goto Serve412, ctx1, t)
                       else (Goto ServeCachedHit, ctx1, t)
                   | None \<Rightarrow> (Goto ServeCachedHit, ctx1, t))
                else if StaleUntilUnixNano m > ExpiresAtUnixNano m \<and> nowNano ctx1 \<le> StaleUntilUnixNano m
                  then (Goto ServeSWR, ctx1, t)
                else if respectClientCacheControl (tConfig t) \<and>
                        Contains (Join '', '' (Values (rHeader (cr ctx1)) headerCacheControl)) ''only-if-cached''
                  then gateway_timeout (tConfig t) ''miss; detail=only-if-cached-expired'' ctx1 t
                else (Goto FetchOriginRevalidate, ctx1, t)
            | _ \<Rightarrow> (Crash, ctx1, t)))"

definition stateServe304 :: "henv \<Rightarrow> 's Storage \<Rightarrow> requestContext \<Rightarrow> 's Titip \<Rightarrow> 's step" where
  "stateServe304 e ops ctx t =
     (case varInfo ctx of
        None \<Rightarrow> (Crash, ctx, t)
      | Some v \<Rightarrow>
          stop (write_status 304
            (set_age (cmeta ctx) (nowNano ctx)
              (adjustESIHeaders t v
                (copyProtoHeaders (ResponseHeaders v)
                  (emitCacheStatus (tConfig t) ''HIT'' (rfc9211Prefix @ ''hit'') ctx))))) t)"

definition stateServe412 :: "henv \<Rightarrow> 's Storage \<Rightarrow> requestContext \<Rightarrow> 's Titip \<Rightarrow> 's step" where
  "stateServe412 e ops ctx t =
     stop (error_page ''Precondition Failed'' 412
       (emitCacheStatus (tConfig t) ''BYPASS'' (rfc9211Prefix @ ''fwd=bypass; detail=precondition-failed'') ctx)) t"

definition hit_detail :: "CacheMetadata \<Rightarrow> int \<Rightarrow> bytes" where
  "hit_detail m now = rfc9211Prefix @ ''hit; ttl='' @ FormatInt (quot (remainingTTL (ExpiresAtUnixNano m) now) Second)"

definition stateServeCachedHit :: "henv \<Rightarrow> 's Storage \<Rightarrow> requestContext \<Rightarrow> 's Titip \<Rightarrow> 's step" where
  "stateServeCachedHit e ops ctx t =
     (case (cmeta ctx, varInfo ctx) of
        (Some m, Some v0) \<Rightarrow>
          if Method (cr ctx) = ''HEAD'' \<or> RawBodySize v0 = 0 then
            stop (write_status (StatusCode v0)
              (adjustESIHeaders t v0
                (copyProtoHeaders (ResponseHeaders v0)
                  (emitCacheStatus (tConfig t) ''HIT'' (hit_detail m (nowNano ctx)) ctx)))) t
          else
            (case loadDecompressed ops (cNow ctx) (primaryKey ctx) (variantKey ctx) t of
               (None, t') \<Rightarrow> (Goto FetchOriginMiss, ctx, t')
             | (Some (v, b), t') \<Rightarrow>
                 let ctx1 = set_age (Some m) (nowNano ctx) (copyProtoHeaders (ResponseHeaders v) ctx)
                 in if has_esi t v
                    then stop (processESI e t b (EsiFragments v) (StatusCode v) ''HIT'' (hit_detail m (nowNano ctx)) ctx1) t'
                    else stop (on_writer (\<lambda>w. Write w b) (write_status (StatusCode v)
                      (emitCacheStatus (tConfig t) ''HIT'' (hit_detail m (nowNano ctx)) ctx1))) t')
      | _ \<Rightarrow> (Crash, ctx, t))"

abbreviation rfc9211UpdatingSWR :: bytes where
  "rfc9211UpdatingSWR \<equiv> rfc9211Prefix @ ''hit; stale; detail=swr''"

definition stateServeSWR :: "henv \<Rightarrow> 's Storage \<Rightarrow> requestContext \<Rightarrow> 's Titip \<Rightarrow> 's step" where
  "stateServeSWR e ops ctx t =
     (case (cmeta ctx, varInfo ctx) of
        (Some m, Some v0) \<Rightarrow>
          if Method (cr ctx) = ''HEAD'' \<or> RawBodySize v0 = 0 then
            stop (write_status (StatusCode v0)
              (emitCacheStatus (tConfig t) ''UPDATING'' rfc9211UpdatingSWR
                (set_age (Some m) (nowNano ctx) (copyProtoHeaders (ResponseHeaders v0) ctx)))) (spawnSWR ctx t)
          else
            (case loadDecompressed ops (cNow ctx) (primaryKey ctx) (variantKey ctx) t of
               (None, t') \<Rightarrow> (Goto FetchOriginMiss, ctx, t')
             | (Some (v, b), t') \<Rightarrow>
                 let ctx1 = set_age (Some m) (nowNano ctx) (copyProtoHeaders (ResponseHeaders v) ctx)
                 in if has_esi t v
                    then stop (processESI e t b (EsiFragments v) (StatusCode v) ''UPDATING'' rfc9211UpdatingSWR ctx1)
                           (spawnSWR ctx t')
                    else stop (write_body b (write_status (StatusCode v)
                      (emitCacheStatus (tConfig t) ''UPDATING'' rfc9211UpdatingSWR ctx1))) (spawnSWR ctx t'))
      | _ \<Rightarrow> (Crash, ctx, t))"

section \<open>Fetching on a miss\<close>

definition has_conditional :: "Request \<Rightarrow> bool" where
  "has_conditional r \<longleftrightarrow> Get (rHeader r) headerIfNoneMatch \<noteq> [] \<or> Get (rHeader r) headerIfModifiedSince \<noteq> []"

definition miss_request :: "'s Titip \<Rightarrow> Request \<Rightarrow> Request" where
  "miss_request t r =
     origin_request t (if has_conditional r
       then r\<lparr>rHeader := Del (Del (rHeader r) headerIfNoneMatch) headerIfModifiedSince\<rparr> else r)"

text \<open>The answer once the response has been inspected, and stored where it may be.\<close>

definition serve_miss ::
    "henv \<Rightarrow> 's Titip \<Rightarrow> int \<Rightarrow> Header \<Rightarrow> bytes \<Rightarrow> EsiFragment list \<Rightarrow> freshnessInfo \<Rightarrow> bool \<Rightarrow> requestContext \<Rightarrow> requestContext" where
  "serve_miss e t code headers b fragments f shouldCache ctx =
     (let cfg = tConfig t;
          ctx1 = on_header (copyNonHopHeaders headers) ctx;
          stored = (shouldCache \<and> EffectiveTTL f > 0);
          simpleStatus = (if stored then ''MISS'' else ''DYNAMIC'');
          detail = (if stored
                    then rfc_detail cfg ((if isVaryMiss ctx then ''fwd=vary-miss'' else ''fwd=uri-miss'')
                      @ ''; fwd-status='' @ FormatInt code @ ''; stored; ttl='' @ FormatInt (IntSeconds (genv e) (EffectiveTTL f)))
                    else rfc_detail cfg (''fwd=bypass; fwd-status='' @ FormatInt code))
      in if fragments \<noteq> [] then processESI e t b fragments code simpleStatus detail ctx1
         else
           let ctx2 = emitCacheStatus cfg simpleStatus detail ctx1
           in if has_conditional (cr ctx) \<and> 200 \<le> code \<and> code < 300 \<and>
                 evaluatePreconditionsHeaders (genv e) (cr ctx) (Get headers headerETag) (lastModifiedNano (genv e) headers) = Some 304
              then write_status 304 ctx2
              else write_body b (write_status code ctx2))"

definition stateFetchOriginMiss :: "henv \<Rightarrow> 's Storage \<Rightarrow> requestContext \<Rightarrow> 's Titip \<Rightarrow> 's step" where
  "stateFetchOriginMiss e ops ctx t =
     (let cfg = tConfig t; reqTime = cNow ctx
      in case next_handler e (miss_request t (cr ctx)) new_writer reqTime of
           (None, respTime) \<Rightarrow>
             stop (error_page ''Internal Server Error'' 500
               (emitCacheStatus cfg ''BYPASS'' (rfc9211Prefix @ ''fwd=bypass; detail=origin-panic'') (ctx\<lparr>cNow := respTime\<rparr>))) t
         | (Some rec, respTime) \<Rightarrow>
             let code = rec_Code rec; headersClone = wHeader rec; bodyBytes = wBody rec; ctx0 = ctx\<lparr>cNow := respTime\<rparr>
             in if Values headersClone headerSetCookie \<noteq> [] then
                  stop (write_body bodyBytes (write_status code
                    (emitCacheStatus cfg ''DYNAMIC'' (rfc_detail cfg (''fwd=bypass; fwd-status='' @ FormatInt code @ ''; detail=set-cookie''))
                      (on_header (add_all headersClone) ctx0)))) t
                else if Contains (ToLower (Get headersClone headerContentType)) contentTypeEventStream then
                  stop (write_body bodyBytes (write_status code
                    (on_header (add_all headersClone)
                      (emitCacheStatus cfg ''DYNAMIC'' (rfc9211Prefix @ ''fwd=bypass; detail=sse-response'') ctx0)))) t
                else
                  (case inspectAndPrepareESI (genv e) t headersClone bodyBytes of
                     None \<Rightarrow> (Crash, ctx0, t)
                   | Some (headers, fragments) \<Rightarrow>
                       let f = calculateFreshness (genv e) respTime code (rHeader (cr ctx)) headers reqTime respTime respTime;
                           shouldCache = may_store t (cr ctx) f;
                           t' = (if shouldCache
                                 then saveVariantToStorage (genv e) ops (primaryKey ctx) (variantKey ctx) code (cr ctx)
                                        headers bodyBytes fragments f respTime t
                                 else t)
                       in stop (serve_miss e t code headers bodyBytes fragments f shouldCache ctx0) t'))"

section \<open>Revalidation\<close>

definition no_result :: fetchResult where
  "no_result = \<lparr>frStatusCode = 0, frIs304Origin = False, frIsFallback = False, frFallback = None, frHeaders = [],
     frBody = [], frFragments = [], frTtl = 0\<rparr>"

definition reval_request :: "henv \<Rightarrow> 's Titip \<Rightarrow> VariantInfo option \<Rightarrow> Request \<Rightarrow> Request" where
  "reval_request e t stale r =
     (let h = rHeader r;
          h1 = (case stale of None \<Rightarrow> h | Some v \<Rightarrow>
                  let ha = (if Etag v \<noteq> [] then Set h headerIfNoneMatch (Etag v) else h)
                  in if LastModifiedUnixNano v > 0
                     then Set ha headerIfModifiedSince (FormatHTTPTime (genv e) (LastModifiedUnixNano v)) else ha)
      in origin_request t (r\<lparr>rHeader := h1\<rparr>))"

text \<open>The headers of an origin 304 that replace stored ones: all but hop-by-hop ones and cookies.\<close>

definition refreshing :: "Header \<Rightarrow> Header" where
  "refreshing h = filter (\<lambda>(k, vv). \<not> isHopByHopHeader (CanonicalHeaderKey k) \<and> CanonicalHeaderKey k \<noteq> ''Set-Cookie'') h"

definition merge_304 :: "goenv \<Rightarrow> Header \<Rightarrow> VariantInfo \<Rightarrow> Header \<times> VariantInfo" where
  "merge_304 env h v =
     (let merged0 = foldl (\<lambda>d (k, vv). AList.update (CanonicalHeaderKey k) vv d) (add_all (ResponseHeaders v) []) (refreshing h);
          v0 = v\<lparr>ResponseHeaders := foldl (\<lambda>d (k, vv). AList.update k vv d) (ResponseHeaders v) (refreshing h)\<rparr>;
          etag = Get h headerETag; lm = Get h headerLastModified;
          (merged1, v1) = (if etag \<noteq> [] then (Set merged0 headerETag etag, v0\<lparr>Etag := etag\<rparr>) else (merged0, v0))
      in if lm = [] then (merged1, v1)
         else case parseDate env lm of
                Some d \<Rightarrow> if IsZero d then (merged1, v1)
                          else (Set merged1 headerLastModified lm, v1\<lparr>LastModifiedUnixNano := UnixNano d\<rparr>)
              | None \<Rightarrow> (merged1, v1))"

definition refresh_meta :: "freshnessInfo \<Rightarrow> gotime \<Rightarrow> CacheMetadata \<Rightarrow> CacheMetadata" where
  "refresh_meta f respTime m =
     (let expiresAt = UnixNano (tadd respTime (EffectiveTTL f))
      in m\<lparr>ExpiresAtUnixNano := expiresAt,
           StaleUntilUnixNano := (if StaleWhileRevalidateTTL f > 0
                                  then wrap64 (expiresAt + StaleWhileRevalidateTTL f) else expiresAt)\<rparr>)"

text \<open>
  The function run by the single flight: \<open>None\<close> is a panic. The context comes back with the
  metadata and variant that a 304 has refreshed, and with the time.
\<close>

definition already_refreshed ::
    "'s Storage \<Rightarrow> requestContext \<Rightarrow> 's Titip \<Rightarrow> fetchResult option" where
  "already_refreshed ops ctx t =
     (case opGetMeta ops (cNow ctx) (tStore t) (primaryKey ctx) of
        Inr (Some m, False) \<Rightarrow>
          if ExpiresAtUnixNano m > UnixNano (cNow ctx) then
            (case opGetVariant ops (cNow ctx) (tStore t) (primaryKey ctx) (variantKey ctx) of
               Inr (Some (Some v, b)) \<Rightarrow>
                 if RawBodySize v = 0 \<or> b \<noteq> []
                 then Some (no_result\<lparr>frStatusCode := StatusCode v, frIsFallback := True,
                              frFallback := Some \<lparr>fbVarInfo = v, fbBody = b, fbMeta = Some m\<rparr>\<rparr>)
                 else None
             | _ \<Rightarrow> None)
          else None
      | _ \<Rightarrow> None)"

text \<open>
  A 304 merges its header into the stored variant, in place: the variant is the one that the
  metadata hold. A header map read back from a backend is nil when it has no entry, and writing
  to a nil map panics (\<open>None\<close>).
\<close>

definition handle_304 ::
    "henv \<Rightarrow> 's Storage \<Rightarrow> requestContext \<Rightarrow> 's Titip \<Rightarrow> VariantInfo \<Rightarrow> bytes \<Rightarrow> Header \<Rightarrow> gotime \<Rightarrow> gotime
     \<Rightarrow> fetchResult option \<times> requestContext \<times> 's Titip" where
  "handle_304 e ops ctx t v staleBody h reqTime respTime =
     (if ResponseHeaders v = [] \<and> refreshing h \<noteq> [] then (None, ctx\<lparr>cNow := respTime\<rparr>, t)
      else
        let (merged, v') = merge_304 (genv e) h v;
            f = calculateFreshness (genv e) respTime 200 (rHeader (cr ctx)) merged reqTime respTime respTime;
            refresh = (EffectiveTTL f > 0 \<and> \<not> tClosed t);
            m1 = map_option (\<lambda>m. m\<lparr>Variants := AList.update (variantKey ctx) v' (Variants m)\<rparr>) (cmeta ctx);
            m' = (if refresh then map_option (refresh_meta f respTime) m1 else m1);
            t' = (if refresh
                  then t\<lparr>tStore := snd (opSetVariant ops respTime (tStore t) (primaryKey ctx) m' (Some v') staleBody (storage_ttl f))\<rparr>
                  else t)
        in (Some (no_result\<lparr>frStatusCode := 200, frIs304Origin := True,
              frFallback := Some \<lparr>fbVarInfo = v', fbBody = staleBody, fbMeta = m'\<rparr>\<rparr>),
            ctx\<lparr>cmeta := m', varInfo := Some v', cNow := respTime\<rparr>, t'))"

definition fetched_result ::
    "henv \<Rightarrow> 's Storage \<Rightarrow> requestContext \<Rightarrow> 's Titip \<Rightarrow> int \<Rightarrow> Header \<Rightarrow> bytes \<Rightarrow> gotime \<Rightarrow> gotime
     \<Rightarrow> fetchResult option \<times> requestContext \<times> 's Titip" where
  "fetched_result e ops ctx t code h b reqTime respTime =
     (case inspectAndPrepareESI (genv e) t h b of
        None \<Rightarrow> (None, ctx, t)
      | Some (headers, fragments) \<Rightarrow>
          let f = calculateFreshness (genv e) respTime code (rHeader (cr ctx)) headers reqTime respTime respTime;
              t' = (if may_store t (cr ctx) f
                    then saveVariantToStorage (genv e) ops (primaryKey ctx) (variantKey ctx) code (cr ctx) headers b fragments f respTime t
                    else t)
          in (Some (no_result\<lparr>frStatusCode := code, frHeaders := headers, frBody := b, frFragments := fragments,
                     frTtl := EffectiveTTL f\<rparr>), ctx, t'))"

definition revalidate_flight ::
    "henv \<Rightarrow> 's Storage \<Rightarrow> bytes \<Rightarrow> requestContext \<Rightarrow> 's Titip \<Rightarrow> fetchResult option \<times> requestContext \<times> 's Titip" where
  "revalidate_flight e ops staleBody ctx t =
     (case already_refreshed ops ctx t of
        Some res \<Rightarrow> (Some res, ctx, t)
      | None \<Rightarrow>
          let reqTime = cNow ctx; stale = varInfo ctx
          in case next_handler e (reval_request e t stale (cr ctx)) new_writer reqTime of
               (None, respTime) \<Rightarrow>
                 (Some (case stale of
                          Some v \<Rightarrow> no_result\<lparr>frIsFallback := True,
                                      frFallback := Some \<lparr>fbVarInfo = v, fbBody = staleBody, fbMeta = cmeta ctx\<rparr>\<rparr>
                        | None \<Rightarrow> no_result\<lparr>frStatusCode := 500\<rparr>), ctx\<lparr>cNow := respTime\<rparr>, t)
             | (Some rec, respTime) \<Rightarrow>
                 let code = rec_Code rec; h = wHeader rec; ctx0 = ctx\<lparr>cNow := respTime\<rparr>
                 in (case (if staleBody \<noteq> [] then stale else None) of
                       Some v \<Rightarrow>
                         if code = 304 then
                           handle_304 e ops ctx t v staleBody h reqTime respTime
                         else if code \<ge> 500 then
                           (Some (no_result\<lparr>frIsFallback := True, frStatusCode := code,
                                    frFallback := Some \<lparr>fbVarInfo = v, fbBody = staleBody, fbMeta = cmeta ctx\<rparr>\<rparr>), ctx0, t)
                         else fetched_result e ops ctx0 t code h (wBody rec) reqTime respTime
                     | None \<Rightarrow> fetched_result e ops ctx0 t code h (wBody rec) reqTime respTime))"

text \<open>What the flight's result makes the request answer; \<open>shared\<close> says that it was joined.\<close>

definition fallback_body :: "'s Titip \<Rightarrow> staleFallback \<Rightarrow> bytes option" where
  "fallback_body t fb =
     (case map_of (compressors (tConfig t)) (codec_name (fbVarInfo fb)) of
        None \<Rightarrow> None
      | Some cmp \<Rightarrow>
          (case Decompress cmp (fbBody fb) of
             None \<Rightarrow> None
           | Some b \<Rightarrow> if int (length b) = RawBodySize (fbVarInfo fb) then Some b else None))"

definition age_from :: "CacheMetadata option \<Rightarrow> requestContext \<Rightarrow> requestContext" where
  "age_from m ctx = (case m of None \<Rightarrow> ctx | Some _ \<Rightarrow> set_age m (UnixNano (cNow ctx)) ctx)"

definition collapsed_token :: "bool \<Rightarrow> bytes" where
  "collapsed_token shared = (if shared then ''; collapsed'' else [])"

definition refreshed_detail :: "config \<Rightarrow> bool \<Rightarrow> bytes" where
  "refreshed_detail cfg shared =
     rfc_detail cfg (''fwd=stale; fwd-status=304'' @ collapsed_token shared @ ''; stored; detail=304-refreshed'')"

abbreviation rfc9211StaleIfError :: bytes where
  "rfc9211StaleIfError \<equiv> rfc9211Prefix @ ''hit; stale; detail=stale-if-error''"

definition serve_not_modified :: "'s Titip \<Rightarrow> bool \<Rightarrow> staleFallback \<Rightarrow> requestContext \<Rightarrow> requestContext" where
  "serve_not_modified t shared fb ctx =
     write_status 304 (age_from (fbMeta fb) (adjustESIHeaders t (fbVarInfo fb)
       (copyProtoHeaders (ResponseHeaders (fbVarInfo fb))
         (emitCacheStatus (tConfig t) ''REVALIDATED'' (refreshed_detail (tConfig t) shared) ctx))))"

definition serve_fallback ::
    "henv \<Rightarrow> 's Titip \<Rightarrow> bool \<Rightarrow> fetchResult \<Rightarrow> staleFallback \<Rightarrow> bytes \<Rightarrow> requestContext \<Rightarrow> requestContext" where
  "serve_fallback e t shared res fb b ctx =
     (let cfg = tConfig t; v = fbVarInfo fb;
          ctx1 = age_from (fbMeta fb) (copyProtoHeaders (ResponseHeaders v) ctx);
          fwdStatus = (if frStatusCode res = 0 then 500 else frStatusCode res)
      in if has_esi t v then
           (if frIs304Origin res
            then processESI e t b (EsiFragments v) (StatusCode v) ''REVALIDATED'' (refreshed_detail cfg shared) ctx1
            else processESI e t b (EsiFragments v) (StatusCode v) ''STALE'' rfc9211StaleIfError ctx1)
         else
           write_body b (write_status (StatusCode v)
             (if frIs304Origin res then emitCacheStatus cfg ''REVALIDATED'' (refreshed_detail cfg shared) ctx1
              else emitCacheStatus cfg ''STALE''
                (rfc_detail cfg (''hit; stale; fwd=stale; fwd-status='' @ FormatInt fwdStatus @ ''; detail=stale-if-error'')) ctx1)))"

definition serve_fetched :: "henv \<Rightarrow> 's Titip \<Rightarrow> bool \<Rightarrow> fetchResult \<Rightarrow> requestContext \<Rightarrow> requestContext" where
  "serve_fetched e t shared res ctx =
     (let cfg = tConfig t;
          detail = rfc_detail cfg (''fwd=stale; fwd-status='' @ FormatInt (frStatusCode res) @ collapsed_token shared
                                   @ ''; stored; detail=soft-refreshed'')
      in if frFragments res \<noteq> [] then
           processESI e t (frBody res) (frFragments res) (frStatusCode res) ''EXPIRED'' detail
             (on_header (copyNonHopHeaders (frHeaders res)) ctx)
         else if frStatusCode res \<noteq> 0 then
           write_body (frBody res) (write_status (frStatusCode res)
             (emitCacheStatus cfg ''EXPIRED'' detail
               (on_header (add_all (filter (\<lambda>(k, vv). \<not> (shared \<and> CanonicalHeaderKey k = ''Set-Cookie'')) (frHeaders res))) ctx)))
         else ctx)"

definition serve_flight :: "henv \<Rightarrow> 's Titip \<Rightarrow> bool \<Rightarrow> fetchResult \<Rightarrow> requestContext \<Rightarrow> requestContext" where
  "serve_flight e t shared res ctx =
     (case (if frIsFallback res \<or> frIs304Origin res then frFallback res else None) of
        None \<Rightarrow> serve_fetched e t shared res ctx
      | Some fb \<Rightarrow>
          if frIs304Origin res \<and> checks_preconditions t (fbVarInfo fb) \<and>
             evaluatePreconditions (genv e) (cr ctx) (fbVarInfo fb) = Some 304
          then serve_not_modified t shared fb ctx
          else (case fallback_body t fb of
                  Some b \<Rightarrow> serve_fallback e t shared res fb b ctx
                | None \<Rightarrow> serve_fetched e t shared res ctx))"

definition stale_body :: "'s Storage \<Rightarrow> requestContext \<Rightarrow> 's Titip \<Rightarrow> bytes" where
  "stale_body ops ctx t =
     (case varInfo ctx of
        None \<Rightarrow> []
      | Some _ \<Rightarrow>
          (case opGetVariant ops (cNow ctx) (tStore t) (primaryKey ctx) (variantKey ctx) of
             Inr (Some (_, b)) \<Rightarrow> b
           | _ \<Rightarrow> []))"

definition stateFetchOriginRevalidate :: "henv \<Rightarrow> 's Storage \<Rightarrow> requestContext \<Rightarrow> 's Titip \<Rightarrow> 's step" where
  "stateFetchOriginRevalidate e ops ctx t =
     (case (case joined e of
              Some res \<Rightarrow> (res, ctx, t)
            | None \<Rightarrow> revalidate_flight e ops (stale_body ops ctx t) ctx t) of
        (None, ctx', t') \<Rightarrow> (Crash, ctx', t')
      | (Some res, ctx', t') \<Rightarrow> stop (serve_flight e t' (joined e \<noteq> None \<or> othersJoined e) res ctx') t')"

definition stateBypassOrigin :: "henv \<Rightarrow> 's Storage \<Rightarrow> requestContext \<Rightarrow> 's Titip \<Rightarrow> 's step" where
  "stateBypassOrigin e ops ctx t =
     (case next_handler e (cr ctx) (cw ctx) (cNow ctx) of
        (None, now') \<Rightarrow> (Crash, ctx\<lparr>cNow := now'\<rparr>, t)
      | (Some w, now') \<Rightarrow> stop (ctx\<lparr>cw := w, cNow := now'\<rparr>) t)"

section \<open>The loop\<close>

definition step :: "henv \<Rightarrow> 's Storage \<Rightarrow> state \<Rightarrow> requestContext \<Rightarrow> 's Titip \<Rightarrow> 's step" where
  "step e ops st =
     (case st of
        CheckBypass \<Rightarrow> stateCheckBypass e ops
      | LookupMetadata \<Rightarrow> stateLookupMetadata e ops
      | MatchVariant \<Rightarrow> stateMatchVariant e ops
      | EvaluateFreshness \<Rightarrow> stateEvaluateFreshness e ops
      | Serve304 \<Rightarrow> stateServe304 e ops
      | Serve412 \<Rightarrow> stateServe412 e ops
      | ServeCachedHit \<Rightarrow> stateServeCachedHit e ops
      | ServeSWR \<Rightarrow> stateServeSWR e ops
      | FetchOriginMiss \<Rightarrow> stateFetchOriginMiss e ops
      | FetchOriginRevalidate \<Rightarrow> stateFetchOriginRevalidate e ops
      | BypassOrigin \<Rightarrow> stateBypassOrigin e ops)"

text \<open>Every transition lowers the rank of the state, so the loop ends.\<close>

fun rank :: "state \<Rightarrow> nat" where
  "rank CheckBypass = 5"
| "rank LookupMetadata = 4"
| "rank MatchVariant = 3"
| "rank EvaluateFreshness = 2"
| "rank ServeCachedHit = 1"
| "rank ServeSWR = 1"
| "rank _ = 0"

lemmas state_defs = stateCheckBypass_def stateLookupMetadata_def stateMatchVariant_def stateEvaluateFreshness_def
  stateServe304_def stateServe412_def stateServeCachedHit_def stateServeSWR_def stateFetchOriginMiss_def
  stateFetchOriginRevalidate_def stateBypassOrigin_def

lemmas end_defs = stop_def bypass_def gateway_timeout_def

lemma step_rank: "step e ops st ctx t = (Goto st', ctx', t') \<Longrightarrow> rank st' < rank st"
  by (cases st)
     (auto simp: step_def state_defs end_defs Let_def split: if_splits option.splits prod.splits sum.splits)

function serve_from :: "henv \<Rightarrow> 's Storage \<Rightarrow> state \<Rightarrow> requestContext \<Rightarrow> 's Titip \<Rightarrow> 's step" where
  "serve_from e ops st ctx t =
     (case step e ops st ctx t of
        (Goto st', ctx', t') \<Rightarrow> serve_from e ops st' ctx' t'
      | (Done, ctx', t') \<Rightarrow> (Done, ctx', t')
      | (Crash, ctx', t') \<Rightarrow> (Crash, ctx', t'))"
  by pat_completeness auto
termination
  by (relation "measure (\<lambda>(e, ops, st, ctx, t). rank st)") (auto dest: step_rank [OF sym])

declare serve_from.simps [simp del]

text \<open>The answer on the writer, the clock and the instance; \<open>None\<close> is a panic.\<close>

definition ServeHTTP ::
    "henv \<Rightarrow> 's Storage \<Rightarrow> gotime \<Rightarrow> 's Titip \<Rightarrow> writer \<Rightarrow> Request \<Rightarrow> writer option \<times> gotime \<times> 's Titip" where
  "ServeHTTP e ops now t w r =
     (case serve_from e ops CheckBypass (acquireRequestContext w r now) t of
        (Done, ctx, t') \<Rightarrow> (Some (cw ctx), cNow ctx, t')
      | (_, ctx, t') \<Rightarrow> (None, cNow ctx, t'))"

text \<open>One background revalidation that is pending runs.\<close>

fun run_swr :: "henv \<Rightarrow> 's Storage \<Rightarrow> gotime \<Rightarrow> 's Titip \<Rightarrow> 's Titip" where
  "run_swr e ops now t =
     (case tPending t of
        [] \<Rightarrow> t
      | task # rest \<Rightarrow> revalidateOriginAsync e ops now task (t\<lparr>tPending := rest\<rparr>))"

end
