(* ===== verification/HandlerFacts.thy ===== *)
theory HandlerFacts
  imports Handler
begin

text \<open>
  Properties of the request state machine. The lemmas about a storage backend are proved in
  the locale \<open>storage_contract\<close> and reach the model through its interpretation \<open>ts\<close>.
\<close>

section \<open>Running the machine\<close>

lemma serve_from_Goto: "step e ops st ctx t = (Goto st', ctx', t') \<Longrightarrow> serve_from e ops st ctx t = serve_from e ops st' ctx' t'"
  by (subst serve_from.simps) simp

lemma serve_from_Done: "step e ops st ctx t = (Done, ctx', t') \<Longrightarrow> serve_from e ops st ctx t = (Done, ctx', t')"
  by (subst serve_from.simps) simp

lemma serve_from_Crash: "step e ops st ctx t = (Crash, ctx', t') \<Longrightarrow> serve_from e ops st ctx t = (Crash, ctx', t')"
  by (subst serve_from.simps) simp

lemmas step_simps = step_def state.case

lemma on_writer_simps [simp]:
  "cw (on_writer f ctx) = f (cw ctx)" "cr (on_writer f ctx) = cr ctx" "cNow (on_writer f ctx) = cNow ctx"
  "cmeta (on_writer f ctx) = cmeta ctx" "varInfo (on_writer f ctx) = varInfo ctx" "nowNano (on_writer f ctx) = nowNano ctx"
  "primaryKey (on_writer f ctx) = primaryKey ctx" "variantKey (on_writer f ctx) = variantKey ctx"
  "reqCC (on_writer f ctx) = reqCC ctx" "isSoftPurged (on_writer f ctx) = isSoftPurged ctx" "isVaryMiss (on_writer f ctx) = isVaryMiss ctx"
  by (simp_all add: on_writer_def)

lemma emitCacheStatus_on_header: "\<exists>f. emitCacheStatus cfg s d = on_header f"
  by (auto simp: emitCacheStatus_def)

lemma emitCacheStatus_simps [simp]:
  "cr (emitCacheStatus cfg s d ctx) = cr ctx" "cmeta (emitCacheStatus cfg s d ctx) = cmeta ctx"
  "varInfo (emitCacheStatus cfg s d ctx) = varInfo ctx" "cNow (emitCacheStatus cfg s d ctx) = cNow ctx"
  "wCode (cw (emitCacheStatus cfg s d ctx)) = wCode (cw ctx)" "wBody (cw (emitCacheStatus cfg s d ctx)) = wBody (cw ctx)"
  "wSent (cw (emitCacheStatus cfg s d ctx)) = wSent (cw ctx)"
  by (simp_all add: emitCacheStatus_def)

lemma acquireRequestContext_simps [simp]:
  "cw (acquireRequestContext w r now) = w" "cr (acquireRequestContext w r now) = r" "cNow (acquireRequestContext w r now) = now"
  "reqCC (acquireRequestContext w r now) = None" "variantKey (acquireRequestContext w r now) = []"
  "cmeta (acquireRequestContext w r now) = None" "varInfo (acquireRequestContext w r now) = None"
  by (simp_all add: acquireRequestContext_def)

lemma new_writer_simps [simp]: "wCode new_writer = None" "wBody new_writer = []" "wHeader new_writer = []"
  by (simp_all add: new_writer_def)

text \<open>A request that no guard of the first state takes out, and one without preconditions.\<close>

definition plain_request :: "Request \<Rightarrow> bool" where
  "plain_request r \<longleftrightarrow> (Method r = ''GET'' \<or> Method r = ''HEAD'') \<and>
     \<not> containsToken (Get (rHeader r) headerUpgrade) upgradeWebSocket \<and>
     \<not> Contains (ToLower (Get (rHeader r) headerAccept)) contentTypeEventStream \<and> Get (rHeader r) headerRange = []"

definition unconditional :: "Request \<Rightarrow> bool" where
  "unconditional r \<longleftrightarrow> Get (rHeader r) headerIfMatch = [] \<and> Get (rHeader r) headerIfUnmodifiedSince = [] \<and>
     Get (rHeader r) headerIfNoneMatch = [] \<and> Get (rHeader r) headerIfModifiedSince = []"

lemma stateCheckBypass_plain:
  assumes "plain_request (cr ctx)" and "\<not> respectClientCacheControl (tConfig t)"
  shows "stateCheckBypass e ops ctx t = (Goto LookupMetadata, ctx, t)"
  using assms by (auto simp: stateCheckBypass_def plain_request_def isMutatingMethod_def Let_def)

lemma unconditional_proceeds: "unconditional r \<Longrightarrow> evaluatePreconditionsHeaders env r etag lm = None"
  by (simp add: unconditional_def evaluatePreconditionsHeaders_def Let_def)

lemma unconditional_no_conditional: "unconditional r \<Longrightarrow> \<not> has_conditional r"
  by (simp add: unconditional_def has_conditional_def)

text \<open>The metadata and variant a lookup binds, up to the decision on freshness.\<close>

definition looked_up :: "requestContext \<Rightarrow> config \<Rightarrow> CacheMetadata \<Rightarrow> bool \<Rightarrow> VariantInfo \<Rightarrow> requestContext" where
  "looked_up ctx cfg m sp v =
     (let vk = generateVariantKey (cr ctx) (VaryHeaderNames m)
      in ctx\<lparr>primaryKey := generatePrimaryKey (cr ctx) (Some (cacheKey cfg)), cmeta := Some m, isSoftPurged := sp,
             variantKey := (if vk = [] then defaultVariantKey else vk), varInfo := Some v\<rparr>)"

lemma serve_from_lookup:
  assumes "plain_request r" and "\<not> respectClientCacheControl (tConfig t)"
    and "opGetMeta ops now (tStore t) (generatePrimaryKey r (Some (cacheKey (tConfig t)))) = Inr (Some m, sp)"
    and "map_of (Variants m) (if generateVariantKey r (VaryHeaderNames m) = [] then defaultVariantKey
           else generateVariantKey r (VaryHeaderNames m)) = Some v"
  shows "serve_from e ops CheckBypass (acquireRequestContext w r now) t =
     serve_from e ops EvaluateFreshness (looked_up (acquireRequestContext w r now) (tConfig t) m sp v) t"
proof -
  let ?c = "acquireRequestContext w r now"
  have 1: "step e ops CheckBypass ?c t = (Goto LookupMetadata, ?c, t)"
    using assms(1,2) by (simp add: step_simps stateCheckBypass_plain)
  let ?c2 = "?c\<lparr>primaryKey := generatePrimaryKey r (Some (cacheKey (tConfig t))), cmeta := Some m, isSoftPurged := sp\<rparr>"
  have 2: "step e ops LookupMetadata ?c t = (Goto MatchVariant, ?c2, t)"
    using assms(3) by (simp add: step_simps stateLookupMetadata_def Let_def)
  have 3: "step e ops MatchVariant ?c2 t = (Goto EvaluateFreshness, looked_up ?c (tConfig t) m sp v, t)"
    using assms(4) by (simp add: step_simps stateMatchVariant_def Let_def looked_up_def)
  show ?thesis by (simp only: serve_from_Goto [OF 1] serve_from_Goto [OF 2] serve_from_Goto [OF 3])
qed

lemma ServeHTTP_Done:
  "serve_from e ops CheckBypass (acquireRequestContext w r now) t = (Done, ctx, t') \<Longrightarrow>
     ServeHTTP e ops now t w r = (Some (cw ctx), cNow ctx, t')"
  by (simp add: ServeHTTP_def)

section \<open>Storing and loading\<close>

text \<open>
  The codec the instance is configured with is registered under the name it reports and keeps
  its contract, and the identity is registered.
\<close>

definition codecs_ok :: "config \<Rightarrow> bool" where
  "codecs_ok cfg \<longleftrightarrow> (\<exists>c. map_of (compressors cfg) (storageCompression cfg) = Some c \<and> codec c \<and>
       cName c = storageCompression cfg \<and> cName c \<noteq> []) \<and>
     map_of (compressors cfg) StorageCompressionNone = Some noneCompressor"

lemma encode_body_decodes:
  assumes "codecs_ok cfg" and "encode_body cfg h b = (z, name)" and "b \<noteq> []"
  shows "z \<noteq> [] \<and> name \<noteq> [] \<and> (\<exists>c. map_of (compressors cfg) name = Some c \<and> Decompress c z = Some b)"
proof -
  obtain c where c: "map_of (compressors cfg) (storageCompression cfg) = Some c" "codec c"
      "cName c = storageCompression cfg" "cName c \<noteq> []"
    and none: "map_of (compressors cfg) StorageCompressionNone = Some noneCompressor"
    using assms(1) by (auto simp: codecs_ok_def)
  let ?c = "resolveCompressor (Some c) h (length b)"
  have ok: "codec ?c" by (rule resolveCompressor_codec [OF c(2)])
  have reg: "cName ?c \<noteq> [] \<and> map_of (compressors cfg) (cName ?c) = Some ?c"
    using c none by (auto simp: resolveCompressor_def noneCompressor_def)
  show ?thesis
  proof (cases "Compress ?c b")
    case None
    then show ?thesis
      using assms(2,3) c(1) none by (auto simp: encode_body_def Let_def noneCompressor_def)
  next
    case (Some y)
    then show ?thesis
      using assms(2,3) c(1) reg codec.round_trip [OF ok Some] codec.not_empty [OF ok Some] by (auto simp: encode_body_def Let_def)
  qed
qed

lemma new_variant_key_not_Nil: "new_variant_key r vk ns \<noteq> []"
  by (simp add: new_variant_key_def defaultVariantKey_def Let_def)

lemma keyed_new_variant: "keyed (new_variant env cfg vk code r h b fs) = new_variant env cfg vk code r h b fs"
  by (simp add: keyed_def new_variant_def variant_key_def new_variant_key_not_Nil)

lemma new_variant_simps [simp]:
  "VariantKey (new_variant env cfg vk code r h b fs) = new_variant_key r vk (extractVaryHeaderNames h)"
  "StatusCode (new_variant env cfg vk code r h b fs) = wrap32 code"
  "RawBodySize (new_variant env cfg vk code r h b fs) = int (length b)"
  "EsiFragments (new_variant env cfg vk code r h b fs) = fs"
  "StorageCompression (new_variant env cfg vk code r h b fs) = snd (encode_body cfg h b)"
  "ResponseHeaders (new_variant env cfg vk code r h b fs) = protoHeadersFromHTTP h"
  "Etag (new_variant env cfg vk code r h b fs) = Get h headerETag"
  by (simp_all add: new_variant_def)

lemma new_meta_simps [simp]:
  "VaryHeaderNames (new_meta cfg pk h f resp) = extractVaryHeaderNames h"
  "ExpiresAtUnixNano (new_meta cfg pk h f resp) = UnixNano (tadd resp (EffectiveTTL f))"
  by (simp_all add: new_meta_def Let_def)

lemma saveVariantToStorage_simps [simp]:
  "tConfig (saveVariantToStorage env ops pk vk code r h b fs f resp t) = tConfig t"
  "esiProcessor (saveVariantToStorage env ops pk vk code r h b fs f resp t) = esiProcessor t"
  "tClosed (saveVariantToStorage env ops pk vk code r h b fs f resp t) = tClosed t"
  "tPending (saveVariantToStorage env ops pk vk code r h b fs f resp t) = tPending t"
  by (simp_all add: saveVariantToStorage_def)

text \<open>The time to live in the storage covers the freshness of the entry.\<close>

lemma stale_ttl_range:
  assumes "\<And>d. ds = Some d \<Longrightarrow> sel d < 2 ^ 31"
  shows "0 \<le> stale_ttl sel ds \<and> stale_ttl sel ds < 2 ^ 62"
proof (cases ds)
  case (Some d)
  have "dmul (sel d) Second = sel d * 1000000000" if "0 < sel d"
    using that assms [OF Some] dmul_Second [of "sel d"] by (simp add: Second_def)
  with assms [OF Some] Some show ?thesis by (auto simp: stale_ttl_def)
qed (simp add: stale_ttl_def)

lemma storage_ttl_ge:
  assumes "env_ok env" and f: "f = calculateFreshness env rn st rq rs t0 t1 t2"
  shows "EffectiveTTL f \<le> storage_ttl f"
proof -
  let ?w = "max (StaleWhileRevalidateTTL f) (StaleIfErrorTTL f)"
  have e: "0 \<le> EffectiveTTL f" "EffectiveTTL f \<le> 31536000000000000"
    by (simp_all add: effective_ttl_eq [OF f] maxCacheTTL_val)
  have ok: "directives_ok d" if "Directives f = Some d" for d
    using assms(1) that by (auto simp: f calculateFreshness_def Let_def env_ok_def split: if_splits)
  have "0 \<le> stale_ttl StaleWhileRevalidate (Directives f) \<and> stale_ttl StaleWhileRevalidate (Directives f) < 2 ^ 62"
    and "0 \<le> stale_ttl StaleIfError (Directives f) \<and> stale_ttl StaleIfError (Directives f) < 2 ^ 62"
    using ok by (intro stale_ttl_range; force simp: directives_ok_def)+
  moreover have "StaleWhileRevalidateTTL f = stale_ttl StaleWhileRevalidate (Directives f)"
    "StaleIfErrorTTL f = stale_ttl StaleIfError (Directives f)"
    by (simp_all add: f calculateFreshness_def Let_def)
  ultimately have "0 \<le> ?w" "?w < 2 ^ 62" by auto
  then have "dadd (EffectiveTTL f) ?w = EffectiveTTL f + ?w"
    unfolding dadd_def using e by (intro wrap64_id) auto
  then show ?thesis using \<open>0 \<le> ?w\<close> by (simp add: storage_ttl_def Let_def)
qed

section \<open>Hits\<close>

lemma hit_steps:
  assumes "plain_request r" and "\<not> respectClientCacheControl (tConfig t)"
    and "opGetMeta ops now (tStore t) (generatePrimaryKey r (Some (cacheKey (tConfig t)))) = Inr (Some m, False)"
    and "map_of (Variants m) vk = Some v"
    and "vk = (if generateVariantKey r (VaryHeaderNames m) = [] then defaultVariantKey else generateVariantKey r (VaryHeaderNames m))"
    and "UnixNano now \<le> ExpiresAtUnixNano m"
    and "esiProcessor t = None" and "evaluatePreconditions (genv e) r v = None"
  shows "serve_from e ops CheckBypass (acquireRequestContext w r now) t =
    serve_from e ops ServeCachedHit ((looked_up (acquireRequestContext w r now) (tConfig t) m False v)\<lparr>nowNano := UnixNano now\<rparr>) t"
proof -
  let ?c = "looked_up (acquireRequestContext w r now) (tConfig t) m False v"
  have "step e ops EvaluateFreshness ?c t = (Goto ServeCachedHit, ?c\<lparr>nowNano := UnixNano now\<rparr>, t)"
    using assms(6-8) by (simp add: step_simps stateEvaluateFreshness_def looked_up_def Let_def)
  then show ?thesis
    using serve_from_lookup [OF assms(1-3) assms(4) [unfolded assms(5)], of e w] by (simp add: serve_from_Goto)
qed

text \<open>The context after a hit, without ESI; it does not depend on the environment.\<close>

definition after_hit :: "config \<Rightarrow> CacheMetadata \<Rightarrow> VariantInfo \<Rightarrow> bytes \<Rightarrow> requestContext \<Rightarrow> requestContext" where
  "after_hit cfg m v b ctx =
     (if RawBodySize v = 0 then
        write_status (StatusCode v) (copyProtoHeaders (ResponseHeaders v)
          (emitCacheStatus cfg ''HIT'' (hit_detail m (nowNano ctx)) ctx))
      else
        on_writer (\<lambda>w. Write w b) (write_status (StatusCode v)
          (emitCacheStatus cfg ''HIT'' (hit_detail m (nowNano ctx))
            (set_age (Some m) (nowNano ctx) (copyProtoHeaders (ResponseHeaders v) ctx)))))"

lemma after_hit_writer:
  assumes "wCode (cw ctx) = None" and "wBody (cw ctx) = []" and "RawBodySize v = int (length b)"
  shows "wCode (cw (after_hit cfg m v b ctx)) = Some (StatusCode v) \<and> wBody (cw (after_hit cfg m v b ctx)) = b \<and>
    cNow (after_hit cfg m v b ctx) = cNow ctx"
  using assms
  by (simp add: after_hit_def write_status_def copyProtoHeaders_def set_age_def WriteHeader_fresh Write_after)

lemma serve_hit:
  assumes "cmeta ctx = Some m" and "varInfo ctx = Some v" and "esiProcessor t = None" and "Method (cr ctx) = ''GET''"
    and "RawBodySize v \<noteq> 0 \<Longrightarrow> loadDecompressed ops (cNow ctx) (primaryKey ctx) (variantKey ctx) t = (Some (v, b), t)"
  shows "serve_from e ops ServeCachedHit ctx t = (Done, after_hit (tConfig t) m v b ctx, t)"
  using assms
  by (intro serve_from_Done)
    (auto simp: step_simps stateServeCachedHit_def stop_def adjustESIHeaders_def has_esi_def after_hit_def Let_def)

section \<open>A miss, and the hit that follows\<close>

lemma miss_steps:
  assumes "plain_request r" and "\<not> respectClientCacheControl (tConfig t)"
    and "opGetMeta ops now (tStore t) (generatePrimaryKey r (Some (cacheKey (tConfig t)))) = Inr (None, sp)"
  shows "serve_from e ops CheckBypass (acquireRequestContext w r now) t =
    serve_from e ops FetchOriginMiss ((acquireRequestContext w r now)
      \<lparr>primaryKey := generatePrimaryKey r (Some (cacheKey (tConfig t))), isSoftPurged := sp\<rparr>) t"
proof -
  let ?c = "acquireRequestContext w r now"
  have 1: "step e ops CheckBypass ?c t = (Goto LookupMetadata, ?c, t)"
    using assms(1,2) by (simp add: step_simps stateCheckBypass_plain)
  have 2: "step e ops LookupMetadata ?c t = (Goto FetchOriginMiss, ?c\<lparr>primaryKey := generatePrimaryKey r (Some (cacheKey (tConfig t))), isSoftPurged := sp\<rparr>, t)"
    using assms(3) by (simp add: step_simps stateLookupMetadata_def only_if_cached_def acquireRequestContext_def Let_def)
  show ?thesis by (simp only: serve_from_Goto [OF 1] serve_from_Goto [OF 2])
qed

lemma serve_miss_writer:
  assumes "wCode (cw ctx) = None" and "wBody (cw ctx) = []" and "Method (cr ctx) = ''GET''" and "\<not> has_conditional (cr ctx)"
  shows "wCode (cw (serve_miss e t code h b [] f sc ctx)) = Some code \<and> wBody (cw (serve_miss e t code h b [] f sc ctx)) = b"
  using assms by (simp add: serve_miss_def write_status_def write_body_def WriteHeader_fresh Write_after Let_def)

lemma miss_stores:
  assumes "esiProcessor t = None" and "Method (cr ctx) = ''GET''" and "\<not> has_conditional (cr ctx)"
    and "next_handler e (cr ctx) new_writer (cNow ctx) = (Some rec, resp)" and "\<not> tClosed t"
    and "f = calculateFreshness (genv e) resp (rec_Code rec) (rHeader (cr ctx)) (wHeader rec) (cNow ctx) resp resp"
    and "IsCacheable f" and "Values (wHeader rec) headerSetCookie = []"
    and "wCode (cw ctx) = None" and "wBody (cw ctx) = []"
  shows "\<exists>ctx'. serve_from e ops FetchOriginMiss ctx t = (Done, ctx',
      saveVariantToStorage (genv e) ops (primaryKey ctx) (variantKey ctx) (rec_Code rec) (cr ctx) (wHeader rec) (wBody rec) [] f resp t)
    \<and> wCode (cw ctx') = Some (rec_Code rec) \<and> wBody (cw ctx') = wBody rec \<and> cNow ctx' = resp"
proof -
  have c: "isResponseCacheable (genv e) resp (rec_Code rec) (rHeader (cr ctx)) (wHeader rec) (Directives f)"
    using assms(7) by (simp add: assms(6) calculateFreshness_def Let_def)
  then have sse: "\<not> Contains (ToLower (Get (wHeader rec) headerContentType)) contentTypeEventStream"
    by (auto simp: isResponseCacheable_def split: if_splits)
  have req: "miss_request t (cr ctx) = cr ctx"
    using assms(1-3) by (simp add: miss_request_def origin_request_def)
  let ?sc = "serve_miss e t (rec_Code rec) (wHeader rec) (wBody rec) [] f True (ctx\<lparr>cNow := resp\<rparr>)"
  have "step e ops FetchOriginMiss ctx t = (Done, ?sc,
      saveVariantToStorage (genv e) ops (primaryKey ctx) (variantKey ctx) (rec_Code rec) (cr ctx) (wHeader rec) (wBody rec) [] f resp t)"
    using assms(1,2,4,5,7,8) sse
    by (simp add: step_simps stateFetchOriginMiss_def stop_def req inspectAndPrepareESI_def may_store_def Let_def flip: assms(6))
  moreover have "cNow ?sc = resp" by (simp add: serve_miss_def write_status_def write_body_def Let_def)
  moreover have "wCode (cw ?sc) = Some (rec_Code rec) \<and> wBody (cw ?sc) = wBody rec"
    using assms(2,3,9,10) by (intro serve_miss_writer) simp_all
  ultimately show ?thesis by (auto dest: serve_from_Done)
qed

lemma ServeHTTP_miss:
  assumes "esiProcessor t = None" "\<not> tClosed t" "\<not> respectClientCacheControl (tConfig t)"
    and req: "plain_request r" "Method r = ''GET''" "unconditional r"
    and miss: "opGetMeta ops now (tStore t) (generatePrimaryKey r (Some (cacheKey (tConfig t)))) = Inr (None, sp)"
    and origin: "next_handler e r new_writer now = (Some rec, resp)" "Values (wHeader rec) headerSetCookie = []"
    and f: "f = calculateFreshness (genv e) resp (rec_Code rec) (rHeader r) (wHeader rec) now resp resp" "IsCacheable f"
  shows "\<exists>w1. ServeHTTP e ops now t new_writer r = (Some w1, resp,
      saveVariantToStorage (genv e) ops (generatePrimaryKey r (Some (cacheKey (tConfig t)))) [] (rec_Code rec) r
        (wHeader rec) (wBody rec) [] f resp t) \<and> wCode w1 = Some (rec_Code rec) \<and> wBody w1 = wBody rec"
proof -
  let ?pk = "generatePrimaryKey r (Some (cacheKey (tConfig t)))"
  let ?c = "(acquireRequestContext new_writer r now)\<lparr>primaryKey := ?pk, isSoftPurged := sp\<rparr>"
  have "\<exists>ctx. serve_from e ops FetchOriginMiss ?c t = (Done, ctx,
      saveVariantToStorage (genv e) ops ?pk [] (rec_Code rec) r (wHeader rec) (wBody rec) [] f resp t) \<and>
      wCode (cw ctx) = Some (rec_Code rec) \<and> wBody (cw ctx) = wBody rec \<and> cNow ctx = resp"
    using miss_stores [of t ?c e rec resp f ops] assms unconditional_no_conditional [OF req(3)] by simp
  then obtain ctx where c: "serve_from e ops FetchOriginMiss ?c t = (Done, ctx,
        saveVariantToStorage (genv e) ops ?pk [] (rec_Code rec) r (wHeader rec) (wBody rec) [] f resp t)"
      "wCode (cw ctx) = Some (rec_Code rec)" "wBody (cw ctx) = wBody rec" "cNow ctx = resp" by blast
  have "serve_from e ops CheckBypass (acquireRequestContext new_writer r now) t = (Done, ctx,
      saveVariantToStorage (genv e) ops ?pk [] (rec_Code rec) r (wHeader rec) (wBody rec) [] f resp t)"
    using miss_steps [of r t ops now sp e new_writer] assms c(1) by simp
  then show ?thesis using c by (simp add: ServeHTTP_Done)
qed

text \<open>What a backend that keeps its contract gives back of a stored response.\<close>

context storage_contract
begin

lemma saved_lookup:
  assumes "up (tStore t)" and "fits pk (new_meta (tConfig t) pk h f resp) (new_variant env (tConfig t) vk code r h b fs)"
    and "resp \<le> now" and "now < tadd resp (life (storage_ttl f))"
    and t': "t' = saveVariantToStorage env ops pk vk code r h b fs f resp t"
  shows "(\<exists>vs. opGetMeta ops now (tStore t') pk = Inr (Some ((new_meta (tConfig t) pk h f resp)\<lparr>Variants := vs\<rparr>), False) \<and>
      map_of vs (new_variant_key r vk (extractVaryHeaderNames h)) = Some (new_variant env (tConfig t) vk code r h b fs)) \<and>
    opGetVariant ops now (tStore t') pk (new_variant_key r vk (extractVaryHeaderNames h)) =
      Inr (Some (Some (new_variant env (tConfig t) vk code r h b fs), fst (encode_body (tConfig t) h b))) \<and> up (tStore t')"
proof -
  let ?m = "new_meta (tConfig t) pk h f resp" and ?v = "new_variant env (tConfig t) vk code r h b fs"
  let ?z = "fst (encode_body (tConfig t) h b)" and ?vk = "new_variant_key r vk (extractVaryHeaderNames h)"
  obtain s' where s': "opSetVariant ops resp (tStore t) pk (Some ?m) (Some ?v) ?z (storage_ttl f) = (None, s')" "up s'"
    using set_up [OF assms(1,2)] by blast
  then have st: "tStore t' = s'" by (simp add: t' saveVariantToStorage_def)
  have vk: "variant_key ?vk = ?vk" by (simp add: variant_key_def new_variant_key_not_Nil)
  have "\<exists>vs. opGetMeta ops now s' pk = Inr (Some (?m\<lparr>Variants := vs\<rparr>), False) \<and> map_of vs ?vk = Some ?v"
    using get_meta_set [OF assms(1,2) s'(1) assms(3,4)] vk by (simp add: keyed_new_variant)
  moreover have "opGetVariant ops now s' pk ?vk = Inr (Some (Some ?v, ?z))"
    using get_variant_set [OF assms(1,2) s'(1) assms(3,4), of ?vk] by (simp add: keyed_new_variant)
  ultimately show ?thesis using st s'(2) by blast
qed

lemma saved_load:
  assumes "up (tStore t)" and "fits pk (new_meta (tConfig t) pk h f resp) (new_variant env (tConfig t) vk code r h b fs)"
    and "resp \<le> now" and "now < tadd resp (life (storage_ttl f))" and "codecs_ok (tConfig t)" and "b \<noteq> []"
    and t': "t' = saveVariantToStorage env ops pk vk code r h b fs f resp t"
  shows "loadDecompressed ops now pk (new_variant_key r vk (extractVaryHeaderNames h)) t' =
     (Some (new_variant env (tConfig t) vk code r h b fs, b), t')"
proof -
  obtain z name where zn: "encode_body (tConfig t) h b = (z, name)" by (cases "encode_body (tConfig t) h b")
  from encode_body_decodes [OF assms(5) zn assms(6)] obtain c where
    "z \<noteq> []" "name \<noteq> []" "map_of (compressors (tConfig t)) name = Some c" "Decompress c z = Some b" by blast
  with saved_lookup [OF assms(1-4) t'] zn assms(6) show ?thesis
    by (simp add: loadDecompressed_def codec_name_def t')
qed

lemma hit_after_save:
  assumes "up (tStore t)" and fit: "fits (generatePrimaryKey r (Some (cacheKey (tConfig t))))
      (new_meta (tConfig t) (generatePrimaryKey r (Some (cacheKey (tConfig t)))) h f resp) (new_variant env (tConfig t) [] code r h b [])"
    and "resp \<le> now" and "now < tadd resp (life (storage_ttl f))" and "codecs_ok (tConfig t)"
    and "UnixNano now \<le> UnixNano (tadd resp (EffectiveTTL f))"
    and cfg: "esiProcessor t = None" "\<not> respectClientCacheControl (tConfig t)"
    and req: "plain_request r" "Method r = ''GET''" "unconditional r"
    and t': "t' = saveVariantToStorage env ops (generatePrimaryKey r (Some (cacheKey (tConfig t)))) [] code r h b [] f resp t"
  shows "\<exists>w. (\<forall>e. ServeHTTP e ops now t' new_writer r = (Some w, now, t')) \<and> wCode w = Some (wrap32 code) \<and> wBody w = b"
proof -
  let ?pk = "generatePrimaryKey r (Some (cacheKey (tConfig t)))" and ?v = "new_variant env (tConfig t) [] code r h b []"
  let ?vk = "new_variant_key r [] (extractVaryHeaderNames h)"
  note look = saved_lookup [OF assms(1-4) t']
  then obtain vs where m: "opGetMeta ops now (tStore t') ?pk = Inr (Some ((new_meta (tConfig t) ?pk h f resp)\<lparr>Variants := vs\<rparr>), False)"
    and v: "map_of vs ?vk = Some ?v" by blast
  let ?m = "(new_meta (tConfig t) ?pk h f resp)\<lparr>Variants := vs\<rparr>"
  have cfg': "tConfig t' = tConfig t" "esiProcessor t' = None" using cfg by (simp_all add: t')
  have vk: "?vk = (if generateVariantKey r (VaryHeaderNames ?m) = [] then defaultVariantKey else generateVariantKey r (VaryHeaderNames ?m))"
    by (simp add: new_variant_key_def Let_def)
  let ?c = "(looked_up (acquireRequestContext new_writer r now) (tConfig t) ?m False ?v)\<lparr>nowNano := UnixNano now\<rparr>"
  let ?d = "after_hit (tConfig t) ?m ?v b ?c"
  have keys: "primaryKey ?c = ?pk" "variantKey ?c = ?vk" "cNow ?c = now" "cr ?c = r"
    using vk by (simp_all add: looked_up_def Let_def)
  have run: "serve_from e ops CheckBypass (acquireRequestContext new_writer r now) t' = (Done, ?d, t')" for e
  proof -
    have "serve_from e ops CheckBypass (acquireRequestContext new_writer r now) t' = serve_from e ops ServeCachedHit ?c t'"
      using hit_steps [of r t' ops now ?m ?vk ?v e new_writer] m v vk req cfg assms(6) unconditional_proceeds [OF req(3)]
      by (simp add: cfg' evaluatePreconditions_def)
    also have "\<dots> = (Done, ?d, t')"
      using serve_hit [of ?c ?m ?v t' ops b e] saved_load [OF assms(1-5) _ t'] req(2) keys cfg'
      by (auto simp: looked_up_def Let_def)
    finally show ?thesis .
  qed
  have "wCode (cw ?d) = Some (wrap32 code) \<and> wBody (cw ?d) = b \<and> cNow ?d = now"
    using after_hit_writer [of ?c ?v b "tConfig t" ?m] by (simp add: looked_up_def Let_def)
  with ServeHTTP_Done [OF run] show ?thesis by auto
qed

lemma fetch_then_hit:
  assumes "up (tStore t)" and "codecs_ok (tConfig t)" and "esiProcessor t = None" "\<not> tClosed t" "\<not> respectClientCacheControl (tConfig t)"
    and req: "plain_request r" "Method r = ''GET''" "unconditional r"
    and miss: "opGetMeta ops now (tStore t) (generatePrimaryKey r (Some (cacheKey (tConfig t)))) = Inr (None, sp)"
    and origin: "next_handler e r new_writer now = (Some rec, resp)" "Values (wHeader rec) headerSetCookie = []"
    and f: "f = calculateFreshness (genv e) resp (rec_Code rec) (rHeader r) (wHeader rec) now resp resp" "IsCacheable f"
    and fit: "fits (generatePrimaryKey r (Some (cacheKey (tConfig t))))
      (new_meta (tConfig t) (generatePrimaryKey r (Some (cacheKey (tConfig t)))) (wHeader rec) f resp)
      (new_variant (genv e) (tConfig t) [] (rec_Code rec) r (wHeader rec) (wBody rec) [])"
    and time: "resp \<le> later" "later < tadd resp (life (storage_ttl f))" "UnixNano later \<le> UnixNano (tadd resp (EffectiveTTL f))"
  shows "\<exists>w1 t1 w2. ServeHTTP e ops now t new_writer r = (Some w1, resp, t1) \<and>
    wCode w1 = Some (rec_Code rec) \<and> wBody w1 = wBody rec \<and>
    (\<forall>e'. ServeHTTP e' ops later t1 new_writer r = (Some w2, later, t1)) \<and>
    wCode w2 = Some (wrap32 (rec_Code rec)) \<and> wBody w2 = wBody rec"
proof -
  let ?t = "saveVariantToStorage (genv e) ops (generatePrimaryKey r (Some (cacheKey (tConfig t)))) [] (rec_Code rec) r
    (wHeader rec) (wBody rec) [] f resp t"
  have "\<exists>w1. ServeHTTP e ops now t new_writer r = (Some w1, resp, ?t) \<and> wCode w1 = Some (rec_Code rec) \<and> wBody w1 = wBody rec"
    by (rule ServeHTTP_miss [OF assms(3-5) req miss origin f])
  moreover have "\<exists>w. (\<forall>e'. ServeHTTP e' ops later ?t new_writer r = (Some w, later, ?t)) \<and>
      wCode w = Some (wrap32 (rec_Code rec)) \<and> wBody w = wBody rec"
    by (rule hit_after_save [OF assms(1) fit time(1,2) assms(2) time(3) assms(3,5) req refl])
  ultimately show ?thesis by blast
qed

end

section \<open>Concrete instances\<close>

text \<open>An instance on the in-memory backend, and an origin that always gives the same answer.\<close>

definition demo_config :: config where
  "demo_config = default_config (lz4Compressor Some Some) (zstdCompressor Some Some)"

definition demo_titip :: "Store Titip" where
  "demo_titip = \<lparr>tConfig = demo_config, tStore = NewStore, tClosed = False, tPending = [], esiProcessor = None\<rparr>"

definition demo_response :: "int \<Rightarrow> Header \<Rightarrow> bytes \<Rightarrow> writer" where
  "demo_response code h b = Write (WriteHeader (upd_header (\<lambda>_. h) new_writer) code) b"

definition demo_henv :: "handler \<Rightarrow> henv" where
  "demo_henv origin = \<lparr>genv = demo_env, next_handler = origin, esiFetch = (\<lambda>_ _. None), esiAltInTime = (\<lambda>_. True),
     esiContext = None, esiDuration = [], joined = None, othersJoined = False\<rparr>"

definition demo_origin :: "int \<Rightarrow> Header \<Rightarrow> bytes \<Rightarrow> handler" where
  "demo_origin code h b r w now = (Some (demo_response code h b), now + 5)"

lemma demo_titip_simps [simp]:
  "tConfig demo_titip = demo_config" "tStore demo_titip = NewStore" "\<not> tClosed demo_titip" "esiProcessor demo_titip = None"
  "tPending demo_titip = []" "\<not> respectClientCacheControl demo_config" "cacheKey demo_config = zero_CacheKey"
  "cacheStatusMode demo_config = CacheStatusSimple"
  by (simp_all add: demo_titip_def demo_config_def default_config_def)

lemma demo_codecs: "codecs_ok demo_config"
proof -
  have "codec (lz4Compressor Some Some)" by unfold_locales (simp_all add: lz4Compressor_def)
  then show ?thesis by (simp add: codecs_ok_def demo_config_def default_config_def lz4Compressor_def noneCompressor_def)
qed

definition demo_get :: Request where
  "demo_get = demo_request ''a.org'' ''/x'' [] []"

lemma demo_get_plain: "plain_request demo_get" "Method demo_get = ''GET''" "unconditional demo_get"
  by code_simp+

abbreviation demo_fresh :: Header where
  "demo_fresh \<equiv> [(''Cache-Control'', [''max-age=60''])]"

lemma demo_response_simps [simp]:
  "rec_Code (demo_response code h b) = code" "wHeader (demo_response code h b) = h" "wBody (demo_response code h b) = b"
  by (simp_all add: demo_response_def rec_Code_def WriteHeader_fresh Write_after)

lemma demo_henv_simps [simp]:
  "genv (demo_henv o1) = demo_env" "next_handler (demo_henv o1) = o1" "joined (demo_henv o1) = None" "\<not> othersJoined (demo_henv o1)"
  by (simp_all add: demo_henv_def)

definition demo_freshness :: freshnessInfo where
  "demo_freshness = calculateFreshness demo_env 105 200 [] demo_fresh 100 105 105"

lemma demo_freshness_vals:
  "IsCacheable demo_freshness" "EffectiveTTL demo_freshness = 59999999995"
  by code_simp+

lemma demo_NewStore_miss: "GetMeta now NewStore k = Inr (None, False)"
  by (simp add: NewStore_def GetMeta_def)

definition demo_saved :: "Store Titip" where
  "demo_saved = saveVariantToStorage demo_env teststore (generatePrimaryKey demo_get (Some zero_CacheKey)) [] 200 demo_get
     demo_fresh ''hello'' [] demo_freshness 105 demo_titip"

lemma demo_no_cookie: "Values demo_fresh headerSetCookie = []"
  by code_simp

lemma demo_miss:
  "\<exists>w. ServeHTTP (demo_henv (demo_origin 200 demo_fresh ''hello'')) teststore 100 demo_titip new_writer demo_get = (Some w, 105, demo_saved)"
proof -
  let ?e = "demo_henv (demo_origin 200 demo_fresh ''hello'')" and ?rec = "demo_response 200 demo_fresh ''hello''"
  have o1: "next_handler ?e demo_get new_writer 100 = (Some ?rec, 105)" by (simp add: demo_origin_def)
  have f: "demo_freshness = calculateFreshness (genv ?e) 105 (rec_Code ?rec) (rHeader demo_get) (wHeader ?rec) 100 105 105"
    by (simp add: demo_freshness_def demo_get_def demo_request_def)
  show ?thesis
    using ServeHTTP_miss [OF _ _ _ demo_get_plain _ o1 _ f demo_freshness_vals(1), of demo_titip teststore False]
    by (auto simp: demo_no_cookie teststore_def demo_NewStore_miss demo_saved_def)
qed

lemma demo_saved_variant:
  "GetVariant 200 (tStore demo_saved) (generatePrimaryKey demo_get (Some zero_CacheKey)) ''default'' =
     Inr (Some (Some (new_variant demo_env demo_config [] 200 demo_get demo_fresh ''hello'' []), ''hello''))"
  by code_simp

text \<open>
  Property C1. A miss is stored and the next request is a hit: when the origin's answer to a
  plain GET may be stored, the client gets its status and body, and every request for the
  same until the entry expires gets the same status (stored as an \<^verbatim>\<open>int32\<close>) and body from the storage alone,
  whatever the origin, which is not asked, would answer by then, and changes nothing.
\<close>

theorem miss_then_hit:
  assumes "usable (tStore t)" "codecs_ok (tConfig t)" "esiProcessor t = None" "\<not> tClosed t" "\<not> respectClientCacheControl (tConfig t)"
    and req: "plain_request r" "Method r = ''GET''" "unconditional r"
    and miss: "GetMeta now (tStore t) (generatePrimaryKey r (Some (cacheKey (tConfig t)))) = Inr (None, sp)"
    and origin: "next_handler e r new_writer now = (Some rec, resp)" "Values (wHeader rec) headerSetCookie = []"
    and f: "env_ok (genv e)" "f = calculateFreshness (genv e) resp (rec_Code rec) (rHeader r) (wHeader rec) now resp resp" "IsCacheable f"
    and time: "0 \<le> resp" "resp \<le> later" "later < tadd resp (EffectiveTTL f)" "tadd resp (EffectiveTTL f) < 2 ^ 63"
  shows "\<exists>w1 t1 w2. ServeHTTP e teststore now t new_writer r = (Some w1, resp, t1) \<and>
    wCode w1 = Some (rec_Code rec) \<and> wBody w1 = wBody rec \<and>
    (\<forall>e'. ServeHTTP e' teststore later t1 new_writer r = (Some w2, later, t1)) \<and>
    wCode w2 = Some (wrap32 (rec_Code rec)) \<and> wBody w2 = wBody rec"
proof -
  have "later < tadd resp (storage_ttl f)" using time(3) storage_ttl_ge [OF f(1,2)] by (simp add: tadd_def)
  moreover have "UnixNano later \<le> UnixNano (tadd resp (EffectiveTTL f))"
    using time by (simp add: UnixNano_def wrap64_id)
  ultimately show ?thesis
    using miss by (intro ts.fetch_then_hit [OF assms(1-5) req _ origin f(2,3) TrueI time(2)]) (simp_all add: teststore_def)
qed

lemma miss_then_hit_witness:
  "\<exists>w1 t1 w2. ServeHTTP (demo_henv (demo_origin 200 demo_fresh ''hello'')) teststore 100 demo_titip new_writer demo_get = (Some w1, 105, t1) \<and>
    ServeHTTP (demo_henv (demo_origin 500 [] [])) teststore 200 t1 new_writer demo_get = (Some w2, 200, t1) \<and>
    wCode w2 = Some 200 \<and> wBody w2 = ''hello''"
proof -
  let ?e = "demo_henv (demo_origin 200 demo_fresh ''hello'')" and ?rec = "demo_response 200 demo_fresh ''hello''"
  have o1: "next_handler ?e demo_get new_writer 100 = (Some ?rec, 105)" by (simp add: demo_origin_def)
  have "Values demo_fresh headerSetCookie = []" by code_simp
  then have o2: "Values (wHeader ?rec) headerSetCookie = []" by simp
  have f: "demo_freshness = calculateFreshness (genv ?e) 105 (rec_Code ?rec) (rHeader demo_get) (wHeader ?rec) 100 105 105"
    by (simp add: demo_freshness_def demo_get_def demo_request_def)
  show ?thesis
    using miss_then_hit [OF _ _ _ _ _ demo_get_plain _ o1 o2 _ f demo_freshness_vals(1), of demo_titip False 200]
    by (simp add: demo_codecs demo_NewStore_miss demo_env_ok demo_freshness_vals tadd_def) blast
qed

end
