(* ===== verification/HandlerInv.thy ===== *)
theory HandlerInv
  imports HandlerFacts
begin

text \<open>
  What the storage never holds: the header of a stored response has neither cookies nor
  hop-by-hop fields, in every state that an instance can reach.
\<close>

section \<open>Clean headers\<close>

definition clean_field :: "bytes \<Rightarrow> bool" where
  "clean_field k \<longleftrightarrow> \<not> isHopByHopHeader k \<and> CanonicalHeaderKey k \<noteq> ''Set-Cookie''"

definition clean_header :: "Header \<Rightarrow> bool" where
  "clean_header h \<longleftrightarrow> (\<forall>k \<in> fst ` set h. clean_field k)"

definition clean_variant :: "VariantInfo \<Rightarrow> bool" where
  "clean_variant v \<longleftrightarrow> clean_header (ResponseHeaders v)"

lemma isHopByHopHeader_canon [simp]: "isHopByHopHeader (CanonicalHeaderKey k) = isHopByHopHeader k"
  by (simp add: isHopByHopHeader_def)

lemma clean_protoHeaders: "clean_header (protoHeadersFromHTTP h)"
  by (auto simp: clean_header_def clean_field_def protoHeadersFromHTTP_def Let_def)

lemma clean_refreshing: "clean_header (refreshing h)"
  by (auto simp: clean_header_def clean_field_def refreshing_def)

lemma clean_update: "clean_header d \<Longrightarrow> clean_field k \<Longrightarrow> clean_header (AList.update k vv d)"
  by (simp add: clean_header_def keys_update)

lemma clean_foldl_update:
  "clean_header d \<Longrightarrow> clean_header h \<Longrightarrow> clean_header (foldl (\<lambda>d (k, vv). AList.update k vv d) d h)"
proof (induction h arbitrary: d)
  case (Cons p h)
  obtain k vv where "p = (k, vv)" by (cases p)
  with Cons.prems Cons.IH [of "AList.update k vv d"] show ?case
    by (simp add: clean_header_def keys_update)
qed simp

lemma clean_new_variant: "clean_variant (new_variant env cfg vk code r h b fs)"
  by (simp add: clean_variant_def clean_protoHeaders)

lemma clean_merge_304:
  assumes "merge_304 env h v = (merged, v')" and "clean_variant v"
  shows "clean_variant v'"
proof -
  have "ResponseHeaders v' = foldl (\<lambda>d (k, vv). AList.update k vv d) (ResponseHeaders v) (refreshing h)"
    using assms(1) by (auto simp: merge_304_def Let_def split: if_splits option.splits)
  then show ?thesis using assms(2) by (simp add: clean_variant_def clean_foldl_update clean_refreshing)
qed

section \<open>The invariant of the machine\<close>

lemma t_Purge_store:
  "tStore (snd (t_Purge env ops now t target soft)) = tStore t \<or>
   (\<exists>k. tStore (snd (t_Purge env ops now t target soft)) = snd (opPurge ops now (tStore t) k soft)) \<or>
   (\<exists>ks. tStore (snd (t_Purge env ops now t target soft)) = snd (purge_patterns ops now soft ks 0 (tStore t)))"
  by (auto simp: t_Purge_def Let_def split_beta simp del: purge_patterns.simps split: sum.splits list.splits)

text \<open>
  A backend with a property of its state that says, in particular, that lookups give clean
  variants, and that every operation keeps as long as only clean variants are written.
\<close>

lemma spawnSWR_store [simp]: "tStore (spawnSWR ctx t) = tStore t"
  by (simp add: spawnSWR_def)

locale clean_backend =
  fixes ops :: "'s Storage"
    and P :: "'s \<Rightarrow> bool"
  assumes P_set: "P s \<Longrightarrow> clean_variant v \<Longrightarrow> P (snd (opSetVariant ops now s k mo (Some v) b ttl))"
    and P_purge: "P s \<Longrightarrow> P (snd (opPurge ops now s k soft))"
    and P_pattern: "P s \<Longrightarrow> P (snd (opPurgeByPattern ops now s p soft))"
    and P_tag: "P s \<Longrightarrow> P (snd (opPurgeByTag ops now s tag soft))"
    and P_all: "P s \<Longrightarrow> P (snd (opPurgeAll ops now s))"
    and P_lookup: "P s \<Longrightarrow> opGetMeta ops now s k = Inr (Some m, sp) \<Longrightarrow> map_of (Variants m) vk = Some v \<Longrightarrow> clean_variant v"
begin

definition clean_ctx :: "requestContext \<Rightarrow> bool" where
  "clean_ctx ctx \<longleftrightarrow> (\<forall>m vk v. cmeta ctx = Some m \<longrightarrow> map_of (Variants m) vk = Some v \<longrightarrow> clean_variant v) \<and>
     (\<forall>v. varInfo ctx = Some v \<longrightarrow> clean_variant v)"

lemma P_save: "P (tStore t) \<Longrightarrow> P (tStore (saveVariantToStorage env ops pk vk code r h b fs f resp t))"
  by (simp add: saveVariantToStorage_def P_set clean_new_variant)

lemma P_load: "P (tStore t) \<Longrightarrow> P (tStore (snd (loadDecompressed ops now pk vk t)))"
  by (simp add: loadDecompressed_def P_purge Let_def split: option.splits sum.splits prod.splits)

lemma P_patterns: "P s \<Longrightarrow> P (snd (purge_patterns ops now soft ps acc s))"
proof (induction ps arbitrary: acc s)
  case (Cons p ps)
  have "P (snd (opPurgeByPattern ops now s p soft))" by (rule P_pattern [OF Cons.prems])
  with Cons.IH show ?case by (auto split: prod.splits sum.splits)
qed simp

lemma P_t_Purge: "P (tStore t) \<Longrightarrow> P (tStore (snd (t_Purge env ops now t target soft)))"
  using t_Purge_store [of env ops now t target soft] P_patterns P_purge by auto

lemma P_t_PurgePrefix: "P (tStore t) \<Longrightarrow> P (tStore (snd (t_PurgePrefix env ops now t target soft)))"
  using P_patterns by (auto simp: t_PurgePrefix_def split_beta Let_def split: sum.splits)

lemma P_purge_if: "P (tStore t) \<Longrightarrow> P (tStore (purge_if env ops now target t))"
  by (simp add: purge_if_def P_t_Purge)

lemma P_mutating:
  "P (tStore t) \<Longrightarrow> handleMutatingRequest e ops now w r t = (a, w', now', t') \<Longrightarrow> P (tStore t')"
  by (auto simp: handleMutatingRequest_def Let_def P_t_Purge P_purge_if split: if_splits prod.splits option.splits)

lemma P_async: "P (tStore t) \<Longrightarrow> P (tStore (revalidateOriginAsync e ops now task t))"
  by (auto simp: revalidateOriginAsync_def Let_def P_save split: prod.splits option.splits)

lemma P_run_swr: "P (tStore t) \<Longrightarrow> P (tStore (run_swr e ops now t))"
  by (auto simp: P_async split: list.splits)

lemma P_handle_304:
  assumes "P (tStore t)" and "clean_variant v" and "handle_304 e ops ctx t v sb h t0 t1 = (res, ctx', t')"
  shows "P (tStore t')"
  using assms clean_merge_304 [of "genv e" h v]
  by (auto simp: handle_304_def Let_def split: prod.splits if_splits intro: P_set)

lemma P_fetched:
  "P (tStore t) \<Longrightarrow> fetched_result e ops ctx t code h b t0 t1 = (res, ctx', t') \<Longrightarrow> P (tStore t')"
  by (auto simp: fetched_result_def Let_def P_save split: option.splits if_splits)

lemma P_flight:
  assumes "P (tStore t)" and "\<And>v. varInfo ctx = Some v \<Longrightarrow> clean_variant v"
    and "revalidate_flight e ops sb ctx t = (res, ctx', t')"
  shows "P (tStore t')"
  using assms P_handle_304 [OF assms(1)] P_fetched [OF assms(1)]
  by (auto simp: revalidate_flight_def Let_def split: option.splits prod.splits if_splits)

lemma P_load_eq: "loadDecompressed ops now pk vk t = (x, t') \<Longrightarrow> P (tStore t) \<Longrightarrow> P (tStore t')"
  using P_load [of t now pk vk] by simp

lemma step_clean:
  assumes "P (tStore t)" and "clean_ctx ctx" and "step e ops st ctx t = (out, ctx', t')"
  shows "P (tStore t') \<and> (\<forall>st'. out = Goto st' \<longrightarrow> clean_ctx ctx')"
proof (cases st)
  case CheckBypass
  then show ?thesis using assms P_mutating [OF assms(1)]
    by (auto simp: step_simps stateCheckBypass_def end_defs clean_ctx_def Let_def split: if_splits option.splits prod.splits)
next
  case LookupMetadata
  then show ?thesis using assms P_lookup [OF assms(1)]
    by (auto simp: step_simps stateLookupMetadata_def end_defs clean_ctx_def Let_def split: if_splits sum.splits prod.splits)
next
  case MatchVariant
  then show ?thesis using assms
    by (auto simp: step_simps stateMatchVariant_def end_defs clean_ctx_def Let_def split: if_splits option.splits)
next
  case EvaluateFreshness
  then show ?thesis using assms
    by (auto simp: step_simps stateEvaluateFreshness_def end_defs clean_ctx_def Let_def split: if_splits option.splits)
next
  case ServeCachedHit
  then show ?thesis using assms P_load_eq [OF _ assms(1)]
    by (auto simp: step_simps stateServeCachedHit_def end_defs Let_def split: if_splits option.splits prod.splits)
next
  case ServeSWR
  then show ?thesis using assms P_load_eq [OF _ assms(1)]
    by (auto simp: step_simps stateServeSWR_def end_defs Let_def split: if_splits option.splits prod.splits)
next
  case FetchOriginMiss
  then show ?thesis using assms
    by (auto simp: step_simps stateFetchOriginMiss_def end_defs Let_def P_save split: if_splits option.splits prod.splits)
next
  case FetchOriginRevalidate
  have v: "\<And>v. varInfo ctx = Some v \<Longrightarrow> clean_variant v" using assms(2) by (simp add: clean_ctx_def)
  show ?thesis
  proof (cases "joined e")
    case None
    obtain res c2 t2 where fl: "revalidate_flight e ops (stale_body ops ctx t) ctx t = (res, c2, t2)" by (metis prod_cases3)
    then have "P (tStore t2)" using P_flight [OF assms(1) v] by blast
    then show ?thesis
      using FetchOriginRevalidate assms(3) None fl
      by (auto simp: step_simps stateFetchOriginRevalidate_def end_defs split: option.splits)
  next
    case (Some res)
    then show ?thesis
      using FetchOriginRevalidate assms by (auto simp: step_simps stateFetchOriginRevalidate_def end_defs split: option.splits)
  qed
qed (use assms in \<open>auto simp: step_simps stateServe304_def stateServe412_def stateBypassOrigin_def end_defs
       split: option.splits prod.splits\<close>)

lemma serve_clean:
  "P (tStore t) \<Longrightarrow> clean_ctx ctx \<Longrightarrow> P (tStore (snd (snd (serve_from e ops st ctx t))))"
proof (induction "rank st" arbitrary: st ctx t rule: less_induct)
  case less
  obtain out ctx' t' where s: "step e ops st ctx t = (out, ctx', t')" by (metis prod_cases3)
  show ?case
  proof (cases out)
    case (Goto st')
    then show ?thesis
      using s step_clean [OF less(2,3) s] less(1) [of st' t' ctx'] step_rank [of e ops st ctx t st' ctx' t'] by (simp add: serve_from_Goto)
  qed (use s step_clean [OF less(2,3) s] in \<open>simp_all add: serve_from_Done serve_from_Crash\<close>)
qed

lemma ServeHTTP_clean:
  assumes "P (tStore t)" and "ServeHTTP e ops now t w r = (a, now', t')"
  shows "P (tStore t')"
  using assms serve_clean [OF assms(1), of "acquireRequestContext w r now" e CheckBypass]
  by (auto simp: ServeHTTP_def clean_ctx_def split: prod.splits outcome.splits)

end

section \<open>The in-memory backend\<close>

definition clean_table :: "(bytes \<times> variantEntry) list \<Rightarrow> bool" where
  "clean_table vm \<longleftrightarrow> (\<forall>vk e v. (vk, e) \<in> set vm \<longrightarrow> variant e = Some v \<longrightarrow> clean_variant v)"

definition clean_store :: "Store \<Rightarrow> bool" where
  "clean_store s \<longleftrightarrow> getMetaHook s = None \<and> (\<forall>k vm. (k, vm) \<in> set (sVariants s) \<longrightarrow> clean_table vm)"

lemma set_update_cases: "(a, b) \<in> set (AList.update k v xs) \<Longrightarrow> b = v \<or> (a, b) \<in> set xs"
  by (induction xs) (auto split: if_splits)

lemma set_delete_cases: "(a, b) \<in> set (AList.delete k xs) \<Longrightarrow> (a, b) \<in> set xs"
  by (simp add: AList.delete_eq)

lemma clean_mark_soft: "clean_store s \<Longrightarrow> clean_store (mark_soft k e s)"
  by (simp add: clean_store_def mark_soft_def)

lemma clean_remove_hard: "clean_store s \<Longrightarrow> clean_store (remove_hard k e s)"
  by (auto simp: clean_store_def remove_hard_def dest!: set_delete_cases)

lemma clean_purge_one: "clean_store s \<Longrightarrow> clean_store (snd (purge_one soft (c, s) k))"
  by (simp add: purge_one_def clean_mark_soft clean_remove_hard split: option.splits)

lemma clean_foldl_purge: "clean_store s \<Longrightarrow> clean_store (snd (foldl (purge_one soft) (c, s) ks))"
proof (induction ks arbitrary: c s)
  case (Cons k ks)
  obtain c' s' where p: "purge_one soft (c, s) k = (c', s')" by (cases "purge_one soft (c, s) k")
  with clean_purge_one [OF Cons.prems, of soft c k] Cons.IH show ?case by simp
qed simp

lemma clean_store_table: "clean_store s \<Longrightarrow> map_of (sVariants s) k = Some vm \<Longrightarrow> clean_table vm"
  by (auto simp: clean_store_def dest!: map_of_SomeD)

lemma clean_store_update:
  "clean_store s \<Longrightarrow> clean_table vm \<Longrightarrow>
     clean_store (s\<lparr>sMeta := x, tagIndex := y, sVariants := AList.update k vm (sVariants s)\<rparr>)"
  by (auto simp: clean_store_def dest!: set_update_cases)

lemma clean_table_update:
  "clean_table vm \<Longrightarrow> variant e = Some v \<Longrightarrow> clean_variant v \<Longrightarrow> clean_table (AList.update vk e vm)"
  by (auto simp: clean_table_def dest!: set_update_cases)

lemma clean_SetVariant:
  assumes "clean_store s" and "clean_variant v"
  shows "clean_store (snd (SetVariant now s k mo (Some v) b ttl))"
proof -
  let ?vm = "case map_of (sVariants s) k of None \<Rightarrow> [] | Some vm \<Rightarrow> vm"
  let ?v = "if VariantKey v \<noteq> [] then v else v\<lparr>VariantKey := ''default''\<rparr>"
  have "clean_variant ?v" using assms(2) by (simp add: clean_variant_def)
  moreover have "clean_table ?vm"
    using clean_store_table [OF assms(1), of k] by (cases "map_of (sVariants s) k") (simp_all add: clean_table_def)
  ultimately have "clean_table (AList.update vk \<lparr>variant = Some ?v, body = b, vExpiresAt = x\<rparr> ?vm)" for vk x
    by (intro clean_table_update) simp_all
  then have "clean_store (s\<lparr>sMeta := x, tagIndex := y,
      sVariants := AList.update k (AList.update vk \<lparr>variant = Some ?v, body = b, vExpiresAt = z\<rparr> ?vm) (sVariants s)\<rparr>)" for x y z vk
    by (rule clean_store_update [OF assms(1)])
  note upd = this
  show ?thesis
  proof (cases "closed s \<or> setVariantHook s \<noteq> None")
    case True
    then show ?thesis using assms(1) by (auto simp: SetVariant_def)
  next
    case False
    then have hook: "closed s = False" "setVariantHook s = None" by simp_all
    let ?x = "if ttl > 0 then tadd now ttl else zero_time"
    have "snd (SetVariant now s k mo (Some v) b ttl) = s\<lparr>sMeta := AList.update k (set_meta_entry ?x mo (map_of (sMeta s) k)) (sMeta s),
        tagIndex := (case mo of None \<Rightarrow> tagIndex s | Some m \<Rightarrow> foldl (index_tag k) (tagIndex s) (Tags m)),
        sVariants := AList.update k (AList.update (if VariantKey v \<noteq> [] then VariantKey v else ''default'')
          \<lparr>variant = Some ?v, body = b, vExpiresAt = ?x\<rparr> ?vm) (sVariants s)\<rparr>"
      using hook by (simp only: SetVariant_def Let_def option.case if_False snd_conv)
    then show ?thesis by (simp only: upd)
  qed
qed

lemma clean_lookup:
  assumes "clean_store s" and "GetMeta now s k = Inr (Some m, sp)" and "map_of (Variants m) vk = Some v"
  shows "clean_variant v"
proof -
  obtain vs where m: "Variants m = vs" and vs: "vs = (case map_of (sVariants s) k of None \<Rightarrow> [] | Some vm \<Rightarrow> live_variants now vm)"
    using assms(1,2) by (auto simp: GetMeta_def clean_store_def Let_def split: if_splits option.splits)
  with assms(3) obtain vm where vm: "map_of (sVariants s) k = Some vm" and "(vk, v) \<in> set (live_variants now vm)"
    by (auto split: option.splits dest: map_of_SomeD)
  then obtain e where "(vk, e) \<in> set vm" "variant e = Some v"
    by (auto simp: live_variants_def List.map_filter_def split: if_splits option.splits)
  then show ?thesis using clean_store_table [OF assms(1) vm] by (force simp: clean_table_def)
qed

lemma clean_PurgeByTag: "clean_store s \<Longrightarrow> clean_store (snd (PurgeByTag now s tag soft))"
proof -
  assume s: "clean_store s"
  have "clean_store (snd (foldl (purge_one soft) (0, s) ks) \<lparr>tagIndex := i\<rparr>)" for ks i
    using clean_foldl_purge [OF s, of soft 0 ks] by (simp add: clean_store_def)
  with s clean_foldl_purge [OF s] show ?thesis
    by (auto simp: PurgeByTag_def split_beta Let_def split: option.splits)
qed

interpretation cs: clean_backend teststore clean_store
proof (unfold_locales, goal_cases)
  case (1 s v now k mo b ttl)
  then show ?case by (simp add: teststore_def clean_SetVariant)
next
  case (2 s now k soft)
  then show ?case by (simp add: teststore_def Purge_def clean_mark_soft clean_remove_hard split: option.splits)
next
  case (3 s now p soft)
  then show ?case by (simp add: teststore_def PurgeByPattern_def Let_def split_beta clean_foldl_purge)
next
  case (4 s now tag soft)
  then show ?case by (simp add: teststore_def clean_PurgeByTag)
next
  case (5 s now)
  then show ?case by (simp add: teststore_def PurgeAll_def clean_store_def)
next
  case (6 s now k m sp vk v)
  then show ?case using clean_lookup by (simp add: teststore_def)
qed

section \<open>Reachable instances\<close>

inductive instance_reachable :: "Store Titip \<Rightarrow> bool" where
  new: "New lz4 zstd (Some NewStore) opts = Inr t \<Longrightarrow> instance_reachable t"
| serve: "instance_reachable t \<Longrightarrow> ServeHTTP e teststore now t w r = (a, now', t') \<Longrightarrow> instance_reachable t'"
| background: "instance_reachable t \<Longrightarrow> instance_reachable (run_swr e teststore now t)"
| purge: "instance_reachable t \<Longrightarrow> t_Purge env teststore now t target soft = (res, t') \<Longrightarrow> instance_reachable t'"
| purge_prefix: "instance_reachable t \<Longrightarrow> t_PurgePrefix env teststore now t target soft = (res, t') \<Longrightarrow> instance_reachable t'"
| purge_tag: "instance_reachable t \<Longrightarrow> t_PurgeTag teststore now t tag soft = (res, t') \<Longrightarrow> instance_reachable t'"
| purge_all: "instance_reachable t \<Longrightarrow> t_PurgeAll teststore now t = (res, t') \<Longrightarrow> instance_reachable t'"
| close: "instance_reachable t \<Longrightarrow> t_Close (Some Close) in_time t = (res, t') \<Longrightarrow> instance_reachable t'"

lemma New_store: "New lz4 zstd (Some s) opts = Inr t \<Longrightarrow> tStore t = s"
  by (auto simp: New_def Let_def split: sum.splits if_splits option.splits)

lemma reachable_clean: "instance_reachable t \<Longrightarrow> clean_store (tStore t)"
proof (induction rule: instance_reachable.induct)
  case (new lz4 zstd opts t)
  then show ?case by (simp add: New_store clean_store_def NewStore_def)
next
  case (serve t e now w r a now' t')
  then show ?case by (blast intro: cs.ServeHTTP_clean)
next
  case (background t e now)
  then show ?case using cs.P_run_swr by blast
next
  case (purge t env now target soft res t')
  then show ?case using cs.P_t_Purge [of t env now target soft] by simp
next
  case (purge_prefix t env now target soft res t')
  then show ?case using cs.P_t_PurgePrefix [of t env now target soft] by simp
next
  case (purge_tag t now tag soft res t')
  then show ?case using cs.P_tag [of "tStore t" now tag soft] by (auto simp: t_PurgeTag_def split: prod.splits)
next
  case (purge_all t now res t')
  then show ?case using cs.P_all [of "tStore t" now] by (auto simp: t_PurgeAll_def split: prod.splits)
next
  case (close t in_time res t')
  then show ?case by (auto simp: t_Close_def Close_def clean_store_def)
qed

text \<open>
  Property C4. No cookie is ever stored: in every state that an instance reaches by requests,
  background revalidations, purges and shutdown, a stored response has no \<^verbatim>\<open>Set-Cookie\<close> and
  no hop-by-hop field, whatever the origin sends.
\<close>

theorem no_cookie_stored:
  assumes "instance_reachable t" and "getVariantHook (tStore t) = None"
    and "GetVariant now (tStore t) k vk = Inr (Some (Some v, b))" and "(name, vals) \<in> set (ResponseHeaders v)"
  shows "CanonicalHeaderKey name \<noteq> ''Set-Cookie'' \<and> \<not> isHopByHopHeader name"
proof -
  from assms(2,3) obtain vm e where vm: "map_of (sVariants (tStore t)) k = Some vm" and e: "map_of vm (if vk = [] then ''default'' else vk) = Some e" "variant e = Some v"
    by (auto simp: GetVariant_def Let_def split: if_splits option.splits)
  have "clean_variant v" using clean_store_table [OF reachable_clean [OF assms(1)] vm] map_of_SomeD [OF e(1)] e(2) by (force simp: clean_table_def)
  then show ?thesis using assms(4) by (force simp: clean_variant_def clean_header_def clean_field_def)
qed

lemma demo_New: "New (lz4Compressor Some Some) (zstdCompressor Some Some) (Some NewStore) [] = Inr demo_titip"
  by (simp add: New_def demo_titip_def demo_config_def default_config_def)

lemma no_cookie_stored_witness:
  "\<exists>t v. instance_reachable t \<and>
     GetVariant 200 (tStore t) (generatePrimaryKey demo_get (Some zero_CacheKey)) ''default'' = Inr (Some (Some v, ''hello'')) \<and>
     (''Cache-Control'', [''max-age=60'']) \<in> set (ResponseHeaders v) \<and> \<not> isHopByHopHeader ''Cache-Control''"
proof -
  let ?e = "demo_henv (demo_origin 200 demo_fresh ''hello'')"
  obtain w1 where "ServeHTTP ?e teststore 100 demo_titip new_writer demo_get = (Some w1, 105, demo_saved)"
    using demo_miss by blast
  then have r: "instance_reachable demo_saved" using instance_reachable.new [OF demo_New] by (blast intro: instance_reachable.serve)
  have h: "getVariantHook (tStore demo_saved) = None" by (simp add: demo_saved_def saveVariantToStorage_def teststore_def SetVariant_def NewStore_def Let_def)
  let ?v = "new_variant demo_env demo_config [] 200 demo_get demo_fresh ''hello'' []"
  have "(''Cache-Control'', [''max-age=60'']) \<in> set (ResponseHeaders ?v)" by code_simp
  with no_cookie_stored [OF r h demo_saved_variant this] r demo_saved_variant show ?thesis by blast
qed

end
