(* ===== verification/CaddyHandler.thy ===== *)
theory CaddyHandler
  imports CaddyConfig HandlerInv
begin

text \<open>
  Model of the life of a route in \<^verbatim>\<open>src/adapter/caddy/caddy.go\<close> (provisioning, serving, cleaning up,
  the registry of instances) and of the admin endpoint in \<^verbatim>\<open>src/adapter/caddy/admin.go\<close>. Instances
  and storages live at addresses, since routes may share the storage of the app; an operation of
  an instance works on the storage it points to.
\<close>

section \<open>Instances and their registry\<close>

record 's caddy =
  cStores :: "addr \<Rightarrow> 's"
  cInsts :: "(addr \<times> 's Titip \<times> addr) list"
  instances :: "(bytes \<times> addr) list"
  nextAddr :: addr

definition registerInstance :: "bytes \<Rightarrow> addr \<Rightarrow> 's caddy \<Rightarrow> 's caddy" where
  "registerInstance hid a c = c\<lparr>instances := AList.update hid a (instances c)\<rparr>"

definition unregisterInstance :: "bytes \<Rightarrow> 's caddy \<Rightarrow> 's caddy" where
  "unregisterInstance hid c = c\<lparr>instances := AList.delete hid (instances c)\<rparr>"

definition getInstances :: "'s caddy \<Rightarrow> addr list" where
  "getInstances c = map snd (instances c)"

text \<open>Reading an instance together with its storage, and writing both back.\<close>

definition instance_at :: "'s caddy \<Rightarrow> addr \<Rightarrow> 's Titip option" where
  "instance_at c a = map_option (\<lambda>(t, s). t\<lparr>tStore := cStores c s\<rparr>) (map_of (cInsts c) a)"

definition put_instance :: "addr \<Rightarrow> 's Titip \<Rightarrow> 's caddy \<Rightarrow> 's caddy" where
  "put_instance a t c =
     (case map_of (cInsts c) a of
        None \<Rightarrow> c
      | Some (t0, s) \<Rightarrow> c\<lparr>cInsts := AList.update a (t, s) (cInsts c), cStores := (cStores c)(s := tStore t)\<rparr>)"

section \<open>The life of a route\<close>

definition Provision ::
    "Compressor \<Rightarrow> Compressor \<Rightarrow> caddy_ctx \<Rightarrow> bytes \<Rightarrow> caddy_handler \<Rightarrow> 's caddy \<Rightarrow> (error + caddy_handler) \<times> 's caddy" where
  "Provision lz4 zstd ctx hid h c =
     (case configured_app ctx of
        Inl e \<Rightarrow> (Inl e, c)
      | Inr app \<Rightarrow>
          (case route_storage ctx app h of
             Inl e \<Rightarrow> (Inl e, c)
           | Inr s \<Rightarrow>
               let a = (case app of None \<Rightarrow> no_app | Some a \<Rightarrow> a)
               in case titip_options ctx a h of
                    Inl e \<Rightarrow> (Inl e, c)
                  | Inr opts \<Rightarrow>
                      (case New lz4 zstd (Some (cStores c s)) (map Some opts) of
                         Inl e \<Rightarrow> (Inl ''failed to create instance'', c)
                       | Inr t \<Rightarrow>
                           (Inr (h\<lparr>hId := hid, hInstance := Some (nextAddr c),
                                   hBackgroundFetchTimeout := cmp_Or (hBackgroundFetchTimeout h) (aBackgroundFetchTimeout a),
                                   useRewrittenURL := set_opt (coalesce [hUseRewrittenURL h, aUseRewrittenURL a]) False\<rparr>),
                            registerInstance hid (nextAddr c)
                              (c\<lparr>cInsts := (nextAddr c, t, s) # cInsts c, nextAddr := nextAddr c + 1\<rparr>)))))"

definition Validate :: "caddy_handler \<Rightarrow> error option" where
  "Validate h = (if hInstance h = None then Some ''instance was not provisioned'' else None)"

text \<open>\<^verbatim>\<open>Cleanup\<close> waits for background work as long as a fetch may take; \<open>ended d\<close> says whether that is enough.\<close>

definition cleanup_timeout :: "caddy_ctx \<Rightarrow> caddy_handler \<Rightarrow> duration" where
  "cleanup_timeout ctx h =
     (case ParseDuration ctx (hBackgroundFetchTimeout h) of
        Some d \<Rightarrow> if d > 0 then d else 125 * Second
      | None \<Rightarrow> 125 * Second)"

definition Cleanup ::
    "caddy_ctx \<Rightarrow> ('s \<Rightarrow> error option \<times> 's) option \<Rightarrow> (duration \<Rightarrow> bool) \<Rightarrow> caddy_handler \<Rightarrow> 's caddy \<Rightarrow> 's caddy" where
  "Cleanup ctx close_store ended h c =
     (let c1 = unregisterInstance (hId h) c
      in case Option.bind (hInstance h) (\<lambda>a. map_option (Pair a) (instance_at c1 a)) of
           None \<Rightarrow> c1
         | Some (a, t) \<Rightarrow> put_instance a (snd (t_Close close_store (ended (cleanup_timeout ctx h)) t)) c1)"

text \<open>
  Serving. \<open>orig\<close> is the URL of the original request, which Caddy keeps in the context, if it is
  there. The instance sees that URL; the next handler sees the current one. A route without an
  instance panics (\<open>None\<close>).
\<close>

definition cache_request :: "caddy_handler \<Rightarrow> URL option \<Rightarrow> Request \<Rightarrow> Request" where
  "cache_request h orig r =
     (if useRewrittenURL h then r else case orig of Some u \<Rightarrow> r\<lparr>rURL := Some u\<rparr> | None \<Rightarrow> r)"

definition bridge :: "handler \<Rightarrow> Request \<Rightarrow> handler" where
  "bridge next r req w now = next (req\<lparr>rURL := rURL r\<rparr>) w now"

definition caddy_ServeHTTP ::
    "henv \<Rightarrow> 's Storage \<Rightarrow> gotime \<Rightarrow> caddy_handler \<Rightarrow> URL option \<Rightarrow> 's caddy \<Rightarrow> writer \<Rightarrow> Request
     \<Rightarrow> (writer option \<times> gotime \<times> 's caddy) option" where
  "caddy_ServeHTTP e ops now h orig c w r =
     (case hInstance h of
        None \<Rightarrow> None
      | Some a \<Rightarrow>
          (case instance_at c a of
             None \<Rightarrow> None
           | Some t \<Rightarrow>
               let (w', now', t') = ServeHTTP (e\<lparr>next_handler := bridge (next_handler e) r\<rparr>) ops now t w (cache_request h orig r)
               in Some (w', now', put_instance a t' c)))"

section \<open>The admin endpoint\<close>

record purgeAdminRequest =
  URLs :: "bytes list"
  reqTags :: "bytes list"
  PurgeEverything :: bool
  Soft :: "bool option"

text \<open>One purge on each instance in turn: errors are dropped, the counts are added.\<close>

fun purge_instances :: "('s Titip \<Rightarrow> (error + int) \<times> 's Titip) \<Rightarrow> addr list \<Rightarrow> int \<Rightarrow> 's caddy \<Rightarrow> int \<times> 's caddy" where
  "purge_instances f [] n c = (n, c)"
| "purge_instances f (a # as) n c =
     (case instance_at c a of
        None \<Rightarrow> purge_instances f as n c
      | Some t \<Rightarrow>
          let (res, t') = f t
          in purge_instances f as (wrap64 (n + (case res of Inl _ \<Rightarrow> 0 | Inr k \<Rightarrow> k))) (put_instance a t' c))"

fun purge_targets :: "(bytes \<Rightarrow> 's Titip \<Rightarrow> (error + int) \<times> 's Titip) \<Rightarrow> bytes list \<Rightarrow> addr list \<Rightarrow> int \<Rightarrow> 's caddy \<Rightarrow> int \<times> 's caddy" where
  "purge_targets f [] as n c = (n, c)"
| "purge_targets f (x # xs) as n c = (let (n', c') = purge_instances (f x) as n c in purge_targets f xs as n' c')"

definition json_bool :: "bool \<Rightarrow> bytes" where
  "json_bool b = (if b then ''true'' else ''false'')"

definition admin_response :: "bytes \<Rightarrow> int \<Rightarrow> bool \<Rightarrow> bytes" where
  "admin_response typ count1 soft =
     ''{\"success\":true,\"purged\":{\"type\":\"'' @ typ @ ''\",\"count\":'' @ FormatInt count1 @ '',\"soft\":'' @ json_bool soft @ ''}}'' @ [CHR 0x0A]"

definition run_purge :: "goenv \<Rightarrow> 's Storage \<Rightarrow> gotime \<Rightarrow> purgeAdminRequest \<Rightarrow> bool \<Rightarrow> 's caddy \<Rightarrow> bytes \<times> int \<times> 's caddy" where
  "run_purge env ops now q soft c =
     (let activeInstances = getInstances c; none = (activeInstances = [])
      in if PurgeEverything q then
           (''purge_everything'', purge_instances (t_PurgeAll ops now) activeInstances (if none then 1 else 0) c)
         else if reqTags q \<noteq> [] then
           (''tags'', purge_targets (\<lambda>tag t. t_PurgeTag ops now t tag soft) (reqTags q) activeInstances (if none then int (length (reqTags q)) else 0) c)
         else
           (''urls'', purge_targets (\<lambda>u t. t_Purge env ops now t u soft) (URLs q) activeInstances (if none then int (length (URLs q)) else 0) c))"

text \<open>\<open>decoded\<close> is the body of the request after \<^verbatim>\<open>json.Decode\<close>, \<open>None\<close> where that fails.\<close>

definition handleAdminPurge ::
    "goenv \<Rightarrow> 's Storage \<Rightarrow> gotime \<Rightarrow> purgeAdminRequest option \<Rightarrow> writer \<Rightarrow> Request \<Rightarrow> 's caddy \<Rightarrow> writer \<times> 's caddy" where
  "handleAdminPurge env ops now decoded w r c =
     (let ct = Get (rHeader r) ''Content-Type''
      in if Method r \<noteq> ''POST'' then
           (http_Error w ''{\"error\":\"method not allowed; use POST\"}'' 405, c)
         else if \<not> HasPrefix ct ''application/json'' \<and> ct \<noteq> [] then
           (http_Error w ''{\"error\":\"unsupported media type; use Content-Type: application/json\"}'' 415, c)
         else case decoded of
           None \<Rightarrow> (http_Error w ''{\"error\":\"invalid JSON request body\"}'' 400, c)
         | Some q \<Rightarrow>
             let targets = (if URLs q \<noteq> [] then 1 else 0) + (if reqTags q \<noteq> [] then 1 else 0) + (if PurgeEverything q then 1 else (0::nat))
             in if targets > 1 then
                  (http_Error w ''{\"error\":\"specify exactly one of: urls, tags, or purge_everything\"}'' 400, c)
                else if targets = 0 then
                  (http_Error w ''{\"error\":\"missing purge target: specify urls, tags, or purge_everything\"}'' 400, c)
                else if PurgeEverything q \<and> Soft q = Some True then
                  (http_Error w (''{\"error\":\"purge_everything cannot be done as a soft purge; use URLs ['' @ [CHR 0x5C] @ ''\"/'' @ [CHR 0x5C] @ ''\"] or tags to soft purge\"}'') 400, c)
                else
                  let soft = purge_options (opt_if (set_opt (Soft q) True) WithSoftPurge);
                      (typ, count1, c') = run_purge env ops now q soft c;
                      respSoft = (if PurgeEverything q then False else soft)
                  in (Write (WriteHeader (upd_header (\<lambda>h. Set h ''Content-Type'' ''application/json'') w) 200)
                        (admin_response typ count1 respSoft), c'))"

section \<open>What an instance keeps\<close>

text \<open>Serving and purging change neither the configuration nor the closed flag nor the ESI processor.\<close>

definition same_setup :: "'s Titip \<Rightarrow> 's Titip \<Rightarrow> bool" where
  "same_setup t t' \<longleftrightarrow> tConfig t' = tConfig t \<and> tClosed t' = tClosed t \<and> esiProcessor t' = esiProcessor t"

lemma same_setup_refl [simp]: "same_setup t t"
  by (simp add: same_setup_def)

lemma same_setup_trans: "same_setup t t' \<Longrightarrow> same_setup t' t'' \<Longrightarrow> same_setup t t''"
  by (simp add: same_setup_def)

lemma same_setup_upd [simp]: "same_setup t (t\<lparr>tStore := s\<rparr>)" "same_setup t (t\<lparr>tPending := p\<rparr>)"
  by (simp_all add: same_setup_def)

lemma same_save [simp]: "same_setup t (saveVariantToStorage env ops pk vk code r h b fs f resp t)"
  by (simp add: same_setup_def)

lemma same_load: "loadDecompressed ops now pk vk t = (x, t') \<Longrightarrow> same_setup t t'"
  by (auto simp: loadDecompressed_def Let_def split: option.splits sum.splits prod.splits if_splits)

lemma same_t_Purge: "same_setup t (snd (t_Purge env ops now t target soft))"
  by (auto simp: t_Purge_def Let_def split_beta simp del: purge_patterns.simps split: sum.splits list.splits)

lemma same_t_PurgeTag: "same_setup t (snd (t_PurgeTag ops now t tag soft))"
  by (simp add: t_PurgeTag_def split_beta Let_def)

lemma same_t_PurgeAll: "same_setup t (snd (t_PurgeAll ops now t))"
  by (simp add: t_PurgeAll_def split_beta Let_def)

lemma same_purge_if: "same_setup t (purge_if env ops now target t)"
  by (simp add: purge_if_def same_t_Purge)

lemma same_mutating: "handleMutatingRequest e ops now w r t = (a, w', now', t') \<Longrightarrow> same_setup t t'"
  by (auto simp: handleMutatingRequest_def Let_def same_setup_def same_t_Purge [unfolded same_setup_def]
      same_purge_if [unfolded same_setup_def] split: if_splits prod.splits option.splits)

lemma same_spawn [simp]: "same_setup t (spawnSWR ctx t') \<longleftrightarrow> same_setup t t'"
  by (auto simp: spawnSWR_def same_setup_def)

lemma same_304: "handle_304 e ops ctx t v sb h t0 t1 = (res, ctx', t') \<Longrightarrow> same_setup t t'"
  by (auto simp: handle_304_def Let_def split: prod.splits if_splits)

lemma same_fetched: "fetched_result e ops ctx t code h b t0 t1 = (res, ctx', t') \<Longrightarrow> same_setup t t'"
  by (auto simp: fetched_result_def Let_def split: option.splits if_splits)

lemma same_flight: "revalidate_flight e ops sb ctx t = (res, ctx', t') \<Longrightarrow> same_setup t t'"
  using same_304 same_fetched by (auto simp: revalidate_flight_def Let_def split: option.splits prod.splits if_splits)

lemma same_step:
  assumes "step e ops st ctx t = (out, ctx', t')"
  shows "same_setup t t'"
proof (cases st)
  case CheckBypass
  then show ?thesis using assms same_mutating [of e ops _ _ _ t]
    by (auto simp: step_simps stateCheckBypass_def end_defs Let_def split: if_splits option.splits prod.splits)
next
  case ServeCachedHit
  then show ?thesis using assms same_load [of ops _ _ _ t]
    by (auto simp: step_simps stateServeCachedHit_def end_defs Let_def split: if_splits option.splits prod.splits)
next
  case ServeSWR
  then show ?thesis using assms same_load [of ops _ _ _ t]
    by (auto simp: step_simps stateServeSWR_def end_defs Let_def split: if_splits option.splits prod.splits)
next
  case FetchOriginRevalidate
  then show ?thesis using assms same_flight [of e ops _ _ t]
    by (auto simp: step_simps stateFetchOriginRevalidate_def end_defs Let_def split: if_splits option.splits prod.splits)
qed (use assms in \<open>auto simp: step_simps state_defs end_defs Let_def split: if_splits option.splits prod.splits sum.splits\<close>)

lemma same_serve: "same_setup t (snd (snd (serve_from e ops st ctx t)))"
proof (induction "rank st" arbitrary: st ctx t rule: less_induct)
  case less
  obtain out ctx' t' where s: "step e ops st ctx t = (out, ctx', t')" by (metis prod_cases3)
  note keep = same_step [OF s]
  show ?case
  proof (cases out)
    case (Goto st')
    then have "same_setup t' (snd (snd (serve_from e ops st' ctx' t')))" using s step_rank by (intro less) blast
    then show ?thesis using s Goto keep same_setup_trans by (auto simp: serve_from_Goto)
  qed (use s keep in \<open>simp_all add: serve_from_Done serve_from_Crash\<close>)
qed

lemma same_ServeHTTP: "ServeHTTP e ops now t w r = (a, now', t') \<Longrightarrow> same_setup t t'"
  using same_serve [of t e ops CheckBypass "acquireRequestContext w r now"]
  by (auto simp: ServeHTTP_def split: prod.splits outcome.splits)

section \<open>The registry\<close>

text \<open>The routes that are alive and the state of the module, as Caddy provisions, serves, purges and cleans up.\<close>

inductive caddy_reachable :: "'s Storage \<Rightarrow> caddy_handler list \<Rightarrow> 's caddy \<Rightarrow> bool" for ops where
  start: "caddy_reachable ops [] \<lparr>cStores = stores, cInsts = [], instances = [], nextAddr = 0\<rparr>"
| provision: "caddy_reachable ops hs c \<Longrightarrow> hid \<notin> hId ` set hs \<Longrightarrow> Provision lz4 zstd ctx hid h c = (Inr h', c') \<Longrightarrow>
    caddy_reachable ops (h' # hs) c'"
| refuse: "caddy_reachable ops hs c \<Longrightarrow> Provision lz4 zstd ctx hid h c = (Inl e, c') \<Longrightarrow> caddy_reachable ops hs c'"
| serve: "caddy_reachable ops hs c \<Longrightarrow> h \<in> set hs \<Longrightarrow> caddy_ServeHTTP e ops now h orig c w r = Some (a, now', c') \<Longrightarrow>
    caddy_reachable ops hs c'"
| admin: "caddy_reachable ops hs c \<Longrightarrow> handleAdminPurge env ops now decoded w r c = (w', c') \<Longrightarrow> caddy_reachable ops hs c'"
| cleanup: "caddy_reachable ops (hs @ h # hs') c \<Longrightarrow> caddy_reachable ops (hs @ hs') (Cleanup ctx close_store ended h c)"

text \<open>
  The invariant: the registry lists the live routes, each with an instance of its own, which is open.
\<close>

definition caddy_inv :: "caddy_handler list \<Rightarrow> 's caddy \<Rightarrow> bool" where
  "caddy_inv hs c \<longleftrightarrow> map_of (instances c) = map_of (map (\<lambda>h. (hId h, the (hInstance h))) hs) \<and> distinct (map fst (instances c)) \<and>
     distinct (map hId hs) \<and> distinct (map hInstance hs) \<and>
     (\<forall>h \<in> set hs. \<exists>a t. hInstance h = Some a \<and> instance_at c a = Some t \<and> \<not> tClosed t) \<and>
     (\<forall>a \<in> fst ` set (cInsts c). a < nextAddr c)"

text \<open>A change to one instance is seen at its address; elsewhere only a shared storage may differ.\<close>

lemma put_instance_simps [simp]:
  "instances (put_instance a t c) = instances c" "nextAddr (put_instance a t c) = nextAddr c"
  by (simp_all add: put_instance_def split: option.split)

lemma put_instance_dom: "instance_at c a \<noteq> None \<Longrightarrow> fst ` set (cInsts (put_instance a t c)) = fst ` set (cInsts c)"
proof -
  assume "instance_at c a \<noteq> None"
  then obtain t0 s where m: "map_of (cInsts c) a = Some (t0, s)" by (auto simp: instance_at_def)
  then have "a \<in> fst ` set (cInsts c)" by (metis option.distinct(1) map_of_eq_None_iff)
  then show ?thesis using m by (auto simp: put_instance_def keys_update insert_absorb)
qed

lemma instance_at_put:
  assumes "instance_at c a = Some t" "same_setup t t'" "instance_at c b = Some u"
  shows "\<exists>u'. instance_at (put_instance a t' c) b = Some u' \<and> same_setup u u'"
proof -
  obtain t0 s where m: "map_of (cInsts c) a = Some (t0, s)" "t = t0\<lparr>tStore := cStores c s\<rparr>" using assms(1) by (auto simp: instance_at_def)
  obtain u0 s' where n: "map_of (cInsts c) b = Some (u0, s')" "u = u0\<lparr>tStore := cStores c s'\<rparr>" using assms(3) by (auto simp: instance_at_def)
  show ?thesis using m n assms(2) by (cases "a = b") (auto simp: put_instance_def instance_at_def AList.update_conv' same_setup_def)
qed

lemma caddy_inv_put:
  assumes "caddy_inv hs c" "instance_at c a = Some t" "same_setup t t'"
  shows "caddy_inv hs (put_instance a t' c)"
proof -
  have "\<exists>u'. instance_at (put_instance a t' c) b = Some u' \<and> \<not> tClosed u'" if "instance_at c b = Some u" "\<not> tClosed u" for b u
    using instance_at_put [OF assms(2,3) that(1)] that(2) by (auto simp: same_setup_def)
  then have "\<forall>h \<in> set hs. \<exists>a0 u. hInstance h = Some a0 \<and> instance_at (put_instance a t' c) a0 = Some u \<and> \<not> tClosed u"
    using assms(1) unfolding caddy_inv_def by meson
  then show ?thesis using assms(1) put_instance_dom [of c a t'] assms(2) by (simp add: caddy_inv_def)
qed

lemma inv_purge_instances:
  "caddy_inv hs c \<Longrightarrow> (\<And>t. same_setup t (snd (f t))) \<Longrightarrow> purge_instances f as n c = (m, c') \<Longrightarrow> caddy_inv hs c'"
proof (induction f as n c rule: purge_instances.induct)
  case (2 f a as n c)
  show ?case
  proof (cases "instance_at c a")
    case None
    then show ?thesis using 2 by simp
  next
    case (Some t)
    obtain res t' where f: "f t = (res, t')" by (cases "f t")
    have "caddy_inv hs (put_instance a t' c)" using caddy_inv_put [OF 2(3) Some] 2(4) [of t] f by simp
    then show ?thesis using 2(2) [OF Some f [symmetric] refl] 2(4,5) Some f by simp
  qed
qed simp

lemma inv_purge_targets:
  "caddy_inv hs c \<Longrightarrow> (\<And>x t. same_setup t (snd (f x t))) \<Longrightarrow> purge_targets f xs as n c = (m, c') \<Longrightarrow> caddy_inv hs c'"
proof (induction f xs as n c rule: purge_targets.induct)
  case (2 f x xs as n c)
  obtain n1 c1 where p: "purge_instances (f x) as n c = (n1, c1)" by (cases "purge_instances (f x) as n c")
  have "caddy_inv hs c1" by (rule inv_purge_instances [OF 2(2) _ p]) (rule 2(3))
  then show ?case using 2(1) [OF p [symmetric] refl] 2(3,4) p by simp
qed simp

lemma inv_run_purge:
  assumes "caddy_inv hs c" "run_purge env ops now q soft c = (typ, n, c')"
  shows "caddy_inv hs c'"
proof (cases "PurgeEverything q")
  case True
  then have "purge_instances (t_PurgeAll ops now) (getInstances c) (if getInstances c = [] then 1 else 0) c = (n, c')"
    using assms(2) by (simp add: run_purge_def Let_def)
  from inv_purge_instances [OF assms(1) same_t_PurgeAll this] show ?thesis .
next
  case everything: False
  show ?thesis
  proof (cases "reqTags q = []")
    case True
    then have "purge_targets (\<lambda>u t. t_Purge env ops now t u soft) (URLs q) (getInstances c)
        (if getInstances c = [] then int (length (URLs q)) else 0) c = (n, c')"
      using assms(2) everything by (simp add: run_purge_def Let_def)
    from inv_purge_targets [OF assms(1) same_t_Purge this] show ?thesis .
  next
    case False
    then have "purge_targets (\<lambda>tag t. t_PurgeTag ops now t tag soft) (reqTags q) (getInstances c)
        (if getInstances c = [] then int (length (reqTags q)) else 0) c = (n, c')"
      using assms(2) everything by (simp add: run_purge_def Let_def)
    from inv_purge_targets [OF assms(1) same_t_PurgeTag this] show ?thesis .
  qed
qed

lemma inv_admin: "caddy_inv hs c \<Longrightarrow> handleAdminPurge env ops now decoded w r c = (w', c') \<Longrightarrow> caddy_inv hs c'"
  using inv_run_purge by (auto simp: handleAdminPurge_def Let_def split: if_splits option.splits prod.splits)

lemma inv_serve:
  assumes "caddy_inv hs c" "caddy_ServeHTTP e ops now h orig c w r = Some (a, now', c')"
  shows "caddy_inv hs c'"
proof -
  let ?e = "e\<lparr>next_handler := bridge (next_handler e) r\<rparr>"
  obtain b t where b: "instance_at c b = Some t" "hInstance h = Some b"
    using assms(2) by (auto simp: caddy_ServeHTTP_def split: option.splits)
  obtain t' where "ServeHTTP ?e ops now t w (cache_request h orig r) = (a, now', t')" "c' = put_instance b t' c"
    using assms(2) b by (auto simp: caddy_ServeHTTP_def split: prod.splits)
  then show ?thesis using caddy_inv_put [OF assms(1) b(1)] same_ServeHTTP by blast
qed

lemma New_open: "New lz4 zstd s opts = Inr t \<Longrightarrow> \<not> tClosed t"
  by (auto simp: New_def Let_def split: option.splits sum.splits if_splits)

lemma Provision_ok:
  assumes "Provision lz4 zstd ctx hid h c = (Inr h', c')"
  obtains app s opts t where "configured_app ctx = Inr app" "route_storage ctx app h = Inr s"
    "titip_options ctx (set_opt app no_app) h = Inr opts" "New lz4 zstd (Some (cStores c s)) (map Some opts) = Inr t"
    "hId h' = hid" "hInstance h' = Some (nextAddr c)"
    "useRewrittenURL h' = set_opt (coalesce [hUseRewrittenURL h, aUseRewrittenURL (set_opt app no_app)]) False"
    "c' = registerInstance hid (nextAddr c) (c\<lparr>cInsts := (nextAddr c, t, s) # cInsts c, nextAddr := nextAddr c + 1\<rparr>)"
  using assms that by (auto simp: Provision_def Let_def set_opt_def split: sum.splits)

lemma inv_provision:
  assumes "caddy_inv hs c" "hid \<notin> hId ` set hs" "Provision lz4 zstd ctx hid h c = (Inr h', c')"
  shows "caddy_inv (h' # hs) c'"
proof -
  obtain s opts t where p: "New lz4 zstd (Some (cStores c s)) (map Some opts) = Inr t" "hId h' = hid" "hInstance h' = Some (nextAddr c)"
    "c' = registerInstance hid (nextAddr c) (c\<lparr>cInsts := (nextAddr c, t, s) # cInsts c, nextAddr := nextAddr c + 1\<rparr>)"
    using Provision_ok [OF assms(3)] by metis
  have i: "map_of (instances c) = map_of (map (\<lambda>h. (hId h, the (hInstance h))) hs)" "distinct (map fst (instances c))" "distinct (map hId hs)"
    "distinct (map hInstance hs)" "\<forall>h \<in> set hs. \<exists>a t. hInstance h = Some a \<and> instance_at c a = Some t \<and> \<not> tClosed t"
    "\<forall>a \<in> fst ` set (cInsts c). a < nextAddr c" using assms(1) by (auto simp: caddy_inv_def)
  have below: "a < nextAddr c" if "instance_at c a = Some u" for a u
  proof -
    have "map_of (cInsts c) a \<noteq> None" using that by (auto simp: instance_at_def)
    then have "a \<in> fst ` set (cInsts c)" by (simp add: map_of_eq_None_iff)
    then show ?thesis by (rule bspec [OF i(6)])
  qed
  have old: "instance_at c' a = Some u" if "instance_at c a = Some u" for a u
    using that below [OF that] by (simp add: p(4) registerInstance_def instance_at_def)
  have "\<exists>a u. hInstance g = Some a \<and> instance_at c' a = Some u \<and> \<not> tClosed u" if "g \<in> set hs" for g
    using i(5) that old by blast
  moreover have "instance_at c' (nextAddr c) = Some (t\<lparr>tStore := cStores c s\<rparr>)"
    by (simp add: p(4) registerInstance_def instance_at_def)
  moreover have "Some (nextAddr c) \<notin> hInstance ` set hs"
  proof
    assume "Some (nextAddr c) \<in> hInstance ` set hs"
    then obtain u where "instance_at c (nextAddr c) = Some u" using i(5) by fastforce
    then show False using below by blast
  qed
  moreover have "map_of (instances c') = map_of (map (\<lambda>h. (hId h, the (hInstance h))) (h' # hs))"
    using i(1) p(2,3) by (simp add: p(4) registerInstance_def AList.update_conv')
  moreover have "distinct (map fst (instances c'))" using i(2) by (simp add: p(4) registerInstance_def distinct_update)
  moreover have "\<forall>a \<in> fst ` set (cInsts c'). a < nextAddr c'" using i(6) by (auto simp: p(4) registerInstance_def)
  ultimately show ?thesis using i(3,4) assms(2) p(2,3) New_open [OF p(1)] by (simp add: caddy_inv_def)
qed

lemma refuse_unchanged: "Provision lz4 zstd ctx hid h c = (Inl e, c') \<Longrightarrow> c' = c"
  by (auto simp: Provision_def Let_def split: sum.splits)

lemma instance_at_put_other:
  assumes "a \<noteq> b" "instance_at c b = Some u"
  shows "\<exists>u'. instance_at (put_instance a t' c) b = Some u' \<and> same_setup u u'"
proof -
  obtain u0 s where u: "map_of (cInsts c) b = Some (u0, s)" "u = u0\<lparr>tStore := cStores c s\<rparr>" using assms(2) by (auto simp: instance_at_def)
  have "map_of (cInsts (put_instance a t' c)) b = Some (u0, s)"
    using assms(1) u(1) by (simp add: put_instance_def AList.update_conv' split: option.split prod.split)
  then show ?thesis using u(2) by (simp add: instance_at_def same_setup_def)
qed

lemma map_of_remove:
  assumes "distinct (map fst (xs @ (k, v) # ys))"
  shows "map_of (xs @ ys) = (map_of (xs @ (k, v) # ys))(k := None)"
proof
  fix j
  have "map_of xs k = None" "map_of ys k = None" using assms by (auto simp: map_of_eq_None_iff)
  then show "map_of (xs @ ys) j = ((map_of (xs @ (k, v) # ys))(k := None)) j"
    by (auto simp: map_add_def split: option.split)
qed

lemma inv_cleanup:
  assumes "caddy_inv (hs @ h # hs') c"
  shows "caddy_inv (hs @ hs') (Cleanup ctx close_store ended h c)"
proof -
  let ?c1 = "unregisterInstance (hId h) c" and ?p = "\<lambda>h. (hId h, the (hInstance h))"
  have i: "map_of (instances c) = map_of (map ?p (hs @ h # hs'))" "distinct (map fst (instances c))" "distinct (map hId (hs @ h # hs'))"
    "distinct (map hInstance (hs @ h # hs'))"
    "\<forall>g \<in> set (hs @ h # hs'). \<exists>a t. hInstance g = Some a \<and> instance_at c a = Some t \<and> \<not> tClosed t"
    "\<forall>a \<in> fst ` set (cInsts c). a < nextAddr c" using assms unfolding caddy_inv_def by blast+
  obtain a t where a: "hInstance h = Some a" "instance_at c a = Some t" using i(5) by auto
  have at: "instance_at ?c1 = instance_at c" by (rule ext) (simp add: unregisterInstance_def instance_at_def)
  let ?t' = "snd (t_Close close_store (ended (cleanup_timeout ctx h)) t)"
  have c': "Cleanup ctx close_store ended h c = put_instance a ?t' ?c1" using a by (simp add: Cleanup_def Let_def at)
  have "\<exists>b u. hInstance g = Some b \<and> instance_at (put_instance a ?t' ?c1) b = Some u \<and> \<not> tClosed u" if g: "g \<in> set (hs @ hs')" for g
  proof -
    obtain b u where b: "hInstance g = Some b" "instance_at c b = Some u" "\<not> tClosed u" using bspec [OF i(5), of g] g by auto
    have "a \<noteq> b" using i(4) a(1) b(1) g by (force simp: image_iff)
    then show ?thesis using instance_at_put_other [of a b ?c1 u ?t'] b at by (auto simp: same_setup_def)
  qed
  moreover have "map_of (instances ?c1) = map_of (map ?p (hs @ hs'))"
  proof -
    have "distinct (map fst (map ?p (hs @ h # hs')))" using i(3) by (simp add: o_def)
    then show ?thesis
      using map_of_remove [of "map ?p hs" "hId h" "the (hInstance h)" "map ?p hs'"] i(1)
      by (simp add: unregisterInstance_def AList.delete_conv')
  qed
  moreover have "distinct (map fst (instances ?c1))" using i(2) by (simp add: unregisterInstance_def distinct_delete)
  moreover have "fst ` set (cInsts (put_instance a ?t' ?c1)) = fst ` set (cInsts c)"
    using put_instance_dom [of ?c1 a ?t'] a(2) at by (simp add: unregisterInstance_def)
  ultimately show ?thesis using i(3,4,6) unfolding caddy_inv_def c'
    by (simp add: unregisterInstance_def)
qed

lemma caddy_reachable_inv: "caddy_reachable ops hs c \<Longrightarrow> caddy_inv hs c"
proof (induction rule: caddy_reachable.induct)
  case (start stores)
  then show ?case by (simp add: caddy_inv_def)
next
  case (refuse hs c lz4 zstd ctx hid h e c')
  then show ?case using refuse_unchanged by blast
next
  case (provision hs c hid lz4 zstd ctx h h' c')
  from provision.IH provision.hyps(2,3) show ?case by (rule inv_provision)
next
  case (serve hs c h e now orig w r a now' c')
  from serve.IH serve.hyps(3) show ?case by (rule inv_serve)
next
  case (admin hs c env now decoded w r w' c')
  from admin.IH admin.hyps(2) show ?case by (rule inv_admin)
next
  case (cleanup hs h hs' c ctx close_store ended)
  from cleanup.IH show ?case by (rule inv_cleanup)
qed

end
