(* ===== verification/HandlerProps.thy ===== *)
theory HandlerProps
  imports HandlerInv
begin

text \<open>
  Properties of the request state machine under failures: bypass, a failing backend, an origin
  that panics or answers 5xx, shutdown, and results shared between requests.
\<close>

section \<open>Bypass\<close>

text \<open>The requests that the first state sends straight to the origin, whatever the configuration.\<close>

definition uncached_request :: "Request \<Rightarrow> bool" where
  "uncached_request r \<longleftrightarrow> containsToken (Get (rHeader r) headerUpgrade) upgradeWebSocket \<or>
     Contains (ToLower (Get (rHeader r) headerAccept)) contentTypeEventStream \<or> Get (rHeader r) headerRange \<noteq> [] \<or>
     Method r \<notin> {''GET'', ''HEAD'', ''POST'', ''PUT'', ''DELETE'', ''PATCH''}"

text \<open>The origin answers the client's own request on the client's own writer; only the cache status is added.\<close>

definition forwarded ::
    "henv \<Rightarrow> gotime \<Rightarrow> 's Titip \<Rightarrow> writer \<Rightarrow> Request \<Rightarrow> writer option \<times> gotime \<times> 's Titip \<Rightarrow> bool" where
  "forwarded e now t w r ans \<longleftrightarrow>
     (\<exists>f. (\<forall>h k. CanonicalHeaderKey k \<noteq> headerCacheStatus \<longrightarrow> Values (f h) k = Values h k) \<and>
        ans = (case next_handler e r (upd_header f w) now of (a, now') \<Rightarrow> (a, now', t)))"

definition status_update :: "config \<Rightarrow> bytes \<Rightarrow> bytes \<Rightarrow> Header \<Rightarrow> Header" where
  "status_update cfg s d h =
     (case cacheStatusMode cfg of
        CacheStatusRFC9211 \<Rightarrow> if d \<noteq> [] then Add h headerCacheStatus d else h
      | CacheStatusSimple \<Rightarrow> Set h headerCacheStatus s
      | CacheStatusNone \<Rightarrow> h)"

lemma emitCacheStatus_writer: "cw (emitCacheStatus cfg s d ctx) = upd_header (status_update cfg s d) (cw ctx)"
  by (simp add: emitCacheStatus_def status_update_def [abs_def])

lemma status_update_other:
  "CanonicalHeaderKey k \<noteq> headerCacheStatus \<Longrightarrow> Values (status_update cfg s d h) k = Values h k"
proof -
  have "CanonicalHeaderKey headerCacheStatus = headerCacheStatus" by code_simp
  then show "CanonicalHeaderKey k \<noteq> headerCacheStatus \<Longrightarrow> Values (status_update cfg s d h) k = Values h k"
    by (simp add: status_update_def split: CacheStatusMode.splits)
qed

lemma ServeHTTP_bypass:
  assumes "serve_from e ops CheckBypass (acquireRequestContext w r now) t =
      serve_from e ops BypassOrigin (emitCacheStatus cfg s d ctx) t"
    and "cw ctx = w" "cr ctx = r" "cNow ctx = now"
  shows "forwarded e now t w r (ServeHTTP e ops now t w r)"
proof -
  let ?c = "emitCacheStatus cfg s d ctx"
  let ?f = "status_update cfg s d"
  have cw: "cw ?c = upd_header ?f w" using assms(2) by (simp add: emitCacheStatus_writer)
  obtain a now' where n: "next_handler e r (upd_header ?f w) now = (a, now')"
    by (cases "next_handler e r (upd_header ?f w) now")
  have "ServeHTTP e ops now t w r = (a, now', t)"
  proof (cases a)
    case None
    then have "step e ops BypassOrigin ?c t = (Crash, ?c\<lparr>cNow := now'\<rparr>, t)"
      using n cw assms(3,4) by (simp add: step_simps stateBypassOrigin_def)
    with None show ?thesis by (simp add: ServeHTTP_def assms(1) serve_from_Crash)
  next
    case (Some w')
    then have "step e ops BypassOrigin ?c t = (Done, ?c\<lparr>cw := w', cNow := now'\<rparr>, t)"
      using n cw assms(3,4) by (simp add: step_simps stateBypassOrigin_def stop_def)
    with Some show ?thesis by (simp add: ServeHTTP_def assms(1) serve_from_Done)
  qed
  with n show ?thesis
    unfolding forwarded_def by (intro exI [of _ ?f] conjI) (simp_all add: status_update_other)
qed

text \<open>
  Property C10. WebSocket upgrades, event streams, range requests and methods that are neither
  safe nor known to be unsafe go through untouched: the origin gets the client's request and
  the client's writer, the instance and its storage stay as they are, and the only trace of
  the cache is its status header.
\<close>

theorem bypass_transparent:
  assumes "uncached_request r"
  shows "forwarded e now t w r (ServeHTTP e ops now t w r)"
proof -
  let ?c = "acquireRequestContext w r now"
  have "\<exists>d. stateCheckBypass e ops ?c t = bypass (tConfig t) d ?c t"
  proof (cases "Method r \<in> {''GET'', ''HEAD'', ''POST'', ''PUT'', ''DELETE'', ''PATCH''}")
    case True
    with assms show ?thesis unfolding uncached_request_def stateCheckBypass_def Let_def by simp (elim disjE; auto)
  next
    case False
    then have "\<not> isMutatingMethod (Method r)" "Method r \<noteq> ''GET''" "Method r \<noteq> ''HEAD''" by (simp_all add: isMutatingMethod_def)
    then show ?thesis unfolding stateCheckBypass_def Let_def acquireRequestContext_simps by (simp only: if_True if_False simp_thms split: if_split) blast
  qed
  then obtain d where "step e ops CheckBypass ?c t = (Goto BypassOrigin, emitCacheStatus (tConfig t) ''BYPASS'' d ?c, t)"
    by (auto simp: step_simps bypass_def)
  then have "serve_from e ops CheckBypass ?c t = serve_from e ops BypassOrigin (emitCacheStatus (tConfig t) ''BYPASS'' d ?c) t"
    by (rule serve_from_Goto)
  then show ?thesis by (rule ServeHTTP_bypass) simp_all
qed

lemma bypass_transparent_witness:
  "forwarded (demo_henv (demo_origin 200 [] ''x'')) 1 demo_titip new_writer (demo_get\<lparr>Method := ''OPTIONS''\<rparr>)
     (ServeHTTP (demo_henv (demo_origin 200 [] ''x'')) teststore 1 demo_titip new_writer (demo_get\<lparr>Method := ''OPTIONS''\<rparr>))"
  by (rule bypass_transparent) (simp add: uncached_request_def)

text \<open>
  Property C9. A backend that fails to look up the metadata does not fail the request: the
  origin answers it as if the cache were not there.
\<close>

theorem storage_failure_fails_open:
  assumes "plain_request r" and "\<not> respectClientCacheControl (tConfig t)"
    and "opGetMeta ops now (tStore t) (generatePrimaryKey r (Some (cacheKey (tConfig t)))) = Inl err"
  shows "forwarded e now t w r (ServeHTTP e ops now t w r)"
proof -
  let ?c = "acquireRequestContext w r now"
  let ?c1 = "?c\<lparr>primaryKey := generatePrimaryKey r (Some (cacheKey (tConfig t)))\<rparr>"
  have 1: "step e ops CheckBypass ?c t = (Goto LookupMetadata, ?c, t)"
    using assms(1,2) by (simp add: step_simps stateCheckBypass_plain)
  have 2: "step e ops LookupMetadata ?c t = (Goto BypassOrigin, emitCacheStatus (tConfig t) ''BYPASS''
      (rfc9211Prefix @ ''fwd=bypass; detail=storage-fallback'') ?c1, t)"
    using assms(3) by (simp add: step_simps stateLookupMetadata_def bypass_def Let_def)
  show ?thesis
    using serve_from_Goto [OF 1] serve_from_Goto [OF 2] by (intro ServeHTTP_bypass [where ctx = ?c1]) simp_all
qed

lemma storage_failure_fails_open_witness:
  "forwarded (demo_henv (demo_origin 200 [] ''x'')) 1 (demo_titip\<lparr>tStore := SetClosed NewStore True\<rparr>) new_writer demo_get
     (ServeHTTP (demo_henv (demo_origin 200 [] ''x'')) teststore 1 (demo_titip\<lparr>tStore := SetClosed NewStore True\<rparr>) new_writer demo_get)"
  by (rule storage_failure_fails_open [where err = ErrClosed])
     (simp_all add: demo_get_plain teststore_def GetMeta_def SetClosed_def)

section \<open>Panics\<close>

lemma inspect_no_esi: "esiProcessor t = None \<Longrightarrow> inspectAndPrepareESI env t h b = Some (h, [])"
  by (simp add: inspectAndPrepareESI_def)

text \<open>What a 304 does not change in a stored variant.\<close>

lemma merge_304_keeps:
  assumes "merge_304 env h v = (merged, v')"
  shows "StatusCode v' = StatusCode v" "RawBodySize v' = RawBodySize v" "StorageCompression v' = StorageCompression v"
    "VariantKey v' = VariantKey v" "EsiFragments v' = EsiFragments v"
  using assms by (auto simp: merge_304_def Let_def split: if_splits option.splits)

text \<open>What loading a body may do to an instance: soft-purge an entry that does not decompress.\<close>

lemma load_changes: "loadDecompressed ops now pk vk t = (x, t') \<Longrightarrow>
   t' = t \<or> t' = t\<lparr>tStore := snd (opPurge ops now (tStore t) pk True)\<rparr>"
  by (auto simp: loadDecompressed_def split: sum.splits option.splits prod.splits if_splits)

text \<open>A status that \<^verbatim>\<open>net/http\<close> takes as the final one: another number panics, or is informational.\<close>

definition valid_status :: "int \<Rightarrow> bool" where
  "valid_status c \<longleftrightarrow> 200 \<le> c \<and> c \<le> 999"

definition valid_writer :: "writer \<Rightarrow> bool" where
  "valid_writer w \<longleftrightarrow> (case wCode w of None \<Rightarrow> True | Some c \<Rightarrow> valid_status c)"

definition valid_origin :: "henv \<Rightarrow> bool" where
  "valid_origin e \<longleftrightarrow> (\<forall>r now rec resp. next_handler e r new_writer now = (Some rec, resp) \<longrightarrow> valid_status (rec_Code rec))"

definition sound_variant :: "VariantInfo \<Rightarrow> bool" where
  "sound_variant v \<longleftrightarrow> ResponseHeaders v \<noteq> [] \<and> valid_status (StatusCode v)"

definition sound_reads :: "'s Storage \<Rightarrow> 's \<Rightarrow> bytes \<Rightarrow> bool" where
  "sound_reads ops s pk \<longleftrightarrow>
     (\<forall>now m sp vk v. opGetMeta ops now s pk = Inr (Some m, sp) \<longrightarrow> map_of (Variants m) vk = Some v \<longrightarrow> sound_variant v) \<and>
     (\<forall>now vk v z. opGetVariant ops now s pk vk = Inr (Some (Some v, z)) \<longrightarrow> sound_variant v)"

lemma sound_readsD:
  "sound_reads ops s pk \<Longrightarrow> opGetMeta ops now s pk = Inr (Some m, sp) \<Longrightarrow> map_of (Variants m) vk = Some v \<Longrightarrow> sound_variant v"
  "sound_reads ops s pk \<Longrightarrow> opGetVariant ops now s pk vk = Inr (Some (Some v, z)) \<Longrightarrow> sound_variant v"
  unfolding sound_reads_def by blast+

lemma valid_numerals [simp]: "valid_status 200" "valid_status 304" "valid_status 412" "valid_status 500" "valid_status 504"
  by (simp_all add: valid_status_def)

lemma valid_WriteHeader: "valid_writer w \<Longrightarrow> valid_status c \<Longrightarrow> valid_writer (WriteHeader w c)"
  by (simp add: valid_writer_def WriteHeader_def split: option.splits)

lemma valid_Write: "valid_writer w \<Longrightarrow> valid_writer (Write w b)"
  using valid_WriteHeader [of w 200] by (simp add: valid_writer_def Write_def Let_def)

lemma valid_upd_header [simp]: "valid_writer (upd_header f w) = valid_writer w"
  by (simp add: valid_writer_def)

abbreviation valid_ctx :: "requestContext \<Rightarrow> bool" where
  "valid_ctx ctx \<equiv> valid_writer (cw ctx)"

lemma valid_ctx_header [simp]:
  "valid_ctx (on_header f ctx) = valid_ctx ctx" "valid_ctx (emitCacheStatus cfg s d ctx) = valid_ctx ctx"
  "valid_ctx (copyProtoHeaders h ctx) = valid_ctx ctx" "valid_ctx (set_age m now ctx) = valid_ctx ctx"
  "valid_ctx (age_from m ctx) = valid_ctx ctx" "esiProcessor t = None \<Longrightarrow> valid_ctx (adjustESIHeaders t v ctx) = valid_ctx ctx"
  by (simp_all add: emitCacheStatus_writer copyProtoHeaders_def set_age_def age_from_def adjustESIHeaders_def on_writer_def
      has_esi_def valid_writer_def split: option.splits)

lemma valid_ctx_write:
  "valid_ctx ctx \<Longrightarrow> valid_status c \<Longrightarrow> valid_ctx (write_status c ctx)" "valid_ctx ctx \<Longrightarrow> valid_ctx (write_body b ctx)"
  "valid_ctx ctx \<Longrightarrow> valid_ctx (on_writer (\<lambda>w. Write w b) ctx)" "valid_ctx ctx \<Longrightarrow> valid_status c \<Longrightarrow> valid_ctx (error_page msg c ctx)"
  by (simp_all add: write_status_def write_body_def error_page_def on_writer_def http_Error_def valid_WriteHeader valid_Write)

definition fine_result :: "fetchResult \<Rightarrow> bool" where
  "fine_result res \<longleftrightarrow> (\<forall>fb. frFallback res = Some fb \<longrightarrow> valid_status (StatusCode (fbVarInfo fb))) \<and> frFragments res = [] \<and>
     (frStatusCode res = 0 \<or> valid_status (frStatusCode res))"

lemma valid_serve_flight:
  assumes "esiProcessor t = None" "fine_result res" "valid_ctx ctx"
  shows "valid_ctx (serve_flight e t sh res ctx)"
proof -
  have "valid_ctx (serve_fetched e t sh res ctx)"
    using assms by (auto simp: serve_fetched_def fine_result_def Let_def intro!: valid_ctx_write)
  moreover have "valid_ctx (serve_not_modified t sh fb ctx)" for fb
    using assms by (auto simp: serve_not_modified_def intro!: valid_ctx_write)
  moreover have "valid_ctx (serve_fallback e t sh res fb b ctx)" if "frFallback res = Some fb" for fb b
    using assms that by (auto simp: serve_fallback_def has_esi_def fine_result_def Let_def intro!: valid_ctx_write)
  ultimately show ?thesis by (auto simp: serve_flight_def split: option.splits if_splits)
qed

lemma valid_serve_miss:
  "valid_ctx ctx \<Longrightarrow> valid_status code \<Longrightarrow> valid_ctx (serve_miss e t code h b [] f sc ctx)"
  by (auto simp: serve_miss_def Let_def intro!: valid_ctx_write)

lemma flight_fine:
  assumes "esiProcessor t = None" "valid_origin e" "sound_reads ops (tStore t) (primaryKey ctx)"
    and "varInfo ctx = Some v" "sound_variant v" and "revalidate_flight e ops sb ctx t = (r, ctx', t')"
  shows "\<exists>res. r = Some res \<and> fine_result res \<and> esiProcessor t' = None \<and> cw ctx' = cw ctx"
proof -
  have v: "ResponseHeaders v \<noteq> []" "valid_status (StatusCode v)" using assms(5) by (simp_all add: sound_variant_def)
  show ?thesis
  proof (cases "already_refreshed ops ctx t")
    case (Some res)
    then obtain u b m where u: "opGetVariant ops (cNow ctx) (tStore t) (primaryKey ctx) (variantKey ctx) = Inr (Some (Some u, b))"
      "res = no_result\<lparr>frStatusCode := StatusCode u, frIsFallback := True, frFallback := Some \<lparr>fbVarInfo = u, fbBody = b, fbMeta = Some m\<rparr>\<rparr>"
      by (auto simp: already_refreshed_def split: sum.splits option.splits prod.splits if_splits bool.splits)
    have "sound_variant u" by (rule sound_readsD(2) [OF assms(3) u(1)])
    then have "fine_result res" by (simp add: u(2) sound_variant_def fine_result_def no_result_def)
    moreover have "revalidate_flight e ops sb ctx t = (Some res, ctx, t)" using Some by (simp add: revalidate_flight_def)
    ultimately show ?thesis using assms(1,6) by simp
  next
    case None
    obtain ans resp where n: "next_handler e (reval_request e t (varInfo ctx) (cr ctx)) new_writer (cNow ctx) = (ans, resp)"
      by (cases "next_handler e (reval_request e t (varInfo ctx) (cr ctx)) new_writer (cNow ctx)")
    show ?thesis
    proof (cases ans)
      case A: None
      let ?res = "no_result\<lparr>frIsFallback := True, frFallback := Some \<lparr>fbVarInfo = v, fbBody = sb, fbMeta = cmeta ctx\<rparr>\<rparr>"
      have "revalidate_flight e ops sb ctx t = (Some ?res, ctx\<lparr>cNow := resp\<rparr>, t)"
        using None n A assms(4) by (simp add: revalidate_flight_def)
      moreover have "fine_result ?res" using v by (simp add: fine_result_def no_result_def)
      ultimately show ?thesis using assms(1,6) by simp
    next
      case (Some rec)
      have c: "valid_status (rec_Code rec)" using assms(2) n Some unfolding valid_origin_def by blast
      have f: "\<exists>res. r' = Some res \<and> fine_result res \<and> esiProcessor t2 = None \<and> cw c2 = cw ctx"
        if "fetched_result e ops (ctx\<lparr>cNow := resp\<rparr>) t (rec_Code rec) h b q resp = (r', c2, t2)" for r' c2 t2 h b q
        using that c assms(1) by (auto simp: fetched_result_def inspect_no_esi fine_result_def no_result_def saveVariantToStorage_def Let_def)
      have h: "\<exists>res. r' = Some res \<and> fine_result res \<and> esiProcessor t2 = None \<and> cw c2 = cw ctx"
        if "handle_304 e ops ctx t v sb h q resp = (r', c2, t2)" for r' c2 t2 h q
        using that v assms(1) merge_304_keeps(1)
        by (auto simp: handle_304_def fine_result_def no_result_def Let_def split: prod.splits)
      show ?thesis using None n Some assms(1,4,6) v c f h
        by (auto simp: revalidate_flight_def fine_result_def no_result_def Let_def split: if_splits)
    qed
  qed
qed

text \<open>What holds in each state of a request whose metadata were found, without ESI.\<close>

fun ready :: "state \<Rightarrow> requestContext \<Rightarrow> bool" where
  "ready CheckBypass ctx = False"
| "ready LookupMetadata ctx = False"
| "ready BypassOrigin ctx = False"
| "ready MatchVariant ctx = (\<exists>m. cmeta ctx = Some m \<and> (\<forall>vk v. map_of (Variants m) vk = Some v \<longrightarrow> sound_variant v))"
| "ready FetchOriginMiss ctx = True"
| "ready Serve412 ctx = True"
| "ready _ ctx = (cmeta ctx \<noteq> None \<and> (\<exists>v. varInfo ctx = Some v \<and> sound_variant v))"

definition going :: "'s Storage \<Rightarrow> state \<Rightarrow> requestContext \<Rightarrow> 's Titip \<Rightarrow> bool" where
  "going ops st ctx t \<longleftrightarrow> esiProcessor t = None \<and> ready st ctx \<and> valid_ctx ctx \<and>
     (st \<noteq> FetchOriginMiss \<longrightarrow> sound_reads ops (tStore t) (primaryKey ctx))"

lemma loaded_sound:
  assumes "loadDecompressed ops now pk vk t = (Some (v, b), t')" "sound_reads ops (tStore t) pk"
  shows "sound_variant v"
proof -
  obtain z where "opGetVariant ops now (tStore t) pk vk = Inr (Some (Some v, z))"
    using assms(1) by (auto simp: loadDecompressed_def split: sum.splits option.splits prod.splits if_splits)
  then show ?thesis by (rule sound_readsD(2) [OF assms(2)])
qed

lemma loaded_processor: "loadDecompressed ops now pk vk t = (x, t') \<Longrightarrow> esiProcessor t' = esiProcessor t"
  by (auto dest: load_changes)

lemma step_going:
  assumes "joined e = None" "valid_origin e" and "going ops st ctx t" and "step e ops st ctx t = (out, ctx', t')"
  shows "out \<noteq> Crash \<and> valid_ctx ctx' \<and> (\<forall>st'. out = Goto st' \<longrightarrow> going ops st' ctx' t')"
proof (cases st)
  case MatchVariant
  then show ?thesis using assms
    by (auto simp: step_simps going_def stateMatchVariant_def end_defs Let_def intro!: valid_ctx_write split: option.splits if_splits)
next
  case EvaluateFreshness
  then show ?thesis using assms
    by (auto simp: step_simps going_def stateEvaluateFreshness_def end_defs Let_def intro!: valid_ctx_write split: option.splits if_splits)
next
  case ServeCachedHit
  then show ?thesis using assms
    by (auto simp: step_simps going_def stateServeCachedHit_def has_esi_def sound_variant_def end_defs Let_def
        dest: loaded_sound loaded_processor intro!: valid_ctx_write split: option.splits if_splits prod.splits)
next
  case ServeSWR
  then show ?thesis using assms
    by (auto simp: step_simps going_def stateServeSWR_def has_esi_def sound_variant_def end_defs Let_def
        dest: loaded_sound loaded_processor intro!: valid_ctx_write split: option.splits if_splits prod.splits)
next
  case FetchOriginMiss
  have c: "valid_status (rec_Code rec)" if "next_handler e r new_writer now = (Some rec, resp)" for r now rec resp
    using assms(2) that unfolding valid_origin_def by blast
  show ?thesis using FetchOriginMiss assms
    by (auto simp: step_simps going_def stateFetchOriginMiss_def inspect_no_esi end_defs Let_def
        intro!: valid_ctx_write valid_serve_miss dest: c split: option.splits if_splits prod.splits)
next
  case FetchOriginRevalidate
  obtain v where v: "varInfo ctx = Some v" "sound_variant v" using assms(3) FetchOriginRevalidate by (auto simp: going_def)
  obtain r c1 t1 where f: "revalidate_flight e ops (stale_body ops ctx t) ctx t = (r, c1, t1)" by (metis prod_cases3)
  have g: "esiProcessor t = None" "valid_ctx ctx" "sound_reads ops (tStore t) (primaryKey ctx)"
    using assms(3) FetchOriginRevalidate by (simp_all add: going_def)
  from flight_fine [OF g(1) assms(2) g(3) v f] obtain res where "r = Some res" "fine_result res" "esiProcessor t1 = None" "cw c1 = cw ctx" by blast
  then show ?thesis using FetchOriginRevalidate assms(1,4) f g(2)
    by (auto simp: step_simps stateFetchOriginRevalidate_def end_defs intro: valid_serve_flight)
qed (use assms in \<open>auto simp: step_simps going_def stateServe304_def stateServe412_def end_defs intro!: valid_ctx_write split: option.splits\<close>)

lemma serve_going:
  "joined e = None \<Longrightarrow> valid_origin e \<Longrightarrow> going ops st ctx t \<Longrightarrow> \<exists>ctx' t'. serve_from e ops st ctx t = (Done, ctx', t') \<and> valid_ctx ctx'"
proof (induction "rank st" arbitrary: st ctx t rule: less_induct)
  case less
  obtain out ctx' t' where s: "step e ops st ctx t = (out, ctx', t')" by (metis prod_cases3)
  note r = step_going [OF less(2-4) s]
  show ?case
  proof (cases out)
    case (Goto st')
    note g = s [unfolded Goto]
    have "going ops st' ctx' t'" using r Goto by blast
    from less(1) [OF step_rank [OF g] less(2,3) this] show ?thesis by (simp add: serve_from_Goto [OF g])
  qed (use s r in \<open>simp_all add: serve_from_Done\<close>)
qed

text \<open>
  Property C8. A panic of the origin does not leave the middleware: once a plain request has its lookup
  answered by the backend, serving it returns normally whether the origin answers or panics, and the
  status it writes, if any, is one that \<^verbatim>\<open>net/http\<close> accepts. This is without ESI, for a request that leads
  its own flight, for an origin whose recorded statuses are from 200 to 999, and for stored responses
  with such a status and some header.
\<close>

theorem panic_contained:
  assumes "plain_request r" and "\<not> respectClientCacheControl (tConfig t)" and "esiProcessor t = None" and "joined e = None"
    and "opGetMeta ops now (tStore t) (generatePrimaryKey r (Some (cacheKey (tConfig t)))) = Inr (mo, sp)"
    and "sound_reads ops (tStore t) (generatePrimaryKey r (Some (cacheKey (tConfig t))))" and "valid_origin e" and "valid_writer w"
  shows "\<exists>w' now' t'. ServeHTTP e ops now t w r = (Some w', now', t') \<and> valid_writer w'"
proof -
  let ?c = "acquireRequestContext w r now"
  have 1: "step e ops CheckBypass ?c t = (Goto LookupMetadata, ?c, t)"
    using assms(1,2) by (simp add: step_simps stateCheckBypass_plain)
  obtain st ctx where 2: "step e ops LookupMetadata ?c t = (Goto st, ctx, t)" "going ops st ctx t"
  proof (cases mo)
    case None
    then show ?thesis using assms(3,5,8) that [of FetchOriginMiss]
      by (auto simp: step_simps stateLookupMetadata_def only_if_cached_def going_def Let_def)
  next
    case (Some m)
    then have "\<forall>vk v. map_of (Variants m) vk = Some v \<longrightarrow> sound_variant v" using sound_readsD(1) [OF assms(6)] assms(5) by blast
    then show ?thesis using Some assms(3,5,6,8) that [of MatchVariant]
      by (auto simp: step_simps stateLookupMetadata_def going_def Let_def)
  qed
  obtain ctx' t' where "serve_from e ops CheckBypass ?c t = (Done, ctx', t')" "valid_ctx ctx'"
    using serve_going [OF assms(4,7) 2(2)] by (auto simp: serve_from_Goto [OF 1] serve_from_Goto [OF 2(1)])
  then show ?thesis by (auto dest: ServeHTTP_Done)
qed

definition panic_origin :: handler where
  "panic_origin r w now = (None, now + 5)"

lemma panic_contained_witness:
  "\<exists>w' now' t'. ServeHTTP (demo_henv panic_origin) teststore 1 demo_titip new_writer demo_get = (Some w', now', t') \<and> valid_writer w'"
proof -
  have "sound_reads teststore (tStore demo_titip) pk" for pk
    by (simp add: sound_reads_def teststore_def demo_NewStore_miss NewStore_def GetMeta_def GetVariant_def)
  moreover have "valid_origin (demo_henv panic_origin)" by (simp add: valid_origin_def panic_origin_def)
  moreover have "valid_writer new_writer" by (simp add: valid_writer_def)
  ultimately show ?thesis
    by (intro panic_contained [where mo = None and sp = False]) (simp_all add: demo_get_plain teststore_def demo_NewStore_miss)
qed

text \<open>
  What the client then gets may be nothing: when the origin panics on a revalidation and the stale
  body cannot be read or decoded, the fallback is abandoned and no status is written.
\<close>

lemma panic_without_stale_body:
  assumes "joined e = None" "already_refreshed ops ctx t = None" "varInfo ctx = Some v"
    and "next_handler e (reval_request e t (Some v) (cr ctx)) new_writer (cNow ctx) = (None, respTime)"
    and "fallback_body t \<lparr>fbVarInfo = v, fbBody = stale_body ops ctx t, fbMeta = cmeta ctx\<rparr> = None"
  shows "stateFetchOriginRevalidate e ops ctx t = stop (ctx\<lparr>cNow := respTime\<rparr>) t"
  using assms
  by (simp add: stateFetchOriginRevalidate_def revalidate_flight_def serve_flight_def serve_fetched_def no_result_def Let_def)

section \<open>Revalidation\<close>

text \<open>An entry that may not be served before the origin has been asked.\<close>

definition needs_revalidation :: "gotime \<Rightarrow> CacheMetadata \<Rightarrow> bool \<Rightarrow> bool" where
  "needs_revalidation now m sp \<longleftrightarrow> sp \<or> (ExpiresAtUnixNano m < UnixNano now \<and>
     \<not> (StaleUntilUnixNano m > ExpiresAtUnixNano m \<and> UnixNano now \<le> StaleUntilUnixNano m))"

text \<open>A plain request that finds such an entry, and the context with which it goes to the origin.\<close>

definition stale_found ::
    "'s Storage \<Rightarrow> gotime \<Rightarrow> 's Titip \<Rightarrow> Request \<Rightarrow> CacheMetadata \<Rightarrow> bool \<Rightarrow> bytes \<Rightarrow> VariantInfo \<Rightarrow> bytes \<Rightarrow> bool" where
  "stale_found ops now t r m sp vk v z \<longleftrightarrow> plain_request r \<and> \<not> respectClientCacheControl (tConfig t) \<and>
     opGetMeta ops now (tStore t) (generatePrimaryKey r (Some (cacheKey (tConfig t)))) = Inr (Some m, sp) \<and>
     vk = (if generateVariantKey r (VaryHeaderNames m) = [] then defaultVariantKey else generateVariantKey r (VaryHeaderNames m)) \<and>
     map_of (Variants m) vk = Some v \<and> needs_revalidation now m sp \<and>
     opGetVariant ops now (tStore t) (generatePrimaryKey r (Some (cacheKey (tConfig t)))) vk = Inr (Some (Some v, z)) \<and> z \<noteq> []"

definition stale_ctx :: "gotime \<Rightarrow> 's Titip \<Rightarrow> writer \<Rightarrow> Request \<Rightarrow> CacheMetadata \<Rightarrow> bool \<Rightarrow> VariantInfo \<Rightarrow> requestContext" where
  "stale_ctx now t w r m sp v = (looked_up (acquireRequestContext w r now) (tConfig t) m sp v)\<lparr>nowNano := UnixNano now\<rparr>"

lemma stale_ctx_simps [simp]:
  "cw (stale_ctx now t w r m sp v) = w" "cr (stale_ctx now t w r m sp v) = r" "cNow (stale_ctx now t w r m sp v) = now"
  "cmeta (stale_ctx now t w r m sp v) = Some m" "varInfo (stale_ctx now t w r m sp v) = Some v"
  "primaryKey (stale_ctx now t w r m sp v) = generatePrimaryKey r (Some (cacheKey (tConfig t)))"
  by (simp_all add: stale_ctx_def looked_up_def Let_def)

lemma stale_ctx_variantKey: "stale_found ops now t r m sp vk v z \<Longrightarrow> variantKey (stale_ctx now t w r m sp v) = vk"
  by (simp add: stale_found_def stale_ctx_def looked_up_def Let_def)

lemma revalidate_steps:
  assumes "stale_found ops now t r m sp vk v z"
  shows "serve_from e ops CheckBypass (acquireRequestContext w r now) t =
    serve_from e ops FetchOriginRevalidate (stale_ctx now t w r m sp v) t"
proof -
  let ?c = "looked_up (acquireRequestContext w r now) (tConfig t) m sp v"
  have "step e ops EvaluateFreshness ?c t = (Goto FetchOriginRevalidate, stale_ctx now t w r m sp v, t)"
    using assms
    by (auto simp: step_simps stateEvaluateFreshness_def looked_up_def stale_ctx_def stale_found_def needs_revalidation_def Let_def)
  moreover have "serve_from e ops CheckBypass (acquireRequestContext w r now) t = serve_from e ops EvaluateFreshness ?c t"
    using assms by (intro serve_from_lookup) (auto simp: stale_found_def)
  ultimately show ?thesis by (simp add: serve_from_Goto)
qed

lemma stale_not_refreshed:
  assumes "stale_found ops now t r m sp vk v z"
  shows "already_refreshed ops (stale_ctx now t w r m sp v) t = None"
proof -
  have "sp \<or> \<not> ExpiresAtUnixNano m > UnixNano now"
    using assms by (auto simp: stale_found_def needs_revalidation_def)
  then show ?thesis
    using assms by (cases sp) (auto simp: already_refreshed_def stale_found_def)
qed

lemma stale_found_body:
  assumes "stale_found ops now t r m sp vk v z"
  shows "stale_body ops (stale_ctx now t w r m sp v) t = z"
proof -
  have "opGetVariant ops now (tStore t) (generatePrimaryKey r (Some (cacheKey (tConfig t)))) vk = Inr (Some (Some v, z))"
    using assms unfolding stale_found_def by blast
  then show ?thesis by (simp add: stale_body_def stale_ctx_variantKey [OF assms])
qed

lemma ServeHTTP_revalidate:
  assumes "stale_found ops now t r m sp vk v z" and "joined e = None"
    and "revalidate_flight e ops z (stale_ctx now t w r m sp v) t = (Some res, ctx', t')"
  shows "ServeHTTP e ops now t w r = (Some (cw (serve_flight e t' (othersJoined e) res ctx')), cNow (serve_flight e t' (othersJoined e) res ctx'), t')"
proof -
  have "step e ops FetchOriginRevalidate (stale_ctx now t w r m sp v) t = (Done, serve_flight e t' (othersJoined e) res ctx', t')"
    using assms by (simp add: step_simps stateFetchOriginRevalidate_def stale_found_body stop_def)
  then show ?thesis
    using revalidate_steps [OF assms(1), of e w] by (intro ServeHTTP_Done) (simp add: serve_from_Done)
qed

text \<open>Serving a stored body without ESI.\<close>

lemma age_from_simps [simp]:
  "cr (age_from m ctx) = cr ctx" "cNow (age_from m ctx) = cNow ctx" "wCode (cw (age_from m ctx)) = wCode (cw ctx)"
  "wBody (cw (age_from m ctx)) = wBody (cw ctx)"
  by (simp_all add: age_from_def set_age_def split: option.splits)

lemma serve_fallback_writer:
  assumes "esiProcessor t = None" and "Method (cr ctx) = ''GET''" and "wCode (cw ctx) = None" and "wBody (cw ctx) = []"
  shows "wCode (cw (serve_fallback e t sh res fb b ctx)) = Some (StatusCode (fbVarInfo fb)) \<and>
    wBody (cw (serve_fallback e t sh res fb b ctx)) = b \<and> cNow (serve_fallback e t sh res fb b ctx) = cNow ctx"
  using assms
  by (simp add: serve_fallback_def has_esi_def write_body_def write_status_def copyProtoHeaders_def WriteHeader_fresh Write_after Let_def)

definition stored_body :: "'s Titip \<Rightarrow> VariantInfo \<Rightarrow> bytes \<Rightarrow> bytes \<Rightarrow> bool" where
  "stored_body t v z b \<longleftrightarrow> (\<exists>c. map_of (compressors (tConfig t)) (codec_name v) = Some c \<and> Decompress c z = Some b) \<and>
     int (length b) = RawBodySize v"

lemma fallback_body_stored: "stored_body t v z b \<Longrightarrow> fallback_body t \<lparr>fbVarInfo = v, fbBody = z, fbMeta = mo\<rparr> = Some b"
  by (auto simp: stored_body_def fallback_body_def)

text \<open>What a failing origin leads to, whatever the stored response says about serving it stale.\<close>

lemma error_serves_stale:
  assumes "stale_found ops now t r m sp vk v z" and "joined e = None" and "esiProcessor t = None" and "Method r = ''GET''"
    and "stored_body t v z b"
    and "next_handler e (reval_request e t (Some v) r) new_writer now = (ans, resp)"
    and "case ans of None \<Rightarrow> True | Some rec \<Rightarrow> rec_Code rec \<ge> 500"
  shows "\<exists>w'. ServeHTTP e ops now t new_writer r = (Some w', resp, t) \<and> wCode w' = Some (StatusCode v) \<and> wBody w' = b"
proof -
  let ?c = "stale_ctx now t new_writer r m sp v" and ?fb = "\<lparr>fbVarInfo = v, fbBody = z, fbMeta = Some m\<rparr>"
  have "z \<noteq> []" using assms(1) by (simp add: stale_found_def)
  then obtain res where fl: "revalidate_flight e ops z ?c t = (Some res, ?c\<lparr>cNow := resp\<rparr>, t)"
    and res: "frIsFallback res" "\<not> frIs304Origin res" "frFallback res = Some ?fb"
    using assms(6,7) stale_not_refreshed [OF assms(1), of new_writer]
    by (cases ans) (auto simp: revalidate_flight_def no_result_def Let_def)
  have "serve_flight e t (othersJoined e) res (?c\<lparr>cNow := resp\<rparr>) = serve_fallback e t (othersJoined e) res ?fb b (?c\<lparr>cNow := resp\<rparr>)"
    using res by (simp add: serve_flight_def fallback_body_stored [OF assms(5)])
  then show ?thesis
    using ServeHTTP_revalidate [OF assms(1,2) fl] assms(3,4) serve_fallback_writer [of t "?c\<lparr>cNow := resp\<rparr>" e "othersJoined e" res ?fb b]
    by simp
qed

text \<open>The directives of a stored response do not forbid serving it stale.\<close>

definition may_serve_stale :: "goenv \<Rightarrow> VariantInfo \<Rightarrow> bool" where
  "may_serve_stale env v =
     (case ParseResponseCacheControl env (extractTieredCacheControl (ResponseHeaders v)) of
        None \<Rightarrow> True
      | Some d \<Rightarrow> \<not> MustRevalidate d \<and> \<not> ProxyRevalidate d)"

text \<open>
  Property C6. Stale if error: when an expired or soft-purged entry that has a body and says neither
  \<^verbatim>\<open>must-revalidate\<close> nor \<^verbatim>\<open>proxy-revalidate\<close> is revalidated and the origin panics or answers with a status
  of 500 or more, the client gets the stored status and body, and the instance and its storage stay
  as they are.
\<close>

theorem stale_if_error:
  assumes "stale_found ops now t r m sp vk v z" and "joined e = None" and "esiProcessor t = None" and "Method r = ''GET''"
    and "stored_body t v z b" and "may_serve_stale (genv e) v"
    and "next_handler e (reval_request e t (Some v) r) new_writer now = (ans, resp)"
    and "case ans of None \<Rightarrow> True | Some rec \<Rightarrow> rec_Code rec \<ge> 500"
  shows "\<exists>w'. ServeHTTP e ops now t new_writer r = (Some w', resp, t) \<and> wCode w' = Some (StatusCode v) \<and> wBody w' = b"
  by (rule error_serves_stale [OF assms(1-5,7,8)])

text \<open>The demonstration entry is stale after a minute.\<close>

abbreviation demo_key :: bytes where
  "demo_key \<equiv> generatePrimaryKey demo_get (Some zero_CacheKey)"

definition demo_stale :: "Store Titip" where
  "demo_stale = demo_saved\<lparr>tStore := snd (Purge 150 (tStore demo_saved) demo_key True)\<rparr>"

definition demo_variant_stale :: VariantInfo where
  "demo_variant_stale = new_variant demo_env demo_config [] 200 demo_get demo_fresh ''hello'' []"

lemma demo_stale_simps [simp]:
  "tConfig demo_stale = demo_config" "esiProcessor demo_stale = None" "\<not> tClosed demo_stale"
  by (simp_all add: demo_stale_def demo_saved_def)

lemma demo_vary: "new_variant_key demo_get [] (extractVaryHeaderNames demo_fresh) = ''default''"
    "generateVariantKey demo_get (extractVaryHeaderNames demo_fresh) = []"
  by code_simp+

lemma demo_encode: "encode_body demo_config demo_fresh ''hello'' = (''hello'', ''none'')"
  by code_simp

lemma demo_saved_reads:
  "\<exists>vs. GetMeta 200 (tStore demo_saved) demo_key =
       Inr (Some ((new_meta demo_config demo_key demo_fresh demo_freshness 105)\<lparr>Variants := vs\<rparr>), False) \<and>
     map_of vs ''default'' = Some demo_variant_stale"
  "GetVariant 200 (tStore demo_saved) demo_key ''default'' = Inr (Some (Some demo_variant_stale, ''hello''))"
  "usable (tStore demo_saved)"
proof -
  have "200 < tadd 105 (storage_ttl demo_freshness)"
    using storage_ttl_ge [OF demo_env_ok demo_freshness_def] demo_freshness_vals(2) by (simp add: tadd_def)
  from ts.saved_lookup [OF _ TrueI _ this demo_saved_def]
  show "\<exists>vs. GetMeta 200 (tStore demo_saved) demo_key =
       Inr (Some ((new_meta demo_config demo_key demo_fresh demo_freshness 105)\<lparr>Variants := vs\<rparr>), False) \<and>
     map_of vs ''default'' = Some demo_variant_stale"
    "GetVariant 200 (tStore demo_saved) demo_key ''default'' = Inr (Some (Some demo_variant_stale, ''hello''))"
    "usable (tStore demo_saved)"
    by (simp_all add: teststore_def demo_vary demo_encode demo_variant_stale_def)
qed

lemma demo_stale_found: "\<exists>m. stale_found teststore 200 demo_stale demo_get m True ''default'' demo_variant_stale ''hello''"
proof -
  obtain vs where g: "GetMeta 200 (tStore demo_saved) demo_key =
       Inr (Some ((new_meta demo_config demo_key demo_fresh demo_freshness 105)\<lparr>Variants := vs\<rparr>), False)"
    and vs: "map_of vs ''default'' = Some demo_variant_stale" using demo_saved_reads(1) by blast
  let ?m = "(new_meta demo_config demo_key demo_fresh demo_freshness 105)\<lparr>Variants := vs\<rparr>"
  obtain n where "Purge 150 (tStore demo_saved) demo_key True = (Inr n, tStore demo_stale)"
    using Purge_usable [OF demo_saved_reads(3), of 150 demo_key True] by (auto simp: demo_stale_def)
  from Purge_soft [OF demo_saved_reads(3) this g, of "''default''"] demo_saved_reads(2)
  have "GetMeta 200 (tStore demo_stale) demo_key = Inr (Some ?m, True)"
    "GetVariant 200 (tStore demo_stale) demo_key ''default'' = Inr (Some (Some demo_variant_stale, ''hello''))" by simp_all
  then have "stale_found teststore 200 demo_stale demo_get ?m True ''default'' demo_variant_stale ''hello''"
    using vs demo_get_plain by (simp add: stale_found_def teststore_def needs_revalidation_def defaultVariantKey_def demo_vary)
  then show ?thesis by (rule exI [of _ ?m])
qed

lemma demo_stored_body: "stored_body demo_stale demo_variant_stale ''hello'' ''hello''"
proof -
  have "codec_name demo_variant_stale = ''none''" by (simp add: codec_name_def demo_variant_stale_def demo_encode)
  moreover have "map_of (compressors demo_config) ''none'' = Some noneCompressor" by (simp add: demo_config_def default_config_def)
  ultimately show ?thesis by (simp add: stored_body_def noneCompressor_def demo_variant_stale_def)
qed

lemma demo_status: "StatusCode demo_variant_stale = 200"
  by (simp add: demo_variant_stale_def)

lemma stale_if_error_witness:
  "\<exists>w'. ServeHTTP (demo_henv panic_origin) teststore 200 demo_stale new_writer demo_get = (Some w', 205, demo_stale) \<and>
     wCode w' = Some 200 \<and> wBody w' = ''hello''"
proof -
  obtain m where "stale_found teststore 200 demo_stale demo_get m True ''default'' demo_variant_stale ''hello''"
    using demo_stale_found by (elim exE)
  moreover have "may_serve_stale demo_env demo_variant_stale" by code_simp
  ultimately show ?thesis
    using stale_if_error [of teststore 200 demo_stale demo_get m True "''default''" demo_variant_stale "''hello''"
      "demo_henv panic_origin" "''hello''" None 205] demo_get_plain(2) demo_stored_body
    by (simp add: panic_origin_def demo_status)
qed

text \<open>
  The fallback does not look at the stored directives: an entry that must be revalidated is served stale
  as well.
\<close>

lemma must_revalidate_served_stale:
  "\<exists>env w'. (\<forall>s. \<exists>d. ParseResponseCacheControl env s = Some d \<and> MustRevalidate d) \<and>
     ServeHTTP ((demo_henv panic_origin)\<lparr>genv := env\<rparr>) teststore 200 demo_stale new_writer demo_get = (Some w', 205, demo_stale) \<and>
     wBody w' = ''hello''"
proof -
  let ?env = "demo_env\<lparr>ParseResponseCacheControl := (\<lambda>s. Some (no_directives\<lparr>MustRevalidate := True\<rparr>))\<rparr>"
  obtain m where "stale_found teststore 200 demo_stale demo_get m True ''default'' demo_variant_stale ''hello''"
    using demo_stale_found by (elim exE)
  from error_serves_stale [OF this, of "(demo_henv panic_origin)\<lparr>genv := ?env\<rparr>" "''hello''" None 205] demo_get_plain(2) demo_stored_body
  show ?thesis by (intro exI [of _ ?env]) (auto simp: panic_origin_def demo_henv_def)
qed

context storage_contract
begin

lemma save_up: "up (tStore t) \<Longrightarrow> fits pk (new_meta (tConfig t) pk h f resp) (new_variant env (tConfig t) vk code r h b fs) \<Longrightarrow> up (tStore (saveVariantToStorage env ops pk vk code r h b fs f resp t))"
  using set_up [of "tStore t" pk "new_meta (tConfig t) pk h f resp" "new_variant env (tConfig t) vk code r h b fs" resp
      "fst (encode_body (tConfig t) h b)" "storage_ttl f"]
  by (auto simp: saveVariantToStorage_def)

lemma refreshed_by_304:
  assumes "up (tStore t)" and sf: "stale_found ops now t r m sp vk v z"
    and cfg: "joined e = None" "esiProcessor t = None" "\<not> tClosed t"
    and req: "Method r = ''GET''" "unconditional r" and body: "stored_body t v z b"
    and origin: "next_handler e (reval_request e t (Some v) r) new_writer now = (Some rec, resp)" "rec_Code rec = 304"
    and hdr: "ResponseHeaders v \<noteq> []" "merge_304 (genv e) (wHeader rec) v = (merged, v')"
    and f: "f = calculateFreshness (genv e) resp 200 (rHeader r) merged now resp resp" "EffectiveTTL f > 0"
    and later: "resp \<le> later" "later < tadd resp (life (storage_ttl f))"
    and fit: "fits (generatePrimaryKey r (Some (cacheKey (tConfig t))))
      (refresh_meta f resp (m\<lparr>Variants := AList.update (variantKey (stale_ctx now t new_writer r m sp v)) v' (Variants m)\<rparr>)) v'"
  shows "\<exists>w' t' m'. ServeHTTP e ops now t new_writer r = (Some w', resp, t') \<and> wCode w' = Some (StatusCode v) \<and> wBody w' = b \<and>
      opGetMeta ops later (tStore t') (generatePrimaryKey r (Some (cacheKey (tConfig t)))) = Inr (Some m', False) \<and>
        ExpiresAtUnixNano m' = UnixNano (tadd resp (EffectiveTTL f)) \<and>
        map_of (Variants m') (variant_key (VariantKey v)) = Some (keyed v') \<and>
      opGetVariant ops later (tStore t') (generatePrimaryKey r (Some (cacheKey (tConfig t)))) (VariantKey v) = Inr (Some (Some (keyed v'), z))"
proof -
  let ?pk = "generatePrimaryKey r (Some (cacheKey (tConfig t)))"
  let ?c = "stale_ctx now t new_writer r m sp v"
  let ?m = "refresh_meta f resp (m\<lparr>Variants := AList.update (variantKey ?c) v' (Variants m)\<rparr>)"
  let ?fb = "\<lparr>fbVarInfo = v', fbBody = z, fbMeta = Some ?m\<rparr>"
  let ?c' = "?c\<lparr>cmeta := Some ?m, varInfo := Some v', cNow := resp\<rparr>"
  let ?res = "no_result\<lparr>frStatusCode := 200, frIs304Origin := True, frFallback := Some ?fb\<rparr>"
  obtain s' where s': "opSetVariant ops resp (tStore t) ?pk (Some ?m) (Some v') z (storage_ttl f) = (None, s')" "up s'"
    using set_up [OF assms(1) fit] by blast
  have "z \<noteq> []" using sf by (simp add: stale_found_def)
  then have fl: "revalidate_flight e ops z ?c t = (Some ?res, ?c', t\<lparr>tStore := s'\<rparr>)"
    using origin hdr f cfg(3) s'(1) stale_not_refreshed [OF sf, of new_writer]
    by (simp add: revalidate_flight_def handle_304_def Let_def)
  note k = merge_304_keeps [OF hdr(2)]
  have "stored_body (t\<lparr>tStore := s'\<rparr>) v' z b"
    using body by (simp only: stored_body_def codec_name_def k) simp
  then have "serve_flight e (t\<lparr>tStore := s'\<rparr>) (othersJoined e) ?res ?c' =
      serve_fallback e (t\<lparr>tStore := s'\<rparr>) (othersJoined e) ?res ?fb b ?c'"
    using unconditional_proceeds [OF req(2)] by (simp add: serve_flight_def evaluatePreconditions_def fallback_body_stored no_result_def)
  then have "\<exists>w'. ServeHTTP e ops now t new_writer r = (Some w', resp, t\<lparr>tStore := s'\<rparr>) \<and> wCode w' = Some (StatusCode v) \<and> wBody w' = b"
    using ServeHTTP_revalidate [OF sf cfg(1) fl] cfg(2) req(1) k(1)
      serve_fallback_writer [of "t\<lparr>tStore := s'\<rparr>" ?c' e "othersJoined e" ?res ?fb b] by simp
  moreover obtain vs where "opGetMeta ops later s' ?pk = Inr (Some (?m\<lparr>Variants := vs\<rparr>), False)"
      "map_of vs (variant_key (VariantKey v)) = Some (keyed v')"
    using get_meta_set [OF assms(1) fit s'(1) later] by (auto simp: k(4))
  moreover have "ExpiresAtUnixNano (?m\<lparr>Variants := vs\<rparr>) = UnixNano (tadd resp (EffectiveTTL f))"
    by (simp add: refresh_meta_def Let_def)
  moreover have "opGetVariant ops later s' ?pk (VariantKey v) = Inr (Some (Some (keyed v'), z))"
    using get_variant_set [OF assms(1) fit s'(1) later, of "VariantKey v"] by (simp add: k(4))
  ultimately show ?thesis by fastforce
qed

end

text \<open>
  Property C7. Revalidation with a 304 whose header, merged with the stored one, lets the response be
  stored and gives it a positive time to live: the client gets the stored status and body, which is not
  empty, and the entry, with the merged header and its soft-purge mark cleared, is fresh in the storage
  again for that time.
\<close>

theorem not_modified_refreshes:
  assumes "usable (tStore t)" and "stale_found teststore now t r m sp vk v z"
    and "joined e = None" "esiProcessor t = None" "\<not> tClosed t" and "Method r = ''GET''" "unconditional r" and "stored_body t v z b"
    and "next_handler e (reval_request e t (Some v) r) new_writer now = (Some rec, resp)" "rec_Code rec = 304"
    and "ResponseHeaders v \<noteq> []" "merge_304 (genv e) (wHeader rec) v = (merged, v')"
    and "f = calculateFreshness (genv e) resp 200 (rHeader r) merged now resp resp" "IsCacheable f" "EffectiveTTL f > 0"
    and "resp \<le> later" "later < tadd resp (storage_ttl f)"
  shows "\<exists>w' t' m'. ServeHTTP e teststore now t new_writer r = (Some w', resp, t') \<and> wCode w' = Some (StatusCode v) \<and> wBody w' = b \<and>
      GetMeta later (tStore t') (generatePrimaryKey r (Some (cacheKey (tConfig t)))) = Inr (Some m', False) \<and>
        ExpiresAtUnixNano m' = UnixNano (tadd resp (EffectiveTTL f)) \<and>
        map_of (Variants m') (variant_key (VariantKey v)) = Some (keyed v') \<and>
      GetVariant later (tStore t') (generatePrimaryKey r (Some (cacheKey (tConfig t)))) (VariantKey v) = Inr (Some (Some (keyed v'), z))"
  using ts.refreshed_by_304 [OF assms(1-13,15-) TrueI] by (simp add: teststore_def)

definition demo_merged :: "goenv \<Rightarrow> Header" where
  "demo_merged env = fst (merge_304 env demo_fresh demo_variant_stale)"

lemma demo_stale_usable: "usable (tStore demo_stale)"
  using Purge_usable [OF demo_saved_reads(3), of 150 demo_key True] by (auto simp: demo_stale_def)

lemma demo_headers: "ResponseHeaders demo_variant_stale \<noteq> []"
  by code_simp

lemma not_modified_refreshes_witness:
  "\<exists>w' t' m'. ServeHTTP (demo_henv (demo_origin 304 demo_fresh [])) teststore 200 demo_stale new_writer demo_get = (Some w', 205, t') \<and>
     wCode w' = Some 200 \<and> wBody w' = ''hello'' \<and> GetMeta 1000 (tStore t') demo_key = Inr (Some m', False)"
proof -
  obtain md where sf: "stale_found teststore 200 demo_stale demo_get md True ''default'' demo_variant_stale ''hello''"
    using demo_stale_found by (elim exE)
  let ?e = "demo_henv (demo_origin 304 demo_fresh [])" and ?rec = "demo_response 304 demo_fresh []"
  let ?f = "calculateFreshness (genv ?e) 205 200 (rHeader demo_get) (demo_merged demo_env) 200 205 205"
  have o1: "next_handler ?e (reval_request ?e demo_stale (Some demo_variant_stale) demo_get) new_writer 200 = (Some ?rec, 205)"
    by (simp add: demo_origin_def)
  have m: "merge_304 (genv ?e) (wHeader ?rec) demo_variant_stale = (demo_merged demo_env, snd (merge_304 demo_env demo_fresh demo_variant_stale))"
    by (simp add: demo_merged_def)
  have "EffectiveTTL (calculateFreshness demo_env 205 200 (rHeader demo_get) (demo_merged demo_env) 200 205 205) = 59999999995" by code_simp
  then have ttl: "EffectiveTTL ?f = 59999999995" by simp
  then have "1000 < tadd 205 (storage_ttl ?f)"
    using storage_ttl_ge [OF _ refl, of "genv ?e" 205 200 "rHeader demo_get" "demo_merged demo_env" 200 205 205]
    by (simp add: demo_env_ok tadd_def)
  moreover have "IsCacheable (calculateFreshness demo_env 205 200 (rHeader demo_get) (demo_merged demo_env) 200 205 205)" by code_simp
  ultimately show ?thesis
    using ttl not_modified_refreshes [OF demo_stale_usable sf _ _ _ demo_get_plain(2,3) demo_stored_body o1 _ demo_headers m refl, of 1000]
    by (auto simp: demo_status)
qed

text \<open>
  The refresh does not ask whether the response may be stored: a 304 whose header
  says \<^verbatim>\<open>no-store\<close> beside a lifetime makes a soft-purged entry fresh again.
\<close>

theorem refresh_ignores_no_store:
  "\<exists>env w' t' m'. (\<forall>s. \<exists>d. ParseResponseCacheControl env s = Some d \<and> NoStore d) \<and>
     ServeHTTP ((demo_henv (demo_origin 304 demo_fresh []))\<lparr>genv := env\<rparr>) teststore 200 demo_stale new_writer demo_get = (Some w', 205, t') \<and>
     GetMeta 1000 (tStore t') demo_key = Inr (Some m', False) \<and> UnixNano 1000 \<le> ExpiresAtUnixNano m'"
proof -
  obtain md where sf: "stale_found teststore 200 demo_stale demo_get md True ''default'' demo_variant_stale ''hello''"
    using demo_stale_found by (elim exE)
  let ?d = "no_directives\<lparr>NoStore := True, MaxAge := 60\<rparr>"
  let ?env = "demo_env\<lparr>ParseResponseCacheControl := (\<lambda>s. Some ?d)\<rparr>"
  let ?e = "(demo_henv (demo_origin 304 demo_fresh []))\<lparr>genv := ?env\<rparr>" and ?rec = "demo_response 304 demo_fresh []"
  let ?f = "calculateFreshness (genv ?e) 205 200 (rHeader demo_get) (demo_merged ?env) 200 205 205"
  have ok: "env_ok (genv ?e)" by (simp add: env_ok_def directives_ok_def no_directives_def)
  have o1: "next_handler ?e (reval_request ?e demo_stale (Some demo_variant_stale) demo_get) new_writer 200 = (Some ?rec, 205)"
    by (simp add: demo_origin_def demo_henv_def)
  have m: "merge_304 (genv ?e) (wHeader ?rec) demo_variant_stale = (demo_merged ?env, snd (merge_304 ?env demo_fresh demo_variant_stale))"
    by (simp add: demo_merged_def)
  have "EffectiveTTL (calculateFreshness ?env 205 200 (rHeader demo_get) (demo_merged ?env) 200 205 205) = 59999999995" by code_simp
  then have ttl: "EffectiveTTL ?f = 59999999995" by simp
  then have "1000 < tadd 205 (storage_ttl ?f)" using storage_ttl_ge [OF ok refl, of 205 200 "rHeader demo_get" "demo_merged ?env" 200 205 205]
    by (simp add: tadd_def)
  moreover have "joined ?e = None" by (simp add: demo_henv_def)
  moreover have "UnixNano 1000 \<le> UnixNano (tadd 205 (EffectiveTTL ?f))" using ttl by (simp add: UnixNano_def tadd_def wrap64_def)
  ultimately have "\<exists>w' t' m'. ServeHTTP ?e teststore 200 demo_stale new_writer demo_get = (Some w', 205, t') \<and>
      GetMeta 1000 (tStore t') demo_key = Inr (Some m', False) \<and> UnixNano 1000 \<le> ExpiresAtUnixNano m'"
    using ttl ts.refreshed_by_304 [OF demo_stale_usable sf _ _ _ demo_get_plain(2,3) demo_stored_body o1 _ demo_headers m refl, of 1000]
    by (auto simp: teststore_def)
  then show ?thesis by (intro exI [of _ ?env]) simp
qed

section \<open>Shutdown\<close>

text \<open>What one step of a closed instance may do to it: soft-purge an entry it could not load.\<close>

lemma closed_flight:
  "tClosed t \<Longrightarrow> revalidate_flight e ops sb ctx t = (res, ctx', t') \<Longrightarrow> t' = t"
  by (auto simp: revalidate_flight_def handle_304_def fetched_result_def may_store_def Let_def
      split: option.splits prod.splits if_splits)

lemma closed_step:
  assumes "tClosed t" and "\<not> isMutatingMethod (Method (cr ctx))" and "step e ops st ctx t = (out, ctx', t')"
  shows "(t' = t \<or> (\<exists>now k. t' = t\<lparr>tStore := snd (opPurge ops now (tStore t) k True)\<rparr>) \<and> out \<in> {Done, Goto FetchOriginMiss}) \<and>
    (\<forall>st'. out = Goto st' \<longrightarrow> cr ctx' = cr ctx)"
proof (cases st)
  case ServeCachedHit
  then show ?thesis using assms
    by (auto simp: step_simps stateServeCachedHit_def end_defs Let_def dest: load_changes split: option.splits if_splits prod.splits)
next
  case ServeSWR
  then show ?thesis using assms
    by (auto simp: step_simps stateServeSWR_def spawnSWR_def end_defs Let_def dest: load_changes split: option.splits if_splits prod.splits)
next
  case FetchOriginRevalidate
  then show ?thesis using assms
    by (auto simp: step_simps stateFetchOriginRevalidate_def end_defs dest!: closed_flight split: option.splits prod.splits)
qed (use assms in \<open>auto simp: step_simps stateCheckBypass_def stateLookupMetadata_def stateMatchVariant_def
      stateEvaluateFreshness_def stateServe304_def stateServe412_def stateFetchOriginMiss_def stateBypassOrigin_def
      may_store_def end_defs Let_def split: option.splits prod.splits if_splits sum.splits\<close>)

lemma closed_serve:
  "tClosed t \<Longrightarrow> \<not> isMutatingMethod (Method (cr ctx)) \<Longrightarrow> snd (snd (serve_from e ops st ctx t)) = t \<or>
     (\<exists>now k. snd (snd (serve_from e ops st ctx t)) = t\<lparr>tStore := snd (opPurge ops now (tStore t) k True)\<rparr>)"
proof (induction "rank st" arbitrary: st ctx rule: less_induct)
  case less
  obtain out ctx' t' where s: "step e ops st ctx t = (out, ctx', t')" by (metis prod_cases3)
  note c = closed_step [OF less(2,3) s]
  show ?case
  proof (cases out)
    case (Goto st')
    note g = s [unfolded Goto]
    show ?thesis
    proof (cases "t' = t")
      case True
      then show ?thesis
        using less(1) [OF step_rank [OF g], of ctx'] c Goto less(2,3) by (simp add: serve_from_Goto [OF g])
    next
      case False
      then obtain now k where p: "t' = t\<lparr>tStore := snd (opPurge ops now (tStore t) k True)\<rparr>" "st' = FetchOriginMiss"
        using c Goto by auto
      obtain out2 c2 t2 where s2: "step e ops FetchOriginMiss ctx' t' = (out2, c2, t2)" by (metis prod_cases3)
      have "tClosed t'" using p(1) less(2) by simp
      moreover have "\<not> isMutatingMethod (Method (cr ctx'))" using c Goto less(3) by simp
      moreover have "\<nexists>st2. out2 = Goto st2" using step_rank [of e ops FetchOriginMiss ctx' t'] s2 by fastforce
      ultimately have "t2 = t'" using s2
        by (auto simp: step_simps stateFetchOriginMiss_def may_store_def end_defs Let_def split: option.splits prod.splits if_splits)
      then have "snd (snd (serve_from e ops FetchOriginMiss ctx' t')) = t'"
        using s2 \<open>\<nexists>st2. out2 = Goto st2\<close> by (cases out2) (auto simp: serve_from_Done serve_from_Crash)
      then show ?thesis using p by (auto simp: serve_from_Goto [OF g])
    qed
  qed (use s c in \<open>auto simp: serve_from_Done serve_from_Crash\<close>)
qed

text \<open>
  Property C11. After \<^verbatim>\<open>Close\<close> nothing is written any more: a request with a safe method leaves
  the instance as it is, no background revalidation is started and no response is stored;
  at most an entry whose body does not decompress is soft-purged.
\<close>

theorem closed_writes_nothing:
  assumes "tClosed t" and "\<not> isMutatingMethod (Method r)" and "ServeHTTP e ops now t w r = (a, now', t')"
  shows "t' = t \<or> (\<exists>now k. t' = t\<lparr>tStore := snd (opPurge ops now (tStore t) k True)\<rparr>)"
  using assms closed_serve [OF assms(1), of "acquireRequestContext w r now" e ops CheckBypass]
  by (auto simp: ServeHTTP_def split: prod.splits outcome.splits)

lemma closed_writes_nothing_witness:
  "\<exists>a now' t'. ServeHTTP (demo_henv (demo_origin 200 demo_fresh ''x'')) teststore 1 (demo_titip\<lparr>tClosed := True\<rparr>) new_writer demo_get = (a, now', t') \<and>
     (t' = demo_titip\<lparr>tClosed := True\<rparr> \<or> (\<exists>now k. t' = demo_titip\<lparr>tClosed := True, tStore := snd (opPurge teststore now NewStore k True)\<rparr>))"
proof -
  let ?t = "demo_titip\<lparr>tClosed := True\<rparr>"
  obtain a now' t' where s: "ServeHTTP (demo_henv (demo_origin 200 demo_fresh ''x'')) teststore 1 ?t new_writer demo_get = (a, now', t')"
    by (metis prod_cases3)
  have "\<not> isMutatingMethod (Method demo_get)" by code_simp
  from closed_writes_nothing [OF _ this s] s show ?thesis by simp
qed

section \<open>Shared results\<close>

lemma Values_add_all_other:
  "(\<And>k'. k' \<in> fst ` set src \<Longrightarrow> CanonicalHeaderKey k' \<noteq> CanonicalHeaderKey k) \<Longrightarrow> Values (add_all src dst) k = Values dst k"
proof (induction src arbitrary: dst)
  case (Cons p src)
  obtain k' vs where p: "p = (k', vs)" by (cases p)
  with Cons.prems [of k'] have "CanonicalHeaderKey k' \<noteq> CanonicalHeaderKey k" by simp
  then have "Values (add_values k' vs dst) k = Values dst k" by (auto simp: Values_add_values)
  with p Cons show ?case by simp
qed simp

definition cookies :: "requestContext \<Rightarrow> bytes list" where
  "cookies ctx = Values (wHeader (cw ctx)) headerSetCookie"

lemma canon_names: "CanonicalHeaderKey headerSetCookie = headerSetCookie" "CanonicalHeaderKey headerCacheStatus = headerCacheStatus"
    "CanonicalHeaderKey headerAge = headerAge"
  by code_simp+

lemma wHeader_writes [simp]: "wHeader (WriteHeader w c) = wHeader w" "wHeader (Write w b) = wHeader w"
  by (simp_all add: Write_def WriteHeader_def Let_def split: option.splits)

lemma cookies_write [simp]: "cookies (write_status c ctx) = cookies ctx" "cookies (write_body b ctx) = cookies ctx"
  by (simp_all add: cookies_def write_status_def write_body_def)

lemma cookies_status [simp]: "cookies (emitCacheStatus cfg s d ctx) = cookies ctx"
  by (simp add: cookies_def emitCacheStatus_writer status_update_other canon_names)

lemma cookies_age [simp]: "cookies (age_from m ctx) = cookies ctx"
  by (auto simp: cookies_def age_from_def set_age_def canon_names split: option.splits)

lemma cookies_add_all:
  "(\<And>k. k \<in> fst ` set h \<Longrightarrow> CanonicalHeaderKey k \<noteq> headerSetCookie) \<Longrightarrow> cookies (on_header (add_all h) ctx) = cookies ctx"
  by (simp add: cookies_def Values_add_all_other canon_names)

lemma cookies_proto: "clean_header h \<Longrightarrow> cookies (copyProtoHeaders h ctx) = cookies ctx"
  unfolding copyProtoHeaders_def by (rule cookies_add_all) (auto simp: clean_header_def clean_field_def)

lemma serve_flight_cookies:
  assumes "esiProcessor t = None" and "frFragments res = []"
    and "\<And>fb. frFallback res = Some fb \<Longrightarrow> clean_variant (fbVarInfo fb)"
  shows "cookies (serve_flight e t True res ctx) = cookies ctx"
proof -
  have f: "cookies (serve_fetched e t True res ctx) = cookies ctx"
    using assms(2) by (auto simp: serve_fetched_def Let_def intro!: cookies_add_all)
  show ?thesis
  proof (cases "if frIsFallback res \<or> frIs304Origin res then frFallback res else None")
    case None
    then show ?thesis using f by (simp add: serve_flight_def)
  next
    case (Some fb)
    then have "clean_header (ResponseHeaders (fbVarInfo fb))" using assms(3) by (simp add: clean_variant_def split: if_splits)
    then have "cookies (serve_not_modified t True fb ctx) = cookies ctx" "cookies (serve_fallback e t True res fb b ctx) = cookies ctx" for b
      using assms(1) by (simp_all add: serve_not_modified_def serve_fallback_def has_esi_def adjustESIHeaders_def cookies_proto Let_def)
    with Some f show ?thesis by (simp add: serve_flight_def split: option.splits)
  qed
qed

text \<open>
  Property C12. Collapsed requests do not share cookies: a request that gets the result of another
  client's revalidation, without ESI fragments, is sent no \<^verbatim>\<open>Set-Cookie\<close> that was not on its
  writer before, whatever the origin sent to the client that asked.
\<close>

theorem shared_result_no_cookie:
  assumes "joined e = Some (Some res)" and "esiProcessor t = None" and "frFragments res = []"
    and "\<And>fb. frFallback res = Some fb \<Longrightarrow> clean_variant (fbVarInfo fb)"
    and "stateFetchOriginRevalidate e ops ctx t = (out, ctx', t')"
  shows "out = Done \<and> Values (wHeader (cw ctx')) headerSetCookie = Values (wHeader (cw ctx)) headerSetCookie \<and> t' = t"
  using assms(1,5) serve_flight_cookies [OF assms(2-4), of e ctx]
  by (auto simp: stateFetchOriginRevalidate_def stop_def cookies_def)

definition cookie_result :: "EsiFragment list \<Rightarrow> fetchResult" where
  "cookie_result fs = no_result\<lparr>frStatusCode := 200, frHeaders := [(''Set-Cookie'', [''id=1''])], frBody := ''b'', frFragments := fs\<rparr>"

lemma shared_result_no_cookie_witness:
  "\<exists>ctx'. stateFetchOriginRevalidate ((demo_henv panic_origin)\<lparr>joined := Some (Some (cookie_result []))\<rparr>) teststore
     (acquireRequestContext new_writer demo_get 1) demo_titip = (Done, ctx', demo_titip) \<and> Values (wHeader (cw ctx')) headerSetCookie = []"
proof -
  let ?e = "(demo_henv panic_origin)\<lparr>joined := Some (Some (cookie_result []))\<rparr>" and ?c = "acquireRequestContext new_writer demo_get 1"
  obtain out ctx' t' where s: "stateFetchOriginRevalidate ?e teststore ?c demo_titip = (out, ctx', t')" by (metis prod_cases3)
  have v: "Values (wHeader (cw ?c)) headerSetCookie = []" by (simp add: Values_def)
  show ?thesis
    using shared_result_no_cookie [OF _ _ _ _ s, of "cookie_result []"] s v by (simp add: cookie_result_def no_result_def)
qed

text \<open>
  With ESI they do: the result of another client's revalidation that has fragments is
  copied with its \<^verbatim>\<open>Set-Cookie\<close> to every request that joined it.
\<close>

theorem shared_esi_leaks_cookie:
  "\<exists>fs t out ctx' t'. esiProcessor t = Some default_esi_config \<and>
     stateFetchOriginRevalidate ((demo_henv panic_origin)\<lparr>joined := Some (Some (cookie_result fs))\<rparr>) teststore
       (acquireRequestContext new_writer demo_get 1) t = (out, ctx', t') \<and> Values (wHeader (cw ctx')) headerSetCookie = [''id=1'']"
proof -
  let ?t = "demo_titip\<lparr>esiProcessor := Some default_esi_config\<rparr>" and ?fs = "[empty_fragment\<lparr>EndPos := 1\<rparr>]"
  let ?s = "stateFetchOriginRevalidate ((demo_henv panic_origin)\<lparr>joined := Some (Some (cookie_result ?fs))\<rparr>) teststore
       (acquireRequestContext new_writer demo_get 1) ?t"
  have "Values (wHeader (cw (fst (snd ?s)))) headerSetCookie = [''id=1'']" by code_simp
  then show ?thesis by (intro exI [of _ ?fs] exI [of _ ?t] exI [of _ "fst ?s"] exI [of _ "fst (snd ?s)"] exI [of _ "snd (snd ?s)"]) simp
qed

end
