(* ===== verification/RedisServer.thy ===== *)
theory RedisServer
  imports StorageIface
begin

text \<open>
  The Redis server, which \<^verbatim>\<open>src/storage/redis/redis.go\<close> talks to, is a parameter of the model: a
  function \<open>exec\<close> from the time, its state and a command to a reply and the next state. This theory
  holds the commands the client sends, their documented effect on a key space (keys and hash
  fields that expire) and, as the locale \<open>redis_server\<close>, what a server that is up promises.
  Lemmas: how the effects compose on one key.
\<close>

section \<open>Commands and replies\<close>

text \<open>\<open>HSET_IF k f g v\<close> is a script that sets the field \<open>g\<close> of a hash that has the field \<open>f\<close>.\<close>

datatype scan_target = Keyspace bytes | Fields bytes

datatype redis_cmd =
    HGETALL bytes | HGET bytes bytes | GET bytes | HKEYS bytes
  | HSET bytes "(bytes \<times> bytes) list" | HEXPIRE bytes int bytes | HDEL bytes bytes | SETEX bytes bytes int
  | EXPIRE_NX bytes int | EXPIRE_GT bytes int | UNLINK "bytes list" | HSET_IF bytes bytes bytes bytes
  | SCAN scan_target nat

datatype reply = RErr error | RNil | RInt int | RStr bytes | RList "bytes list" | RMap "(bytes \<times> bytes) list"
  | RScan nat "bytes list"

type_synonym 's redis_exec = "gotime \<Rightarrow> 's \<Rightarrow> redis_cmd \<Rightarrow> reply \<times> 's"

section \<open>The documented effect of the commands\<close>

text \<open>A hash has a time to live of its own and one for each field; a string has one.\<close>

datatype rentry = Hash "(bytes \<times> bytes \<times> gotime option) list" "gotime option" | Str bytes "gotime option"

type_synonym keyspace = "bytes \<Rightarrow> rentry option"

definition live :: "gotime \<Rightarrow> gotime option \<Rightarrow> bool" where
  "live t x = (case x of None \<Rightarrow> True | Some e \<Rightarrow> t < e)"

definition live_fields :: "gotime \<Rightarrow> (bytes \<times> bytes \<times> gotime option) list \<Rightarrow> (bytes \<times> bytes \<times> gotime option) list" where
  "live_fields t fs = filter (\<lambda>(f, v, x). live t x) fs"

fun entry_at :: "gotime \<Rightarrow> rentry \<Rightarrow> rentry option" where
  "entry_at t (Str v x) = (if live t x then Some (Str v x) else None)"
| "entry_at t (Hash fs x) =
     (if live t x \<and> live_fields t fs \<noteq> [] then Some (Hash (live_fields t fs) x) else None)"

definition key_at :: "keyspace \<Rightarrow> gotime \<Rightarrow> bytes \<Rightarrow> rentry option" where
  "key_at ks t k = Option.bind (ks k) (entry_at t)"

definition fields_at :: "keyspace \<Rightarrow> gotime \<Rightarrow> bytes \<Rightarrow> (bytes \<times> bytes) list" where
  "fields_at ks t k = (case key_at ks t k of Some (Hash fs x) \<Rightarrow> map (\<lambda>(f, v, y). (f, v)) fs | _ \<Rightarrow> [])"

definition str_at :: "keyspace \<Rightarrow> gotime \<Rightarrow> bytes \<Rightarrow> bytes option" where
  "str_at ks t k = (case key_at ks t k of Some (Str v x) \<Rightarrow> Some v | _ \<Rightarrow> None)"

definition hset :: "(bytes \<times> bytes) list \<Rightarrow> (bytes \<times> bytes \<times> gotime option) list \<Rightarrow> (bytes \<times> bytes \<times> gotime option) list" where
  "hset fvs fs = foldl (\<lambda>fs (f, v). AList.update f (v, None) fs) fs fvs"

definition hset_key :: "gotime \<Rightarrow> bytes \<Rightarrow> (bytes \<times> bytes) list \<Rightarrow> keyspace \<Rightarrow> keyspace" where
  "hset_key now k fvs ks =
     (case key_at ks now k of
        None \<Rightarrow> ks(k \<mapsto> Hash (hset fvs []) None)
      | Some (Hash fs x) \<Rightarrow> ks(k \<mapsto> Hash (hset fvs fs) x)
      | Some (Str v x) \<Rightarrow> ks)"

definition seconds_after :: "gotime \<Rightarrow> int \<Rightarrow> gotime" where
  "seconds_after now secs = now + secs * Second"

fun expiry :: "rentry \<Rightarrow> gotime option" where
  "expiry (Hash fs x) = x"
| "expiry (Str v x) = x"

fun set_expiry :: "gotime \<Rightarrow> rentry \<Rightarrow> rentry" where
  "set_expiry y (Hash fs x) = Hash fs (Some y)"
| "set_expiry y (Str v x) = Str v (Some y)"

fun redis_effect :: "gotime \<Rightarrow> redis_cmd \<Rightarrow> keyspace \<Rightarrow> keyspace" where
  "redis_effect now (HSET k fvs) ks = hset_key now k fvs ks"
| "redis_effect now (HEXPIRE k secs f) ks =
     (case key_at ks now k of
        Some (Hash fs x) \<Rightarrow>
          (case map_of fs f of
             None \<Rightarrow> ks
           | Some (v, y) \<Rightarrow> ks(k \<mapsto> Hash (AList.update f (v, Some (seconds_after now secs)) fs) x))
      | _ \<Rightarrow> ks)"
| "redis_effect now (HDEL k f) ks =
     (case key_at ks now k of
        Some (Hash fs x) \<Rightarrow> ks(k := (if AList.delete f fs = [] then None else Some (Hash (AList.delete f fs) x)))
      | _ \<Rightarrow> ks)"
| "redis_effect now (SETEX k v secs) ks = ks(k \<mapsto> Str v (Some (seconds_after now secs)))"
| "redis_effect now (EXPIRE_NX k secs) ks =
     (case key_at ks now k of
        Some e \<Rightarrow> if expiry e = None then ks(k \<mapsto> set_expiry (seconds_after now secs) e) else ks
      | None \<Rightarrow> ks)"
| "redis_effect now (EXPIRE_GT k secs) ks =
     (case key_at ks now k of
        Some e \<Rightarrow>
          (case expiry e of
             Some x \<Rightarrow> if seconds_after now secs > x then ks(k \<mapsto> set_expiry (seconds_after now secs) e) else ks
           | None \<Rightarrow> ks)
      | None \<Rightarrow> ks)"
| "redis_effect now (UNLINK del) ks = (\<lambda>k. if k \<in> set del then None else ks k)"
| "redis_effect now (HSET_IF k f g v) ks =
     (if f \<in> fst ` set (fields_at ks now k) then hset_key now k [(g, v)] ks else ks)"
| "redis_effect now _ ks = ks"

text \<open>A command that is applied to a key of the other type fails; the client never does that.\<close>

definition is_hash :: "keyspace \<Rightarrow> bytes \<Rightarrow> bool" where
  "is_hash ks k \<longleftrightarrow> (case ks k of Some (Str v x) \<Rightarrow> False | _ \<Rightarrow> True)"

definition is_str :: "keyspace \<Rightarrow> bytes \<Rightarrow> bool" where
  "is_str ks k \<longleftrightarrow> (case ks k of Some (Hash fs x) \<Rightarrow> False | _ \<Rightarrow> True)"

fun type_ok :: "redis_cmd \<Rightarrow> keyspace \<Rightarrow> bool" where
  "type_ok (GET k) ks = is_str ks k"
| "type_ok (HGETALL k) ks = is_hash ks k"
| "type_ok (HGET k f) ks = is_hash ks k"
| "type_ok (HKEYS k) ks = is_hash ks k"
| "type_ok (HSET k fvs) ks = is_hash ks k"
| "type_ok (HEXPIRE k secs f) ks = is_hash ks k"
| "type_ok (HDEL k f) ks = is_hash ks k"
| "type_ok (HSET_IF k f g v) ks = is_hash ks k"
| "type_ok (SCAN (Fields k) cur) ks = is_hash ks k"
| "type_ok _ ks = True"

text \<open>The reply to a command, for scans below. A map or a list comes in any order.\<close>

fun redis_reply :: "gotime \<Rightarrow> redis_cmd \<Rightarrow> keyspace \<Rightarrow> reply \<Rightarrow> bool" where
  "redis_reply now (HGETALL k) ks r \<longleftrightarrow>
     (\<exists>m. r = RMap m \<and> distinct (map fst m) \<and> map_of m = map_of (fields_at ks now k))"
| "redis_reply now (HGET k f) ks r \<longleftrightarrow>
     r = (case map_of (fields_at ks now k) f of None \<Rightarrow> RNil | Some v \<Rightarrow> RStr v)"
| "redis_reply now (GET k) ks r \<longleftrightarrow> r = (case str_at ks now k of None \<Rightarrow> RNil | Some v \<Rightarrow> RStr v)"
| "redis_reply now (HKEYS k) ks r \<longleftrightarrow> (\<exists>fs. r = RList fs \<and> set fs = fst ` set (fields_at ks now k))"
| "redis_reply now (HSET_IF k f g v) ks r \<longleftrightarrow> r = RInt (if f \<in> fst ` set (fields_at ks now k) then 1 else 0)"
| "redis_reply now (SCAN tg cur) ks r \<longleftrightarrow> True"
| "redis_reply now (SETEX k v secs) ks r \<longleftrightarrow> r = RStr ''OK''"
| "redis_reply now (HEXPIRE k secs f) ks r \<longleftrightarrow> (\<exists>codes. r = RList codes)"
| "redis_reply now c ks r \<longleftrightarrow> (\<exists>n. r = RInt n)"

section \<open>Scans\<close>

text \<open>The fields of a hash come as a list that alternates fields and values.\<close>

fun evens :: "'a list \<Rightarrow> 'a list" where
  "evens [] = []"
| "evens [x] = [x]"
| "evens (x # y # xs) = x # evens xs"

fun scan_items :: "scan_target \<Rightarrow> bytes list \<Rightarrow> bytes list" where
  "scan_items (Keyspace p) es = es"
| "scan_items (Fields k) es = evens es"

fun elements :: "(bytes \<Rightarrow> bytes \<Rightarrow> bool) \<Rightarrow> scan_target \<Rightarrow> gotime \<Rightarrow> keyspace \<Rightarrow> bytes set" where
  "elements glob (Keyspace p) t ks = {k. key_at ks t k \<noteq> None \<and> glob p k}"
| "elements glob (Fields k) t ks = fst ` set (fields_at ks t k)"

section \<open>Lemmas\<close>

lemma live_mono: "live t x \<Longrightarrow> now \<le> t \<Longrightarrow> live now x"
  by (auto simp: live_def split: option.splits)

lemma live_None [simp]: "live t None"
  by (simp add: live_def)

lemma live_seconds [simp]: "1 \<le> secs \<Longrightarrow> live now (Some (seconds_after now secs))"
  by (simp add: live_def seconds_after_def Second_def)

lemma map_of_live_fields:
  "distinct (map fst fs) \<Longrightarrow> map_of (map (\<lambda>(f, v, y). (f, v)) (live_fields t fs)) f =
     (case map_of fs f of Some (v, y) \<Rightarrow> if live t y then Some v else None | None \<Rightarrow> None)"
proof (induction fs)
  case (Cons p fs)
  obtain g v y where p: "p = (g, v, y)" by (cases p)
  have "map_of fs g = None" using Cons.prems by (simp add: p map_of_eq_None_iff)
  then show ?case using Cons by (auto simp: p live_fields_def split: option.splits)
qed (simp add: live_fields_def)

lemma fields_at_Hash:
  "ks k = Some (Hash fs x) \<Longrightarrow> fields_at ks t k = (if live t x then map (\<lambda>(f, v, y). (f, v)) (live_fields t fs) else [])"
  by (simp add: fields_at_def key_at_def)

lemma fields_at_mem:
  assumes "(f, v) \<in> set (fields_at ks t k)"
  shows "\<exists>fs x y. key_at ks t k = Some (Hash fs x) \<and> (f, v, y) \<in> set fs"
proof (cases "key_at ks t k")
  case (Some e)
  then show ?thesis using assms by (cases e) (auto simp: fields_at_def)
qed (use assms in \<open>simp add: fields_at_def\<close>)

lemma fields_at_None: "ks k = None \<Longrightarrow> fields_at ks t k = []"
  by (simp add: fields_at_def key_at_def)

lemma fields_at_cong: "ks k = ks' k \<Longrightarrow> fields_at ks t k = fields_at ks' t k"
  by (simp add: fields_at_def key_at_def)

lemma str_at_cong: "ks k = ks' k \<Longrightarrow> str_at ks t k = str_at ks' t k"
  by (simp add: str_at_def key_at_def)

lemma distinct_live_fields: "distinct (map fst fs) \<Longrightarrow> distinct (map fst (map (\<lambda>(f, v, y). (f, v)) (live_fields t fs)))"
proof -
  assume "distinct (map fst fs)"
  moreover have "map fst (map (\<lambda>(f, v, y). (f, v)) (live_fields t fs)) = map fst (live_fields t fs)" by auto
  ultimately show ?thesis by (simp only: live_fields_def distinct_map_filter)
qed

lemma set_live_fields: "set (live_fields t fs) \<subseteq> set fs"
  by (auto simp: live_fields_def)

lemma live_fields_mono: "now \<le> t \<Longrightarrow> set (live_fields t fs) \<subseteq> set (live_fields now fs)"
  using live_mono by (auto simp: live_fields_def)

lemma fields_at_mono:
  assumes "now \<le> t"
  shows "set (fields_at ks t k) \<subseteq> set (fields_at ks now k)"
proof (cases "ks k")
  case (Some e)
  show ?thesis
  proof (cases e)
    case (Hash fs x)
    have "set (map (\<lambda>(f, v, y). (f, v)) (live_fields t fs)) \<subseteq> set (map (\<lambda>(f, v, y). (f, v)) (live_fields now fs))"
      unfolding set_map by (rule image_mono) (rule live_fields_mono [OF assms])
    then show ?thesis using Some Hash live_mono [OF _ assms] by (cases "live t x") (simp_all add: fields_at_Hash)
  qed (use Some in \<open>simp add: fields_at_def key_at_def\<close>)
qed (simp add: fields_at_None)

text \<open>Setting one more field of a live hash: what is seen of it later.\<close>

lemma hset_key_fields:
  assumes k: "key_at ks now k = Some (Hash fs x)" and ks: "ks k = Some (Hash fs0 x0)" and d: "distinct (map fst fs0)" and "now \<le> t"
  shows "map_of (fields_at (hset_key now k [(g, v)] ks) t k) f =
    (if f = g then if live t x then Some v else None else map_of (fields_at ks t k) f)"
proof -
  have fs: "fs = live_fields now fs0" "x = x0" using k ks by (auto simp: key_at_def split: if_splits)
  have d1: "distinct (map fst fs)" using d by (simp add: fs live_fields_def distinct_map_filter)
  have d2: "distinct (map fst (hset [(g, v)] fs))" using d1 by (simp add: hset_def distinct_update)
  have "hset_key now k [(g, v)] ks k = Some (Hash (hset [(g, v)] fs) x)" by (simp add: hset_key_def k)
  then have new: "fields_at (hset_key now k [(g, v)] ks) t k =
      (if live t x then map (\<lambda>(f, v, y). (f, v)) (live_fields t (hset [(g, v)] fs)) else [])" by (rule fields_at_Hash)
  have "(case map_of fs f of Some (w, y) \<Rightarrow> if live t y then Some w else None | None \<Rightarrow> None) =
      (case map_of fs0 f of Some (w, y) \<Rightarrow> if live t y then Some w else None | None \<Rightarrow> None)"
  proof (cases "map_of fs0 f")
    case None
    then have "f \<notin> fst ` set fs" using set_live_fields [of now fs0] fs(1) by (auto simp: map_of_eq_None_iff)
    then have "map_of fs f = None" by (simp add: map_of_eq_None_iff)
    then show ?thesis by (simp add: None)
  next
    case (Some p)
    obtain w y where p: "p = (w, y)" by (cases p)
    have m: "(f, w, y) \<in> set fs0" using Some p map_of_SomeD by simp
    show ?thesis
    proof (cases "live now y")
      case True
      then have "map_of fs f = Some (w, y)" using m d1 fs by (simp add: live_fields_def map_of_eq_Some_iff)
      then show ?thesis using Some p by simp
    next
      case False
      then have "\<not> live t y" using live_mono assms(4) by blast
      moreover have "map_of fs f = None"
        using False Some p d fs by (auto simp: live_fields_def map_of_eq_None_iff) (metis Pair_inject map_of_eq_Some_iff option.inject)
      ultimately show ?thesis using Some p by simp
    qed
  qed
  moreover have "fields_at ks t k = (if live t x0 then map (\<lambda>(f, v, y). (f, v)) (live_fields t fs0) else [])"
    using ks by (rule fields_at_Hash)
  ultimately show ?thesis
    using new map_of_live_fields [OF d2, of t f] map_of_live_fields [OF d, of t f] fs(2)
    by (cases "f = g") (simp_all add: hset_def AList.update_conv')
qed

text \<open>The keys a command may change, and that it changes no other.\<close>

fun cmd_keys :: "redis_cmd \<Rightarrow> bytes set" where
  "cmd_keys (HSET k fvs) = {k}"
| "cmd_keys (HEXPIRE k secs f) = {k}"
| "cmd_keys (HDEL k f) = {k}"
| "cmd_keys (SETEX k v secs) = {k}"
| "cmd_keys (EXPIRE_NX k secs) = {k}"
| "cmd_keys (EXPIRE_GT k secs) = {k}"
| "cmd_keys (UNLINK del) = set del"
| "cmd_keys (HSET_IF k f g v) = {k}"
| "cmd_keys _ = {}"

lemma effect_frame: "k \<notin> cmd_keys c \<Longrightarrow> redis_effect now c ks k = ks k"
  by (cases c) (auto simp: hset_key_def split: option.splits rentry.splits)

lemma effects_frame:
  "(\<And>c. c \<in> set cs \<Longrightarrow> k \<notin> cmd_keys c) \<Longrightarrow> foldl (\<lambda>ks c. redis_effect now c ks) ks cs k = ks k"
  by (induction cs arbitrary: ks) (simp_all add: effect_frame)

text \<open>A hash whose fields are all live.\<close>

definition settled :: "gotime \<Rightarrow> keyspace \<Rightarrow> bytes \<Rightarrow> (bytes \<times> bytes \<times> gotime option) list \<Rightarrow> gotime option \<Rightarrow> bool" where
  "settled now ks k fs x \<longleftrightarrow> ks k = Some (Hash fs x) \<and> live now x \<and> fs \<noteq> [] \<and> (\<forall>p \<in> set fs. live now (snd (snd p)))"

lemma settled_key_at: "settled now ks k fs x \<Longrightarrow> key_at ks now k = Some (Hash fs x)"
proof -
  assume s: "settled now ks k fs x"
  then have "live_fields now fs = fs" unfolding live_fields_def settled_def by (intro filter_True) auto
  then show ?thesis using s by (simp add: settled_def key_at_def)
qed

lemma key_at_settled: "key_at ks now k = Some (Hash fs x) \<Longrightarrow> live now x \<and> fs \<noteq> [] \<and> (\<forall>p \<in> set fs. live now (snd (snd p)))"
  by (auto simp: key_at_def live_fields_def bind_eq_Some_conv elim!: entry_at.elims split: if_splits)

lemma set_hset: "set (hset fvs fs) \<subseteq> set fs \<union> (\<lambda>(f, v). (f, v, None)) ` set fvs"
proof (induction fvs arbitrary: fs)
  case (Cons p fvs)
  obtain f v where p: "p = (f, v)" by (cases p)
  have "set (AList.update f (v, None) fs) \<subseteq> insert (f, v, None) (set fs)" by (induction fs) auto
  then show ?case using Cons [of "AList.update f (v, None) fs"] by (auto simp: hset_def p)
qed (simp add: hset_def)

lemma map_of_hset_two:
  "f \<noteq> g \<Longrightarrow> map_of (hset [(f, v), (g, w)] fs) = (map_of fs)(f \<mapsto> (v, None), g \<mapsto> (w, None))"
  by (simp add: hset_def AList.update_conv')

lemma hset_settled:
  assumes "is_hash ks k" and "fvs \<noteq> []"
  shows "\<exists>fs x. settled now (redis_effect now (HSET k fvs) ks) k (hset fvs fs) x \<and>
    (key_at ks now k = None \<and> fs = [] \<and> x = None \<or> key_at ks now k = Some (Hash fs x))"
proof -
  have ne: "hset fvs fs \<noteq> []" for fs
  proof -
    obtain f v rest where fvs: "fvs = rest @ [(f, v)]" using assms(2) by (metis prod.collapse rev_exhaust)
    show ?thesis by (simp add: fvs hset_def)
  qed
  have ns: "key_at ks now k \<noteq> Some (Str v x)" for v x
    using assms(1) by (auto simp: is_hash_def key_at_def bind_eq_Some_conv elim!: entry_at.elims split: option.splits if_splits)
  show ?thesis
  proof (cases "key_at ks now k")
    case None
    then have "settled now (redis_effect now (HSET k fvs) ks) k (hset fvs []) None"
      using set_hset [of fvs "[]"] ne by (auto simp: settled_def hset_key_def)
    with None show ?thesis by blast
  next
    case (Some e)
    then obtain fs x where e: "e = Hash fs x" using ns by (cases e) auto
    have "settled now (redis_effect now (HSET k fvs) ks) k (hset fvs fs) x"
      using key_at_settled [of ks now k fs x] Some set_hset [of fvs fs] ne by (fastforce simp: settled_def hset_key_def e)
    with Some e show ?thesis by blast
  qed
qed

lemma hexpire_settled:
  assumes s: "settled now ks k fs x" and f: "map_of fs f = Some (v, y)" and "1 \<le> secs"
  shows "settled now (redis_effect now (HEXPIRE k secs f) ks) k (AList.update f (v, Some (seconds_after now secs)) fs) x"
proof -
  let ?e = "Some (seconds_after now secs)"
  have "set (AList.update f (v, ?e) fs) \<subseteq> insert (f, v, ?e) (set fs)" by (induction fs) auto
  moreover have "AList.update f (v, ?e) fs \<noteq> []" by (cases fs) auto
  ultimately show ?thesis using s f settled_key_at [OF s] assms(3) by (fastforce simp: settled_def)
qed

lemma hdel_settled:
  assumes s: "settled now ks k fs x" and "g \<noteq> f" "map_of fs g \<noteq> None"
  shows "settled now (redis_effect now (HDEL k f) ks) k (AList.delete f fs) x"
proof -
  have "map_of (AList.delete f fs) g \<noteq> None" using assms(2,3) by (simp add: AList.delete_conv')
  then have "AList.delete f fs \<noteq> []" by (metis map_of.simps(1))
  moreover have "set (AList.delete f fs) \<subseteq> set fs" by (auto simp: AList.delete_eq)
  ultimately show ?thesis using s settled_key_at [OF s] by (auto simp: settled_def)
qed

lemma expire_settled:
  assumes s: "settled now ks k fs x" and "1 \<le> secs"
  shows "\<exists>X. settled now (redis_effect now (EXPIRE_GT k secs) (redis_effect now (EXPIRE_NX k secs) ks)) k fs (Some X) \<and>
    seconds_after now secs \<le> X"
proof -
  have "\<exists>Y. settled now (redis_effect now (EXPIRE_NX k secs) ks) k fs (Some Y) \<and> (x = None \<longrightarrow> Y = seconds_after now secs)"
    using s settled_key_at [OF s] assms(2) by (cases x) (auto simp: settled_def)
  then obtain Y where y: "settled now (redis_effect now (EXPIRE_NX k secs) ks) k fs (Some Y)" by blast
  show ?thesis using y settled_key_at [OF y] assms(2)
    by (cases "seconds_after now secs > Y") (auto simp: settled_def)
qed

section \<open>What a server promises\<close>

text \<open>
  \<open>view\<close> is the key space of a server state, \<open>glob\<close> its pattern matching. The guarantee of a scan
  from cursor 0 back to 0 (every element present throughout is returned, and the scan ends when
  nothing is added) is stated through \<open>todo\<close>, the elements a scan has still to visit at a cursor,
  and \<open>rank\<close>, which bounds the calls that remain.
\<close>

locale redis_server =
  fixes exec :: "'s redis_exec"
    and srv_up :: "'s \<Rightarrow> bool"
    and view :: "'s \<Rightarrow> keyspace"
    and glob :: "bytes \<Rightarrow> bytes \<Rightarrow> bool"
    and todo :: "'s \<Rightarrow> scan_target \<Rightarrow> nat \<Rightarrow> bytes set"
    and rank :: "'s \<Rightarrow> scan_target \<Rightarrow> nat \<Rightarrow> nat"
  assumes exec_up: "srv_up s \<Longrightarrow> srv_up (snd (exec now s c))"
    and exec_effect: "srv_up s \<Longrightarrow> type_ok c (view s) \<Longrightarrow> view (snd (exec now s c)) = redis_effect now c (view s)"
    and exec_reply: "srv_up s \<Longrightarrow> type_ok c (view s) \<Longrightarrow> redis_reply now c (view s) (fst (exec now s c))"
    and view_distinct: "srv_up s \<Longrightarrow> view s k = Some (Hash fs x) \<Longrightarrow> distinct (map fst fs)"
    and scan_reply: "srv_up s \<Longrightarrow> type_ok (SCAN tg cur) (view s) \<Longrightarrow>
      \<exists>cur' es. fst (exec now s (SCAN tg cur)) = RScan cur' es \<and>
        set (scan_items tg es) \<subseteq> elements glob tg now (view s) \<and>
        elements glob tg now (view s) \<inter> todo s tg cur \<subseteq>
          set (scan_items tg es) \<union> (if cur' = 0 then {} else todo (snd (exec now s (SCAN tg cur))) tg cur') \<and>
        (cur' \<noteq> 0 \<longrightarrow> rank (snd (exec now s (SCAN tg cur))) tg cur' < rank s tg cur)"
    and scan_start: "srv_up s \<Longrightarrow> elements glob tg now (view s) \<subseteq> todo s tg 0"
    and scan_between: "srv_up s \<Longrightarrow> (\<And>tg' cur'. c \<noteq> SCAN tg' cur') \<Longrightarrow>
      (\<And>t. elements glob tg t (view (snd (exec now s c))) \<subseteq> elements glob tg t (view s)) \<Longrightarrow>
      todo s tg cur \<subseteq> todo (snd (exec now s c)) tg cur \<and> rank (snd (exec now s c)) tg cur \<le> rank s tg cur"
    and glob_prefix: "(\<And>c. c \<in> set p \<Longrightarrow> c \<notin> set (''*?[]^-'' @ [CHR 0x5C])) \<Longrightarrow> glob (p @ ''*'') (p @ r)"

end
