(* ===== verification/RedisStore.thy ===== *)
theory RedisStore
  imports RedisServer
begin

text \<open>
  Model of \<^verbatim>\<open>src/storage/redis/redis.go\<close>, the backend on a Redis server. One command is one call of
  \<open>exec\<close>; a pipeline is a sequence of them. The protobuf codec is a parameter (\<open>None\<close> where it fails),
  and so is the conversion of a duration to seconds, which goes through a floating-point number.
  A nil metadata or variant is a nil dereference in Go and an error here. A loop over cursors is
  a \<open>partial_function\<close>: \<open>None\<close> means that it does not end.
\<close>

section \<open>Data and keys\<close>

record 's RedisStorage =
  client :: "'s redis_exec"
  kprefix :: bytes
  marshalMeta :: "CacheMetadata \<Rightarrow> bytes option"
  unmarshalMeta :: "bytes \<Rightarrow> CacheMetadata option"
  marshalVariant :: "VariantInfo \<Rightarrow> bytes option"
  unmarshalVariant :: "bytes \<Rightarrow> VariantInfo option"
  toSeconds :: "duration \<Rightarrow> int"

definition defaultPrefix :: bytes where
  "defaultPrefix = ''titip:''"

definition indexField :: bytes where
  "indexField = ''_index''"

definition softPurgedField :: bytes where
  "softPurgedField = ''_soft_purged''"

definition variantPrefix :: bytes where
  "variantPrefix = ''v:''"

definition metaKey :: "'s RedisStorage \<Rightarrow> bytes \<Rightarrow> bytes" where
  "metaKey st pk = kprefix st @ ''meta:'' @ pk"

definition bodyKey :: "'s RedisStorage \<Rightarrow> bytes \<Rightarrow> bytes \<Rightarrow> bytes" where
  "bodyKey st pk vk = kprefix st @ ''body:'' @ pk @ '':'' @ vk"

definition tagKey :: "'s RedisStorage \<Rightarrow> bytes \<Rightarrow> bytes" where
  "tagKey st tag = kprefix st @ ''tag:'' @ tag"

definition variantField :: "bytes \<Rightarrow> bytes" where
  "variantField vk = variantPrefix @ vk"

text \<open>
  Options and construction. A nil client is \<open>None\<close>; the codec and the conversion, which are not
  arguments in Go, come with the model \<open>base\<close> of a store. The logger has no place.
\<close>

record redis_config =
  cfg_prefix :: bytes

definition WithKeyPrefix :: "bytes \<Rightarrow> redis_config \<Rightarrow> redis_config" where
  "WithKeyPrefix p c = c\<lparr>cfg_prefix := p\<rparr>"

definition redis_New ::
    "'s RedisStorage \<Rightarrow> 's redis_exec option \<Rightarrow> (redis_config \<Rightarrow> redis_config) list \<Rightarrow> error + 's RedisStorage" where
  "redis_New base client0 opts =
     (case client0 of
        None \<Rightarrow> Inl ''redis: client is required''
      | Some c \<Rightarrow>
          let cfg = foldl (\<lambda>cfg opt. opt cfg) \<lparr>cfg_prefix = defaultPrefix\<rparr> opts
          in Inr (base\<lparr>client := c, kprefix := cfg_prefix cfg\<rparr>))"

text \<open>\<^verbatim>\<open>client.DoMulti\<close>.\<close>

fun DoMulti :: "'s redis_exec \<Rightarrow> gotime \<Rightarrow> 's \<Rightarrow> redis_cmd list \<Rightarrow> reply list \<times> 's" where
  "DoMulti exec now s [] = ([], s)"
| "DoMulti exec now s (c # cs) =
     (let (r, s1) = exec now s c; (rs, s2) = DoMulti exec now s1 cs in (r # rs, s2))"

definition first_error :: "reply list \<Rightarrow> (nat \<times> error) option" where
  "first_error rs = (case filter (\<lambda>(i, r). case r of RErr e \<Rightarrow> True | _ \<Rightarrow> False) (enumerate 0 rs) of
     (i, RErr e) # _ \<Rightarrow> Some (i, e) | _ \<Rightarrow> None)"

section \<open>Reading\<close>

text \<open>
  The loop over the fields of the map, which Go visits in any order, collects into a map; the
  association list of the model is sorted by key.
\<close>

definition decode_variants :: "'s RedisStorage \<Rightarrow> (bytes \<times> bytes) list \<Rightarrow> (bytes \<times> VariantInfo) list" where
  "decode_variants st m = List.map_filter (\<lambda>(k, msg).
     if HasPrefix k variantPrefix then map_option (\<lambda>v. (drop (length variantPrefix) k, v)) (unmarshalVariant st msg)
     else None) (sort_key fst m)"

definition decode_meta :: "'s RedisStorage \<Rightarrow> (bytes \<times> bytes) list \<Rightarrow> meta_result" where
  "decode_meta st m =
     (if m = [] then Inr (None, False)
      else case map_of m indexField of
        None \<Rightarrow> Inr (None, False)
      | Some indexBytes \<Rightarrow>
          (case unmarshalMeta st indexBytes of
             None \<Rightarrow> Inl ''redis: unmarshal meta index''
           | Some m0 \<Rightarrow>
               let isSoftPurged = (map_of m softPurgedField = Some ''1'')
               in Inr (Some (m0\<lparr>Variants := decode_variants st m\<rparr>), isSoftPurged)))"

definition redis_GetMeta :: "'s RedisStorage \<Rightarrow> gotime \<Rightarrow> 's \<Rightarrow> bytes \<Rightarrow> meta_result" where
  "redis_GetMeta st now s primaryKey =
     (case fst (client st now s (HGETALL (metaKey st primaryKey))) of
        RNil \<Rightarrow> Inr (None, False)
      | RErr e \<Rightarrow> Inl (''redis: get meta: '' @ e)
      | RMap m \<Rightarrow> decode_meta st m
      | _ \<Rightarrow> Inr (None, False))"

definition redis_GetVariant :: "'s RedisStorage \<Rightarrow> gotime \<Rightarrow> 's \<Rightarrow> bytes \<Rightarrow> bytes \<Rightarrow> variant_result" where
  "redis_GetVariant st now s primaryKey vk0 =
     (let vk = (if vk0 = [] then ''default'' else vk0);
          (resps, s1) = DoMulti (client st) now s
            [HGET (metaKey st primaryKey) (variantField vk), GET (bodyKey st primaryKey vk)];
          r0 = resps ! 0; r1 = resps ! 1
      in if r0 = RNil \<or> r1 = RNil then Inr None
         else case r0 of
           RErr e \<Rightarrow> Inl (''redis: get variant meta: '' @ e)
         | _ \<Rightarrow>
             (case r1 of
                RErr e \<Rightarrow> Inl (''redis: get variant body: '' @ e)
              | _ \<Rightarrow>
                  (case r0 of
                     RStr varBytes \<Rightarrow>
                       (case unmarshalVariant st varBytes of
                          None \<Rightarrow> Inl ''redis: unmarshal variant info''
                        | Some v \<Rightarrow>
                            (case r1 of
                               RStr bodyBytes \<Rightarrow> Inr (Some (Some v, bodyBytes))
                             | _ \<Rightarrow> Inl ''redis: parse variant body bytes''))
                   | _ \<Rightarrow> Inl ''redis: parse variant meta bytes'')))"

section \<open>Writing\<close>

definition tag_cmds :: "'s RedisStorage \<Rightarrow> bytes \<Rightarrow> int \<Rightarrow> bytes \<Rightarrow> redis_cmd list" where
  "tag_cmds st primaryKey ttlSeconds tag =
     (if tag = [] then []
      else [HSET (tagKey st tag) [(primaryKey, ''1'')], HEXPIRE (tagKey st tag) ttlSeconds primaryKey,
            EXPIRE_NX (tagKey st tag) ttlSeconds, EXPIRE_GT (tagKey st tag) ttlSeconds])"

definition set_cmds :: "'s RedisStorage \<Rightarrow> bytes \<Rightarrow> bytes \<Rightarrow> bytes \<Rightarrow> bytes \<Rightarrow> bytes \<Rightarrow> int \<Rightarrow> bytes list \<Rightarrow> redis_cmd list" where
  "set_cmds st primaryKey vk indexBytes varBytes b ttlSeconds tags =
     [HSET (metaKey st primaryKey) [(indexField, indexBytes), (variantField vk, varBytes)],
      HEXPIRE (metaKey st primaryKey) ttlSeconds (variantField vk),
      HDEL (metaKey st primaryKey) softPurgedField,
      SETEX (bodyKey st primaryKey vk) b ttlSeconds,
      EXPIRE_NX (metaKey st primaryKey) ttlSeconds,
      EXPIRE_GT (metaKey st primaryKey) ttlSeconds] @ concat (map (tag_cmds st primaryKey ttlSeconds) tags)"

definition ttl_seconds :: "'s RedisStorage \<Rightarrow> duration \<Rightarrow> int" where
  "ttl_seconds st ttl = max (toSeconds st ttl) 1"

definition redis_SetVariant ::
    "'s RedisStorage \<Rightarrow> gotime \<Rightarrow> 's \<Rightarrow> bytes \<Rightarrow> CacheMetadata option \<Rightarrow> VariantInfo option \<Rightarrow> bytes \<Rightarrow> duration
     \<Rightarrow> error option \<times> 's" where
  "redis_SetVariant st now s primaryKey mo vo b ttl =
     (case (mo, vo) of
        (Some m, Some v0) \<Rightarrow>
          let v = (if VariantKey v0 = [] then v0\<lparr>VariantKey := ''default''\<rparr> else v0);
              leanMeta = m\<lparr>Variants := []\<rparr>
          in (case marshalMeta st leanMeta of
                None \<Rightarrow> (Some ''redis: marshal meta index'', s)
              | Some indexBytes \<Rightarrow>
                  (case marshalVariant st v of
                     None \<Rightarrow> (Some ''redis: marshal variant'', s)
                   | Some varBytes \<Rightarrow>
                       let (resps, s') = DoMulti (client st) now s
                             (set_cmds st primaryKey (VariantKey v) indexBytes varBytes b (ttl_seconds st ttl) (Tags m))
                       in (case first_error resps of
                             Some (i, e) \<Rightarrow> (Some (''redis: set variant pipeline at op '' @ nat_text i @ '': '' @ e), s')
                           | None \<Rightarrow> (None, s'))))
      | _ \<Rightarrow> (Some ''nil pointer dereference'', s))"

section \<open>Purging\<close>

definition body_keys :: "'s RedisStorage \<Rightarrow> bytes \<Rightarrow> bytes list \<Rightarrow> bytes list" where
  "body_keys st pk fs = List.map_filter (\<lambda>k.
     if HasPrefix k variantPrefix then Some (bodyKey st pk (drop (length variantPrefix) k)) else None) fs"

definition hardPurge :: "'s RedisStorage \<Rightarrow> gotime \<Rightarrow> 's \<Rightarrow> bytes \<Rightarrow> (error + int) \<times> 's" where
  "hardPurge st now s pk =
     (case client st now s (HKEYS (metaKey st pk)) of
        (RErr e, s1) \<Rightarrow> (Inl (''redis: delete fetch keys: '' @ e), s1)
      | (RList keys, s1) \<Rightarrow>
          if keys = [] then (Inr 0, s1)
          else
            (case client st now s1 (UNLINK (metaKey st pk # body_keys st pk keys)) of
               (RErr e, s2) \<Rightarrow> (Inl (''redis: delete execute: '' @ e), s2)
             | (_, s2) \<Rightarrow> (Inr 1, s2))
      | (_, s1) \<Rightarrow> (Inr 0, s1))"

text \<open>The script marks a hash that has an index field and reports whether it did.\<close>

definition softPurgeScript :: "bytes \<Rightarrow> redis_cmd" where
  "softPurgeScript k = HSET_IF k indexField softPurgedField ''1''"

definition softPurge :: "'s RedisStorage \<Rightarrow> gotime \<Rightarrow> 's \<Rightarrow> bytes \<Rightarrow> (error + int) \<times> 's" where
  "softPurge st now s pk =
     (case client st now s (softPurgeScript (metaKey st pk)) of
        (RNil, s1) \<Rightarrow> (Inr 0, s1)
      | (RErr e, s1) \<Rightarrow> (Inl (''redis: soft purge: '' @ e), s1)
      | (RInt n, s1) \<Rightarrow> (Inr n, s1)
      | (_, s1) \<Rightarrow> (Inl ''redis: soft purge'', s1))"

definition redis_Purge :: "'s RedisStorage \<Rightarrow> gotime \<Rightarrow> 's \<Rightarrow> bytes \<Rightarrow> bool \<Rightarrow> (error + int) \<times> 's" where
  "redis_Purge st now s pk soft = (if soft then softPurge st now s pk else hardPurge st now s pk)"

text \<open>The count of marked hashes and the first error, which does not stop the others.\<close>

definition count_int :: "reply \<Rightarrow> int" where
  "count_int r = (case r of RInt n \<Rightarrow> n | _ \<Rightarrow> 0)"

definition script_errors :: "reply list \<Rightarrow> error list" where
  "script_errors rs = List.map_filter (\<lambda>r. case r of RInt n \<Rightarrow> None | RNil \<Rightarrow> None | RErr e \<Rightarrow> Some e | _ \<Rightarrow> Some ''parse'') rs"

definition softPurgeKeys :: "'s RedisStorage \<Rightarrow> gotime \<Rightarrow> 's \<Rightarrow> bytes list \<Rightarrow> (int \<times> error option) \<times> 's" where
  "softPurgeKeys st now s metaKeys =
     (let (resps, s') = DoMulti (client st) now s (map softPurgeScript metaKeys)
      in ((sum_list (map count_int resps), (case script_errors resps of [] \<Rightarrow> None | e # _ \<Rightarrow> Some e)), s'))"

subsection \<open>By tag\<close>

text \<open>The keys to delete for the replies to a batch of \<^verbatim>\<open>HKEYS\<close>.\<close>

fun batch_keys :: "'s RedisStorage \<Rightarrow> (bytes \<times> reply) list \<Rightarrow> error + bytes list" where
  "batch_keys st [] = Inr []"
| "batch_keys st ((pk, r) # rs) =
     (case r of
        RNil \<Rightarrow> batch_keys st rs
      | RErr e \<Rightarrow> Inl (''redis: purge tag fetch keys: '' @ e)
      | RList ks \<Rightarrow>
          (case batch_keys st rs of Inl e \<Rightarrow> Inl e | Inr del \<Rightarrow> Inr (metaKey st pk # body_keys st pk ks @ del))
      | _ \<Rightarrow> Inl ''redis: purge tag keys parse'')"

definition purge_batch :: "'s RedisStorage \<Rightarrow> gotime \<Rightarrow> bool \<Rightarrow> 's \<Rightarrow> bytes list \<Rightarrow> error option \<times> 's" where
  "purge_batch st now soft s pks =
     (if pks = [] then (None, s)
      else if soft then
        (case softPurgeKeys st now s (map (metaKey st) pks) of
           ((_, Some e), s') \<Rightarrow> (Some (''redis: purge tag soft purge: '' @ e), s')
         | ((_, None), s') \<Rightarrow> (None, s'))
      else
        let (resps, s1) = DoMulti (client st) now s (map (\<lambda>pk. HKEYS (metaKey st pk)) pks)
        in (case batch_keys st (zip pks resps) of
              Inl e \<Rightarrow> (Some e, s1)
            | Inr del \<Rightarrow>
                if del = [] then (None, s1)
                else (case client st now s1 (UNLINK del) of
                        (RErr e, s2) \<Rightarrow> (Some (''redis: purge tag execute: '' @ e), s2)
                      | (_, s2) \<Rightarrow> (None, s2))))"

partial_function (option) tag_loop ::
    "'s RedisStorage \<Rightarrow> gotime \<Rightarrow> bytes \<Rightarrow> bool \<Rightarrow> nat \<Rightarrow> int \<Rightarrow> 's \<Rightarrow> ((error + int) \<times> 's) option" where
  "tag_loop st now tagKey1 soft cursor processed s =
     (case client st now s (SCAN (Fields tagKey1) cursor) of
        (reply, s1) \<Rightarrow>
          (case reply of
             RNil \<Rightarrow> Some (Inr processed, s1)
           | RErr e \<Rightarrow> Some (Inl (''redis: purge tag hscan: '' @ e), s1)
           | RScan cursor' rawElements \<Rightarrow>
               (case purge_batch st now soft s1 (evens rawElements) of
                  (Some e, s2) \<Rightarrow> Some (Inl e, s2)
                | (None, s2) \<Rightarrow>
                    if cursor' = 0 then Some (Inr (processed + int (length (evens rawElements))), s2)
                    else tag_loop st now tagKey1 soft cursor' (processed + int (length (evens rawElements))) s2)
           | _ \<Rightarrow> Some (Inl ''redis: purge tag scan entry'', s1)))"

definition redis_PurgeByTag ::
    "'s RedisStorage \<Rightarrow> gotime \<Rightarrow> 's \<Rightarrow> bytes \<Rightarrow> bool \<Rightarrow> ((error + int) \<times> 's) option" where
  "redis_PurgeByTag st now s tag soft =
     map_option (\<lambda>(res, s').
       (case res of
          Inl e \<Rightarrow> (Inl e, s')
        | Inr n \<Rightarrow> (Inr n, if soft then s' else snd (client st now s' (UNLINK [tagKey st tag])))))
       (tag_loop st now (tagKey st tag) soft 0 0 s)"

subsection \<open>By pattern\<close>

partial_function (option) scanAndUnlink ::
    "'s RedisStorage \<Rightarrow> gotime \<Rightarrow> bytes \<Rightarrow> nat \<Rightarrow> int \<Rightarrow> 's \<Rightarrow> ((error + int) \<times> 's) option" where
  "scanAndUnlink st now matchPattern cursor primaryDeleted s =
     (case client st now s (SCAN (Keyspace matchPattern) cursor) of
        (reply, s1) \<Rightarrow>
          (case reply of
             RErr e \<Rightarrow> Some (Inl (''redis: scan: '' @ e), s1)
           | RNil \<Rightarrow> Some (Inl ''redis: scan: redis nil message'', s1)
           | RScan cursor' elems \<Rightarrow>
               (case (if elems = [] then (RInt 0, s1) else client st now s1 (UNLINK elems)) of
                  (r2, s2) \<Rightarrow>
                    (case r2 of
                       RErr e \<Rightarrow> Some (Inl (''redis: unlink: '' @ e), s2)
                     | _ \<Rightarrow>
                         let n = primaryDeleted + int (length (filter (\<lambda>k. Contains k '':meta:'') elems))
                         in if cursor' = 0 then Some (Inr n, s2)
                            else scanAndUnlink st now matchPattern cursor' n s2))
           | _ \<Rightarrow> Some (Inl ''redis: scan entry'', s1)))"

definition purge_patterns_of :: "'s RedisStorage \<Rightarrow> bytes \<Rightarrow> bytes list" where
  "purge_patterns_of st pattern =
     (if HasPrefix pattern ''meta:'' \<or> HasPrefix pattern ''body:'' \<or> HasPrefix pattern ''tag:'' \<or> pattern = ''*''
      then [kprefix st @ pattern]
      else [kprefix st @ ''meta:'' @ pattern, kprefix st @ ''body:'' @ pattern @ ''*''])"

fun unlink_patterns ::
    "'s RedisStorage \<Rightarrow> gotime \<Rightarrow> bytes list \<Rightarrow> int \<Rightarrow> 's \<Rightarrow> ((error + int) \<times> 's) option" where
  "unlink_patterns st now [] n s = Some (Inr n, s)"
| "unlink_patterns st now (p # ps) n s =
     (case scanAndUnlink st now p 0 0 s of
        None \<Rightarrow> None
      | Some (Inl e, s') \<Rightarrow> Some (Inl e, s')
      | Some (Inr d, s') \<Rightarrow> unlink_patterns st now ps (n + d) s')"

definition hardPurgePattern :: "'s RedisStorage \<Rightarrow> gotime \<Rightarrow> 's \<Rightarrow> bytes \<Rightarrow> ((error + int) \<times> 's) option" where
  "hardPurgePattern st now s pattern = unlink_patterns st now (purge_patterns_of st pattern) 0 s"

text \<open>An error of a batch is logged and the scan goes on.\<close>

partial_function (option) soft_loop ::
    "'s RedisStorage \<Rightarrow> gotime \<Rightarrow> bytes \<Rightarrow> nat \<Rightarrow> int \<Rightarrow> 's \<Rightarrow> ((error + int) \<times> 's) option" where
  "soft_loop st now fullPattern cursor count1 s =
     (case client st now s (SCAN (Keyspace fullPattern) cursor) of
        (reply, s1) \<Rightarrow>
          (case reply of
             RErr e \<Rightarrow> Some (Inl (''redis: scan: '' @ e), s1)
           | RNil \<Rightarrow> Some (Inl ''redis: scan: redis nil message'', s1)
           | RScan cursor' elems \<Rightarrow>
               (case softPurgeKeys st now s1 elems of
                  ((n, _), s2) \<Rightarrow>
                    if cursor' = 0 then Some (Inr (count1 + n), s2)
                    else soft_loop st now fullPattern cursor' (count1 + n) s2)
           | _ \<Rightarrow> Some (Inl ''redis: scan entry'', s1)))"

definition softPurgePattern :: "'s RedisStorage \<Rightarrow> gotime \<Rightarrow> 's \<Rightarrow> bytes \<Rightarrow> ((error + int) \<times> 's) option" where
  "softPurgePattern st now s pattern = soft_loop st now (kprefix st @ ''meta:'' @ TrimPrefix pattern ''meta:'') 0 0 s"

definition redis_PurgeByPattern ::
    "'s RedisStorage \<Rightarrow> gotime \<Rightarrow> 's \<Rightarrow> bytes \<Rightarrow> bool \<Rightarrow> ((error + int) \<times> 's) option" where
  "redis_PurgeByPattern st now s pattern soft =
     (if soft then softPurgePattern st now s pattern else hardPurgePattern st now s pattern)"

definition redis_PurgeAll :: "'s RedisStorage \<Rightarrow> gotime \<Rightarrow> 's \<Rightarrow> ((error + int) \<times> 's) option" where
  "redis_PurgeAll st now s = scanAndUnlink st now (kprefix st @ ''*'') 0 0 s"

text \<open>The backend as a dictionary of operations; an operation that does not end gives an error there.\<close>

definition ended :: "((error + int) \<times> 's) option \<Rightarrow> 's \<Rightarrow> (error + int) \<times> 's" where
  "ended res s = (case res of Some r \<Rightarrow> r | None \<Rightarrow> (Inl ''no reply'', s))"

definition redis_storage :: "'s RedisStorage \<Rightarrow> 's Storage" where
  "redis_storage st = \<lparr>opGetMeta = redis_GetMeta st, opGetVariant = redis_GetVariant st, opSetVariant = redis_SetVariant st,
     opPurge = redis_Purge st, opPurgeByPattern = (\<lambda>now s p soft. ended (redis_PurgeByPattern st now s p soft) s),
     opPurgeByTag = (\<lambda>now s tag soft. ended (redis_PurgeByTag st now s tag soft) s),
     opPurgeAll = (\<lambda>now s. ended (redis_PurgeAll st now s) s)\<rparr>"

end
