(* ===== verification/RedisContract.thy ===== *)
theory RedisContract
  imports RedisStore "HOL-Library.Multiset"
begin

text \<open>
  The Redis backend keeps the contract of a backend. \<open>redis_inv\<close> is the invariant of the key
  space: metadata and tags are hashes, bodies are strings, stored messages decode. The locale
  \<open>redis_backend\<close> collects what is relied on: a server that is up, a codec that gives back valid
  messages, seconds that are not rounded below the whole seconds of a duration, and a set of
  pairs of a primary and a variant key whose body keys do not collide.
\<close>

section \<open>The invariant\<close>

definition field_ok :: "'s RedisStorage \<Rightarrow> (bytes \<times> bytes) set \<Rightarrow> bytes \<Rightarrow> bytes \<Rightarrow> bytes \<Rightarrow> bool" where
  "field_ok st KV pk f v \<longleftrightarrow> (f = indexField \<longrightarrow> unmarshalMeta st v \<noteq> None) \<and>
     (HasPrefix f variantPrefix \<longrightarrow> (pk, drop (length variantPrefix) f) \<in> KV \<and> unmarshalVariant st v \<noteq> None)"

fun entry_ok :: "'s RedisStorage \<Rightarrow> (bytes \<times> bytes) set \<Rightarrow> bytes \<Rightarrow> rentry \<Rightarrow> bool" where
  "entry_ok st KV k (Hash fs x) \<longleftrightarrow> (\<forall>pk vk. k \<noteq> bodyKey st pk vk) \<and>
     (\<forall>pk f v y. k = metaKey st pk \<longrightarrow> (f, v, y) \<in> set fs \<longrightarrow> field_ok st KV pk f v)"
| "entry_ok st KV k (Str v x) \<longleftrightarrow> (\<forall>pk. k \<noteq> metaKey st pk) \<and> (\<forall>tag. k \<noteq> tagKey st tag)"

definition redis_inv :: "'s RedisStorage \<Rightarrow> (bytes \<times> bytes) set \<Rightarrow> keyspace \<Rightarrow> bool" where
  "redis_inv st KV ks \<longleftrightarrow> (\<forall>k e. ks k = Some e \<longrightarrow> entry_ok st KV k e)"

definition hash_key :: "'s RedisStorage \<Rightarrow> bytes \<Rightarrow> bool" where
  "hash_key st k \<longleftrightarrow> (\<exists>pk. k = metaKey st pk) \<or> (\<exists>tag. k = tagKey st tag)"

fun cmd_ok :: "'s RedisStorage \<Rightarrow> (bytes \<times> bytes) set \<Rightarrow> redis_cmd \<Rightarrow> bool" where
  "cmd_ok st KV (HSET k fvs) \<longleftrightarrow> hash_key st k \<and> (\<forall>pk f v. k = metaKey st pk \<longrightarrow> (f, v) \<in> set fvs \<longrightarrow> field_ok st KV pk f v)"
| "cmd_ok st KV (HSET_IF k f g v) \<longleftrightarrow> hash_key st k \<and> (\<forall>pk. k = metaKey st pk \<longrightarrow> field_ok st KV pk g v)"
| "cmd_ok st KV (HEXPIRE k secs f) \<longleftrightarrow> hash_key st k"
| "cmd_ok st KV (HDEL k f) \<longleftrightarrow> hash_key st k"
| "cmd_ok st KV (HGETALL k) \<longleftrightarrow> hash_key st k"
| "cmd_ok st KV (HGET k f) \<longleftrightarrow> hash_key st k"
| "cmd_ok st KV (HKEYS k) \<longleftrightarrow> hash_key st k"
| "cmd_ok st KV (SCAN (Fields k) cur) \<longleftrightarrow> hash_key st k"
| "cmd_ok st KV (SETEX k v secs) \<longleftrightarrow> (\<exists>pk vk. k = bodyKey st pk vk)"
| "cmd_ok st KV (GET k) \<longleftrightarrow> (\<exists>pk vk. k = bodyKey st pk vk)"
| "cmd_ok st KV _ \<longleftrightarrow> True"

lemma keys_apart [simp]:
  "metaKey st pk \<noteq> bodyKey st pk' vk" "bodyKey st pk' vk \<noteq> metaKey st pk" "tagKey st tag \<noteq> bodyKey st pk' vk"
  "bodyKey st pk' vk \<noteq> tagKey st tag" "tagKey st tag \<noteq> metaKey st pk" "metaKey st pk \<noteq> tagKey st tag"
  by (simp_all add: metaKey_def bodyKey_def tagKey_def)

lemma metaKey_inj [simp]: "metaKey st pk = metaKey st pk' \<longleftrightarrow> pk = pk'"
  by (simp add: metaKey_def)

lemma tagKey_inj [simp]: "tagKey st t = tagKey st t' \<longleftrightarrow> t = t'"
  by (simp add: tagKey_def)

lemma fields_apart [simp]:
  "indexField \<noteq> softPurgedField" "softPurgedField \<noteq> indexField" "variantField vk \<noteq> indexField" "indexField \<noteq> variantField vk"
  "variantField vk \<noteq> softPurgedField" "softPurgedField \<noteq> variantField vk" "\<not> HasPrefix indexField variantPrefix"
  "\<not> HasPrefix softPurgedField variantPrefix" "HasPrefix (variantField vk) variantPrefix"
  "drop (length variantPrefix) (variantField vk) = vk"
  by (simp_all add: indexField_def softPurgedField_def variantField_def variantPrefix_def HasPrefix_def)

lemma variantField_inj [simp]: "variantField a = variantField b \<longleftrightarrow> a = b"
  by (simp add: variantField_def)

lemma soft_field_ok [simp]: "field_ok st KV pk softPurgedField v"
  by (simp add: field_ok_def)

lemma invD: "redis_inv st KV ks \<Longrightarrow> ks k = Some e \<Longrightarrow> entry_ok st KV k e"
  by (simp add: redis_inv_def)

lemma inv_types:
  assumes "redis_inv st KV ks"
  shows "is_hash ks (metaKey st pk)" "is_hash ks (tagKey st tag)" "is_str ks (bodyKey st pk vk)"
  using invD [OF assms, of "metaKey st pk"] invD [OF assms, of "tagKey st tag"] invD [OF assms, of "bodyKey st pk vk"]
  by (fastforce simp: is_hash_def is_str_def split: option.splits rentry.splits)+

lemma inv_type_ok: "redis_inv st KV ks \<Longrightarrow> cmd_ok st KV c \<Longrightarrow> type_ok c ks"
  by (cases "(st, KV, c)" rule: cmd_ok.cases) (auto simp: hash_key_def inv_types)

lemma key_at_ok:
  assumes "redis_inv st KV ks" and "key_at ks t k = Some e"
  shows "entry_ok st KV k e"
proof -
  obtain e0 where e0: "ks k = Some e0" "entry_at t e0 = Some e" using assms(2) by (auto simp: key_at_def bind_eq_Some_conv)
  then have "entry_ok st KV k e0" using assms(1) by (simp add: redis_inv_def)
  with e0(2) show ?thesis
    using set_live_fields by (cases e0) (fastforce split: if_splits)+
qed

lemma inv_upd: "redis_inv st KV ks \<Longrightarrow> (\<And>e. eo = Some e \<Longrightarrow> entry_ok st KV k e) \<Longrightarrow> redis_inv st KV (ks(k := eo))"
  by (auto simp: redis_inv_def)

lemma hash_key_not_body: "hash_key st k \<Longrightarrow> k \<noteq> bodyKey st pk vk"
  by (auto simp: hash_key_def)

lemma entry_ok_HashI:
  assumes "hash_key st k" and "\<And>pk f v y. k = metaKey st pk \<Longrightarrow> (f, v, y) \<in> set fs \<Longrightarrow> field_ok st KV pk f v"
  shows "entry_ok st KV k (Hash fs x)"
  using assms hash_key_not_body [OF assms(1)] by auto

lemma entry_ok_Hash_upd:
  assumes "entry_ok st KV k (Hash fs x)" and "(f, v, y) \<in> set fs"
  shows "entry_ok st KV k (Hash (AList.update f (v, z) fs) x)"
proof -
  have "set (AList.update f (v, z) fs) \<subseteq> insert (f, v, z) (set fs)" by (induction fs) auto
  then show ?thesis using assms unfolding entry_ok.simps by blast
qed

lemma inv_hset_key:
  assumes inv: "redis_inv st KV ks" and k: "hash_key st k"
    and ok: "\<And>pk f v. k = metaKey st pk \<Longrightarrow> (f, v) \<in> set fvs \<Longrightarrow> field_ok st KV pk f v"
  shows "redis_inv st KV (hset_key now k fvs ks)"
proof -
  have e: "entry_ok st KV k (Hash (hset fvs fs) x)" if "\<And>pk f v y. k = metaKey st pk \<Longrightarrow> (f, v, y) \<in> set fs \<Longrightarrow> field_ok st KV pk f v" for fs x
  proof (rule entry_ok_HashI [OF k])
    fix pk f v y assume pk: "k = metaKey st pk" and "(f, v, y) \<in> set (hset fvs fs)"
    then have "(f, v, y) \<in> set fs \<or> (f, v) \<in> set fvs" using set_hset [of fvs fs] by auto
    then show "field_ok st KV pk f v" using ok [OF pk] that [OF pk] by blast
  qed
  show ?thesis
  proof (cases "key_at ks now k")
    case None
    then show ?thesis using e [of "[]" None] by (auto simp: hset_key_def simp del: entry_ok.simps intro!: inv_upd [OF inv])
  next
    case (Some r)
    show ?thesis
    proof (cases r)
      case (Hash fs x)
      have "entry_ok st KV k (Hash fs x)" using key_at_ok [OF inv Some] Hash by simp
      then have "entry_ok st KV k (Hash (hset fvs fs) x)" by (intro e) auto
      then show ?thesis using Some Hash by (auto simp: hset_key_def simp del: entry_ok.simps intro!: inv_upd [OF inv])
    qed (use Some inv in \<open>simp add: hset_key_def\<close>)
  qed
qed

lemma inv_effect:
  assumes inv: "redis_inv st KV ks" and ok: "cmd_ok st KV c"
  shows "redis_inv st KV (redis_effect now c ks)"
proof (cases c)
  case (HSET k fvs)
  then show ?thesis using inv_hset_key [OF inv] ok by auto
next
  case (HSET_IF k f g v)
  then show ?thesis using inv inv_hset_key [OF inv, of k "[(g, v)]"] ok by auto
next
  case (HEXPIRE k secs f)
  then show ?thesis
    using inv entry_ok_Hash_upd [OF key_at_ok [OF inv] map_of_SomeD]
    by (auto split: option.split rentry.split intro!: inv_upd simp del: entry_ok.simps)
next
  case (HDEL k f)
  have "entry_ok st KV k (Hash (AList.delete f fs) x)" if "entry_ok st KV k (Hash fs x)" for fs x
    using that by (auto simp: AList.delete_eq)
  then show ?thesis using key_at_ok [OF inv, of now k] inv
    by (auto simp: HDEL split: option.split rentry.split intro!: inv_upd simp del: entry_ok.simps)
next
  case (SETEX k v secs)
  then show ?thesis using inv ok by (auto intro!: inv_upd)
next
  case (EXPIRE_NX k secs)
  have "entry_ok st KV k (set_expiry y e)" if "entry_ok st KV k e" for e y using that by (cases e) auto
  then show ?thesis using key_at_ok [OF inv, of now k] inv by (auto simp: EXPIRE_NX split: option.split intro!: inv_upd)
next
  case (EXPIRE_GT k secs)
  have "entry_ok st KV k (set_expiry y e)" if "entry_ok st KV k e" for e y using that by (cases e) auto
  then show ?thesis using key_at_ok [OF inv, of now k] inv by (auto simp: EXPIRE_GT split: option.split intro!: inv_upd)
next
  case (UNLINK del)
  then show ?thesis using inv by (auto simp: redis_inv_def)
qed (use inv in auto)

section \<open>Decoding\<close>

lemma mset_of_map:
  assumes "distinct (map fst m)" "distinct (map fst m')" "map_of m = map_of m'"
  shows "mset m = mset m'"
proof -
  have "set m = set m'" using assms by (metis map_of_eq_Some_iff subrelI subset_antisym)
  moreover have "distinct m" "distinct m'" using assms(1,2) by (simp_all add: distinct_map)
  ultimately show ?thesis by (simp add: set_eq_iff_mset_eq_distinct)
qed

lemma sort_fst_cong:
  assumes "distinct (map fst m)" "distinct (map fst m')" "map_of m = map_of m'"
  shows "sort_key fst m = sort_key fst m'"
proof (rule sort_key_inj_key_eq)
  show "mset m = mset (sort_key fst m')" using mset_of_map [OF assms] by simp
  show "inj_on fst (set m)" using assms(1) by (simp add: distinct_map)
qed simp

lemma decode_meta_cong:
  assumes "distinct (map fst m)" "distinct (map fst m')" "map_of m = map_of m'"
  shows "decode_meta st m = decode_meta st m'"
proof -
  have "m = [] \<longleftrightarrow> m' = []" using assms(3) by (metis map_of_eq_empty_iff)
  moreover have "decode_variants st m = decode_variants st m'" by (simp only: decode_variants_def sort_fst_cong [OF assms])
  ultimately show ?thesis by (simp only: decode_meta_def assms(3))
qed

lemma decode_variants_filter:
  "decode_variants st m = List.map_filter (\<lambda>(k, msg). if HasPrefix k variantPrefix
     then map_option (\<lambda>v. (drop (length variantPrefix) k, v)) (unmarshalVariant st msg) else None)
     (sort_key fst (filter (\<lambda>p. HasPrefix (fst p) variantPrefix) m))"
proof -
  have "List.map_filter g (filter P xs) = List.map_filter g xs" if "\<And>x. \<not> P x \<Longrightarrow> g x = None" for g :: "bytes \<times> bytes \<Rightarrow> 'c option" and P xs
    by (induction xs) (use that in \<open>auto simp: List.map_filter_simps split: option.split\<close>)
  from this [of "\<lambda>p. HasPrefix (fst p) variantPrefix"] show ?thesis
    unfolding decode_variants_def filter_sort [symmetric] by (metis (mono_tags, lifting) case_prod_beta fst_conv)
qed

lemma decode_variants_cong:
  assumes d: "distinct (map fst m)" "distinct (map fst m')" and eq: "\<And>f. HasPrefix f variantPrefix \<Longrightarrow> map_of m f = map_of m' f"
  shows "decode_variants st m = decode_variants st m'"
proof -
  let ?P = "\<lambda>p. HasPrefix (fst p) variantPrefix"
  have "map_of (filter ?P xs) f = (if HasPrefix f variantPrefix then map_of xs f else None)" for xs :: "(bytes \<times> bytes) list" and f
    by (induction xs) auto
  then have "map_of (filter ?P m) = map_of (filter ?P m')" using eq by auto
  then show ?thesis unfolding decode_variants_filter by (subst sort_fst_cong) (use d in \<open>auto simp: distinct_map_filter\<close>)
qed

lemma map_of_decode:
  "distinct (map fst xs) \<Longrightarrow>
    map_of (List.map_filter (\<lambda>(k, msg). if HasPrefix k variantPrefix
      then map_option (\<lambda>v. (drop (length variantPrefix) k, v)) (unmarshalVariant st msg) else None) xs) vk =
    Option.bind (map_of xs (variantField vk)) (unmarshalVariant st)"
proof (induction xs)
  case (Cons p xs)
  obtain f msg where p: "p = (f, msg)" by (cases p)
  have f: "HasPrefix f variantPrefix \<Longrightarrow> f = variantField (drop (length variantPrefix) f)"
    by (metis HasPrefix_def append_take_drop_id variantField_def)
  have "map_of xs f = None" using Cons.prems by (simp add: p map_of_eq_None_iff)
  with Cons f show ?case
    by (auto simp: p List.map_filter_simps split: option.splits) (metis fields_apart(9,10))+
qed (simp add: List.map_filter_simps)

lemma map_of_decode_variants:
  assumes "distinct (map fst m)"
  shows "map_of (decode_variants st m) vk = Option.bind (map_of m (variantField vk)) (unmarshalVariant st)"
proof -
  have "mset (sort_key fst m) = mset m" by simp
  then have "mset (map fst (sort_key fst m)) = mset (map fst m)" by (metis mset_map)
  then have d: "distinct (map fst (sort_key fst m))" using assms by (metis mset_eq_imp_distinct_iff)
  have "map_of (sort_key fst m) = map_of m" using map_of_inject_set [OF d assms] by simp
  then show ?thesis using map_of_decode [OF d, of st vk] by (simp add: decode_variants_def)
qed

section \<open>The effect of a write\<close>

lemma first_error_None: "(\<And>r e. r \<in> set rs \<Longrightarrow> r \<noteq> RErr e) \<Longrightarrow> first_error rs = None"
proof -
  assume a: "\<And>r e. r \<in> set rs \<Longrightarrow> r \<noteq> RErr e"
  have "\<not> (case p of (i, r) \<Rightarrow> case r of RErr e \<Rightarrow> True | _ \<Rightarrow> False)" if "p \<in> set (enumerate 0 rs)" for p
  proof -
    have "snd p \<in> snd ` set (enumerate 0 rs)" using that by (rule imageI)
    then have "snd p \<in> set rs" by (simp only: set_map [symmetric] map_snd_enumerate)
    then have "snd p \<noteq> RErr e" for e by (rule a)
    then show ?thesis by (cases p; cases "snd p") auto
  qed
  then have "filter (\<lambda>(i, r). case r of RErr e \<Rightarrow> True | _ \<Rightarrow> False) (enumerate 0 rs) = []"
    unfolding filter_empty_conv by blast
  then show ?thesis by (simp add: first_error_def)
qed

lemma set_cmds_write:
  "c \<in> set (set_cmds st pk vk ib vb b secs tags) \<Longrightarrow> redis_reply now c ks r \<Longrightarrow> r \<noteq> RErr e"
  by (auto simp: set_cmds_def tag_cmds_def split: if_splits)

lemma set_cmds_ok:
  assumes "field_ok st KV pk indexField ib" "field_ok st KV pk (variantField vk) vb"
  shows "c \<in> set (set_cmds st pk vk ib vb b secs tags) \<Longrightarrow> cmd_ok st KV c"
  using assms by (auto simp: set_cmds_def tag_cmds_def hash_key_def split: if_splits) blast+

lemma tag_cmds_frame: "c \<in> set (concat (map (tag_cmds st pk secs) tags)) \<Longrightarrow> \<exists>tag. cmd_keys c = {tagKey st tag}"
  by (auto simp: tag_cmds_def split: if_splits)

lemma set_cmds_frame:
  assumes "k \<noteq> metaKey st pk" "k \<noteq> bodyKey st pk vk" "\<And>tag. k \<noteq> tagKey st tag"
  shows "foldl (\<lambda>ks c. redis_effect now c ks) ks (set_cmds st pk vk ib vb b secs tags) k = ks k"
proof (rule effects_frame)
  fix c assume "c \<in> set (set_cmds st pk vk ib vb b secs tags)"
  then show "k \<notin> cmd_keys c" using assms tag_cmds_frame [of c st pk secs tags] by (auto simp: set_cmds_def)
qed

text \<open>After a write the metadata hash holds the index without and the variant with a time to live.\<close>

lemma set_cmds_meta:
  assumes inv: "redis_inv st KV ks" and "1 \<le> secs"
  shows "\<exists>fs X. foldl (\<lambda>ks c. redis_effect now c ks) ks (set_cmds st pk vk ib vb b secs tags) (metaKey st pk) = Some (Hash fs (Some X)) \<and>
    seconds_after now secs \<le> X \<and> map_of fs indexField = Some (ib, None) \<and>
    map_of fs (variantField vk) = Some (vb, Some (seconds_after now secs)) \<and> map_of fs softPurgedField = None"
proof -
  let ?k = "metaKey st pk" and ?e = "Some (seconds_after now secs)"
  let ?fvs = "[(indexField, ib), (variantField vk, vb)]"
  let ?k1 = "redis_effect now (HSET ?k ?fvs) ks"
  obtain fs0 x where s1: "settled now ?k1 ?k (hset ?fvs fs0) x"
    using hset_settled [OF inv_types(1) [OF inv, of pk], of ?fvs now] by (auto simp del: redis_effect.simps)
  have m1: "map_of (hset ?fvs fs0) = (map_of fs0)(indexField \<mapsto> (ib, None), variantField vk \<mapsto> (vb, None))"
    by (rule map_of_hset_two) simp
  let ?fs2 = "AList.update (variantField vk) (vb, ?e) (hset ?fvs fs0)"
  let ?k2 = "redis_effect now (HEXPIRE ?k secs (variantField vk)) ?k1"
  have s2: "settled now ?k2 ?k ?fs2 x" by (rule hexpire_settled [OF s1 _ assms(2)]) (simp add: m1)
  let ?k3 = "redis_effect now (HDEL ?k softPurgedField) ?k2" and ?fs3 = "AList.delete softPurgedField ?fs2"
  have s3: "settled now ?k3 ?k ?fs3 x"
    by (rule hdel_settled [OF s2, of indexField]) (simp_all add: m1 AList.update_conv')
  let ?k4 = "redis_effect now (SETEX (bodyKey st pk vk) b secs) ?k3"
  have "settled now ?k4 ?k ?fs3 x" using s3 by (simp add: settled_def)
  from expire_settled [OF this assms(2)] obtain X where
    s6: "settled now (redis_effect now (EXPIRE_GT ?k secs) (redis_effect now (EXPIRE_NX ?k secs) ?k4)) ?k ?fs3 (Some X)"
    and X: "seconds_after now secs \<le> X" by blast
  have "foldl (\<lambda>ks c. redis_effect now c ks) ks (set_cmds st pk vk ib vb b secs tags) ?k =
      redis_effect now (EXPIRE_GT ?k secs) (redis_effect now (EXPIRE_NX ?k secs) ?k4) ?k"
    unfolding set_cmds_def foldl_append
    by (subst effects_frame) (use tag_cmds_frame [of _ st pk secs tags] in fastforce, simp del: redis_effect.simps)
  also have "\<dots> = Some (Hash ?fs3 (Some X))" using s6 by (simp add: settled_def del: redis_effect.simps)
  finally have f: "foldl (\<lambda>ks c. redis_effect now c ks) ks (set_cmds st pk vk ib vb b secs tags) ?k = Some (Hash ?fs3 (Some X))" .
  have "map_of ?fs3 indexField = Some (ib, None)" "map_of ?fs3 (variantField vk) = Some (vb, ?e)" "map_of ?fs3 softPurgedField = None"
    by (simp_all add: m1 map_of_update map_of_delete)
  with f X show ?thesis by blast
qed

lemma set_cmds_body:
  "foldl (\<lambda>ks c. redis_effect now c ks) ks (set_cmds st pk vk ib vb b secs tags) (bodyKey st pk vk) =
     Some (Str b (Some (seconds_after now secs)))"
proof -
  let ?k = "bodyKey st pk vk"
  have "foldl (\<lambda>ks c. redis_effect now c ks) ks' (concat (map (tag_cmds st pk secs) tags)) ?k = ks' ?k" for ks'
    by (rule effects_frame) (use tag_cmds_frame [of _ st pk secs tags] in fastforce)
  then show ?thesis unfolding set_cmds_def foldl_append
    by (simp add: effect_frame [of ?k] del: redis_effect.simps) simp
qed

text \<open>After a write each tag of the entry lists its primary key, with a time to live.\<close>

definition tag_listed :: "gotime \<Rightarrow> int \<Rightarrow> keyspace \<Rightarrow> bytes \<Rightarrow> bytes \<Rightarrow> bool" where
  "tag_listed now secs ks k pk \<longleftrightarrow> (\<exists>fs X. settled now ks k fs (Some X) \<and> seconds_after now secs \<le> X \<and>
     map_of fs pk = Some (''1'', Some (seconds_after now secs)))"

lemma inv_effects:
  "redis_inv st KV ks \<Longrightarrow> (\<And>c. c \<in> set cs \<Longrightarrow> cmd_ok st KV c) \<Longrightarrow>
    redis_inv st KV (foldl (\<lambda>ks c. redis_effect now c ks) ks cs)"
  by (induction cs arbitrary: ks) (simp_all add: inv_effect)

lemma tag_cmds_tagged:
  assumes "is_hash ks (tagKey st tag)" "1 \<le> secs" "tag \<noteq> []"
  shows "tag_listed now secs (foldl (\<lambda>ks c. redis_effect now c ks) ks (tag_cmds st pk secs tag)) (tagKey st tag) pk"
proof -
  let ?k = "tagKey st tag" and ?fvs = "[(pk, ''1'')]" and ?e = "Some (seconds_after now secs)"
  let ?k1 = "redis_effect now (HSET ?k ?fvs) ks" and ?k2 = "\<lambda>ks. redis_effect now (HEXPIRE ?k secs pk) ks"
  obtain fs x where s1: "settled now ?k1 ?k (hset ?fvs fs) x"
    using hset_settled [OF assms(1), of ?fvs now] by (auto simp del: redis_effect.simps)
  have m: "map_of (hset ?fvs fs) pk = Some (''1'', None)" by (simp add: hset_def AList.update_conv')
  note s2 = hexpire_settled [OF s1 m assms(2)]
  from expire_settled [OF s2 assms(2)] obtain X where
    s3: "settled now (redis_effect now (EXPIRE_GT ?k secs) (redis_effect now (EXPIRE_NX ?k secs) (?k2 ?k1))) ?k
      (AList.update pk (''1'', ?e) (hset ?fvs fs)) (Some X)" and X: "seconds_after now secs \<le> X" by blast
  have f: "foldl (\<lambda>ks c. redis_effect now c ks) ks (tag_cmds st pk secs tag) =
      redis_effect now (EXPIRE_GT ?k secs) (redis_effect now (EXPIRE_NX ?k secs) (?k2 ?k1))"
    using assms(3) by (simp add: tag_cmds_def del: redis_effect.simps)
  have "map_of (AList.update pk (''1'', ?e) (hset ?fvs fs)) pk = Some (''1'', ?e)" by (simp add: AList.update_conv')
  with s3 X show ?thesis unfolding tag_listed_def f by blast
qed

lemma tags_tagged:
  assumes "redis_inv st KV ks" "1 \<le> secs" "tag \<noteq> []" "tag \<in> set tags"
  shows "tag_listed now secs (foldl (\<lambda>ks c. redis_effect now c ks) ks (concat (map (tag_cmds st pk secs) tags))) (tagKey st tag) pk"
  using assms(4)
proof (induction tags rule: rev_induct)
  case (snoc x tags)
  let ?ks = "foldl (\<lambda>ks c. redis_effect now c ks) ks (concat (map (tag_cmds st pk secs) tags))"
  have "cmd_ok st KV c" if "c \<in> set (concat (map (tag_cmds st pk secs) tags))" for c
    using that by (auto simp: tag_cmds_def hash_key_def split: if_splits)
  then have "redis_inv st KV ?ks" by (rule inv_effects [OF assms(1)])
  then have h: "is_hash ?ks (tagKey st tag)" by (rule inv_types)
  show ?case
  proof (cases "x = tag")
    case True
    then show ?thesis using tag_cmds_tagged [OF h assms(2,3), of now pk] by simp
  next
    case False
    have "foldl (\<lambda>ks c. redis_effect now c ks) ?ks (tag_cmds st pk secs x) (tagKey st tag) = ?ks (tagKey st tag)"
      by (rule effects_frame) (use False in \<open>auto simp: tag_cmds_def split: if_splits\<close>)
    moreover have "tag_listed now secs ?ks (tagKey st tag) pk" using snoc False by simp
    ultimately show ?thesis by (simp add: tag_listed_def settled_def)
  qed
qed simp

lemma set_cmds_tagged:
  assumes "redis_inv st KV ks" "1 \<le> secs" "tag \<noteq> []" "tag \<in> set tags"
    and "field_ok st KV pk indexField ib" "field_ok st KV pk (variantField vk) vb"
  shows "tag_listed now secs (foldl (\<lambda>ks c. redis_effect now c ks) ks (set_cmds st pk vk ib vb b secs tags)) (tagKey st tag) pk"
proof -
  have "set_cmds st pk vk ib vb b secs tags = set_cmds st pk vk ib vb b secs [] @ concat (map (tag_cmds st pk secs) tags)"
    by (simp add: set_cmds_def)
  moreover have "redis_inv st KV (foldl (\<lambda>ks c. redis_effect now c ks) ks (set_cmds st pk vk ib vb b secs []))"
    by (rule inv_effects [OF assms(1)]) (rule set_cmds_ok [OF assms(5,6)])
  ultimately show ?thesis unfolding foldl_append using tags_tagged [OF _ assms(2-4)] by simp
qed

text \<open>What a reader sees of a variant.\<close>

definition variant_view :: "'s RedisStorage \<Rightarrow> keyspace \<Rightarrow> gotime \<Rightarrow> bytes \<Rightarrow> bytes \<Rightarrow> variant_result" where
  "variant_view st ks t pk vk =
     (case (map_of (fields_at ks t (metaKey st pk)) (variantField vk), str_at ks t (bodyKey st pk vk)) of
        (Some vb, Some b) \<Rightarrow>
          (case unmarshalVariant st vb of None \<Rightarrow> Inl ''redis: unmarshal variant info'' | Some v \<Rightarrow> Inr (Some (Some v, b)))
      | _ \<Rightarrow> Inr None)"

section \<open>The backend and its server\<close>

definition redis_life :: "duration \<Rightarrow> duration" where
  "redis_life ttl = max (quot ttl Second) 1 * Second"

definition redis_fits :: "(bytes \<times> bytes) set \<Rightarrow> (CacheMetadata \<Rightarrow> VariantInfo \<Rightarrow> bool) \<Rightarrow> bytes \<Rightarrow> CacheMetadata \<Rightarrow> VariantInfo \<Rightarrow> bool" where
  "redis_fits KV valid pk m v \<longleftrightarrow> valid m v \<and> (pk, VariantKey (keyed v)) \<in> KV"

definition redis_up :: "('s \<Rightarrow> bool) \<Rightarrow> ('s \<Rightarrow> keyspace) \<Rightarrow> 's RedisStorage \<Rightarrow> (bytes \<times> bytes) set \<Rightarrow> 's \<Rightarrow> bool" where
  "redis_up srv_up view st KV s \<longleftrightarrow> srv_up s \<and> redis_inv st KV (view s)"

locale redis_backend = redis_server exec srv_up view glob todo rank
  for exec :: "'s redis_exec" and srv_up view glob todo rank +
  fixes st :: "'s RedisStorage"
    and KV :: "(bytes \<times> bytes) set"
    and valid :: "CacheMetadata \<Rightarrow> VariantInfo \<Rightarrow> bool"
  assumes client: "client st = exec"
    and codec_meta: "valid m v \<Longrightarrow> \<exists>b. marshalMeta st (m\<lparr>Variants := []\<rparr>) = Some b \<and> unmarshalMeta st b = Some (m\<lparr>Variants := []\<rparr>)"
    and codec_variant: "valid m v \<Longrightarrow> \<exists>b. marshalVariant st (keyed v) = Some b \<and> unmarshalVariant st b = Some (keyed v)"
    and seconds: "quot ttl Second \<le> toSeconds st ttl"
    and bodies_apart: "inj_on (\<lambda>(pk, vk). bodyKey st pk vk) KV"
begin

lemma exec_ok:
  assumes "redis_up srv_up view st KV s" and "cmd_ok st KV c"
  shows "redis_up srv_up view st KV (snd (exec now s c))" "view (snd (exec now s c)) = redis_effect now c (view s)"
    "redis_reply now c (view s) (fst (exec now s c))"
proof -
  have s: "srv_up s" "redis_inv st KV (view s)" "type_ok c (view s)"
    using assms inv_type_ok by (auto simp: redis_up_def)
  show "view (snd (exec now s c)) = redis_effect now c (view s)" using exec_effect s by simp
  then show "redis_up srv_up view st KV (snd (exec now s c))"
    using exec_up [OF s(1)] inv_effect [OF s(2) assms(2)] by (simp add: redis_up_def)
  show "redis_reply now c (view s) (fst (exec now s c))" using exec_reply s by simp
qed

lemma DoMulti_ok:
  assumes "redis_up srv_up view st KV s" and "\<And>c. c \<in> set cs \<Longrightarrow> cmd_ok st KV c"
  shows "redis_up srv_up view st KV (snd (DoMulti exec now s cs)) \<and>
    view (snd (DoMulti exec now s cs)) = foldl (\<lambda>ks c. redis_effect now c ks) (view s) cs \<and>
    (\<forall>r \<in> set (fst (DoMulti exec now s cs)). \<exists>c ks. c \<in> set cs \<and> redis_reply now c ks r)"
  using assms
proof (induction cs arbitrary: s)
  case (Cons c cs)
  obtain r s1 where e: "exec now s c = (r, s1)" by (cases "exec now s c")
  obtain rs s2 where d: "DoMulti exec now s1 cs = (rs, s2)" by (cases "DoMulti exec now s1 cs")
  have c: "redis_up srv_up view st KV s1" "view s1 = redis_effect now c (view s)" "redis_reply now c (view s) r"
    using exec_ok [of s c now] Cons.prems e by simp_all
  have ih: "redis_up srv_up view st KV s2" "view s2 = foldl (\<lambda>ks c. redis_effect now c ks) (view s1) cs"
    "\<forall>r \<in> set rs. \<exists>c ks. c \<in> set cs \<and> redis_reply now c ks r"
    using Cons.IH [OF c(1)] Cons.prems(2) d by simp_all
  have "\<exists>c' ks. c' \<in> set (c # cs) \<and> redis_reply now c' ks q" if "q \<in> set (r # rs)" for q
    using that ih(3) c(3) by (metis list.set_intros(1,2) set_ConsD)
  then show ?case using ih(1,2) c(2) by (simp add: e d)
qed simp

lemma fields_distinct: "srv_up s \<Longrightarrow> distinct (map fst (fields_at (view s) t k))"
  using view_distinct [of s k] distinct_live_fields
  by (auto simp: fields_at_def key_at_def bind_eq_Some_conv elim!: entry_at.elims split: option.split rentry.split if_splits)

lemma GetMeta_view:
  assumes "redis_up srv_up view st KV s"
  shows "redis_GetMeta st t s pk = decode_meta st (fields_at (view s) t (metaKey st pk))"
proof -
  have "redis_reply t (HGETALL (metaKey st pk)) (view s) (fst (exec t s (HGETALL (metaKey st pk))))"
    using exec_ok(3) [OF assms, of "HGETALL (metaKey st pk)" t] by (auto simp: hash_key_def)
  then obtain m where m: "fst (exec t s (HGETALL (metaKey st pk))) = RMap m" "distinct (map fst m)"
    "map_of m = map_of (fields_at (view s) t (metaKey st pk))" by auto
  have "srv_up s" using assms by (simp add: redis_up_def)
  from decode_meta_cong [OF m(2) fields_distinct [OF this] m(3)] m(1) show ?thesis by (simp add: redis_GetMeta_def client)
qed

lemma GetVariant_view:
  assumes "redis_up srv_up view st KV s"
  shows "redis_GetVariant st t s pk vk = variant_view st (view s) t pk (variant_key vk)"
proof -
  let ?c = "HGET (metaKey st pk) (variantField (variant_key vk))" and ?d = "GET (bodyKey st pk (variant_key vk))"
  obtain r s1 where e: "exec t s ?c = (r, s1)" by (cases "exec t s ?c")
  obtain q s2 where d: "exec t s1 ?d = (q, s2)" by (cases "exec t s1 ?d")
  have c: "redis_up srv_up view st KV s1" "view s1 = view s"
    "r = (case map_of (fields_at (view s) t (metaKey st pk)) (variantField (variant_key vk)) of None \<Rightarrow> RNil | Some v \<Rightarrow> RStr v)"
    using exec_ok [OF assms, of ?c t] e by (auto simp: hash_key_def)
  have "q = (case str_at (view s) t (bodyKey st pk (variant_key vk)) of None \<Rightarrow> RNil | Some v \<Rightarrow> RStr v)"
    using exec_ok(3) [OF c(1), of ?d t] d c(2) by auto
  with c(3) show ?thesis
    by (simp add: redis_GetVariant_def variant_key_def [symmetric] client e d Let_def variant_view_def split: option.split)
qed

lemma field_KV:
  assumes "redis_up srv_up view st KV s" and "map_of (fields_at (view s) t (metaKey st pk)) (variantField vk) = Some vb"
  shows "(pk, vk) \<in> KV" "unmarshalVariant st vb \<noteq> None"
proof -
  obtain fs x y where k: "key_at (view s) t (metaKey st pk) = Some (Hash fs x)" and "(variantField vk, vb, y) \<in> set fs"
    using fields_at_mem [OF map_of_SomeD [OF assms(2)]] by blast
  moreover have "entry_ok st KV (metaKey st pk) (Hash fs x)"
    using key_at_ok [OF _ k, of st KV] assms(1) unfolding redis_up_def by blast
  ultimately have "field_ok st KV pk (variantField vk) vb" by auto
  then show "(pk, vk) \<in> KV" "unmarshalVariant st vb \<noteq> None" by (simp_all add: field_ok_def)
qed

lemma SetVariant_view:
  assumes "redis_up srv_up view st KV s" and "redis_fits KV valid pk m v"
  obtains ib vb s' where "redis_SetVariant st now s pk (Some m) (Some v) b ttl = (None, s')" "redis_up srv_up view st KV s'"
    "view s' = foldl (\<lambda>ks c. redis_effect now c ks) (view s) (set_cmds st pk (VariantKey (keyed v)) ib vb b (ttl_seconds st ttl) (Tags m))"
    "unmarshalMeta st ib = Some (m\<lparr>Variants := []\<rparr>)" "unmarshalVariant st vb = Some (keyed v)"
proof -
  have v: "(if VariantKey v = [] then v\<lparr>VariantKey := ''default''\<rparr> else v) = keyed v" by (simp add: keyed_def variant_key_def)
  obtain ib where ib: "marshalMeta st (m\<lparr>Variants := []\<rparr>) = Some ib" "unmarshalMeta st ib = Some (m\<lparr>Variants := []\<rparr>)"
    using codec_meta assms(2) by (auto simp: redis_fits_def)
  obtain vb where vb: "marshalVariant st (keyed v) = Some vb" "unmarshalVariant st vb = Some (keyed v)"
    using codec_variant assms(2) by (auto simp: redis_fits_def)
  let ?cs = "set_cmds st pk (VariantKey (keyed v)) ib vb b (ttl_seconds st ttl) (Tags m)"
  obtain rs s' where d: "DoMulti exec now s ?cs = (rs, s')" by (cases "DoMulti exec now s ?cs")
  have "cmd_ok st KV c" if "c \<in> set ?cs" for c
    by (rule set_cmds_ok [OF _ _ that]) (use ib vb assms(2) in \<open>simp_all add: field_ok_def redis_fits_def\<close>)
  note r = DoMulti_ok [OF assms(1) this, of ?cs now, unfolded d fst_conv snd_conv]
  then have "first_error rs = None" using set_cmds_write by (intro first_error_None) blast
  then have "redis_SetVariant st now s pk (Some m) (Some v) b ttl = (None, s')"
    by (simp add: redis_SetVariant_def v ib vb client d Let_def)
  with that [OF this] r ib(2) vb(2) show thesis by blast
qed

lemma life_within: "t < tadd now (redis_life ttl) \<Longrightarrow> t < seconds_after now (ttl_seconds st ttl)"
  using seconds [of ttl] by (auto simp: redis_life_def seconds_after_def ttl_seconds_def tadd_def Second_def)

lemma set_fields:
  assumes "redis_up srv_up view st KV s" "redis_fits KV valid pk m v"
    and set: "redis_SetVariant st now s pk (Some m) (Some v) b ttl = (None, s')" and "t < tadd now (redis_life ttl)"
  obtains ib vb where "unmarshalMeta st ib = Some (m\<lparr>Variants := []\<rparr>)" "unmarshalVariant st vb = Some (keyed v)"
    "map_of (fields_at (view s') t (metaKey st pk)) indexField = Some ib"
    "map_of (fields_at (view s') t (metaKey st pk)) (variantField (VariantKey (keyed v))) = Some vb"
    "map_of (fields_at (view s') t (metaKey st pk)) softPurgedField = None"
    "str_at (view s') t (bodyKey st pk (VariantKey (keyed v))) = Some b" "srv_up s'"
proof -
  let ?vk = "VariantKey (keyed v)"
  obtain ib vb s1 where s1: "redis_SetVariant st now s pk (Some m) (Some v) b ttl = (None, s1)" "redis_up srv_up view st KV s1"
    "view s1 = foldl (\<lambda>ks c. redis_effect now c ks) (view s) (set_cmds st pk ?vk ib vb b (ttl_seconds st ttl) (Tags m))"
    and codec: "unmarshalMeta st ib = Some (m\<lparr>Variants := []\<rparr>)" "unmarshalVariant st vb = Some (keyed v)"
    by (rule SetVariant_view [OF assms(1,2)])
  have [simp]: "s1 = s'" using set s1(1) by simp
  have up: "srv_up s'" using s1(2) by (simp add: redis_up_def)
  have secs: "1 \<le> ttl_seconds st ttl" by (simp add: ttl_seconds_def)
  have inv: "redis_inv st KV (view s)" using assms(1) by (simp add: redis_up_def)
  obtain fs X where f: "view s' (metaKey st pk) = Some (Hash fs (Some X))" "seconds_after now (ttl_seconds st ttl) \<le> X"
    "map_of fs indexField = Some (ib, None)" "map_of fs (variantField ?vk) = Some (vb, Some (seconds_after now (ttl_seconds st ttl)))"
    "map_of fs softPurgedField = None"
    using set_cmds_meta [OF inv secs, of now pk ?vk ib vb b "Tags m"] s1(3) by auto
  have t: "t < seconds_after now (ttl_seconds st ttl)" by (rule life_within [OF assms(4)])
  then have "live t (Some X)" using f(2) by (simp add: live_def)
  then have "fields_at (view s') t (metaKey st pk) = map (\<lambda>(f, v, y). (f, v)) (live_fields t fs)" using f(1) by (simp add: fields_at_Hash)
  note fields = map_of_live_fields [OF view_distinct [OF up f(1)], of t, folded this]
  have "str_at (view s') t (bodyKey st pk ?vk) = Some b"
    using set_cmds_body [of now "view s" st pk ?vk ib vb b "ttl_seconds st ttl" "Tags m"] s1(3) t
    by (simp add: str_at_def key_at_def live_def)
  with fields f(3-5) t up codec that show thesis by (simp add: live_def)
qed

section \<open>The laws\<close>

lemma redis_get_meta_up:
  assumes "redis_up srv_up view st KV s"
  shows "\<exists>r. redis_GetMeta st t s pk = Inr r"
proof (cases "map_of (fields_at (view s) t (metaKey st pk)) indexField")
  case None
  then show ?thesis by (auto simp: GetMeta_view [OF assms] decode_meta_def)
next
  case (Some ib)
  obtain fs x y where k: "key_at (view s) t (metaKey st pk) = Some (Hash fs x)" and "(indexField, ib, y) \<in> set fs"
    using fields_at_mem [OF map_of_SomeD [OF Some]] by blast
  moreover have "entry_ok st KV (metaKey st pk) (Hash fs x)"
    using key_at_ok [OF _ k, of st KV] assms unfolding redis_up_def by blast
  ultimately have "field_ok st KV pk indexField ib" by auto
  then have "unmarshalMeta st ib \<noteq> None" by (simp add: field_ok_def)
  then show ?thesis using Some by (auto simp: GetMeta_view [OF assms] decode_meta_def Let_def)
qed

lemma redis_get_variant_up:
  assumes "redis_up srv_up view st KV s"
  shows "\<exists>r. redis_GetVariant st t s pk vk = Inr r"
  using field_KV(2) [OF assms, of t pk "variant_key vk"]
  by (auto simp: GetVariant_view [OF assms] variant_view_def split: option.split)

lemma redis_get_meta_set:
  assumes "redis_up srv_up view st KV s" "redis_fits KV valid pk m v"
    and "redis_SetVariant st now s pk (Some m) (Some v) b ttl = (None, s')" "t < tadd now (redis_life ttl)"
  shows "\<exists>vs. redis_GetMeta st t s' pk = Inr (Some (m\<lparr>Variants := vs\<rparr>), False) \<and>
     map_of vs (variant_key (VariantKey v)) = Some (keyed v)"
proof -
  let ?F = "fields_at (view s') t (metaKey st pk)"
  obtain ib vb where f: "unmarshalMeta st ib = Some (m\<lparr>Variants := []\<rparr>)" "unmarshalVariant st vb = Some (keyed v)"
    "map_of ?F indexField = Some ib" "map_of ?F (variantField (VariantKey (keyed v))) = Some vb"
    "map_of ?F softPurgedField = None" "srv_up s'"
    using set_fields [OF assms] by metis
  have up: "redis_up srv_up view st KV s'" using SetVariant_view [OF assms(1,2), of now b ttl] assms(3) by (metis Pair_inject)
  have "?F \<noteq> []" using f(3) by auto
  then have "redis_GetMeta st t s' pk = Inr (Some (m\<lparr>Variants := decode_variants st ?F\<rparr>), False)"
    using f by (simp add: GetMeta_view [OF up] decode_meta_def Let_def)
  moreover have "map_of (decode_variants st ?F) (variant_key (VariantKey v)) = Some (keyed v)"
    using f by (simp add: map_of_decode_variants [OF fields_distinct] keyed_def)
  ultimately show ?thesis by blast
qed

lemma redis_get_variant_set:
  assumes "redis_up srv_up view st KV s" "redis_fits KV valid pk m v"
    and "redis_SetVariant st now s pk (Some m) (Some v) b ttl = (None, s')" "t < tadd now (redis_life ttl)"
    and vk: "variant_key vk = variant_key (VariantKey v)"
  shows "redis_GetVariant st t s' pk vk = Inr (Some (Some (keyed v), b))"
proof -
  have up: "redis_up srv_up view st KV s'" using SetVariant_view [OF assms(1,2), of now b ttl] assms(3) by (metis Pair_inject)
  have k: "VariantKey (keyed v) = variant_key vk" using vk by (simp add: keyed_def)
  obtain vb where "unmarshalVariant st vb = Some (keyed v)"
    "map_of (fields_at (view s') t (metaKey st pk)) (variantField (variant_key vk)) = Some vb"
    "str_at (view s') t (bodyKey st pk (variant_key vk)) = Some b"
    using set_fields [OF assms(1-4)] k by metis
  then show ?thesis by (simp add: GetVariant_view [OF up] variant_view_def)
qed

text \<open>Two states agree on a key when the metadata hash is the same and, for pairs in use, the body.\<close>

lemma reads_frame:
  assumes "redis_up srv_up view st KV s" "redis_up srv_up view st KV s'"
    and "view s' (metaKey st pk) = view s (metaKey st pk)"
    and "\<And>vk. (pk, vk) \<in> KV \<Longrightarrow> view s' (bodyKey st pk vk) = view s (bodyKey st pk vk)"
  shows "redis_GetMeta st t s' pk = redis_GetMeta st t s pk \<and> redis_GetVariant st t s' pk vk = redis_GetVariant st t s pk vk"
proof -
  have f: "fields_at (view s') t (metaKey st pk) = fields_at (view s) t (metaKey st pk)" by (rule fields_at_cong) (rule assms(3))
  have "variant_view st (view s') t pk vk' = variant_view st (view s) t pk vk'" for vk'
  proof (cases "(pk, vk') \<in> KV")
    case True
    then have "str_at (view s') t (bodyKey st pk vk') = str_at (view s) t (bodyKey st pk vk')" by (intro str_at_cong assms(4))
    then show ?thesis by (simp add: variant_view_def f)
  next
    case False
    then have "map_of (fields_at (view s) t (metaKey st pk)) (variantField vk') = None" using field_KV(1) [OF assms(1)] by (cases "map_of (fields_at (view s) t (metaKey st pk)) (variantField vk')") auto
    then show ?thesis by (simp add: variant_view_def f)
  qed
  then show ?thesis by (simp add: GetMeta_view assms(1,2) GetVariant_view f)
qed

lemma bodyKey_apart: "(pk, vk) \<in> KV \<Longrightarrow> (pk', vk') \<in> KV \<Longrightarrow> pk \<noteq> pk' \<Longrightarrow> bodyKey st pk vk \<noteq> bodyKey st pk' vk'"
  using bodies_apart by (auto simp: inj_on_def)

lemma redis_set_frame:
  assumes "redis_up srv_up view st KV s" "redis_fits KV valid pk m v"
    and "redis_SetVariant st now s pk (Some m) (Some v) b ttl = (None, s')" "pk' \<noteq> pk"
  shows "redis_GetMeta st t s' pk' = redis_GetMeta st t s pk' \<and> redis_GetVariant st t s' pk' vk = redis_GetVariant st t s pk' vk"
proof -
  obtain ib vb where s': "redis_up srv_up view st KV s'"
    "view s' = foldl (\<lambda>ks c. redis_effect now c ks) (view s) (set_cmds st pk (VariantKey (keyed v)) ib vb b (ttl_seconds st ttl) (Tags m))"
    using SetVariant_view [OF assms(1,2), of now b ttl] assms(3) by (metis Pair_inject)
  have "bodyKey st pk' vk' \<noteq> bodyKey st pk (VariantKey (keyed v))" if "(pk', vk') \<in> KV" for vk'
    using bodyKey_apart [OF that _ assms(4)] assms(2) by (simp add: redis_fits_def)
  then show ?thesis using assms(4) by (intro reads_frame [OF assms(1) s'(1)]) (simp_all add: s'(2) set_cmds_frame)
qed

lemma in_body_keys: "bk \<in> set (body_keys st pk fs) \<Longrightarrow> \<exists>vk. bk = bodyKey st pk vk \<and> variantField vk \<in> set fs"
proof -
  have "HasPrefix f variantPrefix \<Longrightarrow> f = variantField (drop (length variantPrefix) f)" for f
    by (metis HasPrefix_def append_take_drop_id variantField_def)
  moreover assume "bk \<in> set (body_keys st pk fs)"
  ultimately show ?thesis by (auto simp: body_keys_def List.map_filter_def split: if_splits)
qed

text \<open>A hard purge removes the hash and the bodies of its live variants, or finds nothing alive.\<close>

lemma hardPurge_view:
  assumes "redis_up srv_up view st KV s"
  obtains n s' where "hardPurge st now s pk = (Inr n, s')" "redis_up srv_up view st KV s'"
    "view s' = view s \<and> fields_at (view s) now (metaKey st pk) = [] \<or>
     (\<exists>del. view s' = redis_effect now (UNLINK (metaKey st pk # del)) (view s) \<and>
        (\<forall>bk \<in> set del. \<exists>vk. bk = bodyKey st pk vk \<and> (pk, vk) \<in> KV))"
proof -
  let ?c = "HKEYS (metaKey st pk)"
  obtain r s1 where e: "exec now s ?c = (r, s1)" by (cases "exec now s ?c")
  have c: "redis_up srv_up view st KV s1" "view s1 = view s" using exec_ok [OF assms, of ?c now] e by (auto simp: hash_key_def)
  obtain ks where ks: "r = RList ks" "set ks = fst ` set (fields_at (view s) now (metaKey st pk))"
    using exec_ok(3) [OF assms, of ?c now] e by (auto simp: hash_key_def)
  show thesis
  proof (cases "ks = []")
    case True
    then have "hardPurge st now s pk = (Inr 0, s1)" by (simp add: hardPurge_def client e ks)
    with that [OF this c(1)] c(2) ks True show thesis by simp
  next
    case False
    let ?u = "UNLINK (metaKey st pk # body_keys st pk ks)"
    obtain q s2 where u: "exec now s1 ?u = (q, s2)" by (cases "exec now s1 ?u")
    have u2: "redis_up srv_up view st KV s2" "view s2 = redis_effect now ?u (view s)" "\<exists>n. q = RInt n"
      using exec_ok [OF c(1), of ?u now] u c(2) by simp_all
    then have "hardPurge st now s pk = (Inr 1, s2)" using False by (auto simp: hardPurge_def client e ks u)
    moreover have "\<exists>vk. bk = bodyKey st pk vk \<and> (pk, vk) \<in> KV" if bk: "bk \<in> set (body_keys st pk ks)" for bk
    proof -
      obtain vk where vk: "bk = bodyKey st pk vk" "variantField vk \<in> set ks" using in_body_keys [OF bk] by blast
      then have "map_of (fields_at (view s) now (metaKey st pk)) (variantField vk) \<noteq> None"
        using ks(2) by (simp add: map_of_eq_None_iff)
      then show ?thesis using field_KV(1) [OF assms] vk(1) by blast
    qed
    ultimately show thesis using that u2 by blast
  qed
qed

text \<open>A soft purge sets the mark of a hash with an index.\<close>

lemma softPurge_view:
  assumes "redis_up srv_up view st KV s"
  obtains n s' where "softPurge st now s pk = (Inr n, s')" "redis_up srv_up view st KV s'"
    "view s' = redis_effect now (softPurgeScript (metaKey st pk)) (view s)"
proof -
  let ?c = "softPurgeScript (metaKey st pk)"
  obtain r s1 where e: "exec now s ?c = (r, s1)" by (cases "exec now s ?c")
  have ok: "cmd_ok st KV ?c" by (auto simp: softPurgeScript_def hash_key_def)
  have c: "redis_up srv_up view st KV s1" "view s1 = redis_effect now ?c (view s)" using exec_ok [OF assms ok, of now] e by simp_all
  obtain n where "r = RInt n" using exec_ok(3) [OF assms ok, of now] e by (simp add: softPurgeScript_def)
  then have "softPurge st now s pk = (Inr n, s1)" by (simp add: softPurge_def client e)
  with that c show thesis by blast
qed

lemma redis_purge_up:
  assumes "redis_up srv_up view st KV s"
  shows "\<exists>n s'. redis_Purge st now s pk soft = (Inr n, s') \<and> redis_up srv_up view st KV s'"
proof (cases soft)
  case True
  then show ?thesis using softPurge_view [OF assms, of now pk] by (metis redis_Purge_def)
next
  case False
  then show ?thesis using hardPurge_view [OF assms, of now pk] by (metis redis_Purge_def)
qed

lemma redis_purge_hard:
  assumes "redis_up srv_up view st KV s" "redis_Purge st now s pk False = (Inr n, s')" "now \<le> t"
  shows "redis_GetMeta st t s' pk = Inr (None, False)"
proof -
  have p: "hardPurge st now s pk = (Inr n, s')" using assms(2) by (simp add: redis_Purge_def)
  obtain v: "redis_up srv_up view st KV s'" "view s' = view s \<and> fields_at (view s) now (metaKey st pk) = [] \<or>
     (\<exists>del. view s' = redis_effect now (UNLINK (metaKey st pk # del)) (view s))"
    using hardPurge_view [OF assms(1), of now pk] p by (metis Pair_inject)
  have "fields_at (view s') t (metaKey st pk) = []"
    using v(2) fields_at_mono [OF assms(3), of "view s" "metaKey st pk"] by (auto intro: fields_at_None)
  then show ?thesis by (simp add: GetMeta_view [OF v(1)] decode_meta_def)
qed

lemma soft_fields:
  assumes "redis_up srv_up view st KV s" "now \<le> t"
    and v: "view s' = redis_effect now (softPurgeScript (metaKey st pk)) (view s)"
  shows "f \<noteq> softPurgedField \<Longrightarrow> map_of (fields_at (view s') t (metaKey st pk)) f = map_of (fields_at (view s) t (metaKey st pk)) f"
    and "map_of (fields_at (view s) t (metaKey st pk)) indexField \<noteq> None \<Longrightarrow>
      map_of (fields_at (view s') t (metaKey st pk)) softPurgedField = Some ''1''"
proof -
  let ?k = "metaKey st pk"
  have "(f \<noteq> softPurgedField \<longrightarrow> map_of (fields_at (view s') t ?k) f = map_of (fields_at (view s) t ?k) f) \<and>
    (map_of (fields_at (view s) t ?k) indexField \<noteq> None \<longrightarrow> map_of (fields_at (view s') t ?k) softPurgedField = Some ''1'')"
  proof (cases "indexField \<in> fst ` set (fields_at (view s) now ?k)")
    case False
    then have "map_of (fields_at (view s) t ?k) indexField = None"
      using fields_at_mono [OF assms(2), of "view s" ?k] by (auto simp: map_of_eq_None_iff)
    then show ?thesis using v False by (simp add: softPurgeScript_def)
  next
    case True
    then obtain fs x where k: "key_at (view s) now ?k = Some (Hash fs x)" using fields_at_mem by fastforce
    then obtain fs0 x0 where k0: "view s ?k = Some (Hash fs0 x0)"
      by (auto simp: key_at_def bind_eq_Some_conv elim!: entry_at.elims split: if_splits)
    have x: "x = x0" using k k0 by (auto simp: key_at_def split: if_splits)
    have d: "distinct (map fst fs0)" using view_distinct [OF _ k0] assms(1) by (simp add: redis_up_def)
    have "view s' = hset_key now ?k [(softPurgedField, ''1'')] (view s)" using v True by (simp add: softPurgeScript_def)
    note new = hset_key_fields [OF k k0 d assms(2), of softPurgedField "''1''", folded this]
    have "live t x" if "map_of (fields_at (view s) t ?k) indexField \<noteq> None"
      using that fields_at_Hash [of "view s" ?k fs0 x0 t] k0 x by (auto split: if_splits)
    then show ?thesis using new by auto
  qed
  then show "f \<noteq> softPurgedField \<Longrightarrow> map_of (fields_at (view s') t ?k) f = map_of (fields_at (view s) t ?k) f"
    "map_of (fields_at (view s) t ?k) indexField \<noteq> None \<Longrightarrow> map_of (fields_at (view s') t ?k) softPurgedField = Some ''1''"
    by blast+
qed

lemma redis_purge_soft:
  assumes "redis_up srv_up view st KV s" "redis_Purge st now s pk True = (Inr n, s')" "now \<le> t"
    and "redis_GetMeta st t s pk = Inr (mo, sp)"
  shows "redis_GetMeta st t s' pk = Inr (mo, mo \<noteq> None) \<and> redis_GetVariant st t s' pk vk = redis_GetVariant st t s pk vk"
proof -
  let ?F = "fields_at (view s) t (metaKey st pk)" and ?F' = "fields_at (view s') t (metaKey st pk)"
  have "softPurge st now s pk = (Inr n, s')" using assms(2) by (simp add: redis_Purge_def)
  then obtain up: "redis_up srv_up view st KV s'" and v: "view s' = redis_effect now (softPurgeScript (metaKey st pk)) (view s)"
    using softPurge_view [OF assms(1), of now pk] by (metis Pair_inject)
  note f = soft_fields [OF assms(1,3) v]
  have d: "distinct (map fst ?F)" "distinct (map fst ?F')" using fields_distinct assms(1) up by (simp_all add: redis_up_def)
  have dv: "decode_variants st ?F' = decode_variants st ?F"
    by (rule decode_variants_cong [OF d(2,1)]) (rule f(1), auto)
  have idx: "map_of ?F' indexField = map_of ?F indexField" by (rule f(1)) simp
  have "redis_GetMeta st t s' pk = Inr (mo, mo \<noteq> None)"
  proof (cases "map_of ?F indexField")
    case None
    then show ?thesis using assms(4) idx by (auto simp: GetMeta_view [OF assms(1)] GetMeta_view [OF up] decode_meta_def split: if_splits)
  next
    case (Some ib)
    then have "?F \<noteq> []" "?F' \<noteq> []" "map_of ?F' softPurgedField = Some ''1''" using idx f(2) by auto
    then show ?thesis using assms(4) Some idx dv
      by (auto simp: GetMeta_view [OF assms(1)] GetMeta_view [OF up] decode_meta_def Let_def split: option.splits)
  qed
  moreover have "str_at (view s') t (bodyKey st pk vk') = str_at (view s) t (bodyKey st pk vk')" for vk'
    by (rule str_at_cong) (simp add: v softPurgeScript_def hset_key_def split: option.split rentry.split)
  then have "redis_GetVariant st t s' pk vk = redis_GetVariant st t s pk vk"
    using f(1) by (simp add: GetVariant_view [OF assms(1)] GetVariant_view [OF up] variant_view_def)
  ultimately show ?thesis by blast
qed

lemma redis_purge_frame:
  assumes "redis_up srv_up view st KV s" "redis_Purge st now s pk soft = (Inr n, s')" "pk' \<noteq> pk"
  shows "redis_GetMeta st t s' pk' = redis_GetMeta st t s pk' \<and> redis_GetVariant st t s' pk' vk = redis_GetVariant st t s pk' vk"
proof (cases soft)
  case True
  then have "softPurge st now s pk = (Inr n, s')" using assms(2) by (simp add: redis_Purge_def)
  then obtain up: "redis_up srv_up view st KV s'" and v: "view s' = redis_effect now (softPurgeScript (metaKey st pk)) (view s)"
    using softPurge_view [OF assms(1), of now pk] by (metis Pair_inject)
  then show ?thesis using assms(3)
    by (intro reads_frame [OF assms(1) up]) (simp_all add: effect_frame softPurgeScript_def del: redis_effect.simps)
next
  case False
  then have "hardPurge st now s pk = (Inr n, s')" using assms(2) by (simp add: redis_Purge_def)
  then obtain up: "redis_up srv_up view st KV s'" and v: "view s' = view s \<or>
     (\<exists>del. view s' = redis_effect now (UNLINK (metaKey st pk # del)) (view s) \<and>
        (\<forall>bk \<in> set del. \<exists>vk. bk = bodyKey st pk vk \<and> (pk, vk) \<in> KV))"
    using hardPurge_view [OF assms(1), of now pk] by (metis Pair_inject)
  then show ?thesis using assms(3) bodyKey_apart by (intro reads_frame [OF assms(1) up]) fastforce+
qed

end

sublocale redis_backend \<subseteq> rb: storage_contract "redis_storage st" "redis_up srv_up view st KV" redis_life "redis_fits KV valid"
proof (unfold_locales, goal_cases)
  case (1 s k m v now b ttl)
  then show ?case by (auto simp: redis_storage_def intro: SetVariant_view [OF 1, of now b ttl])
next
  case (2 s t k)
  then show ?case using redis_get_meta_up [OF 2, of t k] by (simp add: redis_storage_def)
qed (auto simp: redis_storage_def redis_get_meta_up redis_get_variant_up redis_get_meta_set redis_get_variant_set
      redis_set_frame redis_purge_up redis_purge_hard redis_purge_soft redis_purge_frame)

context redis_backend
begin

lemmas axioms_contract = rb.storage_contract_axioms

end

end
