(* ===== verification/RedisPurge.thy ===== *)
theory RedisPurge
  imports RedisContract
begin

text \<open>
  The purges of the Redis backend that scan: they end, and they remove what they should. The
  loops are followed by induction on the rank of a cursor.
\<close>

context redis_backend
begin

section \<open>Unlinking by pattern\<close>

lemma exec_between:
  assumes "redis_up srv_up view st KV s" "cmd_ok st KV c" "\<And>tg' cur'. c \<noteq> SCAN tg' cur'"
    and "\<And>t. elements glob tg t (redis_effect now c (view s)) \<subseteq> elements glob tg t (view s)"
  shows "todo s tg cur \<subseteq> todo (snd (exec now s c)) tg cur" "rank (snd (exec now s c)) tg cur \<le> rank s tg cur"
proof -
  have "srv_up s" using assms(1) by (simp add: redis_up_def)
  then show "todo s tg cur \<subseteq> todo (snd (exec now s c)) tg cur" "rank (snd (exec now s c)) tg cur \<le> rank s tg cur"
    using scan_between [of s c tg now cur] assms(3,4) exec_ok(2) [OF assms(1,2), of now] by simp_all
qed

lemma unlink_elements: "elements glob (Keyspace p) t (redis_effect now (UNLINK del) ks) \<subseteq> elements glob (Keyspace p) t ks"
  by (auto simp: key_at_def split: if_splits)

lemma scanAndUnlink_complete:
  assumes "redis_up srv_up view st KV s"
    and "elements glob (Keyspace p) now (view s) \<subseteq> todo s (Keyspace p) cur"
  shows "\<exists>m s'. scanAndUnlink st now p cur n s = Some (Inr m, s') \<and> redis_up srv_up view st KV s' \<and>
    elements glob (Keyspace p) now (view s') = {} \<and> (\<forall>k. \<not> glob p k \<longrightarrow> view s' k = view s k)"
  using assms
proof (induction "rank s (Keyspace p) cur" arbitrary: s cur n rule: less_induct)
  case less
  let ?tg = "Keyspace p" and ?c = "SCAN (Keyspace p) cur"
  obtain r s1 where e: "exec now s ?c = (r, s1)" by (cases "exec now s ?c")
  have s1: "redis_up srv_up view st KV s1" "view s1 = view s" using exec_ok [OF less.prems(1), of ?c now] e by simp_all
  have "srv_up s" using less.prems(1) by (simp add: redis_up_def)
  from scan_reply [OF this, of ?tg cur now, unfolded e fst_conv snd_conv scan_items.simps type_ok.simps, OF TrueI] obtain cur' es where r: "r = RScan cur' es"
    and es: "set es \<subseteq> elements glob ?tg now (view s)"
    and seen: "elements glob ?tg now (view s) \<inter> todo s ?tg cur \<subseteq> set es \<union> (if cur' = 0 then {} else todo s1 ?tg cur')"
    and rk: "cur' \<noteq> 0 \<Longrightarrow> rank s1 ?tg cur' < rank s ?tg cur" by blast
  let ?u = "if es = [] then (RInt 0, s1) else exec now s1 (UNLINK es)"
  obtain q s2 where u: "?u = (q, s2)" by (cases ?u)
  have s2: "redis_up srv_up view st KV s2" "view s2 = redis_effect now (UNLINK es) (view s)" "\<exists>i. q = RInt i"
    "todo s1 ?tg cur' \<subseteq> todo s2 ?tg cur'" "rank s2 ?tg cur' \<le> rank s1 ?tg cur'"
    using u s1 exec_ok [OF s1(1), of "UNLINK es" now] exec_between [OF s1(1), of "UNLINK es" ?tg now cur'] unlink_elements
    by (auto split: if_splits)
  have left: "elements glob ?tg now (view s2) \<subseteq> elements glob ?tg now (view s) - set es"
    by (auto simp: s2(2) key_at_def)
  have frame: "view s2 k = view s k" if "\<not> glob p k" for k using es that by (auto simp: s2(2))
  let ?m = "n + int (length (filter (\<lambda>k. Contains k '':meta:'') es))"
  show ?case
  proof (cases "cur' = 0")
    case True
    then have "scanAndUnlink st now p cur n s = Some (Inr ?m, s2)"
      using s2(3) u by (cases "es = []") (auto simp: scanAndUnlink.simps [of st now p cur n s] client e r Let_def)
    moreover have "elements glob ?tg now (view s2) = {}" using left seen less.prems(2) True by auto
    ultimately show ?thesis using s2(1) frame by blast
  next
    case False
    then have step: "scanAndUnlink st now p cur n s = scanAndUnlink st now p cur' ?m s2"
      using s2(3) u by (cases "es = []") (auto simp: scanAndUnlink.simps [of st now p cur n s] client e r Let_def)
    have "rank s2 ?tg cur' < rank s ?tg cur" using rk [OF False] s2(5) by simp
    moreover have "elements glob ?tg now (view s2) \<subseteq> todo s2 ?tg cur'" using left seen less.prems(2) s2(4) False by auto
    ultimately obtain m s' where "scanAndUnlink st now p cur' ?m s2 = Some (Inr m, s')" "redis_up srv_up view st KV s'"
      "elements glob ?tg now (view s') = {}" "\<forall>k. \<not> glob p k \<longrightarrow> view s' k = view s2 k"
      using less.hyps [OF _ s2(1)] by blast
    then show ?thesis using step frame by auto
  qed
qed

lemma PurgeAll_complete:
  assumes "redis_up srv_up view st KV s" and "\<And>c. c \<in> set (kprefix st) \<Longrightarrow> c \<notin> set (''*?[]^-'' @ [CHR 0x5C])"
  shows "\<exists>m s'. redis_PurgeAll st now s = Some (Inr m, s') \<and> redis_up srv_up view st KV s' \<and>
    (\<forall>t pk. now \<le> t \<longrightarrow> redis_GetMeta st t s' pk = Inr (None, False))"
proof -
  let ?p = "kprefix st @ ''*''"
  have "elements glob (Keyspace ?p) now (view s) \<subseteq> todo s (Keyspace ?p) 0"
    using scan_start assms(1) unfolding redis_up_def by blast
  then obtain m s' where s': "redis_PurgeAll st now s = Some (Inr m, s')" "redis_up srv_up view st KV s'"
    "elements glob (Keyspace ?p) now (view s') = {}"
    using scanAndUnlink_complete [OF assms(1)] unfolding redis_PurgeAll_def by blast
  have "redis_GetMeta st t s' pk = Inr (None, False)" if "now \<le> t" for t pk
  proof -
    have "glob ?p (metaKey st pk)" unfolding metaKey_def using assms(2) by (rule glob_prefix)
    then have "key_at (view s') now (metaKey st pk) = None" using s'(3) by auto
    then have "fields_at (view s') now (metaKey st pk) = []" by (simp add: fields_at_def)
    then have "fields_at (view s') t (metaKey st pk) = []" using fields_at_mono [OF that, of "view s'" "metaKey st pk"] by simp
    then show ?thesis by (simp add: GetMeta_view [OF s'(2)] decode_meta_def)
  qed
  then show ?thesis using s' by blast
qed

section \<open>Purging by tag\<close>

lemma length_DoMulti: "length (fst (DoMulti e now s cs)) = length cs"
proof (induction cs arbitrary: s)
  case (Cons c cs)
  obtain r s1 where "e now s c = (r, s1)" by (cases "e now s c")
  moreover obtain rs s2 where "DoMulti e now s1 cs = (rs, s2)" by (cases "DoMulti e now s1 cs")
  ultimately show ?case using Cons.IH [of s1] by simp
qed simp

lemma batch_keys_lists:
  assumes "\<And>pk r. (pk, r) \<in> set prs \<Longrightarrow> \<exists>l. r = RList l \<and> (\<forall>vk. variantField vk \<in> set l \<longrightarrow> (pk, vk) \<in> KV)"
  shows "\<exists>del. batch_keys st prs = Inr del \<and> metaKey st ` fst ` set prs \<subseteq> set del \<and>
    (\<forall>k \<in> set del. \<exists>pk \<in> fst ` set prs. k = metaKey st pk \<or> (\<exists>vk. k = bodyKey st pk vk \<and> (pk, vk) \<in> KV))"
  using assms
proof (induction prs)
  case (Cons p prs)
  obtain pk r where p: "p = (pk, r)" by (cases p)
  obtain l where l: "r = RList l" "\<And>vk. variantField vk \<in> set l \<Longrightarrow> (pk, vk) \<in> KV" using Cons.prems p by auto
  obtain del where del: "batch_keys st prs = Inr del" "metaKey st ` fst ` set prs \<subseteq> set del"
    "\<forall>k \<in> set del. \<exists>pk \<in> fst ` set prs. k = metaKey st pk \<or> (\<exists>vk. k = bodyKey st pk vk \<and> (pk, vk) \<in> KV)"
    using Cons by (metis list.set_intros(2))
  have "\<exists>vk. k = bodyKey st pk vk \<and> (pk, vk) \<in> KV" if "k \<in> set (body_keys st pk l)" for k
    using in_body_keys [OF that] l(2) by blast
  then show ?case using del by (auto simp: p l(1))
qed simp

text \<open>The replies to a batch of readings: the view does not change, and each reply is the fields of its hash.\<close>

lemma DoMulti_hkeys:
  assumes "redis_up srv_up view st KV s"
  shows "view (snd (DoMulti exec now s (map (\<lambda>pk. HKEYS (metaKey st pk)) pks))) = view s \<and>
    redis_up srv_up view st KV (snd (DoMulti exec now s (map (\<lambda>pk. HKEYS (metaKey st pk)) pks))) \<and>
    todo s tg cur \<subseteq> todo (snd (DoMulti exec now s (map (\<lambda>pk. HKEYS (metaKey st pk)) pks))) tg cur \<and>
    rank (snd (DoMulti exec now s (map (\<lambda>pk. HKEYS (metaKey st pk)) pks))) tg cur \<le> rank s tg cur \<and>
    (\<forall>(pk, r) \<in> set (zip pks (fst (DoMulti exec now s (map (\<lambda>pk. HKEYS (metaKey st pk)) pks)))).
       \<exists>l. r = RList l \<and> set l = fst ` set (fields_at (view s) now (metaKey st pk)))"
  using assms
proof (induction pks arbitrary: s)
  case (Cons pk pks)
  let ?c = "HKEYS (metaKey st pk)" and ?cs = "map (\<lambda>pk. HKEYS (metaKey st pk)) pks"
  obtain r s1 where e: "exec now s ?c = (r, s1)" by (cases "exec now s ?c")
  obtain rs s2 where d: "DoMulti exec now s1 ?cs = (rs, s2)" by (cases "DoMulti exec now s1 ?cs")
  have ok: "cmd_ok st KV ?c" by (auto simp: hash_key_def)
  have c: "redis_up srv_up view st KV s1" "view s1 = view s"
    "\<exists>l. r = RList l \<and> set l = fst ` set (fields_at (view s) now (metaKey st pk))"
    using exec_ok [OF Cons.prems ok, of now] e by auto
  have b: "todo s tg cur \<subseteq> todo s1 tg cur" "rank s1 tg cur \<le> rank s tg cur"
    using exec_between [OF Cons.prems ok, of tg now cur] e by simp_all
  have ih: "view s2 = view s1" "redis_up srv_up view st KV s2" "todo s1 tg cur \<subseteq> todo s2 tg cur" "rank s2 tg cur \<le> rank s1 tg cur"
    "\<forall>(pk, r) \<in> set (zip pks rs). \<exists>l. r = RList l \<and> set l = fst ` set (fields_at (view s1) now (metaKey st pk))"
    using Cons.IH [OF c(1)] d by simp_all
  show ?case using ih c b by (auto simp: e d)
qed simp

lemma purge_batch_hard:
  assumes "redis_up srv_up view st KV s"
  shows "\<exists>s' del. purge_batch st now False s pks = (None, s') \<and> redis_up srv_up view st KV s' \<and>
    view s' = redis_effect now (UNLINK del) (view s) \<and> metaKey st ` set pks \<subseteq> set del \<and>
    (\<forall>k \<in> set del. \<exists>pk \<in> set pks. k = metaKey st pk \<or> (\<exists>vk. k = bodyKey st pk vk \<and> (pk, vk) \<in> KV)) \<and>
    todo s (Fields (tagKey st tag)) cur \<subseteq> todo s' (Fields (tagKey st tag)) cur \<and>
    rank s' (Fields (tagKey st tag)) cur \<le> rank s (Fields (tagKey st tag)) cur"
proof (cases "pks = []")
  case True
  then show ?thesis using assms by (intro exI [of _ s] exI [of _ "[]"]) (simp add: purge_batch_def)
next
  case False
  let ?tg = "Fields (tagKey st tag)" and ?cs = "map (\<lambda>pk. HKEYS (metaKey st pk)) pks"
  obtain rs s1 where d: "DoMulti exec now s ?cs = (rs, s1)" by (cases "DoMulti exec now s ?cs")
  have s1: "view s1 = view s" "redis_up srv_up view st KV s1" "todo s ?tg cur \<subseteq> todo s1 ?tg cur" "rank s1 ?tg cur \<le> rank s ?tg cur"
    "\<forall>(pk, r) \<in> set (zip pks rs). \<exists>l. r = RList l \<and> set l = fst ` set (fields_at (view s) now (metaKey st pk))"
    using DoMulti_hkeys [OF assms, of now pks ?tg cur] d by simp_all
  have fst: "fst ` set (zip pks rs) = set pks"
  proof -
    have "length rs = length pks" using length_DoMulti [of exec now s ?cs] d by simp
    then have "map fst (zip pks rs) = pks" by (simp add: map_fst_zip)
    then show ?thesis by (metis list.set_map)
  qed
  have "\<exists>l. r = RList l \<and> (\<forall>vk. variantField vk \<in> set l \<longrightarrow> (pk, vk) \<in> KV)" if pr: "(pk, r) \<in> set (zip pks rs)" for pk r
  proof -
    obtain l where "r = RList l" "set l = fst ` set (fields_at (view s) now (metaKey st pk))" using bspec [OF s1(5) pr] by auto
    moreover have "(pk, vk) \<in> KV" if "variantField vk \<in> fst ` set (fields_at (view s) now (metaKey st pk))" for vk
    proof -
      have "map_of (fields_at (view s) now (metaKey st pk)) (variantField vk) \<noteq> None" using that by (simp add: map_of_eq_None_iff)
      then show ?thesis using field_KV(1) [OF assms] by blast
    qed
    ultimately show ?thesis by blast
  qed
  then have "\<exists>del. batch_keys st (zip pks rs) = Inr del \<and> metaKey st ` set pks \<subseteq> set del \<and>
    (\<forall>k \<in> set del. \<exists>pk \<in> set pks. k = metaKey st pk \<or> (\<exists>vk. k = bodyKey st pk vk \<and> (pk, vk) \<in> KV))"
    by (rule batch_keys_lists [of "zip pks rs", unfolded fst])
  then obtain del where del: "batch_keys st (zip pks rs) = Inr del" "metaKey st ` set pks \<subseteq> set del"
    "\<forall>k \<in> set del. \<exists>pk \<in> set pks. k = metaKey st pk \<or> (\<exists>vk. k = bodyKey st pk vk \<and> (pk, vk) \<in> KV)"
    by (elim exE conjE)
  have ne: "del \<noteq> []" using del(2) False by auto
  obtain q s2 where u: "exec now s1 (UNLINK del) = (q, s2)" by (cases "exec now s1 (UNLINK del)")
  have tag: "tagKey st tag \<notin> set del" using del(3) by fastforce
  have "elements glob ?tg t (redis_effect now (UNLINK del) (view s1)) \<subseteq> elements glob ?tg t (view s1)" for t
    using tag by (simp add: fields_at_cong [of "\<lambda>k. if k \<in> set del then None else view s1 k" "tagKey st tag" "view s1"])
  then have b: "todo s1 ?tg cur \<subseteq> todo s2 ?tg cur" "rank s2 ?tg cur \<le> rank s1 ?tg cur"
    using exec_between [OF s1(2), of "UNLINK del" ?tg now cur] u by (simp_all del: elements.simps redis_effect.simps)
  have s2: "redis_up srv_up view st KV s2" "view s2 = redis_effect now (UNLINK del) (view s)" "\<exists>n. q = RInt n"
    using exec_ok [OF s1(2), of "UNLINK del" now] u s1(1) by simp_all
  then have "purge_batch st now False s pks = (None, s2)" using False ne by (auto simp: purge_batch_def client d del(1) u)
  then show ?thesis using s2(1,2) del(2,3) b s1(3,4) by (intro exI [of _ s2] exI [of _ del]) auto
qed

lemma tag_loop_complete:
  assumes "redis_up srv_up view st KV s"
    and "fst ` set (fields_at (view s) now (tagKey st tag)) - Done \<subseteq> todo s (Fields (tagKey st tag)) cur"
    and "\<And>pk. pk \<in> Done \<Longrightarrow> view s (metaKey st pk) = None"
  shows "\<exists>m s'. tag_loop st now (tagKey st tag) False cur n s = Some (Inr m, s') \<and> redis_up srv_up view st KV s' \<and>
    (\<forall>pk \<in> fst ` set (fields_at (view s) now (tagKey st tag)) \<union> Done. view s' (metaKey st pk) = None) \<and>
    (\<forall>pk. pk \<notin> fst ` set (fields_at (view s) now (tagKey st tag)) \<longrightarrow> view s' (metaKey st pk) = view s (metaKey st pk) \<and>
      (\<forall>vk. (pk, vk) \<in> KV \<longrightarrow> view s' (bodyKey st pk vk) = view s (bodyKey st pk vk)))"
  using assms
proof (induction "rank s (Fields (tagKey st tag)) cur" arbitrary: s cur n Done rule: less_induct)
  case less
  let ?k = "tagKey st tag" and ?tg = "Fields (tagKey st tag)" and ?c = "SCAN (Fields (tagKey st tag)) cur"
  let ?E = "fst ` set (fields_at (view s) now (tagKey st tag))"
  have ok: "cmd_ok st KV ?c" by (auto simp: hash_key_def)
  obtain r s1 where e: "exec now s ?c = (r, s1)" by (cases "exec now s ?c")
  have s1: "redis_up srv_up view st KV s1" "view s1 = view s" using exec_ok [OF less.prems(1) ok, of now] e by simp_all
  have up: "srv_up s" and ty: "type_ok ?c (view s)" using less.prems(1) inv_type_ok [OF _ ok] by (auto simp: redis_up_def)
  from scan_reply [OF up ty, of now, unfolded e fst_conv snd_conv scan_items.simps elements.simps] obtain cur' es where r: "r = RScan cur' es"
    and es: "set (evens es) \<subseteq> ?E"
    and seen: "?E \<inter> todo s ?tg cur \<subseteq> set (evens es) \<union> (if cur' = 0 then {} else todo s1 ?tg cur')"
    and rk: "cur' \<noteq> 0 \<Longrightarrow> rank s1 ?tg cur' < rank s ?tg cur" by blast
  obtain s2 del where b: "purge_batch st now False s1 (evens es) = (None, s2)" "redis_up srv_up view st KV s2"
    "view s2 = redis_effect now (UNLINK del) (view s)" "metaKey st ` set (evens es) \<subseteq> set del"
    "\<forall>k \<in> set del. \<exists>pk \<in> set (evens es). k = metaKey st pk \<or> (\<exists>vk. k = bodyKey st pk vk \<and> (pk, vk) \<in> KV)"
    "todo s1 ?tg cur' \<subseteq> todo s2 ?tg cur'" "rank s2 ?tg cur' \<le> rank s1 ?tg cur'"
    using purge_batch_hard [OF s1(1), of now "evens es" tag cur'] s1(2) by auto
  let ?Done = "Done \<union> set (evens es)"
  have gone: "view s2 (metaKey st pk) = None" if "pk \<in> ?Done" for pk using that less.prems(3) b(3,4) by auto
  have "view s2 ?k = view s ?k" using b(3,5) by fastforce
  then have E: "fst ` set (fields_at (view s2) now ?k) = ?E" by (metis fields_at_cong)
  have frame: "view s2 (metaKey st pk) = view s (metaKey st pk) \<and>
      (\<forall>vk. (pk, vk) \<in> KV \<longrightarrow> view s2 (bodyKey st pk vk) = view s (bodyKey st pk vk))" if "pk \<notin> ?E" for pk
  proof -
    have "metaKey st pk \<notin> set del" using b(5) es that by fastforce
    moreover have "bodyKey st pk vk \<notin> set del" if "(pk, vk) \<in> KV" for vk
      using b(5) es \<open>pk \<notin> ?E\<close> bodyKey_apart [OF that] by fastforce
    ultimately show ?thesis by (simp add: b(3))
  qed
  let ?m = "n + int (length (evens es))"
  show ?case
  proof (cases "cur' = 0")
    case True
    then have "tag_loop st now ?k False cur n s = Some (Inr ?m, s2)"
      by (simp add: tag_loop.simps [of st now ?k False cur n s] client e r b(1))
    moreover have sub: "?E \<union> Done \<subseteq> ?Done" using seen less.prems(2) True by auto
    have "\<forall>pk \<in> ?E \<union> Done. view s2 (metaKey st pk) = None" by (intro ballI gone) (rule subsetD [OF sub])
    ultimately show ?thesis using b(2) frame by (intro exI [of _ ?m] exI [of _ s2] conjI allI impI) simp_all
  next
    case False
    then have step: "tag_loop st now ?k False cur n s = tag_loop st now ?k False cur' ?m s2"
      by (simp add: tag_loop.simps [of st now ?k False cur n s] client e r b(1))
    have "rank s2 ?tg cur' < rank s ?tg cur" using rk [OF False] b(7) by simp
    moreover have "fst ` set (fields_at (view s2) now ?k) - ?Done \<subseteq> todo s2 ?tg cur'" unfolding E using seen less.prems(2) b(6) False by auto
    ultimately obtain m s' where "tag_loop st now ?k False cur' ?m s2 = Some (Inr m, s')" "redis_up srv_up view st KV s'"
      "\<forall>pk \<in> ?E \<union> ?Done. view s' (metaKey st pk) = None"
      "\<forall>pk. pk \<notin> ?E \<longrightarrow> view s' (metaKey st pk) = view s2 (metaKey st pk) \<and>
        (\<forall>vk. (pk, vk) \<in> KV \<longrightarrow> view s' (bodyKey st pk vk) = view s2 (bodyKey st pk vk))"
      using less.hyps [OF _ b(2), of cur' ?Done ?m] gone unfolding E by blast
    then show ?thesis using step frame by (intro exI [of _ m] exI [of _ s']) auto
  qed
qed

lemma PurgeByTag_complete:
  assumes "redis_up srv_up view st KV s"
  obtains m s' where "redis_PurgeByTag st now s tag False = Some (Inr m, s')" "redis_up srv_up view st KV s'"
    "\<And>pk t. pk \<in> fst ` set (fields_at (view s) now (tagKey st tag)) \<Longrightarrow> redis_GetMeta st t s' pk = Inr (None, False)"
    "\<And>pk t vk. pk \<notin> fst ` set (fields_at (view s) now (tagKey st tag)) \<Longrightarrow>
      redis_GetMeta st t s' pk = redis_GetMeta st t s pk \<and> redis_GetVariant st t s' pk vk = redis_GetVariant st t s pk vk"
proof -
  let ?k = "tagKey st tag" and ?E = "fst ` set (fields_at (view s) now (tagKey st tag))"
  have "?E - {} \<subseteq> todo s (Fields ?k) 0" using scan_start [of s "Fields ?k" now] assms by (simp add: redis_up_def)
  from tag_loop_complete [OF assms this, of 0] obtain m s1 where l: "tag_loop st now ?k False 0 0 s = Some (Inr m, s1)"
    "redis_up srv_up view st KV s1" "\<forall>pk \<in> ?E. view s1 (metaKey st pk) = None"
    "\<forall>pk. pk \<notin> ?E \<longrightarrow> view s1 (metaKey st pk) = view s (metaKey st pk) \<and>
      (\<forall>vk. (pk, vk) \<in> KV \<longrightarrow> view s1 (bodyKey st pk vk) = view s (bodyKey st pk vk))" by (auto simp del: fst_conv)
  define s2 where "s2 = snd (exec now s1 (UNLINK [?k]))"
  have s2: "redis_up srv_up view st KV s2" "view s2 = redis_effect now (UNLINK [?k]) (view s1)"
    using exec_ok [OF l(2), of "UNLINK [?k]" now] by (simp_all add: s2_def)
  have k: "view s2 (metaKey st pk) = view s1 (metaKey st pk)" "view s2 (bodyKey st pk vk) = view s1 (bodyKey st pk vk)" for pk vk
    by (simp_all add: s2(2))
  show thesis
  proof (rule that [of m s2])
    show "redis_PurgeByTag st now s tag False = Some (Inr m, s2)" by (simp add: redis_PurgeByTag_def l(1) client s2_def)
    show "redis_GetMeta st t s2 pk = Inr (None, False)" if "pk \<in> ?E" for pk t
    proof -
      have "view s2 (metaKey st pk) = None" using bspec [OF l(3) that] k(1) by simp
      then have "fields_at (view s2) t (metaKey st pk) = []" by (rule fields_at_None)
      then show ?thesis by (simp add: GetMeta_view [OF s2(1)] decode_meta_def)
    qed
    show "redis_GetMeta st t s2 pk = redis_GetMeta st t s pk \<and> redis_GetVariant st t s2 pk vk = redis_GetVariant st t s pk vk"
      if "pk \<notin> ?E" for pk t vk
      by (rule reads_frame [OF assms s2(1)]) (use l(4) that k in simp_all)
  qed (rule s2(1))
qed

text \<open>An entry written with a tag is listed under the tag as long as it lives.\<close>

lemma SetVariant_tagged:
  assumes "redis_up srv_up view st KV s" "redis_fits KV valid pk m v"
    and set: "redis_SetVariant st now s pk (Some m) (Some v) b ttl = (None, s')"
    and "tag \<in> set (Tags m)" "tag \<noteq> []" "t < tadd now (redis_life ttl)"
  shows "pk \<in> fst ` set (fields_at (view s') t (tagKey st tag))"
proof -
  let ?secs = "ttl_seconds st ttl" and ?vk = "VariantKey (keyed v)"
  obtain ib vb where s1: "redis_up srv_up view st KV s'"
    "view s' = foldl (\<lambda>ks c. redis_effect now c ks) (view s) (set_cmds st pk ?vk ib vb b ?secs (Tags m))"
    and codec: "unmarshalMeta st ib = Some (m\<lparr>Variants := []\<rparr>)" "unmarshalVariant st vb = Some (keyed v)"
    using SetVariant_view [OF assms(1,2), of now b ttl] set by (metis Pair_inject)
  have "tag_listed now ?secs (view s') (tagKey st tag) pk" unfolding s1(2)
    by (rule set_cmds_tagged [where KV = KV, OF _ _ assms(5,4)]) (use assms(1,2) codec in \<open>simp_all add: redis_up_def field_ok_def redis_fits_def ttl_seconds_def\<close>)
  then obtain fs X where f: "view s' (tagKey st tag) = Some (Hash fs (Some X))" "seconds_after now ?secs \<le> X"
    "map_of fs pk = Some (''1'', Some (seconds_after now ?secs))" by (auto simp: tag_listed_def settled_def)
  have t: "t < seconds_after now ?secs" by (rule life_within [OF assms(6)])
  then have "live t (Some X)" using f(2) by (simp add: live_def)
  then have e: "fields_at (view s') t (tagKey st tag) = map (\<lambda>(f, v, y). (f, v)) (live_fields t fs)" using f(1) by (simp add: fields_at_Hash)
  have "srv_up s'" using s1(1) by (simp add: redis_up_def)
  from map_of_live_fields [OF view_distinct [OF this f(1)], of t pk, folded e] f(3) t
  have "map_of (fields_at (view s') t (tagKey st tag)) pk = Some ''1''" by (simp add: live_def)
  then show ?thesis by (metis domI dom_map_of_conv_image_fst)
qed

text \<open>So a purge by tag during the life of the entry removes it.\<close>

lemma tag_purge_after_write:
  assumes "redis_up srv_up view st KV s" "redis_fits KV valid pk m v"
    and "redis_SetVariant st now s pk (Some m) (Some v) b ttl = (None, s')"
    and "tag \<in> set (Tags m)" "tag \<noteq> []" "now' < tadd now (redis_life ttl)"
  shows "\<exists>n s''. redis_PurgeByTag st now' s' tag False = Some (Inr n, s'') \<and> redis_up srv_up view st KV s'' \<and>
    (\<forall>t. redis_GetMeta st t s'' pk = Inr (None, False)) \<and>
    (\<forall>pk' t vk. pk' \<notin> fst ` set (fields_at (view s') now' (tagKey st tag)) \<longrightarrow>
       redis_GetMeta st t s'' pk' = redis_GetMeta st t s' pk' \<and> redis_GetVariant st t s'' pk' vk = redis_GetVariant st t s' pk' vk)"
proof -
  have "redis_up srv_up view st KV s'" using SetVariant_view [OF assms(1,2), of now b ttl] assms(3) by (metis Pair_inject)
  then show ?thesis
    by (rule PurgeByTag_complete [of s' now' tag]) (use SetVariant_tagged [OF assms] in blast)
qed

end

end
