(* ===== verification/RedisKeys.thy ===== *)
theory RedisKeys
  imports RedisStore CacheKeys
begin

text \<open>
  The Redis keys of a body, which join a primary and a variant key with a colon. A primary key
  that ends with a colon and has no two colons in a row marks the place of the join; the keys of
  \<^verbatim>\<open>src/cache_key.go\<close> have that shape unless a part of the request brings two colons along.
\<close>

section \<open>The shape of a primary key\<close>

fun single_colons :: "bytes \<Rightarrow> bool" where
  "single_colons (c # d # s) \<longleftrightarrow> \<not> (c = CHR '':'' \<and> d = CHR '':'') \<and> single_colons (d # s)"
| "single_colons _ \<longleftrightarrow> True"

definition separable :: "bytes \<Rightarrow> bool" where
  "separable pk \<longleftrightarrow> pk \<noteq> [] \<and> last pk = CHR '':'' \<and> single_colons pk"

definition body_pairs :: "(bytes \<times> bytes) set" where
  "body_pairs = {(pk, vk). separable pk}"

lemma single_colons_append:
  "single_colons (s @ t) \<longleftrightarrow> single_colons s \<and> single_colons t \<and> \<not> (s \<noteq> [] \<and> t \<noteq> [] \<and> last s = CHR '':'' \<and> hd t = CHR '':'')"
proof (induction s)
  case (Cons c s)
  then show ?case by (cases s; cases t) auto
qed simp

lemma single_colons_free: "CHR '':'' \<notin> set s \<Longrightarrow> single_colons s"
  by (induction s rule: single_colons.induct) auto

lemma separable_cancel:
  assumes "separable p" "separable q" "p @ '':'' @ v = q @ '':'' @ w"
  shows "p = q \<and> v = w"
proof -
  have no: "u = []" if "separable (a @ u)" "separable a" "u @ '':'' @ x = '':'' @ y" for a u x y
    using that by (cases u) (auto simp: separable_def single_colons_append)
  obtain u where "p = q @ u \<and> u @ '':'' @ v = '':'' @ w \<or> p @ u = q \<and> '':'' @ v = u @ '':'' @ w"
    using assms(3) by (auto simp: append_eq_append_conv2)
  then show ?thesis
    using no [of q u v w] no [of p u w v] assms(1,2) by fastforce
qed

lemma bodyKey_inj: "inj_on (\<lambda>(pk, vk). bodyKey st pk vk) body_pairs"
proof (rule inj_onI, clarsimp simp: body_pairs_def)
  fix p v q w assume "separable p" "separable q" "bodyKey st p v = bodyKey st q w"
  then show "p = q \<and> v = w" using separable_cancel [of p q v w] by (simp add: bodyKey_def)
qed

section \<open>Generated keys\<close>

text \<open>One part of a key: some text without two colons in a row that does not begin or end with one, then a colon.\<close>

definition part :: "bytes \<Rightarrow> bool" where
  "part s \<longleftrightarrow> separable s \<and> hd s \<noteq> CHR '':''"

lemma partI: "s \<noteq> [] \<Longrightarrow> hd s \<noteq> CHR '':'' \<Longrightarrow> last s \<noteq> CHR '':'' \<Longrightarrow> single_colons s \<Longrightarrow> part (s @ '':'')"
  by (auto simp: part_def separable_def single_colons_append)

lemma part_append: "part s \<Longrightarrow> part t \<Longrightarrow> part (s @ t)"
  by (auto simp: part_def separable_def single_colons_append)

lemma part_concat: "part s \<Longrightarrow> (\<And>t. t \<in> set ts \<Longrightarrow> t = [] \<or> part t) \<Longrightarrow> part (s @ concat ts)"
proof (induction ts arbitrary: s)
  case (Cons t ts)
  have "part (s @ t)" using Cons.prems(2) [of t] Cons.prems(1) part_append by auto
  then have "part ((s @ t) @ concat ts)" by (rule Cons.IH) (use Cons.prems(2) in simp)
  then show ?case by simp
qed simp

definition tame :: "bytes \<Rightarrow> bool" where
  "tame s \<longleftrightarrow> single_colons s \<and> (s \<noteq> [] \<longrightarrow> hd s \<noteq> CHR '':'' \<and> last s \<noteq> CHR '':'')"

lemma part_tagged:
  assumes "t \<noteq> []" "CHR '':'' \<notin> set t" "tame b"
  shows "part ((t @ b) @ '':'')"
proof (rule partI)
  have t: "hd t \<noteq> CHR '':''" "last t \<noteq> CHR '':''" using assms(1,2) hd_in_set last_in_set by metis+
  then show "hd (t @ b) \<noteq> CHR '':''" "last (t @ b) \<noteq> CHR '':''" using assms(1,3) by (auto simp: tame_def last_append)
  show "single_colons (t @ b)" using assms(2,3) t(2) by (simp add: single_colons_append single_colons_free tame_def)
qed (use assms(1) in simp)

lemma part_opt_seg: "t \<noteq> [] \<Longrightarrow> CHR '':'' \<notin> set t \<Longrightarrow> tame b \<Longrightarrow> part R \<Longrightarrow> part (opt_seg t b R)"
  using part_append [OF part_tagged [of "t @ ''=''" b], of R] by (simp add: opt_seg_def)

lemma tame_free: "CHR '':'' \<notin> set s \<Longrightarrow> tame s"
  by (auto simp: tame_def single_colons_free dest: hd_in_set last_in_set)

text \<open>A request whose path, host, method and key names bring no two colons together.\<close>

definition tame_request :: "CacheKey \<Rightarrow> Request \<Rightarrow> bool" where
  "tame_request cfg r \<longleftrightarrow> tame (writeEscapedPath (path_of_key cfg r)) \<and> tame (host_of_key cfg r) \<and>
     CHR '':'' \<notin> set (Method r) \<and>
     (\<forall>h \<in> set (IncludedHeaderNames cfg). CHR '':'' \<notin> set h) \<and> (\<forall>c \<in> set (IncludedCookieNames cfg). CHR '':'' \<notin> set c)"

lemma QueryEscape_no_colon: "CHR '':'' \<notin> set (QueryEscape s)"
  using render_param_no_colon [of "(s, [])"] by (simp add: render_param_def)

lemma ToLower_no_colon: "CHR '':'' \<notin> set s \<Longrightarrow> CHR '':'' \<notin> set (ToLower s)"
proof -
  have "c = CHR '':''" if a: "lower_byte c = CHR '':''" for c
  proof -
    have "\<not> is_upper c" using a
      by (auto simp: lower_byte_def is_upper_def dest!: arg_cong [where f = "of_char :: char \<Rightarrow> nat"])
    with a show ?thesis by (simp add: lower_byte_def)
  qed
  then show "CHR '':'' \<notin> set s \<Longrightarrow> CHR '':'' \<notin> set (ToLower s)"
    unfolding ToLower_def by (metis (no_types) imageE list.set_map)
qed

lemma key_header_part: "CHR '':'' \<notin> set h \<Longrightarrow> key_header r h = [] \<or> part (key_header r h)"
proof -
  assume h: "CHR '':'' \<notin> set h"
  let ?vs = "map (\<lambda>v. QueryEscape (TrimSpace v)) (Values (rHeader r) h)"
  have "CHR '':'' \<notin> set (Join '','' ?vs)" using set_Join [of "'',''" ?vs] QueryEscape_no_colon by fastforce
  then have "part ((''he='' @ ToLower h @ ''~'' @ Join '','' ?vs) @ '':'')"
    using part_tagged [of "''he=''" "ToLower h @ ''~'' @ Join '','' ?vs"] ToLower_no_colon [OF h] by (simp add: tame_free)
  then show ?thesis by (simp add: key_header_def Let_def)
qed

lemma key_cookie_part: "CHR '':'' \<notin> set c \<Longrightarrow> key_cookie r c = [] \<or> part (key_cookie r c)"
proof -
  assume c: "CHR '':'' \<notin> set c"
  have "part ((''ck='' @ c @ ''~'' @ QueryEscape v) @ '':'')" for v
    using part_tagged [of "''ck=''" "c @ ''~'' @ QueryEscape v"] c by (simp add: tame_free QueryEscape_no_colon)
  then show ?thesis by (simp add: key_cookie_def split: option.split)
qed

lemma generatePrimaryKey_separable:
  assumes "tame_request (key_cfg cfg0) r"
  shows "separable (generatePrimaryKey r cfg0)"
proof -
  let ?cfg = "key_cfg cfg0"
  have a: "tame (writeEscapedPath (path_of_key ?cfg r))" "tame (host_of_key ?cfg r)" "CHR '':'' \<notin> set (Method r)"
    and n: "\<And>h. h \<in> set (IncludedHeaderNames ?cfg) \<Longrightarrow> CHR '':'' \<notin> set h" "\<And>c. c \<in> set (IncludedCookieNames ?cfg) \<Longrightarrow> CHR '':'' \<notin> set c"
    using assms by (auto simp: tame_request_def)
  have "CHR '':'' \<notin> set (method_of_key r)" using a(3) by (simp add: method_of_key_def)
  then have "part ((''m='' @ method_of_key r) @ '':'')" by (intro part_tagged tame_free) simp_all
  then have "part (((''m='' @ method_of_key r) @ '':'') @ concat (map (key_header r) (sort (IncludedHeaderNames ?cfg)) @
      map (key_cookie r) (sort (IncludedCookieNames ?cfg))))"
    by (rule part_concat) (use key_header_part [OF n(1), of _ r] key_cookie_part [OF n(2), of _ r] in auto)
  then have m: "part (''m='' @ method_of_key r @ '':'' @ extra_of_key ?cfg r)" by (simp add: extra_of_key_def)
  have s: "tame (if IncludeProtocol ?cfg then resolveScheme r else [])" by (auto simp: resolveScheme_def tame_def)
  have q: "tame (query_of_key ?cfg r)" by (rule tame_free) (rule query_of_key_no_colon)
  have "part (opt_seg ''h'' (host_of_key ?cfg r) (opt_seg ''s'' (if IncludeProtocol ?cfg then resolveScheme r else [])
     (opt_seg ''qs'' (query_of_key ?cfg r) (''m='' @ method_of_key r @ '':'' @ extra_of_key ?cfg r))))"
    by (intro part_opt_seg a(2) s q m) simp_all
  from part_append [OF part_tagged [of "''p=''", OF _ _ a(1)] this] show ?thesis
    by (simp add: generatePrimaryKey_parts [OF refl] part_def)
qed

end
