(* ===== verification/RedisReference.thy ===== *)
theory RedisReference
  imports RedisPurge RedisKeys PurgeOps
begin

text \<open>
  A server and a codec on which the Redis backend runs: the key space is an association list that
  obeys the documented effects, a scan returns everything at once, and a message is written as
  its fields one after the other, numbers in decimal and texts with their length in front. They
  interpret the locales \<open>redis_server\<close> and \<open>redis_backend\<close>, whose laws can therefore hold together.
\<close>

section \<open>A codec\<close>

text \<open>A decoder returns what it read and the rest; it fits an encoder when it takes back what was written.\<close>

definition reads_back :: "('a \<Rightarrow> bytes) \<Rightarrow> (bytes \<Rightarrow> ('a \<times> bytes) option) \<Rightarrow> bool" where
  "reads_back e d \<longleftrightarrow> (\<forall>x r. d (e x @ r) = Some (x, r))"

definition enc_nat :: "nat \<Rightarrow> bytes" where
  "enc_nat n = nat_text n @ '';''"

definition dec_nat :: "bytes \<Rightarrow> (nat \<times> bytes) option" where
  "dec_nat bs = (case dropWhile is_digit bs of
     c # r \<Rightarrow> if c = CHR '';'' then Some (digits_value (takeWhile is_digit bs), r) else None | [] \<Rightarrow> None)"

definition enc_int :: "int \<Rightarrow> bytes" where
  "enc_int i = (if i < 0 then ''-'' else ''+'') @ enc_nat (nat \<bar>i\<bar>)"

definition dec_int :: "bytes \<Rightarrow> (int \<times> bytes) option" where
  "dec_int bs = (case bs of
     c # r \<Rightarrow> map_option (\<lambda>(n, r'). (if c = CHR ''-'' then - int n else int n, r')) (dec_nat r) | [] \<Rightarrow> None)"

definition enc_bytes :: "bytes \<Rightarrow> bytes" where
  "enc_bytes b = enc_nat (length b) @ b"

definition dec_bytes :: "bytes \<Rightarrow> (bytes \<times> bytes) option" where
  "dec_bytes bs = map_option (\<lambda>(n, r). (take n r, drop n r)) (dec_nat bs)"

definition enc_pair :: "('a \<Rightarrow> bytes) \<Rightarrow> ('b \<Rightarrow> bytes) \<Rightarrow> 'a \<times> 'b \<Rightarrow> bytes" where
  "enc_pair e1 e2 p = e1 (fst p) @ e2 (snd p)"

definition dec_pair :: "(bytes \<Rightarrow> ('a \<times> bytes) option) \<Rightarrow> (bytes \<Rightarrow> ('b \<times> bytes) option) \<Rightarrow> bytes \<Rightarrow> (('a \<times> 'b) \<times> bytes) option" where
  "dec_pair d1 d2 bs = Option.bind (d1 bs) (\<lambda>(a, r). map_option (\<lambda>(b, r'). ((a, b), r')) (d2 r))"

fun dec_many :: "(bytes \<Rightarrow> ('a \<times> bytes) option) \<Rightarrow> nat \<Rightarrow> bytes \<Rightarrow> ('a list \<times> bytes) option" where
  "dec_many d 0 bs = Some ([], bs)"
| "dec_many d (Suc n) bs = Option.bind (d bs) (\<lambda>(x, r). map_option (\<lambda>(xs, r'). (x # xs, r')) (dec_many d n r))"

definition enc_list :: "('a \<Rightarrow> bytes) \<Rightarrow> 'a list \<Rightarrow> bytes" where
  "enc_list e xs = enc_nat (length xs) @ concat (map e xs)"

definition dec_list :: "(bytes \<Rightarrow> ('a \<times> bytes) option) \<Rightarrow> bytes \<Rightarrow> ('a list \<times> bytes) option" where
  "dec_list d bs = Option.bind (dec_nat bs) (\<lambda>(n, r). dec_many d n r)"

definition enc_via :: "('a \<Rightarrow> 'b) \<Rightarrow> ('b \<Rightarrow> bytes) \<Rightarrow> 'a \<Rightarrow> bytes" where
  "enc_via f e x = e (f x)"

definition dec_via :: "('b \<Rightarrow> 'a) \<Rightarrow> (bytes \<Rightarrow> ('b \<times> bytes) option) \<Rightarrow> bytes \<Rightarrow> ('a \<times> bytes) option" where
  "dec_via g d bs = map_option (\<lambda>(x, r). (g x, r)) (d bs)"

named_theorems codec_intros

lemma nat_codec [codec_intros]: "reads_back enc_nat dec_nat"
proof -
  have d: "\<forall>c \<in> set (nat_text n). is_digit c" for n using nat_text_digits [of n] by (simp add: list_all_iff)
  have "\<not> is_digit (CHR '';'')" by (simp add: is_digit_def)
  then show ?thesis
    using d by (simp add: reads_back_def enc_nat_def dec_nat_def dropWhile_append2 takeWhile_append2 digits_value_nat_text)
qed

lemma int_codec [codec_intros]: "reads_back enc_int dec_int"
  using nat_codec by (simp add: reads_back_def enc_int_def dec_int_def)

lemma bytes_codec [codec_intros]: "reads_back enc_bytes dec_bytes"
  using nat_codec by (simp add: reads_back_def enc_bytes_def dec_bytes_def)

lemma pair_codec [codec_intros]: "reads_back e1 d1 \<Longrightarrow> reads_back e2 d2 \<Longrightarrow> reads_back (enc_pair e1 e2) (dec_pair d1 d2)"
  by (simp add: reads_back_def enc_pair_def dec_pair_def)

lemma list_codec [codec_intros]:
  assumes "reads_back e d"
  shows "reads_back (enc_list e) (dec_list d)"
proof -
  have "dec_many d (length xs) (concat (map e xs) @ r) = Some (xs, r)" for xs r
    by (induction xs) (use assms in \<open>simp_all add: reads_back_def\<close>)
  then show ?thesis using nat_codec by (simp add: reads_back_def enc_list_def dec_list_def)
qed

lemma via_codec: "reads_back e d \<Longrightarrow> (\<And>x. g (f x) = x) \<Longrightarrow> reads_back (enc_via f e) (dec_via g d)"
  by (simp add: reads_back_def enc_via_def dec_via_def)

type_synonym fragment_fields = "int \<times> int \<times> bytes \<times> bytes \<times> bytes \<times> nat \<times> int \<times> int \<times> int"

definition fragment_fields :: "EsiFragment \<Rightarrow> fragment_fields" where
  "fragment_fields f = (StartPos f, EndPos f, Src f, Alt f, OnError f, MaxDepth f, TimeoutMs f, InnerStartPos f, InnerEndPos f)"

definition fragment_of :: "fragment_fields \<Rightarrow> EsiFragment" where
  "fragment_of = (\<lambda>(a, b, c, d, e, f, g, h, i). \<lparr>StartPos = a, EndPos = b, Src = c, Alt = d, OnError = e, MaxDepth = f,
     TimeoutMs = g, InnerStartPos = h, InnerEndPos = i\<rparr>)"

definition enc_fragment :: "EsiFragment \<Rightarrow> bytes" where
  "enc_fragment = enc_via fragment_fields (enc_pair enc_int (enc_pair enc_int (enc_pair enc_bytes (enc_pair enc_bytes
     (enc_pair enc_bytes (enc_pair enc_nat (enc_pair enc_int (enc_pair enc_int enc_int))))))))"

definition dec_fragment :: "bytes \<Rightarrow> (EsiFragment \<times> bytes) option" where
  "dec_fragment = dec_via fragment_of (dec_pair dec_int (dec_pair dec_int (dec_pair dec_bytes (dec_pair dec_bytes
     (dec_pair dec_bytes (dec_pair dec_nat (dec_pair dec_int (dec_pair dec_int dec_int))))))))"

type_synonym variant_fields = "bytes \<times> (bytes \<times> bytes) list \<times> int \<times> Header \<times> bytes \<times> int \<times> int \<times> EsiFragment list \<times> bytes"

definition variant_fields :: "VariantInfo \<Rightarrow> variant_fields" where
  "variant_fields v = (VariantKey v, VaryHeaders v, StatusCode v, ResponseHeaders v, Etag v, LastModifiedUnixNano v,
     RawBodySize v, EsiFragments v, StorageCompression v)"

definition variant_of :: "variant_fields \<Rightarrow> VariantInfo" where
  "variant_of = (\<lambda>(a, b, c, d, e, f, g, h, i). \<lparr>VariantKey = a, VaryHeaders = b, StatusCode = c, ResponseHeaders = d, Etag = e,
     LastModifiedUnixNano = f, RawBodySize = g, EsiFragments = h, StorageCompression = i\<rparr>)"

definition enc_variant :: "VariantInfo \<Rightarrow> bytes" where
  "enc_variant = enc_via variant_fields (enc_pair enc_bytes (enc_pair (enc_list (enc_pair enc_bytes enc_bytes)) (enc_pair enc_int
     (enc_pair (enc_list (enc_pair enc_bytes (enc_list enc_bytes))) (enc_pair enc_bytes (enc_pair enc_int (enc_pair enc_int
     (enc_pair (enc_list enc_fragment) enc_bytes))))))))"

definition dec_variant :: "bytes \<Rightarrow> (VariantInfo \<times> bytes) option" where
  "dec_variant = dec_via variant_of (dec_pair dec_bytes (dec_pair (dec_list (dec_pair dec_bytes dec_bytes)) (dec_pair dec_int
     (dec_pair (dec_list (dec_pair dec_bytes (dec_list dec_bytes))) (dec_pair dec_bytes (dec_pair dec_int (dec_pair dec_int
     (dec_pair (dec_list dec_fragment) dec_bytes))))))))"

type_synonym meta_fields = "bytes \<times> bytes list \<times> (bytes \<times> VariantInfo) list \<times> int \<times> int \<times> int \<times> int \<times> bytes list"

definition meta_fields :: "CacheMetadata \<Rightarrow> meta_fields" where
  "meta_fields m = (PrimaryKey m, VaryHeaderNames m, Variants m, CreatedAtUnixNano m, ExpiresAtUnixNano m,
     StaleUntilUnixNano m, CorrectedInitialAgeSeconds m, Tags m)"

definition meta_of :: "meta_fields \<Rightarrow> CacheMetadata" where
  "meta_of = (\<lambda>(a, b, c, d, e, f, g, h). \<lparr>PrimaryKey = a, VaryHeaderNames = b, Variants = c, CreatedAtUnixNano = d,
     ExpiresAtUnixNano = e, StaleUntilUnixNano = f, CorrectedInitialAgeSeconds = g, Tags = h\<rparr>)"

definition enc_meta :: "CacheMetadata \<Rightarrow> bytes" where
  "enc_meta = enc_via meta_fields (enc_pair enc_bytes (enc_pair (enc_list enc_bytes) (enc_pair (enc_list (enc_pair enc_bytes enc_variant))
     (enc_pair enc_int (enc_pair enc_int (enc_pair enc_int (enc_pair enc_int (enc_list enc_bytes))))))))"

definition dec_meta :: "bytes \<Rightarrow> (CacheMetadata \<times> bytes) option" where
  "dec_meta = dec_via meta_of (dec_pair dec_bytes (dec_pair (dec_list dec_bytes) (dec_pair (dec_list (dec_pair dec_bytes dec_variant))
     (dec_pair dec_int (dec_pair dec_int (dec_pair dec_int (dec_pair dec_int (dec_list dec_bytes))))))))"

lemma fragment_codec [codec_intros]: "reads_back enc_fragment dec_fragment"
  unfolding enc_fragment_def dec_fragment_def
  by (intro via_codec codec_intros) (simp add: fragment_fields_def fragment_of_def)

lemma variant_codec [codec_intros]: "reads_back enc_variant dec_variant"
  unfolding enc_variant_def dec_variant_def
  by (intro via_codec codec_intros) (simp add: variant_fields_def variant_of_def)

lemma meta_codec: "reads_back enc_meta dec_meta"
  unfolding enc_meta_def dec_meta_def
  by (intro via_codec codec_intros) (simp add: meta_fields_def meta_of_def)

definition whole :: "(bytes \<Rightarrow> ('a \<times> bytes) option) \<Rightarrow> bytes \<Rightarrow> 'a option" where
  "whole d bs = (case d bs of Some (x, []) \<Rightarrow> Some x | _ \<Rightarrow> None)"

lemma whole_codec: "reads_back e d \<Longrightarrow> whole d (e x) = Some x"
  unfolding reads_back_def whole_def by (metis append_Nil2 list.case(1) old.prod.case option.simps(5))

section \<open>A server\<close>

text \<open>The keys a command may change, as a list, and one command on an association list.\<close>

fun changed_keys :: "redis_cmd \<Rightarrow> bytes list" where
  "changed_keys (HSET k fvs) = [k]"
| "changed_keys (HEXPIRE k secs f) = [k]"
| "changed_keys (HDEL k f) = [k]"
| "changed_keys (SETEX k v secs) = [k]"
| "changed_keys (EXPIRE_NX k secs) = [k]"
| "changed_keys (EXPIRE_GT k secs) = [k]"
| "changed_keys (UNLINK del) = del"
| "changed_keys (HSET_IF k f g v) = [k]"
| "changed_keys _ = []"

definition put_key :: "bytes \<Rightarrow> rentry option \<Rightarrow> (bytes \<times> rentry) list \<Rightarrow> (bytes \<times> rentry) list" where
  "put_key k eo s = (case eo of None \<Rightarrow> AList.delete k s | Some e \<Rightarrow> AList.update k e s)"

definition ref_effect :: "gotime \<Rightarrow> redis_cmd \<Rightarrow> (bytes \<times> rentry) list \<Rightarrow> (bytes \<times> rentry) list" where
  "ref_effect now c s = fold (\<lambda>k. put_key k (redis_effect now c (map_of s) k)) (changed_keys c) s"

text \<open>Redis patterns: a star stands for any text, newlines included.\<close>

fun rglob :: "glob_item list \<Rightarrow> bytes \<Rightarrow> bool" where
  "rglob [] s \<longleftrightarrow> s = []"
| "rglob (Lit c # ps) s \<longleftrightarrow> (case s of [] \<Rightarrow> False | d # ds \<Rightarrow> c = d \<and> rglob ps ds)"
| "rglob (AnyOne # ps) s \<longleftrightarrow> (case s of [] \<Rightarrow> False | d # ds \<Rightarrow> rglob ps ds)"
| "rglob (AnySeq # ps) [] \<longleftrightarrow> rglob ps []"
| "rglob (AnySeq # ps) (d # ds) \<longleftrightarrow> rglob ps (d # ds) \<or> rglob (AnySeq # ps) ds"

definition ref_glob :: "bytes \<Rightarrow> bytes \<Rightarrow> bool" where
  "ref_glob p s = rglob (glob_items p) s"

definition opt_str :: "bytes option \<Rightarrow> reply" where
  "opt_str x = (case x of None \<Rightarrow> RNil | Some v \<Rightarrow> RStr v)"

fun ref_reply :: "gotime \<Rightarrow> redis_cmd \<Rightarrow> (bytes \<times> rentry) list \<Rightarrow> reply" where
  "ref_reply now (HGETALL k) s = RMap (fields_at (map_of s) now k)"
| "ref_reply now (HGET k f) s = opt_str (map_of (fields_at (map_of s) now k) f)"
| "ref_reply now (GET k) s = opt_str (str_at (map_of s) now k)"
| "ref_reply now (HKEYS k) s = RList (map fst (fields_at (map_of s) now k))"
| "ref_reply now (HSET_IF k f g v) s = RInt (if f \<in> fst ` set (fields_at (map_of s) now k) then 1 else 0)"
| "ref_reply now (SETEX k v secs) s = RStr ''OK''"
| "ref_reply now (HEXPIRE k secs f) s = RList [''1'']"
| "ref_reply now (SCAN (Keyspace p) cur) s =
     RScan 0 (filter (\<lambda>k. key_at (map_of s) now k \<noteq> None \<and> ref_glob p k) (map fst s))"
| "ref_reply now (SCAN (Fields k) cur) s = RScan 0 (concat (map (\<lambda>(f, v). [f, v]) (fields_at (map_of s) now k)))"
| "ref_reply now c s = RInt 1"

definition ref_exec :: "(bytes \<times> rentry) list redis_exec" where
  "ref_exec now s c =
     (if type_ok c (map_of s) then (ref_reply now c s, ref_effect now c s) else (RErr ''WRONGTYPE'', s))"

definition distinct_fields :: "keyspace \<Rightarrow> bool" where
  "distinct_fields ks \<longleftrightarrow> (\<forall>k fs x. ks k = Some (Hash fs x) \<longrightarrow> distinct (map fst fs))"

definition ref_up :: "(bytes \<times> rentry) list \<Rightarrow> bool" where
  "ref_up s \<longleftrightarrow> distinct_fields (map_of s)"

lemma set_changed_keys: "set (changed_keys c) = cmd_keys c"
  by (cases c) simp_all

lemma map_of_put_key [simp]: "map_of (put_key k eo s) = (map_of s)(k := eo)"
  by (auto simp: put_key_def AList.delete_conv' AList.update_conv' split: option.split)

lemma ref_effect_view: "map_of (ref_effect now c s) = redis_effect now c (map_of s)"
proof
  fix k
  have "map_of (fold (\<lambda>k. put_key k (f k)) ks s0) k = (if k \<in> set ks then f k else map_of s0 k)" for f ks s0
    by (induction ks arbitrary: s0) auto
  then show "map_of (ref_effect now c s) k = redis_effect now c (map_of s) k"
    by (simp add: ref_effect_def set_changed_keys effect_frame)
qed

lemma distinct_fieldsD: "distinct_fields ks \<Longrightarrow> ks k = Some (Hash fs x) \<Longrightarrow> distinct (map fst fs)"
  unfolding distinct_fields_def by blast

lemma key_at_distinct: "distinct_fields ks \<Longrightarrow> key_at ks now k = Some (Hash fs x) \<Longrightarrow> distinct (map fst fs)"
  using distinct_fieldsD [of ks k]
  by (auto simp: key_at_def bind_eq_Some_conv live_fields_def distinct_map_filter elim!: entry_at.elims split: if_splits)

lemma distinct_upd: "distinct_fields ks \<Longrightarrow> (\<And>fs x. eo = Some (Hash fs x) \<Longrightarrow> distinct (map fst fs)) \<Longrightarrow> distinct_fields (ks(k := eo))"
  by (auto simp: distinct_fields_def)

lemma distinct_hset: "distinct (map fst fs) \<Longrightarrow> distinct (map fst (hset fvs fs))"
proof (induction fvs arbitrary: fs)
  case (Cons p fvs)
  obtain f v where p: "p = (f, v)" by (cases p)
  have "hset (p # fvs) fs = hset fvs (AList.update f (v, None) fs)" by (simp add: hset_def p)
  then show ?case using Cons.IH [of "AList.update f (v, None) fs"] Cons.prems by (simp add: distinct_update)
qed (simp add: hset_def)

lemma distinct_hset_key: "distinct_fields ks \<Longrightarrow> distinct_fields (hset_key now k fvs ks)"
  using key_at_distinct [of ks now k]
  by (auto simp: hset_key_def distinct_hset split: option.split rentry.split intro!: distinct_upd)

lemma distinct_effect:
  assumes "distinct_fields ks"
  shows "distinct_fields (redis_effect now c ks)"
proof -
  have k: "distinct (map fst fs)" if "key_at ks now k = Some (Hash fs x)" for k fs x using key_at_distinct [OF assms that] .
  have e: "distinct (map fst fs)" if "key_at ks now k = Some e" "set_expiry y e = Hash fs x" for k e y fs x
    using that k by (cases e) auto
  show ?thesis
  proof (cases c)
    case (UNLINK del)
    then show ?thesis using assms by (auto simp: distinct_fields_def)
  qed (use assms k e in \<open>auto simp: distinct_hset_key distinct_update distinct_delete
      split: option.split rentry.split intro!: distinct_upd\<close>)
qed

lemma ref_exec_reply: "ref_up s \<Longrightarrow> type_ok c (map_of s) \<Longrightarrow> redis_reply now c (map_of s) (fst (ref_exec now s c))"
proof -
  assume "ref_up s" "type_ok c (map_of s)"
  moreover have "distinct (map fst (fields_at (map_of s) now k))" if "ref_up s" for k
    using that key_at_distinct [of "map_of s" now k]
    by (auto simp: ref_up_def fields_at_def o_def case_prod_beta split: option.split rentry.split)
  ultimately show ?thesis by (cases c) (auto simp: ref_exec_def opt_str_def)
qed

lemma evens_pairs: "evens (concat (map (\<lambda>(f, v). [f, v]) fvs)) = map fst fvs"
  by (induction fvs) auto

lemma ref_scan:
  "type_ok (SCAN tg cur) (map_of s) \<Longrightarrow>
    \<exists>es. fst (ref_exec now s (SCAN tg cur)) = RScan 0 es \<and> set (scan_items tg es) = elements ref_glob tg now (map_of s)"
proof (cases tg)
  case (Keyspace p)
  have "key_at (map_of s) now k \<noteq> None \<Longrightarrow> k \<in> fst ` set s" for k
    by (metis bind_eq_None_conv key_at_def map_of_eq_None_iff)
  then show ?thesis by (auto simp: Keyspace ref_exec_def)
next
  case (Fields k)
  moreover assume "type_ok (SCAN tg cur) (map_of s)"
  ultimately show ?thesis by (auto simp: ref_exec_def evens_pairs)
qed

lemma rglob_Lits: "rglob (map Lit s @ ps) (s @ r) \<longleftrightarrow> rglob ps r"
  by (induction s) simp_all

lemma rglob_any: "rglob [AnySeq] r"
  by (induction r) simp_all

lemma ref_glob_prefix: "glob_literal p \<Longrightarrow> ref_glob (p @ ''*'') (p @ r)"
  using glob_items_literal [of p "''*''"] by (simp add: ref_glob_def rglob_Lits rglob_any)

interpretation rs: redis_server ref_exec ref_up map_of ref_glob "\<lambda>_ _ _. UNIV" "\<lambda>_ _ _. 0"
proof (unfold_locales, goal_cases)
  case (5 s tg cur now)
  then show ?case using ref_scan [of tg cur s now] by auto
next
  case (8 p r)
  then have "glob_literal p" unfolding glob_literal_def by (metis (no_types, lifting) Un_iff list.set_intros(1,2) set_append)
  then show ?case by (rule ref_glob_prefix)
qed (auto simp: ref_exec_reply, auto simp: ref_exec_def ref_effect_view ref_up_def distinct_effect, erule (1) distinct_fieldsD)

section \<open>The backend on this server\<close>

definition ref_storage :: "(bytes \<times> rentry) list RedisStorage" where
  "ref_storage = \<lparr>client = ref_exec, kprefix = defaultPrefix, marshalMeta = (\<lambda>m. Some (enc_meta m)),
     unmarshalMeta = whole dec_meta, marshalVariant = (\<lambda>v. Some (enc_variant v)), unmarshalVariant = whole dec_variant,
     toSeconds = (\<lambda>ttl. quot ttl Second)\<rparr>"

interpretation rf: redis_backend ref_exec ref_up map_of ref_glob "\<lambda>_ _ _. UNIV" "\<lambda>_ _ _. 0" ref_storage body_pairs "\<lambda>_ _. True"
  by unfold_locales (simp_all add: ref_storage_def whole_codec [OF meta_codec] whole_codec [OF variant_codec] bodyKey_inj)

lemma ref_backend: "redis_backend ref_exec ref_up map_of ref_glob (\<lambda>_ _ _. UNIV) (\<lambda>_ _ _. 0) ref_storage body_pairs (\<lambda>_ _. True)"
  by unfold_locales

lemma ref_empty_up: "redis_up ref_up map_of ref_storage body_pairs []"
  by (simp add: redis_up_def ref_up_def distinct_fields_def redis_inv_def)

end
