(* ===== verification/RedisProps.thy ===== *)
theory RedisProps
  imports RedisReference HandlerFacts
begin

text \<open>
  The properties of the Redis backend. Each holds for every server, codec and set of keys that
  satisfy \<open>redis_backend\<close>; the witnesses use the reference server.
\<close>

text \<open>
  Property C3. The backend on a Redis server keeps the contract of a storage backend: what is
  written is read back until the whole seconds of its time to live have passed, writes and purges
  of one key leave the other keys alone, a hard purge removes the entry, and a soft purge only
  marks it, until the next write. It relies on a server that is up, a codec that gives
  messages back and keys whose bodies do not collide.
\<close>

theorem redis_meets_contract:
  assumes "redis_backend exec srv_up view glob todo calls st KV valid"
  shows "storage_contract (redis_storage st) (redis_up srv_up view st KV) redis_life (redis_fits KV valid)"
  by (rule redis_backend.axioms_contract [OF assms])

lemma redis_meets_contract_witness:
  "storage_contract (redis_storage ref_storage) (redis_up ref_up map_of ref_storage body_pairs) redis_life
     (redis_fits body_pairs (\<lambda>_ _. True))"
  by (rule redis_meets_contract [OF ref_backend])

text \<open>
  Property C38. A hard purge by tag that follows the write of an entry with the tag, within the whole
  seconds of its lifetime, ends, removes the entry, and leaves every entry that the tag does not list
  as it was.
\<close>

theorem redis_tag_purge:
  assumes "redis_backend exec srv_up view glob todo calls st KV valid" and "redis_up srv_up view st KV s"
    and "redis_fits KV valid pk m v" and "redis_SetVariant st now s pk (Some m) (Some v) b ttl = (None, s')"
    and "tag \<in> set (Tags m)" "tag \<noteq> []" and "now' < tadd now (redis_life ttl)"
  shows "\<exists>n s''. redis_PurgeByTag st now' s' tag False = Some (Inr n, s'') \<and> redis_up srv_up view st KV s'' \<and>
    (\<forall>t. redis_GetMeta st t s'' pk = Inr (None, False)) \<and>
    (\<forall>pk' t vk. pk' \<notin> fst ` set (fields_at (view s') now' (tagKey st tag)) \<longrightarrow>
       redis_GetMeta st t s'' pk' = redis_GetMeta st t s' pk' \<and> redis_GetVariant st t s'' pk' vk = redis_GetVariant st t s' pk' vk)"
  by (rule redis_backend.tag_purge_after_write [OF assms])

text \<open>Metadata and a variant to store, and the key of a request.\<close>

definition demo_meta :: CacheMetadata where
  "demo_meta = \<lparr>PrimaryKey = ''p=/a:h=a.org:m=GET:'', VaryHeaderNames = [], Variants = [], CreatedAtUnixNano = 0,
     ExpiresAtUnixNano = 10, StaleUntilUnixNano = 10, CorrectedInitialAgeSeconds = 0, Tags = [''news'']\<rparr>"

definition demo_variant :: VariantInfo where
  "demo_variant = \<lparr>VariantKey = [], VaryHeaders = [], StatusCode = 200, ResponseHeaders = [], Etag = [],
     LastModifiedUnixNano = 0, RawBodySize = 2, EsiFragments = [], StorageCompression = []\<rparr>"

lemma demo_fits: "redis_fits body_pairs (\<lambda>_ _. True) ''p=/a:h=a.org:m=GET:'' m v"
proof -
  have "separable ''p=/a:h=a.org:m=GET:''" by code_simp
  then show ?thesis by (simp add: redis_fits_def body_pairs_def)
qed

lemma redis_tag_purge_witness:
  "\<exists>s' n s''. redis_SetVariant ref_storage 0 [] ''p=/a:h=a.org:m=GET:'' (Some demo_meta) (Some demo_variant) ''hi'' Second = (None, s') \<and>
     redis_PurgeByTag ref_storage 5 s' ''news'' False = Some (Inr n, s'') \<and>
     redis_GetMeta ref_storage 6 s'' ''p=/a:h=a.org:m=GET:'' = Inr (None, False)"
proof -
  obtain s' where s': "redis_SetVariant ref_storage 0 [] ''p=/a:h=a.org:m=GET:'' (Some demo_meta) (Some demo_variant) ''hi'' Second = (None, s')"
    using rf.SetVariant_view [OF ref_empty_up demo_fits, of 0 demo_meta demo_variant "''hi''" Second] by blast
  have "''news'' \<in> set (Tags demo_meta)" by (simp add: demo_meta_def)
  moreover have "5 < tadd 0 (redis_life Second)" by (simp add: tadd_def redis_life_def Second_def)
  ultimately show ?thesis using redis_tag_purge [OF ref_backend ref_empty_up demo_fits s', of "''news''" 5] s' by blast
qed

text \<open>
  A later write under the same key shortens the life of the key in the tag index: after a second variant
  with a shorter lifetime, the purge finds nothing although the first variant is still served.
\<close>

definition long_store :: "(bytes \<times> rentry) list" where
  "long_store = snd (redis_SetVariant ref_storage 0 [] ''p=/a:h=a.org:m=GET:'' (Some demo_meta) (Some demo_variant) ''hi'' (100 * Second))"

definition short_store :: "(bytes \<times> rentry) list" where
  "short_store = snd (redis_SetVariant ref_storage 0 long_store ''p=/a:h=a.org:m=GET:'' (Some demo_meta)
     (Some (demo_variant\<lparr>VariantKey := ''br''\<rparr>)) ''zz'' Second)"

lemma tag_index_shortened:
  "\<exists>n s' m v. redis_PurgeByTag ref_storage (5 * Second) short_store ''news'' False = Some (Inr n, s') \<and>
     redis_GetMeta ref_storage (5 * Second) s' ''p=/a:h=a.org:m=GET:'' = Inr (Some m, False) \<and> Tags m = [''news''] \<and>
     redis_GetVariant ref_storage (5 * Second) s' ''p=/a:h=a.org:m=GET:'' ''default'' = Inr (Some (Some v, ''hi''))"
proof -
  let ?pk = "''p=/a:h=a.org:m=GET:''" and ?g = "redis_GetMeta ref_storage (5 * Second) short_store ''p=/a:h=a.org:m=GET:''"
  let ?v = "redis_GetVariant ref_storage (5 * Second) short_store ''p=/a:h=a.org:m=GET:'' ''default''"
  have "redis_up ref_up map_of ref_storage body_pairs long_store"
    using rf.SetVariant_view [OF ref_empty_up demo_fits, of 0 demo_meta demo_variant "''hi''" "100 * Second"] unfolding long_store_def by (metis snd_conv)
  then have up: "redis_up ref_up map_of ref_storage body_pairs short_store"
    using rf.SetVariant_view [OF _ demo_fits, of long_store 0 demo_meta "demo_variant\<lparr>VariantKey := ''br''\<rparr>" "''zz''" Second]
    unfolding short_store_def by (metis snd_conv)
  have none: "fields_at (map_of short_store) (5 * Second) (tagKey ref_storage ''news'') = []" by code_simp
  have m: "?g = Inr (fst (projr ?g), False)" "fst (projr ?g) \<noteq> None" "Tags (the (fst (projr ?g))) = [''news'']" by code_simp+
  have v: "?v = Inr (Some (Some (the (fst (the (projr ?v)))), ''hi''))" by code_simp
  obtain n s' where "redis_PurgeByTag ref_storage (5 * Second) short_store ''news'' False = Some (Inr n, s')"
    and "\<And>pk t vk. pk \<notin> fst ` set (fields_at (map_of short_store) (5 * Second) (tagKey ref_storage ''news'')) \<Longrightarrow>
      redis_GetMeta ref_storage t s' pk = redis_GetMeta ref_storage t short_store pk \<and>
      redis_GetVariant ref_storage t s' pk vk = redis_GetVariant ref_storage t short_store pk vk"
    by (rule rf.PurgeByTag_complete [OF up, of "5 * Second" "''news''"]) blast
  then show ?thesis using none m v by (metis empty_iff empty_set image_empty option.collapse)
qed

text \<open>
  Purging everything ends, succeeds and leaves no entry readable, whatever the server held,
  when the prefix of the keys has no pattern characters, as the default prefix.
\<close>

theorem redis_purge_all:
  assumes "redis_backend exec srv_up view glob todo calls st KV valid" and "redis_up srv_up view st KV s"
    and "\<forall>c \<in> set (kprefix st). c \<notin> set (''*?[]^-'' @ [CHR 0x5C])"
  shows "\<exists>n s'. redis_PurgeAll st now s = Some (Inr n, s') \<and> redis_up srv_up view st KV s' \<and>
    (\<forall>t pk. now \<le> t \<longrightarrow> redis_GetMeta st t s' pk = Inr (None, False))"
  by (rule redis_backend.PurgeAll_complete [OF assms(1,2)]) (use assms(3) in blast)

lemma redis_purge_all_witness:
  "\<exists>s' n s''. redis_SetVariant ref_storage 0 [] ''p=/a:h=a.org:m=GET:'' (Some demo_meta) (Some demo_variant) ''hi'' Second = (None, s') \<and>
     redis_PurgeAll ref_storage 5 s' = Some (Inr n, s'') \<and> redis_GetMeta ref_storage 6 s'' ''p=/a:h=a.org:m=GET:'' = Inr (None, False)"
proof -
  obtain s' where s': "redis_SetVariant ref_storage 0 [] ''p=/a:h=a.org:m=GET:'' (Some demo_meta) (Some demo_variant) ''hi'' Second = (None, s')"
    "redis_up ref_up map_of ref_storage body_pairs s'"
    using rf.SetVariant_view [OF ref_empty_up demo_fits, of 0 demo_meta demo_variant "''hi''" Second] by blast
  have "\<forall>c \<in> set (kprefix ref_storage). c \<notin> set (''*?[]^-'' @ [CHR 0x5C])" by (simp add: ref_storage_def defaultPrefix_def)
  from redis_purge_all [OF ref_backend s'(2) this, of 5] obtain n s'' where "redis_PurgeAll ref_storage 5 s' = Some (Inr n, s'')"
    and g: "\<forall>t pk. 5 \<le> t \<longrightarrow> redis_GetMeta ref_storage t s'' pk = Inr (None, False)" by (elim exE conjE)
  moreover have "redis_GetMeta ref_storage 6 s'' ''p=/a:h=a.org:m=GET:'' = Inr (None, False)" using g by simp
  ultimately show ?thesis using s'(1) by blast
qed

text \<open>
  The bodies of two requests whose path, host and method bring no two colons together have
  one Redis key only when the requests have one primary and one variant key.
\<close>

theorem redis_body_keys_apart:
  assumes "tame_request (key_cfg cfg0) r" and "tame_request (key_cfg cfg0) r'"
    and "bodyKey st (generatePrimaryKey r cfg0) vk = bodyKey st (generatePrimaryKey r' cfg0) vk'"
  shows "generatePrimaryKey r cfg0 = generatePrimaryKey r' cfg0 \<and> vk = vk'"
  by (rule separable_cancel) (use assms generatePrimaryKey_separable in \<open>simp_all add: bodyKey_def\<close>)

lemma redis_body_keys_apart_witness:
  "bodyKey ref_storage (generatePrimaryKey (demo_request ''a.org:8080'' ''/a:b'' ''x=1'' []) None) ''origin=http://b.org'' \<noteq>
   bodyKey ref_storage (generatePrimaryKey (demo_request ''a.org'' ''/a'' [] []) None) ''default''"
proof -
  have "tame_request (key_cfg None) (demo_request ''a.org:8080'' ''/a:b'' ''x=1'' [])" by code_simp
  moreover have "tame_request (key_cfg None) (demo_request ''a.org'' ''/a'' [] [])" by code_simp
  ultimately show ?thesis using redis_body_keys_apart [of None _ _ ref_storage "''origin=http://b.org''" "''default''"] by fastforce
qed

text \<open>
  With two colons in a path they collide: the default variant of one resource and a variant of
  another, chosen by a request header, have one body.
\<close>

theorem redis_body_key_collision:
  "bodyKey st (generatePrimaryKey (demo_request ''a.org'' ''/:h=a.org:m=GET::origin=x'' [] []) None) ''default'' =
   bodyKey st (generatePrimaryKey (demo_request ''a.org'' ''/'' [] []) None)
     (generateVariantKey (demo_request ''a.org'' ''/'' [] [(''Origin'', [''x:h=a.org:m=GET::default''])]) [''Origin''])"
proof -
  have "generatePrimaryKey (demo_request ''a.org'' ''/:h=a.org:m=GET::origin=x'' [] []) None = ''p=/:h=a.org:m=GET::origin=x:h=a.org:m=GET:''"
    by code_simp
  moreover have "generatePrimaryKey (demo_request ''a.org'' ''/'' [] []) None = ''p=/:h=a.org:m=GET:''" by code_simp
  moreover have "generateVariantKey (demo_request ''a.org'' ''/'' [] [(''Origin'', [''x:h=a.org:m=GET::default''])]) [''Origin''] =
      ''origin=x:h=a.org:m=GET::default''" by code_simp
  ultimately show ?thesis by (simp add: bodyKey_def)
qed

section \<open>The handler on Redis\<close>

lemma whole_seconds_life:
  assumes "a \<le> b" "resp \<le> later" "later < tadd resp (quot a Second * Second)"
  shows "later < tadd resp (redis_life b)" "later < tadd resp a"
proof -
  have "0 < quot a Second" using assms(2,3) by (auto simp: tadd_def Second_def zero_less_mult_iff)
  then have a: "0 < a" by (cases "a = 0") (auto simp: quot_def Second_def split: if_splits)
  then have "quot a Second = a div Second" "quot b Second = b div Second" using assms(1) by (auto simp: quot_def Second_def)
  moreover have "a div Second \<le> b div Second" using assms(1) by (intro zdiv_mono1) (simp_all add: Second_def)
  moreover have "a div Second * Second \<le> a" using a by (simp add: Second_def)
  ultimately show "later < tadd resp (redis_life b)" "later < tadd resp a"
    using assms(3) by (auto simp: redis_life_def tadd_def Second_def)
qed

text \<open>
  Property C2. The handler on the Redis backend: a storable answer to a plain GET is given to the client
  and stored, and until the whole seconds of its lifetime have passed every later request is
  answered from Redis with the same status and body, the origin not being asked.
\<close>

theorem redis_miss_then_hit:
  assumes backend: "redis_backend exec srv_up view glob todo calls st body_pairs valid" "redis_up srv_up view st body_pairs (tStore t)"
    and t: "codecs_ok (tConfig t)" "esiProcessor t = None" "\<not> tClosed t" "\<not> respectClientCacheControl (tConfig t)"
    and req: "plain_request r" "Method r = ''GET''" "unconditional r" "tame_request (cacheKey (tConfig t)) r"
    and miss: "redis_GetMeta st now (tStore t) (generatePrimaryKey r (Some (cacheKey (tConfig t)))) = Inr (None, sp)"
    and origin: "next_handler e r new_writer now = (Some rec, resp)" "Values (wHeader rec) headerSetCookie = []"
    and f: "env_ok (genv e)" "f = calculateFreshness (genv e) resp (rec_Code rec) (rHeader r) (wHeader rec) now resp resp" "IsCacheable f"
    and valid: "valid (new_meta (tConfig t) (generatePrimaryKey r (Some (cacheKey (tConfig t)))) (wHeader rec) f resp)
      (new_variant (genv e) (tConfig t) [] (rec_Code rec) r (wHeader rec) (wBody rec) [])"
    and time: "0 \<le> resp" "resp \<le> later" "later < tadd resp (quot (EffectiveTTL f) Second * Second)" "tadd resp (EffectiveTTL f) < 2 ^ 63"
  shows "\<exists>w1 t1 w2. ServeHTTP e (redis_storage st) now t new_writer r = (Some w1, resp, t1) \<and>
    wCode w1 = Some (rec_Code rec) \<and> wBody w1 = wBody rec \<and>
    (\<forall>e'. ServeHTTP e' (redis_storage st) later t1 new_writer r = (Some w2, later, t1)) \<and>
    wCode w2 = Some (wrap32 (rec_Code rec)) \<and> wBody w2 = wBody rec"
proof -
  have ttl: "EffectiveTTL f \<le> storage_ttl f" by (rule storage_ttl_ge [OF f(1,2)])
  note life = whole_seconds_life [OF ttl time(2,3)]
  have nano: "UnixNano later \<le> UnixNano (tadd resp (EffectiveTTL f))"
    using time life(2) by (simp add: UnixNano_def wrap64_id)
  have fits: "redis_fits body_pairs valid (generatePrimaryKey r (Some (cacheKey (tConfig t))))
      (new_meta (tConfig t) (generatePrimaryKey r (Some (cacheKey (tConfig t)))) (wHeader rec) f resp)
      (new_variant (genv e) (tConfig t) [] (rec_Code rec) r (wHeader rec) (wBody rec) [])"
    using valid generatePrimaryKey_separable [of "Some (cacheKey (tConfig t))" r] req(4)
    by (simp add: redis_fits_def body_pairs_def key_cfg_def)
  show ?thesis
    by (rule storage_contract.fetch_then_hit [OF redis_backend.axioms_contract [OF backend(1)] backend(2) t req(1-3) _ origin f(2,3) fits
          time(2) life(1) nano]) (use miss in \<open>simp add: redis_storage_def\<close>)
qed

definition demo_redis_titip :: "(bytes \<times> rentry) list Titip" where
  "demo_redis_titip = \<lparr>tConfig = demo_config, tStore = [], tClosed = False, tPending = [], esiProcessor = None\<rparr>"

lemma redis_miss_then_hit_witness:
  "\<exists>w1 t1 w2. ServeHTTP (demo_henv (demo_origin 200 demo_fresh ''hello'')) (redis_storage ref_storage) 100 demo_redis_titip new_writer demo_get =
      (Some w1, 105, t1) \<and>
    ServeHTTP (demo_henv (demo_origin 500 [] [])) (redis_storage ref_storage) 200 t1 new_writer demo_get = (Some w2, 200, t1) \<and>
    wCode w2 = Some 200 \<and> wBody w2 = ''hello''"
proof -
  let ?e = "demo_henv (demo_origin 200 demo_fresh ''hello'')" and ?rec = "demo_response 200 demo_fresh ''hello''"
  have o1: "next_handler ?e demo_get new_writer 100 = (Some ?rec, 105)" by (simp add: demo_origin_def)
  have o2: "Values (wHeader ?rec) headerSetCookie = []" using demo_no_cookie by simp
  have f: "demo_freshness = calculateFreshness (genv ?e) 105 (rec_Code ?rec) (rHeader demo_get) (wHeader ?rec) 100 105 105"
    by (simp add: demo_freshness_def demo_get_def demo_request_def)
  have up: "redis_up ref_up map_of ref_storage body_pairs (tStore demo_redis_titip)" using ref_empty_up by (simp add: demo_redis_titip_def)
  have tame: "tame_request zero_CacheKey demo_get" by code_simp
  have miss: "redis_GetMeta ref_storage 100 [] pk = Inr (None, False)" for pk
    by (simp add: rf.GetMeta_view [OF ref_empty_up] fields_at_None decode_meta_def)
  have q: "quot 59999999995 Second * Second = 59 * Second" by code_simp
  show ?thesis
    using redis_miss_then_hit [OF ref_backend up _ _ _ _ demo_get_plain _ _ o1 o2 _ f demo_freshness_vals(1) TrueI, of False 200]
    by (simp add: demo_redis_titip_def demo_codecs miss tame demo_env_ok demo_freshness_vals q) (simp add: tadd_def Second_def, blast)
qed

end
