(* ===== verification/CaddyProps.thy ===== *)
theory CaddyProps
  imports CaddyHandler HandlerProps RedisProps
begin

text \<open>
  Properties of the Caddy adapter: what the layers of settings come to, the registry, the admin
  endpoint and serving under rewritten URLs.
\<close>

section \<open>Provisioning\<close>

lemma New_config:
  assumes "New lz4 zstd s opts = Inr t"
  shows "apply_options opts (default_config lz4 zstd) = Inr (tConfig t)"
    and "esiProcessor t = (case esiOptions (tConfig t) of None \<Rightarrow> None | Some os \<Rightarrow> (case NewProcessor os of Inl _ \<Rightarrow> None | Inr p \<Rightarrow> Some p))"
    and "esiOptions (tConfig t) = Some os \<Longrightarrow> \<exists>p. NewProcessor os = Inr p"
  using assms by (auto simp: New_def Let_def split: option.splits sum.splits if_splits)

lemma setup_tStore [simp]:
  "tConfig (t\<lparr>tStore := s\<rparr>) = tConfig t" "esiProcessor (t\<lparr>tStore := s\<rparr>) = esiProcessor t"
  by simp_all

text \<open>The instance of a provisioned route, with the configuration that the options come to.\<close>

lemma provision_instance:
  assumes "Provision lz4 zstd ctx hid h c = (Inr h', c')" and "configured_app ctx = Inr app" and "a = set_opt app no_app"
  shows "\<exists>b t. hInstance h' = Some b \<and> map_of (instances c') hid = Some b \<and> instance_at c' b = Some t \<and> \<not> tClosed t \<and>
    (\<exists>opts os. titip_options ctx a h = Inr opts \<and> apply_options (map Some opts) (default_config lz4 zstd) = Inr (tConfig t) \<and>
       esi_layers ctx (aESI a) (hESI h) = Inr os) \<and>
    esiProcessor t = (if aESI a = None \<and> hESI h = None then None
      else Some (layer_opt ctx (hESI h) (layer_opt ctx (aESI a) default_esi_config)))"
proof -
  obtain s opts t where p: "titip_options ctx a h = Inr opts" "New lz4 zstd (Some (cStores c s)) (map Some opts) = Inr t"
    "hInstance h' = Some (nextAddr c)"
    "c' = registerInstance hid (nextAddr c) (c\<lparr>cInsts := (nextAddr c, t, s) # cInsts c, nextAddr := nextAddr c + 1\<rparr>)"
    using Provision_ok [OF assms(1)] assms(2,3) by (metis sum.inject(2))
  have i: "instance_at c' (nextAddr c) = Some (t\<lparr>tStore := cStores c s\<rparr>)" "map_of (instances c') hid = Some (nextAddr c)"
    by (simp_all add: p(4) registerInstance_def instance_at_def AList.update_conv')
  note cfg = provisioned_config [OF p(1) New_config(1) [OF p(2)]]
  obtain os where os: "esi_layers ctx (aESI a) (hESI h) = Inr os" "esiOptions (tConfig t) = map_option (map Some) os" using cfg(1) by blast
  have "esiProcessor t = (if aESI a = None \<and> hESI h = None then None
      else Some (layer_opt ctx (hESI h) (layer_opt ctx (aESI a) default_esi_config)))"
  proof (cases os)
    case None
    then show ?thesis using os New_config(2) [OF p(2)] by (auto simp: esi_layers_def split: if_splits sum.splits)
  next
    case (Some l)
    obtain q where q: "NewProcessor (map Some l) = Inr q" using New_config(3) [OF p(2), of "map Some l"] os(2) Some by auto
    have "q = layer_opt ctx (hESI h) (layer_opt ctx (aESI a) default_esi_config)" using esi_layers_config [OF _ q] os(1) Some by blast
    moreover have "\<not> (aESI a = None \<and> hESI h = None)" using os(1) Some by (cases "aESI a"; cases "hESI h") (simp_all add: esi_layers_def)
    ultimately show ?thesis using New_config(2) [OF p(2)] os(2) Some q by simp
  qed
  then show ?thesis using i p(1,3) os(1) New_config(1) [OF p(2)] New_open [OF p(2)]
    by (intro exI [of _ "nextAddr c"] exI [of _ "t\<lparr>tStore := cStores c s\<rparr>"]) simp
qed


text \<open>A context with an app that holds a storage and allows private addresses, and a route that blocks them.\<close>

definition no_esi :: ESIConfig where
  "no_esi = \<lparr>eEnabled = None, eRequireSurrogateControl = None, eMaxDepth = None, eMaxTimeout = [], eMaxConcurrentRequests = None,
     eBlockPrivateIPs = None, eAllowedHosts = [], eAllowPrivateIPsForAllowedHosts = None, eMaxResponseSize = [],
     eForwardFragmentCookies = None, ePreserveETag = None, eErrorMarker = []\<rparr>"

definition demo_ctx :: caddy_ctx where
  "demo_ctx = \<lparr>AppIfConfigured = Inr (Some (no_app\<lparr>aStorageMod := Some (Some 7), aESI := Some (no_esi\<lparr>eBlockPrivateIPs := Some False\<rparr>)\<rparr>)),
     LoadModule = (\<lambda>_. Inr (StorageModule (Some 3))), ParseDuration = (\<lambda>_. None), ParseBytes = (\<lambda>_. None)\<rparr>"

definition demo_route :: "ESIConfig option \<Rightarrow> caddy_handler" where
  "demo_route esi = \<lparr>hStorageRaw = [], hCacheStatus = [], hRespectClientCacheControl = None, hAutoInvalidateMutatingMethods = None,
     hConvertHeadToGet = None, hBackgroundFetchTimeout = [], hStorageTimeout = [], hTagHeader = [], hCacheKey = None, hESI = esi,
     hUseRewrittenURL = None, hServerTiming = None, hStorageCompression = [], hInstance = None, hId = [], useRewrittenURL = False\<rparr>"

definition demo_caddy :: "Store caddy" where
  "demo_caddy = \<lparr>cStores = (\<lambda>_. NewStore), cInsts = [], instances = [], nextAddr = 0\<rparr>"

definition demo_provision :: "caddy_ctx \<Rightarrow> ESIConfig option \<Rightarrow> bytes \<Rightarrow> Store caddy \<Rightarrow> (error + caddy_handler) \<times> Store caddy" where
  "demo_provision ctx esi hid c = Provision (lz4Compressor Some Some) (zstdCompressor Some Some) ctx hid (demo_route esi) c"

definition demo_strict :: ESIConfig where
  "demo_strict = no_esi\<lparr>eBlockPrivateIPs := Some True, eEnabled := Some False\<rparr>"

lemma demo_provision_ok: "\<exists>h c. demo_provision demo_ctx (Some demo_strict) ''a'' demo_caddy = (Inr h, c)"
proof -
  have "\<not> isl (fst (demo_provision demo_ctx (Some demo_strict) ''a'' demo_caddy))" by code_simp
  then show ?thesis by (metis prod.collapse sum.collapse(2))
qed




text \<open>
  The other switches of ESI are sticky, against the comment that the route overrides: a route that
  blocks private addresses does not undo an app that allows them. And the setting that disables ESI is
  never read.
\<close>

lemma sticky_switches:
  "\<exists>h c t p. demo_provision demo_ctx (Some demo_strict) ''a'' demo_caddy = (Inr h, c) \<and> eBlockPrivateIPs demo_strict = Some True \<and>
     eEnabled demo_strict = Some False \<and> instance_at c (the (hInstance h)) = Some t \<and> esiProcessor t = Some p \<and> allowPrivateIPs p"
proof -
  obtain h c where p: "demo_provision demo_ctx (Some demo_strict) ''a'' demo_caddy = (Inr h, c)" using demo_provision_ok by blast
  let ?a = "no_app\<lparr>aStorageMod := Some (Some 7), aESI := Some (no_esi\<lparr>eBlockPrivateIPs := Some False\<rparr>)\<rparr>"
  have app: "configured_app demo_ctx = Inr (Some ?a)" by (simp add: configured_app_def demo_ctx_def)
  have "allowPrivateIPs (layer_opt demo_ctx (Some demo_strict) (layer_opt demo_ctx (aESI ?a) default_esi_config))"
    by (simp add: layer_opt_def layer_config_def no_esi_def)
  then show ?thesis
    using provision_instance [OF p [unfolded demo_provision_def] app, of ?a] p by (auto simp: demo_route_def demo_strict_def)
qed

section \<open>The registry\<close>

text \<open>
  Property C16. However routes are provisioned, served, purged and cleaned up, the registry that the admin
  endpoint works on names exactly the instances of the routes that are alive, each of its own,
  and none of them is closed.
\<close>

theorem caddy_registry:
  assumes "caddy_reachable ops hs c"
  shows "set (instances c) = {(hId h, a) | h a. h \<in> set hs \<and> hInstance h = Some a} \<and>
    distinct (getInstances c) \<and> (\<forall>a \<in> set (getInstances c). \<exists>t. instance_at c a = Some t \<and> \<not> tClosed t)"
proof -
  let ?ps = "map (\<lambda>h. (hId h, the (hInstance h))) hs"
  have i: "map_of (instances c) = map_of ?ps" "distinct (map fst (instances c))" "distinct (map hId hs)" "distinct (map hInstance hs)"
    "\<forall>h \<in> set hs. \<exists>a t. hInstance h = Some a \<and> instance_at c a = Some t \<and> \<not> tClosed t"
    using caddy_reachable_inv [OF assms] unfolding caddy_inv_def by blast+
  have d: "distinct (map fst ?ps)" using i(3) by (simp add: o_def)
  have "set (instances c) = set ?ps" using map_of_inject_set [OF i(2) d] i(1) by simp
  also have "\<dots> = {(hId h, a) | h a. h \<in> set hs \<and> hInstance h = Some a}" using i(5) by force
  finally have e: "set (instances c) = {(hId h, a) | h a. h \<in> set hs \<and> hInstance h = Some a}" .
  have "inj_on snd (set (instances c))"
  proof (rule inj_onI)
    fix p q assume p: "p \<in> set (instances c)" and q: "q \<in> set (instances c)" and eq: "snd p = snd q"
    obtain g a where g: "g \<in> set hs" "hInstance g = Some a" "p = (hId g, a)" using p unfolding e by blast
    obtain h b where h: "h \<in> set hs" "hInstance h = Some b" "q = (hId h, b)" using q unfolding e by blast
    have "g = h" using i(4) g(1,2) h(1,2) eq by (simp add: g(3) h(3) distinct_map inj_on_def)
    with g h show "p = q" by simp
  qed
  then have "distinct (getInstances c)" using i(2) by (simp add: getInstances_def distinct_map)
  moreover have "\<exists>t. instance_at c a = Some t \<and> \<not> tClosed t" if "a \<in> set (getInstances c)" for a
    using that i(5) unfolding getInstances_def set_map e by force
  ultimately show ?thesis using e by blast
qed

lemma caddy_registry_witness:
  "\<exists>h c. demo_provision demo_ctx None ''a'' demo_caddy = (Inr h, c) \<and> instances c = [(''a'', 0)] \<and>
     (\<forall>a \<in> set (getInstances c). \<exists>t. instance_at c a = Some t \<and> \<not> tClosed t)"
proof -
  have "\<not> isl (fst (demo_provision demo_ctx None ''a'' demo_caddy))" by code_simp
  then obtain h c where p: "demo_provision demo_ctx None ''a'' demo_caddy = (Inr h, c)" by (metis prod.collapse sum.collapse(2))
  have "instances (snd (demo_provision demo_ctx None ''a'' demo_caddy)) = [(''a'', 0)]" by code_simp
  moreover have "caddy_reachable teststore [h] c"
    using caddy_reachable.provision [OF caddy_reachable.start, of "''a''" _ _ demo_ctx "demo_route None" "\<lambda>_. NewStore" h c] p
    by (simp add: demo_provision_def demo_caddy_def)
  ultimately show ?thesis using caddy_registry p by (metis snd_conv)
qed

section \<open>The admin endpoint\<close>

text \<open>What the endpoint takes: a JSON POST with exactly one kind of target, and not everything softly.\<close>

definition purge_request_ok :: "Request \<Rightarrow> purgeAdminRequest option \<Rightarrow> bool" where
  "purge_request_ok r decoded \<longleftrightarrow> Method r = ''POST'' \<and>
     (HasPrefix (Get (rHeader r) ''Content-Type'') ''application/json'' \<or> Get (rHeader r) ''Content-Type'' = []) \<and>
     (case decoded of
        None \<Rightarrow> False
      | Some q \<Rightarrow> ((URLs q \<noteq> [], reqTags q \<noteq> [], PurgeEverything q) \<in> {(True, False, False), (False, True, False), (False, False, True)}) \<and>
          \<not> (PurgeEverything q \<and> Soft q = Some True))"

text \<open>
  A request to the admin endpoint that is not acceptable is answered with a client error and purges
  nothing; every acceptable one is answered with status 200.
\<close>

theorem admin_request_checked:
  assumes "wCode w = None" and "handleAdminPurge env ops now decoded w r c = (w', c')"
  shows "if purge_request_ok r decoded then wCode w' = Some 200
    else c' = c \<and> (wCode w' = Some 400 \<or> wCode w' = Some 405 \<or> wCode w' = Some 415)"
proof -
  have ok: "wCode (Write (WriteHeader (upd_header f w) 200) b) = Some 200" for f b
    using assms(1) by (simp add: Write_def WriteHeader_def Let_def)
  show ?thesis
  proof (cases decoded)
    case None
    then show ?thesis using assms by (auto simp: handleAdminPurge_def purge_request_ok_def Let_def http_Error_code split: if_splits)
  next
    case (Some q)
    then show ?thesis using assms ok
      by (cases "URLs q = []"; cases "reqTags q = []"; cases "PurgeEverything q")
        (auto simp: handleAdminPurge_def purge_request_ok_def Let_def http_Error_code split: if_splits prod.splits)
  qed
qed

lemma admin_request_checked_witness:
  "wCode (fst (handleAdminPurge demo_env teststore 1 (Some \<lparr>URLs = [''/a''], reqTags = [''x''], PurgeEverything = False, Soft = None\<rparr>) new_writer
     (demo_get\<lparr>Method := ''POST''\<rparr>) demo_caddy)) \<in> {Some 400, Some 405, Some 415}"
proof -
  let ?q = "Some \<lparr>URLs = [''/a''], reqTags = [''x''], PurgeEverything = False, Soft = None\<rparr>" and ?r = "demo_get\<lparr>Method := ''POST''\<rparr>"
  obtain w' c' where a: "handleAdminPurge demo_env teststore 1 ?q new_writer ?r demo_caddy = (w', c')"
    by (cases "handleAdminPurge demo_env teststore 1 ?q new_writer ?r demo_caddy")
  have "\<not> purge_request_ok ?r ?q" by (simp add: purge_request_ok_def)
  with admin_request_checked [OF _ a] show ?thesis by (simp add: a)
qed

definition wiped :: "'s Storage \<Rightarrow> ('s \<Rightarrow> bool) \<Rightarrow> gotime \<Rightarrow> 's \<Rightarrow> bool" where
  "wiped ops up now s \<longleftrightarrow> up s \<and> (\<forall>t k. now \<le> t \<longrightarrow> opGetMeta ops t s k = Inr (None, False))"

text \<open>A backend that can be emptied: after \<^verbatim>\<open>PurgeAll\<close> nothing is read any more.\<close>

locale wipeable =
  fixes ops :: "'s Storage"
    and up :: "'s \<Rightarrow> bool"
  assumes wipe: "up s \<Longrightarrow> \<exists>n s'. opPurgeAll ops now s = (Inr n, s') \<and> wiped ops up now s'"
begin

text \<open>The instances purged so far have wiped storages, shared or not, and the others are still up.\<close>

lemma purge_instances_wiped:
  assumes "\<forall>a \<in> set as. \<exists>t s. map_of (cInsts c) a = Some (t, s) \<and> up (cStores c s)"
    and "purge_instances (t_PurgeAll ops now) as n c = (m, c')"
  shows "(\<forall>a \<in> set as. \<exists>t s. map_of (cInsts c') a = Some (t, s) \<and> wiped ops up now (cStores c' s)) \<and>
    (\<forall>s. cStores c' s = cStores c s \<or> wiped ops up now (cStores c' s)) \<and> (\<forall>a. map_option snd (map_of (cInsts c') a) = map_option snd (map_of (cInsts c) a))"
  using assms
proof (induction as arbitrary: n c)
  case (Cons a as)
  obtain t s where a: "map_of (cInsts c) a = Some (t, s)" "up (cStores c s)" using Cons.prems(1) by auto
  obtain k s' where w: "opPurgeAll ops now (cStores c s) = (Inr k, s')" "wiped ops up now s'" using wipe [OF a(2), of now] by blast
  let ?t' = "t\<lparr>tStore := s'\<rparr>" and ?c1 = "put_instance a (t\<lparr>tStore := s'\<rparr>) c"
  have c1: "cStores ?c1 = (cStores c)(s := s')" "cInsts ?c1 = AList.update a (?t', s) (cInsts c)" using a(1) by (simp_all add: put_instance_def)
  have "instance_at c a = Some (t\<lparr>tStore := cStores c s\<rparr>)" using a(1) by (simp add: instance_at_def)
  moreover have one: "t_PurgeAll ops now (t\<lparr>tStore := cStores c s\<rparr>) = (Inr k, ?t')" by (simp add: t_PurgeAll_def w(1))
  ultimately have rest: "purge_instances (t_PurgeAll ops now) as (wrap64 (n + k)) ?c1 = (m, c')"
    using Cons.prems(2) one by simp
  have "\<forall>b \<in> set as. \<exists>t s. map_of (cInsts ?c1) b = Some (t, s) \<and> up (cStores ?c1 s)"
    using Cons.prems(1) w(2) unfolding c1 AList.update_conv' wiped_def by fastforce
  note ih = Cons.IH [OF this rest]
  have snd: "map_option snd (map_of (cInsts ?c1) b) = map_option snd (map_of (cInsts c) b)" for b
    using a(1) by (simp add: c1 AList.update_conv')
  obtain t1 where "map_of (cInsts c') a = Some (t1, s)"
    using ih snd [of a] a(1) by (metis (no_types, lifting) map_option_eq_Some option.simps(9) prod.collapse snd_conv)
  moreover have "wiped ops up now (cStores c' s)" using ih w(2) by (metis c1(1) fun_upd_same)
  ultimately have "\<exists>t s. map_of (cInsts c') a = Some (t, s) \<and> wiped ops up now (cStores c' s)" by blast
  moreover have "cStores c' u = cStores c u \<or> wiped ops up now (cStores c' u)" for u
    using ih w(2) by (cases "u = s") (metis c1(1) fun_upd_apply)+
  ultimately show ?case using ih snd by simp
qed simp

lemma admin_wipes:
  assumes ok: "purge_request_ok r (Some q)" "PurgeEverything q"
    and up: "\<forall>a \<in> set (getInstances c). \<exists>t s. map_of (cInsts c) a = Some (t, s) \<and> up (cStores c s)"
    and purge: "handleAdminPurge env ops now (Some q) w r c = (w', c')"
  shows "\<forall>a \<in> set (getInstances c). \<exists>t. instance_at c' a = Some t \<and> wiped ops up now (tStore t)"
proof -
  obtain n m where p: "purge_instances (t_PurgeAll ops now) (getInstances c) n c = (m, c')"
    using purge ok by (auto simp: handleAdminPurge_def purge_request_ok_def run_purge_def Let_def split: if_splits prod.splits)
  from purge_instances_wiped [OF up p] show ?thesis by (fastforce simp: instance_at_def)
qed

end

interpretation wt: wipeable teststore "\<lambda>s. \<not> closed s \<and> getMetaHook s = None"
  by unfold_locales (auto simp: teststore_def PurgeAll_def wiped_def GetMeta_def)

text \<open>The Redis backend can be emptied too, when its prefix has no pattern characters.\<close>

lemma redis_wipeable:
  assumes "redis_backend exec srv_up view glob todo calls st KV valid" and "\<forall>c \<in> set (kprefix st). c \<notin> set (''*?[]^-'' @ [CHR 0x5C])"
  shows "wipeable (redis_storage st) (redis_up srv_up view st KV)"
proof
  fix s :: 'a and now assume "redis_up srv_up view st KV s"
  from redis_backend.PurgeAll_complete [OF assms(1) this, of now] assms(2)
  show "\<exists>n s'. opPurgeAll (redis_storage st) now s = (Inr n, s') \<and> wiped (redis_storage st) (redis_up srv_up view st KV) now s'"
    by (auto simp: redis_storage_def wiped_def ended_def)
qed

text \<open>
  Property C17. Purging everything over the admin endpoint reaches every registered instance: afterwards none of
  their storages, shared between routes or not, has an entry that can be read.
\<close>

theorem admin_purge_everything:
  assumes "wipeable ops up" and "purge_request_ok r (Some q)" "PurgeEverything q"
    and "\<forall>a \<in> set (getInstances c). \<exists>t s. map_of (cInsts c) a = Some (t, s) \<and> up (cStores c s)"
    and "handleAdminPurge env ops now (Some q) w r c = (w', c')"
  shows "\<forall>a \<in> set (getInstances c). \<exists>t. instance_at c' a = Some t \<and> wiped ops up now (tStore t)"
  by (rule wipeable.admin_wipes [OF assms])

text \<open>Two routes that share one storage, which holds an entry.\<close>

definition demo_shared :: "Store caddy" where
  "demo_shared = \<lparr>cStores = (\<lambda>_. tStore demo_saved), cInsts = [(0, demo_titip, 7), (1, demo_titip, 7)],
     instances = [(''a'', 0), (''b'', 1)], nextAddr = 2\<rparr>"

lemma admin_purge_everything_witness:
  "\<exists>w c t. handleAdminPurge demo_env teststore 200 (Some \<lparr>URLs = [], reqTags = [], PurgeEverything = True, Soft = None\<rparr>) new_writer
     (demo_get\<lparr>Method := ''POST''\<rparr>) demo_shared = (w, c) \<and> instance_at c 1 = Some t \<and>
     GetMeta 200 (tStore t) (generatePrimaryKey demo_get (Some zero_CacheKey)) = Inr (None, False)"
proof -
  let ?q = "\<lparr>URLs = [], reqTags = [], PurgeEverything = True, Soft = None\<rparr>" and ?r = "demo_get\<lparr>Method := ''POST''\<rparr>"
  have "Get (rHeader ?r) ''Content-Type'' = []" by code_simp
  then have ok: "purge_request_ok ?r (Some ?q)" "PurgeEverything ?q" by (simp_all add: purge_request_ok_def)
  have "\<not> closed (tStore demo_saved)" by code_simp
  moreover have "getMetaHook (tStore demo_saved) = None" by code_simp
  ultimately have up: "\<forall>a \<in> set (getInstances demo_shared). \<exists>t s. map_of (cInsts demo_shared) a = Some (t, s) \<and>
      \<not> closed (cStores demo_shared s) \<and> getMetaHook (cStores demo_shared s) = None"
    by (simp add: demo_shared_def getInstances_def)
  obtain w c where a: "handleAdminPurge demo_env teststore 200 (Some ?q) new_writer ?r demo_shared = (w, c)"
    by (cases "handleAdminPurge demo_env teststore 200 (Some ?q) new_writer ?r demo_shared")
  have "wipeable teststore (\<lambda>s. \<not> closed s \<and> getMetaHook s = None)" by unfold_locales
  from admin_purge_everything [OF this ok up a] obtain t where
    "instance_at c 1 = Some t" "wiped teststore (\<lambda>s. \<not> closed s \<and> getMetaHook s = None) 200 (tStore t)"
    by (auto simp: demo_shared_def getInstances_def)
  then show ?thesis using a by (auto simp: wiped_def teststore_def)
qed

section \<open>Serving under rewritten URLs\<close>

lemma instance_at_put_same: "instance_at c a = Some t \<Longrightarrow> instance_at (put_instance a t' c) a = Some t'"
  by (auto simp: put_instance_def instance_at_def AList.update_conv')

text \<open>
  Property C15. Entries belong to the URL the client asked for: when a route rewrites it, the next handler gets
  the rewritten request, and what it answers is stored under the original URL. A later request for
  that URL is answered from the storage although it may be rewritten to something else.
\<close>

theorem rewritten_miss_then_hit:
  assumes h: "hInstance h = Some b" "\<not> useRewrittenURL h" "instance_at c b = Some t"
    and t: "usable (tStore t)" "codecs_ok (tConfig t)" "esiProcessor t = None" "\<not> tClosed t" "\<not> respectClientCacheControl (tConfig t)"
    and req: "plain_request r" "Method r = ''GET''" "unconditional r"
    and miss: "GetMeta now (tStore t) (generatePrimaryKey (r\<lparr>rURL := Some u\<rparr>) (Some (cacheKey (tConfig t)))) = Inr (None, sp)"
    and origin: "next_handler e r new_writer now = (Some rec, resp)" "Values (wHeader rec) headerSetCookie = []"
    and f: "env_ok (genv e)" "f = calculateFreshness (genv e) resp (rec_Code rec) (rHeader r) (wHeader rec) now resp resp" "IsCacheable f"
    and time: "0 \<le> resp" "resp \<le> later" "later < tadd resp (EffectiveTTL f)" "tadd resp (EffectiveTTL f) < 2 ^ 63"
  shows "\<exists>w1 c1 w2. caddy_ServeHTTP e teststore now h (Some u) c new_writer r = Some (Some w1, resp, c1) \<and>
    wCode w1 = Some (rec_Code rec) \<and> wBody w1 = wBody rec \<and>
    (\<forall>e' v. \<exists>c2. caddy_ServeHTTP e' teststore later h (Some u) c1 new_writer (r\<lparr>rURL := v\<rparr>) = Some (Some w2, later, c2)) \<and>
    wCode w2 = Some (wrap32 (rec_Code rec)) \<and> wBody w2 = wBody rec"
proof -
  let ?r = "r\<lparr>rURL := Some u\<rparr>" and ?e = "e\<lparr>next_handler := bridge (next_handler e) r\<rparr>"
  have plain: "plain_request ?r" "Method ?r = ''GET''" "unconditional ?r" using req by (simp_all add: plain_request_def unconditional_def)
  have next1: "next_handler ?e ?r new_writer now = (Some rec, resp)" using origin(1) by (simp add: bridge_def)
  have f': "f = calculateFreshness (genv ?e) resp (rec_Code rec) (rHeader ?r) (wHeader rec) now resp resp" using f(2) by simp
  have ttl: "later < tadd resp (storage_ttl f)" using time(3) storage_ttl_ge [OF f(1,2)] by (simp add: tadd_def)
  have nano: "UnixNano later \<le> UnixNano (tadd resp (EffectiveTTL f))" using time by (simp add: UnixNano_def wrap64_id)
  have miss': "opGetMeta teststore now (tStore t) (generatePrimaryKey ?r (Some (cacheKey (tConfig t)))) = Inr (None, sp)"
    using miss by (simp add: teststore_def)
  obtain w1 t1 w2 where s: "ServeHTTP ?e teststore now t new_writer ?r = (Some w1, resp, t1)" "wCode w1 = Some (rec_Code rec)" "wBody w1 = wBody rec"
    "\<forall>e'. ServeHTTP e' teststore later t1 new_writer ?r = (Some w2, later, t1)" "wCode w2 = Some (wrap32 (rec_Code rec))" "wBody w2 = wBody rec"
    using ts.fetch_then_hit [OF t(1-5) plain miss' next1 origin(2) f' f(3) TrueI time(2) ttl nano] by blast
  let ?c1 = "put_instance b t1 c"
  have "caddy_ServeHTTP e teststore now h (Some u) c new_writer r = Some (Some w1, resp, ?c1)"
    using s(1) h by (simp add: caddy_ServeHTTP_def cache_request_def)
  moreover have "caddy_ServeHTTP e' teststore later h (Some u) ?c1 new_writer (r\<lparr>rURL := v\<rparr>) = Some (Some w2, later, put_instance b t1 ?c1)" for e' v
    using s(4) h instance_at_put_same [OF h(3), of t1] by (simp add: caddy_ServeHTTP_def cache_request_def)
  ultimately show ?thesis using s(2,3,5,6) by blast
qed

definition demo_alone :: "Store caddy" where
  "demo_alone = \<lparr>cStores = (\<lambda>_. NewStore), cInsts = [(0, demo_titip, 7)], instances = [(''a'', 0)], nextAddr = 1\<rparr>"

lemma rewritten_miss_then_hit_witness:
  "\<exists>w1 c1 w2 c2. caddy_ServeHTTP (demo_henv (demo_origin 200 demo_fresh ''hello'')) teststore 100 (demo_route None\<lparr>hInstance := Some 0\<rparr>)
      (Some (empty_URL\<lparr>Path := ''/about''\<rparr>)) demo_alone new_writer demo_get = Some (Some w1, 105, c1) \<and>
    caddy_ServeHTTP (demo_henv (demo_origin 500 [] [])) teststore 200 (demo_route None\<lparr>hInstance := Some 0\<rparr>)
      (Some (empty_URL\<lparr>Path := ''/about''\<rparr>)) c1 new_writer (demo_get\<lparr>rURL := Some (empty_URL\<lparr>Path := ''/other.php''\<rparr>)\<rparr>) = Some (Some w2, 200, c2) \<and>
    wCode w2 = Some 200 \<and> wBody w2 = ''hello''"
proof -
  let ?e = "demo_henv (demo_origin 200 demo_fresh ''hello'')" and ?rec = "demo_response 200 demo_fresh ''hello''" and ?h = "demo_route None\<lparr>hInstance := Some 0\<rparr>"
  have o1: "next_handler ?e demo_get new_writer 100 = (Some ?rec, 105)" by (simp add: demo_origin_def)
  have o2: "Values (wHeader ?rec) headerSetCookie = []" using demo_no_cookie by simp
  have f: "demo_freshness = calculateFreshness (genv ?e) 105 (rec_Code ?rec) (rHeader demo_get) (wHeader ?rec) 100 105 105"
    by (simp add: demo_freshness_def demo_get_def demo_request_def)
  have h: "hInstance ?h = Some 0" "\<not> useRewrittenURL ?h" "instance_at demo_alone 0 = Some demo_titip"
    by (simp_all add: demo_route_def demo_alone_def instance_at_def demo_titip_def)
  show ?thesis
    using rewritten_miss_then_hit [OF h _ _ _ _ _ demo_get_plain _ o1 o2 _ f demo_freshness_vals(1), of "empty_URL\<lparr>Path := ''/about''\<rparr>" False 200]
    by (simp add: demo_codecs demo_NewStore_miss demo_env_ok demo_freshness_vals tadd_def) blast
qed

end
