(* ===== verification/CaddyFile.thy ===== *)
theory CaddyFile
  imports CaddyConfig RedisStore
begin

text \<open>
  Model of the Caddyfile parsers: \<^verbatim>\<open>UnmarshalCaddyfile\<close> and its parts in
  \<^verbatim>\<open>src/adapter/caddy/caddy.go\<close>, the global option in \<^verbatim>\<open>src/adapter/caddy/app.go\<close> and the Redis module
  in \<^verbatim>\<open>src/storage/redis/caddy/redis.go\<close>. Caddy's token dispenser is a parameter; \<open>dispenser_laws\<close>
  states what is relied on, by lines of arguments with blocks. A loop over the lines of a block is
  a \<open>partial_function\<close>: \<open>None\<close> means that it does not end.
\<close>

section \<open>The dispenser\<close>

record 'd dispenser =
  dNext :: "'d \<Rightarrow> bool \<times> 'd"
  dNextBlock :: "nat \<Rightarrow> 'd \<Rightarrow> bool \<times> 'd"
  dNextArg :: "'d \<Rightarrow> bool \<times> 'd"
  dVal :: "'d \<Rightarrow> bytes"
  dRemainingArgs :: "'d \<Rightarrow> bytes list \<times> 'd"
  dArgErr :: "'d \<Rightarrow> error"
  dErrf :: "'d \<Rightarrow> bytes \<Rightarrow> error"

text \<open>The modules known to Caddy: those installed under the namespace, and how one reads its block and becomes JSON.\<close>

record 'd modules =
  GetModule :: "bytes \<Rightarrow> bool"
  GetModules :: "bytes list"
  UnmarshalModule :: "'d \<Rightarrow> bytes \<Rightarrow> error + bytes \<times> 'd"

text \<open>\<^verbatim>\<open>strconv.ParseBool\<close>.\<close>

definition ParseBool :: "bytes \<Rightarrow> bool option" where
  "ParseBool s =
     (if s \<in> {''1'', ''t'', ''T'', ''TRUE'', ''true'', ''True''} then Some True
      else if s \<in> {''0'', ''f'', ''F'', ''FALSE'', ''false'', ''False''} then Some False
      else None)"

text \<open>The recurring kinds of a directive: one text, one boolean, a flag that defaults to true, a list of texts.\<close>

definition need_arg :: "'d dispenser \<Rightarrow> 'd \<Rightarrow> (bytes \<Rightarrow> 'd \<Rightarrow> error + 'a \<times> 'd) \<Rightarrow> error + 'a \<times> 'd" where
  "need_arg D d k = (let (got, d1) = dNextArg D d in if \<not> got then Inl (dArgErr D d1) else k (dVal D d1) d1)"

definition str_arg :: "'d dispenser \<Rightarrow> 'd \<Rightarrow> (bytes \<Rightarrow> 'a) \<Rightarrow> error + 'a \<times> 'd" where
  "str_arg D d f = need_arg D d (\<lambda>v d1. Inr (f v, d1))"

definition bool_val :: "'d dispenser \<Rightarrow> 'd \<Rightarrow> (bool \<Rightarrow> 'a) \<Rightarrow> error + 'a \<times> 'd" where
  "bool_val D d f = (case ParseBool (dVal D d) of None \<Rightarrow> Inl (dErrf D d ''invalid boolean value'') | Some b \<Rightarrow> Inr (f b, d))"

definition bool_arg :: "'d dispenser \<Rightarrow> 'd \<Rightarrow> (bool \<Rightarrow> 'a) \<Rightarrow> error + 'a \<times> 'd" where
  "bool_arg D d f = need_arg D d (\<lambda>v d1. bool_val D d1 f)"

definition flag_arg :: "'d dispenser \<Rightarrow> 'd \<Rightarrow> (bool \<Rightarrow> 'a) \<Rightarrow> error + 'a \<times> 'd" where
  "flag_arg D d f = (let (got, d1) = dNextArg D d in if got then bool_val D d1 f else Inr (f True, d1))"

definition list_args :: "'d dispenser \<Rightarrow> 'd \<Rightarrow> (bytes list \<Rightarrow> 'a) \<Rightarrow> error + 'a \<times> 'd" where
  "list_args D d f = (let (vs, d1) = dRemainingArgs D d in Inr (f vs, d1))"

definition num_arg :: "'d dispenser \<Rightarrow> 'd \<Rightarrow> (bytes \<Rightarrow> 'n option) \<Rightarrow> ('n \<Rightarrow> 'a) \<Rightarrow> error + 'a \<times> 'd" where
  "num_arg D d parse f = need_arg D d (\<lambda>v d1.
     case parse v of None \<Rightarrow> Inl (dErrf D d1 ''invalid integer'') | Some n \<Rightarrow> Inr (f n, d1))"

section \<open>Blocks of directives\<close>

partial_function (option) block_loop ::
    "'d dispenser \<Rightarrow> nat \<Rightarrow> ('d \<Rightarrow> 'a \<Rightarrow> (error + 'a \<times> 'd) option) \<Rightarrow> 'd \<Rightarrow> 'a \<Rightarrow> (error + 'a \<times> 'd) option" where
  "block_loop D n step d x =
     (case dNextBlock D n d of
        (got, d1) \<Rightarrow>
          if \<not> got then Some (Inr (x, d1))
          else Option.bind (step d1 x) (\<lambda>res.
            case res of Inl e \<Rightarrow> Some (Inl e) | Inr p \<Rightarrow> block_loop D n step (snd p) (fst p)))"

partial_function (option) segment_loop ::
    "'d dispenser \<Rightarrow> ('d \<Rightarrow> 'a \<Rightarrow> (error + 'a \<times> 'd) option) \<Rightarrow> 'd \<Rightarrow> 'a \<Rightarrow> (error + 'a) option" where
  "segment_loop D step d x =
     (case dNext D d of
        (got, d1) \<Rightarrow>
          if \<not> got then Some (Inr x)
          else Option.bind (block_loop D 0 step d1 x) (\<lambda>res.
            case res of Inl e \<Rightarrow> Some (Inl e) | Inr p \<Rightarrow> segment_loop D step (snd p) (fst p)))"

text \<open>\<^verbatim>\<open>(*CacheKey).unmarshalCaddyfile\<close>.\<close>

definition key_directive :: "'d dispenser \<Rightarrow> 'd \<Rightarrow> key_settings \<Rightarrow> error + key_settings \<times> 'd" where
  "key_directive D d k =
     (let v = dVal D d
      in if v = ''include_protocol'' then bool_arg D d (\<lambda>b. k\<lparr>kIncludeProtocol := Some b\<rparr>)
         else if v = ''exclude_host'' then bool_arg D d (\<lambda>b. k\<lparr>kExcludeHost := Some b\<rparr>)
         else if v = ''exclude_query'' then bool_arg D d (\<lambda>b. k\<lparr>kExcludeQuery := Some b\<rparr>)
         else if v = ''preserve_query_order'' then bool_arg D d (\<lambda>b. k\<lparr>kPreserveQueryOrder := Some b\<rparr>)
         else if v = ''included_query_params'' then list_args D d (\<lambda>vs. k\<lparr>kIncludedQueryParams := kIncludedQueryParams k @ vs\<rparr>)
         else if v = ''excluded_query_params'' then list_args D d (\<lambda>vs. k\<lparr>kExcludedQueryParams := kExcludedQueryParams k @ vs\<rparr>)
         else if v = ''exclude_marketing_query_params'' then flag_arg D d (\<lambda>b. k\<lparr>kExcludeMarketingQueryParams := Some b\<rparr>)
         else if v = ''included_header_names'' then list_args D d (\<lambda>vs. k\<lparr>kIncludedHeaderNames := kIncludedHeaderNames k @ vs\<rparr>)
         else if v = ''included_cookie_names'' then list_args D d (\<lambda>vs. k\<lparr>kIncludedCookieNames := kIncludedCookieNames k @ vs\<rparr>)
         else if v = ''case_insensitive_path'' then flag_arg D d (\<lambda>b. k\<lparr>kCaseInsensitivePath := Some b\<rparr>)
         else if v = ''included_query_param_values'' then
           need_arg D d (\<lambda>param d1.
             let (vals, d2) = dRemainingArgs D d1
             in if vals = [] then Inl (dErrf D d2 ''included_query_param_values requires at least one allowed value'')
                else Inr (k\<lparr>kIncludedQueryParamValues := AList.update param
                       ((case map_of (kIncludedQueryParamValues k) param of None \<Rightarrow> [] | Some vs \<Rightarrow> vs) @ vals)
                       (kIncludedQueryParamValues k)\<rparr>, d2))
         else Inl (dErrf D d ''unknown key subdirective''))"

text \<open>\<^verbatim>\<open>(*ESIConfig).unmarshalCaddyfile\<close>.\<close>

definition esi_directive :: "'d dispenser \<Rightarrow> 'd \<Rightarrow> ESIConfig \<Rightarrow> error + ESIConfig \<times> 'd" where
  "esi_directive D d e =
     (let v = dVal D d
      in if v = ''enabled'' then flag_arg D d (\<lambda>b. e\<lparr>eEnabled := Some b\<rparr>)
         else if v = ''require_surrogate_control'' then flag_arg D d (\<lambda>b. e\<lparr>eRequireSurrogateControl := Some b\<rparr>)
         else if v = ''max_depth'' then num_arg D d (\<lambda>s. ParseUint s 32) (\<lambda>n. e\<lparr>eMaxDepth := Some n\<rparr>)
         else if v = ''max_timeout'' then str_arg D d (\<lambda>s. e\<lparr>eMaxTimeout := s\<rparr>)
         else if v = ''max_concurrent_requests'' then num_arg D d ParseInt (\<lambda>n. e\<lparr>eMaxConcurrentRequests := Some n\<rparr>)
         else if v = ''block_private_ips'' then flag_arg D d (\<lambda>b. e\<lparr>eBlockPrivateIPs := Some b\<rparr>)
         else if v = ''allowed_hosts'' then list_args D d (\<lambda>vs. e\<lparr>eAllowedHosts := eAllowedHosts e @ vs\<rparr>)
         else if v = ''allow_private_ips_for_allowed_hosts'' then flag_arg D d (\<lambda>b. e\<lparr>eAllowPrivateIPsForAllowedHosts := Some b\<rparr>)
         else if v = ''max_response_size'' then str_arg D d (\<lambda>s. e\<lparr>eMaxResponseSize := s\<rparr>)
         else if v = ''forward_fragment_cookies'' then flag_arg D d (\<lambda>b. e\<lparr>eForwardFragmentCookies := Some b\<rparr>)
         else if v = ''preserve_etag'' then flag_arg D d (\<lambda>b. e\<lparr>ePreserveETag := Some b\<rparr>)
         else if v = ''error_marker'' then str_arg D d (\<lambda>s. e\<lparr>eErrorMarker := s\<rparr>)
         else Inl (dErrf D d ''unknown esi subdirective''))"

text \<open>\<^verbatim>\<open>parseServerTimingCaddyfile\<close>.\<close>

definition timing_directive :: "'d dispenser \<Rightarrow> 'd \<Rightarrow> error + timing_settings \<times> 'd" where
  "timing_directive D d =
     (let (got, d1) = dNextArg D d
      in if \<not> got then Inr (\<lparr>stEnabled = Some True, stCookieName = [], stCookieValue = []\<rparr>, d1)
         else if dVal D d1 = ''cookie'' then
           (let (got2, d2) = dNextArg D d1
            in if \<not> got2 then Inl (dErrf D d2 ''server_timing cookie requires <name> and <value>'')
               else let (got3, d3) = dNextArg D d2
                    in if \<not> got3 then Inl (dErrf D d3 ''server_timing cookie requires <name> and <value>'')
                       else Inr (\<lparr>stEnabled = Some True, stCookieName = dVal D d2, stCookieValue = dVal D d3\<rparr>, d3))
         else bool_val D d1 (\<lambda>b. \<lparr>stEnabled = Some b, stCookieName = [], stCookieValue = []\<rparr>))"

text \<open>\<^verbatim>\<open>parseStorageModule\<close>.\<close>

definition storage_directive :: "'d dispenser \<Rightarrow> 'd modules \<Rightarrow> 'd \<Rightarrow> error + bytes \<times> 'd" where
  "storage_directive D M d =
     need_arg D d (\<lambda>name d1.
       if \<not> GetModule M (''titip.storage.'' @ name) then
         (if GetModules M \<noteq> [] then
            Inl (dErrf D d1 (''storage module is not installed (installed: '' @
                   Join '', '' (map (\<lambda>m. TrimPrefix m ''titip.storage.'') (GetModules M)) @ '')''))
          else Inl (dErrf D d1 ''storage module is not installed (no titip storage plugins installed)''))
       else UnmarshalModule M d1 name)"

definition zero_key :: key_settings where
  "zero_key = \<lparr>kIncludeProtocol = None, kExcludeHost = None, kExcludeQuery = None, kPreserveQueryOrder = None,
     kIncludedQueryParams = [], kExcludedQueryParams = [], kExcludeMarketingQueryParams = None, kIncludedHeaderNames = [],
     kIncludedCookieNames = [], kCaseInsensitivePath = None, kIncludedQueryParamValues = []\<rparr>"

definition zero_esi :: ESIConfig where
  "zero_esi = \<lparr>eEnabled = None, eRequireSurrogateControl = None, eMaxDepth = None, eMaxTimeout = [], eMaxConcurrentRequests = None,
     eBlockPrivateIPs = None, eAllowedHosts = [], eAllowPrivateIPsForAllowedHosts = None, eMaxResponseSize = [],
     eForwardFragmentCookies = None, ePreserveETag = None, eErrorMarker = []\<rparr>"

text \<open>A block of its own within a directive.\<close>

definition sub_block :: "'d dispenser \<Rightarrow> ('d \<Rightarrow> 'b \<Rightarrow> error + 'b \<times> 'd) \<Rightarrow> 'd \<Rightarrow> 'b \<Rightarrow> ('b \<Rightarrow> 'a) \<Rightarrow> (error + 'a \<times> 'd) option" where
  "sub_block D step d x f =
     map_option (map_sum (\<lambda>e. e) (\<lambda>(y, d1). (f y, d1))) (block_loop D 1 (\<lambda>d x. Some (step d x)) d x)"

text \<open>\<^verbatim>\<open>(*Handler).UnmarshalCaddyfile\<close>: one directive, then the loops.\<close>

definition handler_directive ::
    "'d dispenser \<Rightarrow> 'd modules \<Rightarrow> 'd \<Rightarrow> caddy_handler \<Rightarrow> (error + caddy_handler \<times> 'd) option" where
  "handler_directive D M d h =
     (let v = dVal D d
      in if v = ''storage'' then Some (map_sum (\<lambda>e. e) (\<lambda>(raw, d1). (h\<lparr>hStorageRaw := raw\<rparr>, d1)) (storage_directive D M d))
         else if v = ''cache_status'' then Some (str_arg D d (\<lambda>s. h\<lparr>hCacheStatus := s\<rparr>))
         else if v = ''respect_client_cache_control'' then Some (bool_arg D d (\<lambda>b. h\<lparr>hRespectClientCacheControl := Some b\<rparr>))
         else if v = ''auto_invalidate_mutating_methods'' then Some (bool_arg D d (\<lambda>b. h\<lparr>hAutoInvalidateMutatingMethods := Some b\<rparr>))
         else if v = ''convert_head_to_get'' then Some (bool_arg D d (\<lambda>b. h\<lparr>hConvertHeadToGet := Some b\<rparr>))
         else if v = ''background_fetch_timeout'' then Some (str_arg D d (\<lambda>s. h\<lparr>hBackgroundFetchTimeout := s\<rparr>))
         else if v = ''storage_timeout'' then Some (str_arg D d (\<lambda>s. h\<lparr>hStorageTimeout := s\<rparr>))
         else if v = ''tag_header'' then Some (str_arg D d (\<lambda>s. h\<lparr>hTagHeader := s\<rparr>))
         else if v = ''cache_key'' then
           sub_block D (key_directive D) d (set_opt (hCacheKey h) zero_key) (\<lambda>k. h\<lparr>hCacheKey := Some k\<rparr>)
         else if v = ''esi'' then
           sub_block D (esi_directive D) d (set_opt (hESI h) zero_esi) (\<lambda>e. h\<lparr>hESI := Some e\<rparr>)
         else if v = ''use_rewritten_url'' then Some (flag_arg D d (\<lambda>b. h\<lparr>hUseRewrittenURL := Some b\<rparr>))
         else if v = ''server_timing'' then
           Some (map_sum (\<lambda>e. e) (\<lambda>(st, d1). (h\<lparr>hServerTiming := Some st\<rparr>, d1)) (timing_directive D d))
         else if v = ''storage_compression'' then Some (str_arg D d (\<lambda>s. h\<lparr>hStorageCompression := s\<rparr>))
         else Some (Inl (dErrf D d ''unknown titip directive'')))"

definition UnmarshalCaddyfile :: "'d dispenser \<Rightarrow> 'd modules \<Rightarrow> 'd \<Rightarrow> caddy_handler \<Rightarrow> (error + caddy_handler) option" where
  "UnmarshalCaddyfile D M d h = segment_loop D (handler_directive D M) d h"

text \<open>\<^verbatim>\<open>parseCaddyfile\<close> starts from the zero value.\<close>

definition zero_handler :: caddy_handler where
  "zero_handler = \<lparr>hStorageRaw = [], hCacheStatus = [], hRespectClientCacheControl = None, hAutoInvalidateMutatingMethods = None,
     hConvertHeadToGet = None, hBackgroundFetchTimeout = [], hStorageTimeout = [], hTagHeader = [], hCacheKey = None, hESI = None,
     hUseRewrittenURL = None, hServerTiming = None, hStorageCompression = [], hInstance = None, hId = [], useRewrittenURL = False\<rparr>"

definition parseCaddyfile :: "'d dispenser \<Rightarrow> 'd modules \<Rightarrow> 'd \<Rightarrow> (error + caddy_handler) option" where
  "parseCaddyfile D M d = UnmarshalCaddyfile D M d zero_handler"

text \<open>\<^verbatim>\<open>parseGlobalOption\<close>: the app has no tag header, and a second block replaces the settings of a first.\<close>

definition app_directive :: "'d dispenser \<Rightarrow> 'd modules \<Rightarrow> 'd \<Rightarrow> App \<Rightarrow> (error + App \<times> 'd) option" where
  "app_directive D M d a =
     (let v = dVal D d
      in if v = ''storage'' then Some (map_sum (\<lambda>e. e) (\<lambda>(raw, d1). (a\<lparr>aStorageRaw := raw\<rparr>, d1)) (storage_directive D M d))
         else if v = ''cache_status'' then Some (str_arg D d (\<lambda>s. a\<lparr>aCacheStatus := s\<rparr>))
         else if v = ''respect_client_cache_control'' then Some (bool_arg D d (\<lambda>b. a\<lparr>aRespectClientCacheControl := Some b\<rparr>))
         else if v = ''auto_invalidate_mutating_methods'' then Some (bool_arg D d (\<lambda>b. a\<lparr>aAutoInvalidateMutatingMethods := Some b\<rparr>))
         else if v = ''convert_head_to_get'' then Some (bool_arg D d (\<lambda>b. a\<lparr>aConvertHeadToGet := Some b\<rparr>))
         else if v = ''background_fetch_timeout'' then Some (str_arg D d (\<lambda>s. a\<lparr>aBackgroundFetchTimeout := s\<rparr>))
         else if v = ''storage_timeout'' then Some (str_arg D d (\<lambda>s. a\<lparr>aStorageTimeout := s\<rparr>))
         else if v = ''cache_key'' then sub_block D (key_directive D) d zero_key (\<lambda>k. a\<lparr>aCacheKey := Some k\<rparr>)
         else if v = ''esi'' then sub_block D (esi_directive D) d zero_esi (\<lambda>e. a\<lparr>aESI := Some e\<rparr>)
         else if v = ''use_rewritten_url'' then Some (flag_arg D d (\<lambda>b. a\<lparr>aUseRewrittenURL := Some b\<rparr>))
         else if v = ''server_timing'' then
           Some (map_sum (\<lambda>e. e) (\<lambda>(st, d1). (a\<lparr>aServerTiming := Some st\<rparr>, d1)) (timing_directive D d))
         else if v = ''storage_compression'' then Some (str_arg D d (\<lambda>s. a\<lparr>aStorageCompression := s\<rparr>))
         else Some (Inl (dErrf D d ''unknown global titip directive'')))"

definition parseGlobalOption :: "'d dispenser \<Rightarrow> 'd modules \<Rightarrow> 'd \<Rightarrow> (error + App) option" where
  "parseGlobalOption D M d = segment_loop D (app_directive D M) d no_app"

section \<open>The Redis module\<close>

record redis_module =
  mURL :: bytes
  mAddress :: "bytes list"
  mKeyPrefix :: bytes
  mUsername :: bytes
  mPassword :: bytes
  mDB :: int
  mPipelineMultiplex :: int
  mdbSet :: bool

record client_option =
  InitAddress :: "bytes list"
  oUsername :: bytes
  oPassword :: bytes
  SelectDB :: int
  oPipelineMultiplex :: int

definition split_addresses :: "bytes \<Rightarrow> bytes list" where
  "split_addresses raw = filter (\<lambda>a. a \<noteq> []) (map TrimSpace (SplitByte (CHR '','') raw))"

definition redis_directive :: "'d dispenser \<Rightarrow> 'd \<Rightarrow> redis_module \<Rightarrow> error + redis_module \<times> 'd" where
  "redis_directive D d r =
     (let v = dVal D d
      in if v = ''url'' then
           need_arg D d (\<lambda>u d1. if mURL r \<noteq> [] then Inl (dErrf D d1 ''duplicate url directive'') else Inr (r\<lparr>mURL := u\<rparr>, d1))
         else if v = ''address'' then
           (let (args, d1) = dRemainingArgs D d
            in if args = [] then Inl (dArgErr D d1)
               else Inr (r\<lparr>mAddress := mAddress r @ concat (map split_addresses args)\<rparr>, d1))
         else if v = ''key_prefix'' then str_arg D d (\<lambda>s. r\<lparr>mKeyPrefix := s\<rparr>)
         else if v = ''username'' then str_arg D d (\<lambda>s. r\<lparr>mUsername := s\<rparr>)
         else if v = ''password'' then str_arg D d (\<lambda>s. r\<lparr>mPassword := s\<rparr>)
         else if v = ''db'' then
           need_arg D d (\<lambda>s d1. case ParseInt s of
             None \<Rightarrow> Inl (dErrf D d1 ''invalid db number'')
           | Some n \<Rightarrow> if n < 0 then Inl (dErrf D d1 ''db number must be >= 0'') else Inr (r\<lparr>mDB := n, mdbSet := True\<rparr>, d1))
         else if v = ''pipeline_multiplex'' then
           need_arg D d (\<lambda>s d1. case ParseInt s of
             None \<Rightarrow> Inl (dErrf D d1 ''invalid pipeline_multiplex number'')
           | Some n \<Rightarrow> if n < 0 then Inl (dErrf D d1 ''pipeline_multiplex must be >= 0'') else Inr (r\<lparr>mPipelineMultiplex := n\<rparr>, d1))
         else Inl (dErrf D d ''unknown subdirective''))"

definition redis_UnmarshalCaddyfile :: "'d dispenser \<Rightarrow> 'd \<Rightarrow> redis_module \<Rightarrow> (error + redis_module) option" where
  "redis_UnmarshalCaddyfile D d r = segment_loop D (\<lambda>d r. Some (redis_directive D d r)) d r"

text \<open>
  \<^verbatim>\<open>Provision\<close> of the module: \<open>parseURL\<close> and \<open>newClient\<close> are the Redis client library; what is built is
  the backend of \<open>RedisStore\<close>.
\<close>

definition client_options :: "(bytes \<Rightarrow> client_option option) \<Rightarrow> redis_module \<Rightarrow> error + client_option" where
  "client_options parseURL r =
     (if mURL r \<noteq> [] then
        (if mAddress r \<noteq> [] \<or> mUsername r \<noteq> [] \<or> mPassword r \<noteq> [] \<or> mdbSet r \<or> mDB r \<noteq> 0
         then Inl ''cannot combine url with discrete connection parameters''
         else case parseURL (mURL r) of None \<Rightarrow> Inl (''invalid url '' @ mURL r) | Some opt \<Rightarrow> Inr opt)
      else
        let addrs = concat (map split_addresses (mAddress r))
        in if addrs = [] then Inl ''connection configuration required (specify either 'url' or 'address')''
           else Inr \<lparr>InitAddress = addrs, oUsername = mUsername r, oPassword = mPassword r, SelectDB = mDB r, oPipelineMultiplex = 0\<rparr>)"

definition redis_module_Provision ::
    "(bytes \<Rightarrow> client_option option) \<Rightarrow> (client_option \<Rightarrow> error + 's redis_exec) \<Rightarrow> 's RedisStorage \<Rightarrow> redis_module
     \<Rightarrow> error + 's RedisStorage" where
  "redis_module_Provision parseURL newClient base r =
     (case client_options parseURL r of
        Inl e \<Rightarrow> Inl e
      | Inr opt \<Rightarrow>
          if mPipelineMultiplex r < 0 then Inl ''pipeline_multiplex must be >= 0''
          else
            let opt1 = (if mPipelineMultiplex r > 0 then opt\<lparr>oPipelineMultiplex := mPipelineMultiplex r\<rparr> else opt)
            in (case newClient opt1 of
                  Inl e \<Rightarrow> Inl (''connect: '' @ e)
                | Inr c \<Rightarrow>
                    (case redis_New base (Some c) [WithKeyPrefix (cmp_Or (mKeyPrefix r) ''titip:'')] of
                       Inl e \<Rightarrow> Inl (''init storage: '' @ e)
                     | Inr st \<Rightarrow> Inr st)))"

section \<open>What is relied on of the dispenser\<close>

text \<open>A line has a name, arguments and a block, which may be empty.\<close>

datatype dline = Line bytes "bytes list" "dline list"

text \<open>
  \<open>block n d ls d'\<close>: at \<open>d\<close> the lines \<open>ls\<close> of a block of nesting \<open>n\<close> are still to come, and its end leads to
  \<open>d'\<close>. \<open>line n d as sub ls d'\<close>: at \<open>d\<close>, within a line of such a block, the arguments \<open>as\<close> and the block \<open>sub\<close>
  of the line are still to come, and then the lines \<open>ls\<close>.
\<close>

locale dispenser_laws =
  fixes D :: "'d dispenser"
    and line :: "nat \<Rightarrow> 'd \<Rightarrow> bytes list \<Rightarrow> dline list \<Rightarrow> dline list \<Rightarrow> 'd \<Rightarrow> bool"
    and block :: "nat \<Rightarrow> 'd \<Rightarrow> dline list \<Rightarrow> 'd \<Rightarrow> bool"
  assumes block_end: "block n d [] d' \<Longrightarrow> dNextBlock D n d = (False, d')"
    and block_line: "block n d (Line nm as sub # ls) d' \<Longrightarrow>
      \<exists>d1. dNextBlock D n d = (True, d1) \<and> dVal D d1 = nm \<and> line n d1 as sub ls d'"
    and arg: "line n d (a # as) sub ls d' \<Longrightarrow> \<exists>d1. dNextArg D d = (True, d1) \<and> dVal D d1 = a \<and> line n d1 as sub ls d'"
    and no_arg: "line n d [] sub ls d' \<Longrightarrow> \<exists>d1. dNextArg D d = (False, d1) \<and> line n d1 [] sub ls d'"
    and remaining: "line n d as sub ls d' \<Longrightarrow> \<exists>d1. dRemainingArgs D d = (as, d1) \<and> line n d1 [] sub ls d'"
    and line_end: "line n d [] [] ls d' \<Longrightarrow> block n d ls d'"
    and enter: "line n d [] sub ls d' \<Longrightarrow> \<exists>d1. block (Suc n) d sub d1 \<and> line n d1 [] [] ls d'"

text \<open>A step reads a line when it takes all of it; a block is read line by line.\<close>

definition consumes ::
    "'d dispenser \<Rightarrow> (nat \<Rightarrow> 'd \<Rightarrow> bytes list \<Rightarrow> dline list \<Rightarrow> dline list \<Rightarrow> 'd \<Rightarrow> bool) \<Rightarrow> nat
     \<Rightarrow> ('d \<Rightarrow> 'a \<Rightarrow> (error + 'a \<times> 'd) option) \<Rightarrow> 'a \<Rightarrow> dline \<Rightarrow> 'a \<Rightarrow> bool" where
  "consumes D line n step x l y = (case l of Line nm as sub \<Rightarrow>
     \<forall>d ls d'. line n d as sub ls d' \<longrightarrow> dVal D d = nm \<longrightarrow> (\<exists>d1. step d x = Some (Inr (y, d1)) \<and> line n d1 [] [] ls d'))"

inductive reads ::
    "'d dispenser \<Rightarrow> (nat \<Rightarrow> 'd \<Rightarrow> bytes list \<Rightarrow> dline list \<Rightarrow> dline list \<Rightarrow> 'd \<Rightarrow> bool) \<Rightarrow> nat
     \<Rightarrow> ('d \<Rightarrow> 'a \<Rightarrow> (error + 'a \<times> 'd) option) \<Rightarrow> 'a \<Rightarrow> dline list \<Rightarrow> 'a \<Rightarrow> bool" for D line n step where
  no_line: "reads D line n step x [] x"
| a_line: "consumes D line n step x l y \<Longrightarrow> reads D line n step y ls z \<Longrightarrow> reads D line n step x (l # ls) z"

lemma reads_append: "reads D line n step x ls y \<Longrightarrow> reads D line n step y ls' z \<Longrightarrow> reads D line n step x (ls @ ls') z"
  by (induction rule: reads.induct) (auto intro: a_line)

lemma reads_one: "consumes D line n step x l y \<Longrightarrow> reads D line n step x [l] y"
  by (rule a_line [OF _ no_line])

text \<open>Settings as lines.\<close>

definition bool_text :: "bool \<Rightarrow> bytes" where
  "bool_text b = (if b then ''true'' else ''false'')"

definition str_lines :: "bytes \<Rightarrow> bytes \<Rightarrow> dline list" where
  "str_lines nm s = (if s = [] then [] else [Line nm [s] []])"

definition opt_lines :: "bytes \<Rightarrow> ('a \<Rightarrow> bytes) \<Rightarrow> 'a option \<Rightarrow> dline list" where
  "opt_lines nm pr v = (case v of None \<Rightarrow> [] | Some a \<Rightarrow> [Line nm [pr a] []])"

definition list_lines :: "bytes \<Rightarrow> bytes list \<Rightarrow> dline list" where
  "list_lines nm vs = (if vs = [] then [] else [Line nm vs []])"

lemma ParseBool_text: "ParseBool (bool_text b) = Some b"
  by (cases b) (simp_all add: ParseBool_def bool_text_def)

context dispenser_laws
begin

lemma block_loop_reads:
  "reads D line n step x ls y \<Longrightarrow> block n d ls d' \<Longrightarrow> block_loop D n step d x = Some (Inr (y, d'))"
proof (induction arbitrary: d rule: reads.induct)
  case (no_line x)
  then show ?case by (simp add: block_loop.simps block_end)
next
  case (a_line x l y ls z)
  obtain nm as sub where l: "l = Line nm as sub" by (cases l)
  obtain d1 where d1: "dNextBlock D n d = (True, d1)" "dVal D d1 = nm" "line n d1 as sub ls d'"
    using block_line a_line.prems l by blast
  obtain d2 where d2: "step d1 x = Some (Inr (y, d2))" "line n d2 [] [] ls d'"
    using a_line.hyps(1) d1(2,3) unfolding consumes_def l by fastforce
  from a_line.IH [OF line_end [OF d2(2)]] show ?case by (simp add: block_loop.simps [of D n step d x] d1(1) d2(1))
qed

lemma str_line: "line n d [a] [] ls d' \<Longrightarrow> \<exists>d1. str_arg D d f = Inr (f a, d1) \<and> line n d1 [] [] ls d'"
  using arg by (fastforce simp: str_arg_def need_arg_def)

lemma num_line: "parse a = Some m \<Longrightarrow> line n d [a] [] ls d' \<Longrightarrow> \<exists>d1. num_arg D d parse f = Inr (f m, d1) \<and> line n d1 [] [] ls d'"
  using arg by (fastforce simp: num_arg_def need_arg_def)

lemma bool_line: "ParseBool a = Some b \<Longrightarrow> line n d [a] [] ls d' \<Longrightarrow> \<exists>d1. bool_arg D d f = Inr (f b, d1) \<and> line n d1 [] [] ls d'"
  using arg by (fastforce simp: bool_arg_def need_arg_def bool_val_def)

lemma flag_line: "ParseBool a = Some b \<Longrightarrow> line n d [a] [] ls d' \<Longrightarrow> \<exists>d1. flag_arg D d f = Inr (f b, d1) \<and> line n d1 [] [] ls d'"
  using arg by (fastforce simp: flag_arg_def bool_val_def)

lemma list_line: "line n d as [] ls d' \<Longrightarrow> \<exists>d1. list_args D d f = Inr (f as, d1) \<and> line n d1 [] [] ls d'"
  using remaining by (fastforce simp: list_args_def)

text \<open>The lines of a setting that is absent are none.\<close>

lemma reads_str:
  assumes "\<And>d. dVal D d = nm \<Longrightarrow> step d x = Some (str_arg D d (\<lambda>s. U (\<lambda>_. s) x))" and "U (\<lambda>_. []) x = x"
  shows "reads D line n step x (str_lines nm s) (U (\<lambda>_. s) x)"
  using assms str_line by (auto simp: str_lines_def consumes_def intro!: no_line reads_one)

lemma reads_num:
  assumes "\<And>d. dVal D d = nm \<Longrightarrow> step d x = Some (num_arg D d parse (\<lambda>m. U (\<lambda>_. Some m) x))" and "U (\<lambda>_. None) x = x"
    and "\<And>m. v = Some m \<Longrightarrow> parse (pr m) = Some m"
  shows "reads D line n step x (opt_lines nm pr v) (U (\<lambda>_. v) x)"
  using assms num_line by (cases v) (auto simp: opt_lines_def consumes_def intro!: no_line reads_one)

lemma reads_bool:
  assumes "\<And>d. dVal D d = nm \<Longrightarrow> step d x = Some (bool_arg D d (\<lambda>b. U (\<lambda>_. Some b) x)) \<or> step d x = Some (flag_arg D d (\<lambda>b. U (\<lambda>_. Some b) x))"
    and "U (\<lambda>_. None) x = x"
  shows "reads D line n step x (opt_lines nm bool_text v) (U (\<lambda>_. v) x)"
proof (cases v)
  case (Some b)
  have "consumes D line n step x (Line nm [bool_text b] []) (U (\<lambda>_. v) x)"
    unfolding consumes_def using assms(1) bool_line [OF ParseBool_text] flag_line [OF ParseBool_text] Some by fastforce
  then show ?thesis by (simp add: Some opt_lines_def reads_one)
qed (simp add: opt_lines_def assms(2) no_line)

lemma reads_list:
  assumes "\<And>d. dVal D d = nm \<Longrightarrow> step d x = Some (list_args D d (\<lambda>vs. U (\<lambda>_. vs) x))" and "U (\<lambda>_. []) x = x"
  shows "reads D line n step x (list_lines nm vs) (U (\<lambda>_. vs) x)"
  using assms list_line by (auto simp: list_lines_def consumes_def intro!: no_line reads_one)

end

end
