(* ===== verification/CaddyFileRead.thy ===== *)
theory CaddyFileRead
  imports CaddyFile
begin

text \<open>
  Configurations as lines of a Caddyfile, for a route, for the global app and for the Redis module,
  and how the parsers of \<open>CaddyFile\<close> read these lines, directive by directive, over any dispenser
  that satisfies \<open>dispenser_laws\<close>.
\<close>

section \<open>Configurations as lines\<close>

definition render_key :: "key_settings \<Rightarrow> dline list" where
  "render_key k =
     opt_lines ''include_protocol'' bool_text (kIncludeProtocol k) @
     opt_lines ''exclude_host'' bool_text (kExcludeHost k) @
     opt_lines ''exclude_query'' bool_text (kExcludeQuery k) @
     opt_lines ''preserve_query_order'' bool_text (kPreserveQueryOrder k) @
     list_lines ''included_query_params'' (kIncludedQueryParams k) @
     list_lines ''excluded_query_params'' (kExcludedQueryParams k) @
     opt_lines ''exclude_marketing_query_params'' bool_text (kExcludeMarketingQueryParams k) @
     list_lines ''included_header_names'' (kIncludedHeaderNames k) @
     list_lines ''included_cookie_names'' (kIncludedCookieNames k) @
     opt_lines ''case_insensitive_path'' bool_text (kCaseInsensitivePath k) @
     map (\<lambda>(p, vs). Line ''included_query_param_values'' (p # vs) []) (kIncludedQueryParamValues k)"

definition render_esi :: "ESIConfig \<Rightarrow> dline list" where
  "render_esi e =
     opt_lines ''enabled'' bool_text (eEnabled e) @
     opt_lines ''require_surrogate_control'' bool_text (eRequireSurrogateControl e) @
     opt_lines ''max_depth'' nat_text (eMaxDepth e) @
     str_lines ''max_timeout'' (eMaxTimeout e) @
     opt_lines ''max_concurrent_requests'' FormatInt (eMaxConcurrentRequests e) @
     opt_lines ''block_private_ips'' bool_text (eBlockPrivateIPs e) @
     list_lines ''allowed_hosts'' (eAllowedHosts e) @
     opt_lines ''allow_private_ips_for_allowed_hosts'' bool_text (eAllowPrivateIPsForAllowedHosts e) @
     str_lines ''max_response_size'' (eMaxResponseSize e) @
     opt_lines ''forward_fragment_cookies'' bool_text (eForwardFragmentCookies e) @
     opt_lines ''preserve_etag'' bool_text (ePreserveETag e) @
     str_lines ''error_marker'' (eErrorMarker e)"

definition render_timing :: "timing_settings \<Rightarrow> bytes list" where
  "render_timing st =
     (if stCookieName st \<noteq> [] then [''cookie'', stCookieName st, stCookieValue st] else [bool_text (stEnabled st = Some True)])"

definition block_lines :: "bytes \<Rightarrow> ('a \<Rightarrow> dline list) \<Rightarrow> 'a option \<Rightarrow> dline list" where
  "block_lines nm render v = (case v of None \<Rightarrow> [] | Some a \<Rightarrow> [Line nm [] (render a)])"

definition timing_lines :: "timing_settings option \<Rightarrow> dline list" where
  "timing_lines v = (case v of None \<Rightarrow> [] | Some st \<Rightarrow> [Line ''server_timing'' (render_timing st) []])"

text \<open>The storage of a configuration is a module's name and the lines of its block.\<close>

definition storage_lines :: "(bytes \<times> dline list) option \<Rightarrow> dline list" where
  "storage_lines v = (case v of None \<Rightarrow> [] | Some (name, sub) \<Rightarrow> [Line ''storage'' [name] sub])"

definition render_handler :: "(bytes \<times> dline list) option \<Rightarrow> caddy_handler \<Rightarrow> dline list" where
  "render_handler storage h =
     storage_lines storage @
     str_lines ''cache_status'' (hCacheStatus h) @
     opt_lines ''respect_client_cache_control'' bool_text (hRespectClientCacheControl h) @
     opt_lines ''auto_invalidate_mutating_methods'' bool_text (hAutoInvalidateMutatingMethods h) @
     opt_lines ''convert_head_to_get'' bool_text (hConvertHeadToGet h) @
     str_lines ''background_fetch_timeout'' (hBackgroundFetchTimeout h) @
     str_lines ''storage_timeout'' (hStorageTimeout h) @
     str_lines ''tag_header'' (hTagHeader h) @
     block_lines ''cache_key'' render_key (hCacheKey h) @
     block_lines ''esi'' render_esi (hESI h) @
     opt_lines ''use_rewritten_url'' bool_text (hUseRewrittenURL h) @
     timing_lines (hServerTiming h) @
     str_lines ''storage_compression'' (hStorageCompression h)"

definition render_app :: "(bytes \<times> dline list) option \<Rightarrow> App \<Rightarrow> dline list" where
  "render_app storage a =
     storage_lines storage @
     str_lines ''cache_status'' (aCacheStatus a) @
     opt_lines ''respect_client_cache_control'' bool_text (aRespectClientCacheControl a) @
     opt_lines ''auto_invalidate_mutating_methods'' bool_text (aAutoInvalidateMutatingMethods a) @
     opt_lines ''convert_head_to_get'' bool_text (aConvertHeadToGet a) @
     str_lines ''background_fetch_timeout'' (aBackgroundFetchTimeout a) @
     str_lines ''storage_timeout'' (aStorageTimeout a) @
     block_lines ''cache_key'' render_key (aCacheKey a) @
     block_lines ''esi'' render_esi (aESI a) @
     opt_lines ''use_rewritten_url'' bool_text (aUseRewrittenURL a) @
     timing_lines (aServerTiming a) @
     str_lines ''storage_compression'' (aStorageCompression a)"

text \<open>The settings that a Caddyfile can express.\<close>

definition key_expressible :: "key_settings \<Rightarrow> bool" where
  "key_expressible k \<longleftrightarrow>
     distinct (map fst (kIncludedQueryParamValues k)) \<and> (\<forall>(p, vs) \<in> set (kIncludedQueryParamValues k). vs \<noteq> [])"

definition esi_expressible :: "ESIConfig \<Rightarrow> bool" where
  "esi_expressible e \<longleftrightarrow>
     (case eMaxDepth e of None \<Rightarrow> True | Some n \<Rightarrow> n < 2 ^ 32) \<and>
     (case eMaxConcurrentRequests e of None \<Rightarrow> True | Some n \<Rightarrow> 0 \<le> n \<and> n \<le> max_int64)"

definition timing_expressible :: "timing_settings \<Rightarrow> bool" where
  "timing_expressible st \<longleftrightarrow>
     stEnabled st \<noteq> None \<and> (if stCookieName st = [] then stCookieValue st = [] else stEnabled st = Some True)"

text \<open>The handlers that a Caddyfile can express: without the fields of \<^verbatim>\<open>Provision\<close>.\<close>

definition handler_expressible :: "caddy_handler \<Rightarrow> bool" where
  "handler_expressible h \<longleftrightarrow>
     (\<forall>k. hCacheKey h = Some k \<longrightarrow> key_expressible k) \<and> (\<forall>e. hESI h = Some e \<longrightarrow> esi_expressible e) \<and>
     (\<forall>st. hServerTiming h = Some st \<longrightarrow> timing_expressible st) \<and>
     hInstance h = None \<and> hId h = [] \<and> \<not> useRewrittenURL h"

definition app_expressible :: "App \<Rightarrow> bool" where
  "app_expressible a \<longleftrightarrow>
     (\<forall>k. aCacheKey a = Some k \<longrightarrow> key_expressible k) \<and> (\<forall>e. aESI a = Some e \<longrightarrow> esi_expressible e) \<and>
     (\<forall>st. aServerTiming a = Some st \<longrightarrow> timing_expressible st) \<and> aStorageMod a = None"

definition render_redis :: "redis_module \<Rightarrow> dline list" where
  "render_redis r =
     str_lines ''url'' (mURL r) @
     list_lines ''address'' (mAddress r) @
     str_lines ''key_prefix'' (mKeyPrefix r) @
     str_lines ''username'' (mUsername r) @
     str_lines ''password'' (mPassword r) @
     opt_lines ''db'' FormatInt (if mdbSet r then Some (mDB r) else None) @
     opt_lines ''pipeline_multiplex'' FormatInt (if mPipelineMultiplex r \<noteq> 0 then Some (mPipelineMultiplex r) else None)"

definition zero_redis :: redis_module where
  "zero_redis = \<lparr>mURL = [], mAddress = [], mKeyPrefix = [], mUsername = [], mPassword = [], mDB = 0, mPipelineMultiplex = 0,
     mdbSet = False\<rparr>"

definition redis_expressible :: "redis_module \<Rightarrow> bool" where
  "redis_expressible r \<longleftrightarrow> (\<forall>a \<in> set (mAddress r). split_addresses a = [a]) \<and>
     (if mdbSet r then 0 \<le> mDB r \<and> mDB r \<le> max_int64 else mDB r = 0) \<and>
     0 \<le> mPipelineMultiplex r \<and> mPipelineMultiplex r \<le> max_int64"

text \<open>A storage module reads its own block.\<close>

definition module_reads ::
    "(nat \<Rightarrow> 'd \<Rightarrow> bytes list \<Rightarrow> dline list \<Rightarrow> dline list \<Rightarrow> 'd \<Rightarrow> bool) \<Rightarrow> 'd modules \<Rightarrow> bytes \<times> dline list \<Rightarrow> bytes \<Rightarrow> bool" where
  "module_reads line M m raw \<longleftrightarrow> GetModule M (''titip.storage.'' @ fst m) \<and>
     (\<forall>d ls d'. line 0 d [] (snd m) ls d' \<longrightarrow> (\<exists>d1. UnmarshalModule M d (fst m) = Inr (raw, d1) \<and> line 0 d1 [] [] ls d'))"

section \<open>Reading the lines\<close>

lemma reads_to: "reads D line n step x ls z \<Longrightarrow> z = y \<Longrightarrow> reads D line n step x ls y"
  by simp

lemma update_absent: "p \<notin> fst ` set m \<Longrightarrow> AList.update p v m = m @ [(p, v)]"
  by (induction m) auto

lemma ParseUint_nat_text: "n < 2 ^ bits \<Longrightarrow> ParseUint (nat_text n) bits = Some n"
  by (simp add: ParseUint_def nat_text_digits digits_value_nat_text)

lemma concat_singletons: "(\<And>a. a \<in> set vs \<Longrightarrow> f a = [a]) \<Longrightarrow> concat (map f vs) = vs"
  by (induction vs) auto

context dispenser_laws
begin

abbreviation key_step :: "'d \<Rightarrow> key_settings \<Rightarrow> (error + key_settings \<times> 'd) option" where
  "key_step d k \<equiv> Some (key_directive D d k)"

lemma key_reads:
  "kIncludeProtocol x = None \<Longrightarrow>
     reads D line n key_step x (opt_lines ''include_protocol'' bool_text b) (x\<lparr>kIncludeProtocol := b\<rparr>)"
  "kExcludeHost x = None \<Longrightarrow> reads D line n key_step x (opt_lines ''exclude_host'' bool_text b) (x\<lparr>kExcludeHost := b\<rparr>)"
  "kExcludeQuery x = None \<Longrightarrow> reads D line n key_step x (opt_lines ''exclude_query'' bool_text b) (x\<lparr>kExcludeQuery := b\<rparr>)"
  "kPreserveQueryOrder x = None \<Longrightarrow>
     reads D line n key_step x (opt_lines ''preserve_query_order'' bool_text b) (x\<lparr>kPreserveQueryOrder := b\<rparr>)"
  "kExcludeMarketingQueryParams x = None \<Longrightarrow>
     reads D line n key_step x (opt_lines ''exclude_marketing_query_params'' bool_text b) (x\<lparr>kExcludeMarketingQueryParams := b\<rparr>)"
  "kCaseInsensitivePath x = None \<Longrightarrow>
     reads D line n key_step x (opt_lines ''case_insensitive_path'' bool_text b) (x\<lparr>kCaseInsensitivePath := b\<rparr>)"
  "kIncludedQueryParams x = [] \<Longrightarrow>
     reads D line n key_step x (list_lines ''included_query_params'' vs) (x\<lparr>kIncludedQueryParams := vs\<rparr>)"
  "kExcludedQueryParams x = [] \<Longrightarrow>
     reads D line n key_step x (list_lines ''excluded_query_params'' vs) (x\<lparr>kExcludedQueryParams := vs\<rparr>)"
  "kIncludedHeaderNames x = [] \<Longrightarrow>
     reads D line n key_step x (list_lines ''included_header_names'' vs) (x\<lparr>kIncludedHeaderNames := vs\<rparr>)"
  "kIncludedCookieNames x = [] \<Longrightarrow>
     reads D line n key_step x (list_lines ''included_cookie_names'' vs) (x\<lparr>kIncludedCookieNames := vs\<rparr>)"
  by (rule reads_bool reads_list; simp add: key_directive_def)+

lemma key_values_line:
  assumes "p \<notin> fst ` set (kIncludedQueryParamValues x)" and "vs \<noteq> []"
  shows "consumes D line n key_step x (Line ''included_query_param_values'' (p # vs) [])
     (x\<lparr>kIncludedQueryParamValues := kIncludedQueryParamValues x @ [(p, vs)]\<rparr>)"
proof -
  have none: "map_of (kIncludedQueryParamValues x) p = None" using assms(1) by (simp add: map_of_eq_None_iff)
  have "\<exists>d1. key_step d x = Some (Inr (x\<lparr>kIncludedQueryParamValues := kIncludedQueryParamValues x @ [(p, vs)]\<rparr>, d1)) \<and>
      line n d1 [] [] ls d'"
    if l: "line n d (p # vs) [] ls d'" and v: "dVal D d = ''included_query_param_values''" for d ls d'
  proof -
    obtain d1 where d1: "dNextArg D d = (True, d1)" "dVal D d1 = p" "line n d1 vs [] ls d'" using arg [OF l] by blast
    obtain d2 where d2: "dRemainingArgs D d1 = (vs, d2)" "line n d2 [] [] ls d'" using remaining [OF d1(3)] by blast
    show ?thesis
      by (simp add: key_directive_def v need_arg_def d1(1,2) d2 none assms(2) update_absent [OF assms(1)])
  qed
  then show ?thesis by (simp add: consumes_def)
qed

lemma key_values_read:
  assumes "distinct (map fst m)" and "\<forall>(p, vs) \<in> set m. vs \<noteq> []" and "fst ` set m \<inter> fst ` set (kIncludedQueryParamValues x) = {}"
  shows "reads D line n key_step x (map (\<lambda>(p, vs). Line ''included_query_param_values'' (p # vs) []) m)
     (x\<lparr>kIncludedQueryParamValues := kIncludedQueryParamValues x @ m\<rparr>)"
  using assms
proof (induction m arbitrary: x)
  case Nil
  then show ?case by (simp add: no_line)
next
  case (Cons a m)
  obtain p vs where a: "a = (p, vs)" by force
  have "consumes D line n key_step x (Line ''included_query_param_values'' (p # vs) [])
      (x\<lparr>kIncludedQueryParamValues := kIncludedQueryParamValues x @ [(p, vs)]\<rparr>)"
    using Cons.prems(2,3) by (intro key_values_line) (auto simp: a)
  moreover have "reads D line n key_step (x\<lparr>kIncludedQueryParamValues := kIncludedQueryParamValues x @ [(p, vs)]\<rparr>)
      (map (\<lambda>(p, vs). Line ''included_query_param_values'' (p # vs) []) m)
      (x\<lparr>kIncludedQueryParamValues := kIncludedQueryParamValues x @ a # m\<rparr>)"
    using Cons.prems by (intro reads_to [OF Cons.IH]) (auto simp: a)
  ultimately show ?case by (simp add: a a_line)
qed

lemma key_block: "key_expressible k \<Longrightarrow> reads D line n key_step zero_key (render_key k) k"
  unfolding render_key_def key_expressible_def
  apply (rule reads_to)
   apply (rule reads_append key_reads key_values_read | simp add: zero_key_def)+
  done

abbreviation esi_step :: "'d \<Rightarrow> ESIConfig \<Rightarrow> (error + ESIConfig \<times> 'd) option" where
  "esi_step d e \<equiv> Some (esi_directive D d e)"

lemma esi_reads:
  "eEnabled x = None \<Longrightarrow> reads D line n esi_step x (opt_lines ''enabled'' bool_text b) (x\<lparr>eEnabled := b\<rparr>)"
  "eRequireSurrogateControl x = None \<Longrightarrow>
     reads D line n esi_step x (opt_lines ''require_surrogate_control'' bool_text b) (x\<lparr>eRequireSurrogateControl := b\<rparr>)"
  "eBlockPrivateIPs x = None \<Longrightarrow>
     reads D line n esi_step x (opt_lines ''block_private_ips'' bool_text b) (x\<lparr>eBlockPrivateIPs := b\<rparr>)"
  "eAllowPrivateIPsForAllowedHosts x = None \<Longrightarrow>
     reads D line n esi_step x (opt_lines ''allow_private_ips_for_allowed_hosts'' bool_text b)
       (x\<lparr>eAllowPrivateIPsForAllowedHosts := b\<rparr>)"
  "eForwardFragmentCookies x = None \<Longrightarrow>
     reads D line n esi_step x (opt_lines ''forward_fragment_cookies'' bool_text b) (x\<lparr>eForwardFragmentCookies := b\<rparr>)"
  "ePreserveETag x = None \<Longrightarrow> reads D line n esi_step x (opt_lines ''preserve_etag'' bool_text b) (x\<lparr>ePreserveETag := b\<rparr>)"
  "eMaxTimeout x = [] \<Longrightarrow> reads D line n esi_step x (str_lines ''max_timeout'' s) (x\<lparr>eMaxTimeout := s\<rparr>)"
  "eMaxResponseSize x = [] \<Longrightarrow> reads D line n esi_step x (str_lines ''max_response_size'' s) (x\<lparr>eMaxResponseSize := s\<rparr>)"
  "eErrorMarker x = [] \<Longrightarrow> reads D line n esi_step x (str_lines ''error_marker'' s) (x\<lparr>eErrorMarker := s\<rparr>)"
  "eAllowedHosts x = [] \<Longrightarrow> reads D line n esi_step x (list_lines ''allowed_hosts'' vs) (x\<lparr>eAllowedHosts := vs\<rparr>)"
  by (rule reads_bool reads_str reads_list; simp add: esi_directive_def)+

lemma esi_depth_reads:
  "eMaxDepth x = None \<Longrightarrow> (\<And>m. v = Some m \<Longrightarrow> m < 2 ^ 32) \<Longrightarrow>
     reads D line n esi_step x (opt_lines ''max_depth'' nat_text v) (x\<lparr>eMaxDepth := v\<rparr>)"
  by (rule reads_num [where parse = "\<lambda>s. ParseUint s 32"]; simp add: esi_directive_def ParseUint_nat_text)

lemma esi_requests_reads:
  "eMaxConcurrentRequests x = None \<Longrightarrow> (\<And>m. v = Some m \<Longrightarrow> 0 \<le> m \<and> m \<le> max_int64) \<Longrightarrow>
     reads D line n esi_step x (opt_lines ''max_concurrent_requests'' FormatInt v) (x\<lparr>eMaxConcurrentRequests := v\<rparr>)"
  by (rule reads_num [where parse = ParseInt]; simp add: esi_directive_def ParseInt_FormatInt)

lemma esi_block: "esi_expressible e \<Longrightarrow> reads D line n esi_step zero_esi (render_esi e) e"
  unfolding render_esi_def esi_expressible_def
  apply (rule reads_to)
   apply (rule reads_append esi_reads esi_depth_reads esi_requests_reads | simp add: zero_esi_def)+
  done

lemma sub_block_reads:
  assumes r: "reads D line 1 (\<lambda>d x. Some (sub d x)) x ls y" and s: "\<And>d. dVal D d = nm \<Longrightarrow> step d z = sub_block D sub d x f"
  shows "consumes D line 0 step z (Line nm [] ls) (f y)"
proof -
  have "\<exists>d1. step d z = Some (Inr (f y, d1)) \<and> line 0 d1 [] [] ms d'" if l: "line 0 d [] ls ms d'" and v: "dVal D d = nm" for d ms d'
  proof -
    obtain d1 where d1: "block 1 d ls d1" "line 0 d1 [] [] ms d'" using enter [OF l] by auto
    from block_loop_reads [OF r d1(1)] d1(2) show ?thesis by (simp add: s [OF v] sub_block_def)
  qed
  then show ?thesis by (simp add: consumes_def)
qed

lemma reads_block:
  assumes "\<And>a. v = Some a \<Longrightarrow> reads D line 1 (\<lambda>d x. Some (sub d x)) zero (render a) a"
    and "\<And>d. dVal D d = nm \<Longrightarrow> step d x = sub_block D sub d zero (\<lambda>a. U (\<lambda>_. Some a) x)" and "U (\<lambda>_. None) x = x"
  shows "reads D line 0 step x (block_lines nm render v) (U (\<lambda>_. v) x)"
proof (cases v)
  case (Some a)
  have "consumes D line 0 step x (Line nm [] (render a)) (U (\<lambda>_. Some a) x)"
    by (rule sub_block_reads [OF assms(1) [OF Some], where f = "\<lambda>a. U (\<lambda>_. Some a) x"]) (rule assms(2))
  then show ?thesis by (simp add: Some block_lines_def reads_one)
qed (simp add: block_lines_def assms(3) no_line)

lemma timing_line:
  assumes st: "timing_expressible st" and l: "line n d (render_timing st) [] ls d'"
  shows "\<exists>d1. timing_directive D d = Inr (st, d1) \<and> line n d1 [] [] ls d'"
proof (cases "stCookieName st = []")
  case True
  have "line n d [bool_text (stEnabled st = Some True)] [] ls d'" using l True by (simp add: render_timing_def)
  from arg [OF this] obtain d1 where d1: "dNextArg D d = (True, d1)" "dVal D d1 = bool_text (stEnabled st = Some True)"
      "line n d1 [] [] ls d'" by blast
  have "bool_text b \<noteq> ''cookie''" for b by (simp add: bool_text_def)
  moreover have "st = \<lparr>stEnabled = Some (stEnabled st = Some True), stCookieName = [], stCookieValue = []\<rparr>"
    using st True by (cases st) (auto simp: timing_expressible_def)
  ultimately show ?thesis using d1 by (simp add: timing_directive_def bool_val_def ParseBool_text)
next
  case False
  have "line n d [''cookie'', stCookieName st, stCookieValue st] [] ls d'" using l False by (simp add: render_timing_def)
  from arg [OF this] obtain d1 where d1: "dNextArg D d = (True, d1)" "dVal D d1 = ''cookie''"
      "line n d1 [stCookieName st, stCookieValue st] [] ls d'" by blast
  from arg [OF d1(3)] obtain d2 where d2: "dNextArg D d1 = (True, d2)" "dVal D d2 = stCookieName st"
      "line n d2 [stCookieValue st] [] ls d'" by blast
  from arg [OF d2(3)] obtain d3 where d3: "dNextArg D d2 = (True, d3)" "dVal D d3 = stCookieValue st" "line n d3 [] [] ls d'" by blast
  have "st = \<lparr>stEnabled = Some True, stCookieName = stCookieName st, stCookieValue = stCookieValue st\<rparr>"
    using st False by (cases st) (auto simp: timing_expressible_def)
  then show ?thesis using d1 d2 d3 by (simp add: timing_directive_def)
qed

lemma reads_timing:
  assumes "\<And>st. v = Some st \<Longrightarrow> timing_expressible st"
    and "\<And>d. dVal D d = ''server_timing'' \<Longrightarrow>
      step d x = Some (map_sum (\<lambda>e. e) (\<lambda>(st, d1). (U (\<lambda>_. Some st) x, d1)) (timing_directive D d))"
    and "U (\<lambda>_. None) x = x"
  shows "reads D line n step x (timing_lines v) (U (\<lambda>_. v) x)"
proof (cases v)
  case (Some st)
  have "consumes D line n step x (Line ''server_timing'' (render_timing st) []) (U (\<lambda>_. v) x)"
    unfolding consumes_def using assms(2) timing_line [OF assms(1) [OF Some]] Some by fastforce
  then show ?thesis by (simp add: Some timing_lines_def reads_one)
qed (simp add: timing_lines_def assms(3) no_line)

lemma reads_storage:
  assumes "case v of None \<Rightarrow> raw = [] | Some m \<Rightarrow> module_reads line M m raw"
    and "\<And>d. dVal D d = ''storage'' \<Longrightarrow>
      step d x = Some (map_sum (\<lambda>e. e) (\<lambda>(raw, d1). (U (\<lambda>_. raw) x, d1)) (storage_directive D M d))"
    and "U (\<lambda>_. []) x = x"
  shows "reads D line 0 step x (storage_lines v) (U (\<lambda>_. raw) x)"
proof (cases v)
  case (Some m)
  obtain name sub where m: "m = (name, sub)" by force
  have got: "GetModule M (''titip.storage.'' @ name)"
    and unm: "line 0 d [] sub ls d' \<Longrightarrow> \<exists>d1. UnmarshalModule M d name = Inr (raw, d1) \<and> line 0 d1 [] [] ls d'" for d ls d'
    using assms(1) by (simp_all add: Some m module_reads_def)
  have "\<exists>d1. step d x = Some (Inr (U (\<lambda>_. raw) x, d1)) \<and> line 0 d1 [] [] ls d'"
    if l: "line 0 d [name] sub ls d'" and v: "dVal D d = ''storage''" for d ls d'
  proof -
    obtain d1 where d1: "dNextArg D d = (True, d1)" "dVal D d1 = name" "line 0 d1 [] sub ls d'" using arg [OF l] by blast
    obtain d2 where d2: "UnmarshalModule M d1 name = Inr (raw, d2)" "line 0 d2 [] [] ls d'" using unm [OF d1(3)] by blast
    show ?thesis using got by (simp add: assms(2) [OF v] storage_directive_def need_arg_def d1(1,2) d2)
  qed
  then have "consumes D line 0 step x (Line ''storage'' [name] sub) (U (\<lambda>_. raw) x)" by (simp add: consumes_def)
  then show ?thesis by (simp add: Some m storage_lines_def reads_one)
next
  case None
  then show ?thesis using assms(1,3) by (simp add: storage_lines_def no_line)
qed

section \<open>A route\<close>

lemma handler_reads:
  "hCacheStatus x = [] \<Longrightarrow> reads D line 0 (handler_directive D M) x (str_lines ''cache_status'' s) (x\<lparr>hCacheStatus := s\<rparr>)"
  "hBackgroundFetchTimeout x = [] \<Longrightarrow>
     reads D line 0 (handler_directive D M) x (str_lines ''background_fetch_timeout'' s) (x\<lparr>hBackgroundFetchTimeout := s\<rparr>)"
  "hStorageTimeout x = [] \<Longrightarrow> reads D line 0 (handler_directive D M) x (str_lines ''storage_timeout'' s) (x\<lparr>hStorageTimeout := s\<rparr>)"
  "hTagHeader x = [] \<Longrightarrow> reads D line 0 (handler_directive D M) x (str_lines ''tag_header'' s) (x\<lparr>hTagHeader := s\<rparr>)"
  "hStorageCompression x = [] \<Longrightarrow>
     reads D line 0 (handler_directive D M) x (str_lines ''storage_compression'' s) (x\<lparr>hStorageCompression := s\<rparr>)"
  "hRespectClientCacheControl x = None \<Longrightarrow>
     reads D line 0 (handler_directive D M) x (opt_lines ''respect_client_cache_control'' bool_text b)
       (x\<lparr>hRespectClientCacheControl := b\<rparr>)"
  "hAutoInvalidateMutatingMethods x = None \<Longrightarrow>
     reads D line 0 (handler_directive D M) x (opt_lines ''auto_invalidate_mutating_methods'' bool_text b)
       (x\<lparr>hAutoInvalidateMutatingMethods := b\<rparr>)"
  "hConvertHeadToGet x = None \<Longrightarrow>
     reads D line 0 (handler_directive D M) x (opt_lines ''convert_head_to_get'' bool_text b) (x\<lparr>hConvertHeadToGet := b\<rparr>)"
  "hUseRewrittenURL x = None \<Longrightarrow>
     reads D line 0 (handler_directive D M) x (opt_lines ''use_rewritten_url'' bool_text b) (x\<lparr>hUseRewrittenURL := b\<rparr>)"
  by (rule reads_bool reads_str; simp add: handler_directive_def)+

lemma handler_key_reads:
  "hCacheKey x = None \<Longrightarrow> (\<And>k. v = Some k \<Longrightarrow> key_expressible k) \<Longrightarrow>
     reads D line 0 (handler_directive D M) x (block_lines ''cache_key'' render_key v) (x\<lparr>hCacheKey := v\<rparr>)"
  by (rule reads_block [where sub = "key_directive D" and zero = zero_key]; simp add: handler_directive_def set_opt_def key_block)

lemma handler_esi_reads:
  "hESI x = None \<Longrightarrow> (\<And>e. v = Some e \<Longrightarrow> esi_expressible e) \<Longrightarrow>
     reads D line 0 (handler_directive D M) x (block_lines ''esi'' render_esi v) (x\<lparr>hESI := v\<rparr>)"
  by (rule reads_block [where sub = "esi_directive D" and zero = zero_esi]; simp add: handler_directive_def set_opt_def esi_block)

lemma handler_timing_reads:
  "hServerTiming x = None \<Longrightarrow> (\<And>st. v = Some st \<Longrightarrow> timing_expressible st) \<Longrightarrow>
     reads D line 0 (handler_directive D M) x (timing_lines v) (x\<lparr>hServerTiming := v\<rparr>)"
  by (rule reads_timing; simp add: handler_directive_def)

lemma handler_storage_reads:
  "hStorageRaw x = [] \<Longrightarrow> case v of None \<Rightarrow> raw = [] | Some m \<Rightarrow> module_reads line M m raw \<Longrightarrow>
     reads D line 0 (handler_directive D M) x (storage_lines v) (x\<lparr>hStorageRaw := raw\<rparr>)"
  by (rule reads_storage [where M = M]; simp add: handler_directive_def)

lemma handler_block:
  assumes "handler_expressible h" and "case storage of None \<Rightarrow> hStorageRaw h = [] | Some m \<Rightarrow> module_reads line M m (hStorageRaw h)"
  shows "reads D line 0 (handler_directive D M) zero_handler (render_handler storage h) h"
  using assms unfolding render_handler_def handler_expressible_def
  apply -
  apply (rule reads_to)
   apply (rule reads_append handler_reads handler_key_reads handler_esi_reads handler_timing_reads handler_storage_reads
      | simp add: zero_handler_def)+
  done

section \<open>The global app\<close>

lemma app_reads:
  "aCacheStatus x = [] \<Longrightarrow> reads D line 0 (app_directive D M) x (str_lines ''cache_status'' s) (x\<lparr>aCacheStatus := s\<rparr>)"
  "aBackgroundFetchTimeout x = [] \<Longrightarrow>
     reads D line 0 (app_directive D M) x (str_lines ''background_fetch_timeout'' s) (x\<lparr>aBackgroundFetchTimeout := s\<rparr>)"
  "aStorageTimeout x = [] \<Longrightarrow> reads D line 0 (app_directive D M) x (str_lines ''storage_timeout'' s) (x\<lparr>aStorageTimeout := s\<rparr>)"
  "aStorageCompression x = [] \<Longrightarrow>
     reads D line 0 (app_directive D M) x (str_lines ''storage_compression'' s) (x\<lparr>aStorageCompression := s\<rparr>)"
  "aRespectClientCacheControl x = None \<Longrightarrow>
     reads D line 0 (app_directive D M) x (opt_lines ''respect_client_cache_control'' bool_text b)
       (x\<lparr>aRespectClientCacheControl := b\<rparr>)"
  "aAutoInvalidateMutatingMethods x = None \<Longrightarrow>
     reads D line 0 (app_directive D M) x (opt_lines ''auto_invalidate_mutating_methods'' bool_text b)
       (x\<lparr>aAutoInvalidateMutatingMethods := b\<rparr>)"
  "aConvertHeadToGet x = None \<Longrightarrow>
     reads D line 0 (app_directive D M) x (opt_lines ''convert_head_to_get'' bool_text b) (x\<lparr>aConvertHeadToGet := b\<rparr>)"
  "aUseRewrittenURL x = None \<Longrightarrow>
     reads D line 0 (app_directive D M) x (opt_lines ''use_rewritten_url'' bool_text b) (x\<lparr>aUseRewrittenURL := b\<rparr>)"
  by (rule reads_bool reads_str; simp add: app_directive_def)+

lemma app_key_reads:
  "aCacheKey x = None \<Longrightarrow> (\<And>k. v = Some k \<Longrightarrow> key_expressible k) \<Longrightarrow>
     reads D line 0 (app_directive D M) x (block_lines ''cache_key'' render_key v) (x\<lparr>aCacheKey := v\<rparr>)"
  by (rule reads_block [where sub = "key_directive D" and zero = zero_key]; simp add: app_directive_def key_block)

lemma app_esi_reads:
  "aESI x = None \<Longrightarrow> (\<And>e. v = Some e \<Longrightarrow> esi_expressible e) \<Longrightarrow>
     reads D line 0 (app_directive D M) x (block_lines ''esi'' render_esi v) (x\<lparr>aESI := v\<rparr>)"
  by (rule reads_block [where sub = "esi_directive D" and zero = zero_esi]; simp add: app_directive_def esi_block)

lemma app_timing_reads:
  "aServerTiming x = None \<Longrightarrow> (\<And>st. v = Some st \<Longrightarrow> timing_expressible st) \<Longrightarrow>
     reads D line 0 (app_directive D M) x (timing_lines v) (x\<lparr>aServerTiming := v\<rparr>)"
  by (rule reads_timing; simp add: app_directive_def)

lemma app_storage_reads:
  "aStorageRaw x = [] \<Longrightarrow> case v of None \<Rightarrow> raw = [] | Some m \<Rightarrow> module_reads line M m raw \<Longrightarrow>
     reads D line 0 (app_directive D M) x (storage_lines v) (x\<lparr>aStorageRaw := raw\<rparr>)"
  by (rule reads_storage [where M = M]; simp add: app_directive_def)

lemma app_block:
  assumes "app_expressible a" and "case storage of None \<Rightarrow> aStorageRaw a = [] | Some m \<Rightarrow> module_reads line M m (aStorageRaw a)"
  shows "reads D line 0 (app_directive D M) no_app (render_app storage a) a"
  using assms unfolding render_app_def app_expressible_def
  apply -
  apply (rule reads_to)
   apply (rule reads_append app_reads app_key_reads app_esi_reads app_timing_reads app_storage_reads
      | simp add: no_app_def)+
  done

section \<open>The Redis module\<close>

abbreviation redis_step :: "'d \<Rightarrow> redis_module \<Rightarrow> (error + redis_module \<times> 'd) option" where
  "redis_step d r \<equiv> Some (redis_directive D d r)"

lemma redis_reads:
  "mKeyPrefix x = [] \<Longrightarrow> reads D line n redis_step x (str_lines ''key_prefix'' s) (x\<lparr>mKeyPrefix := s\<rparr>)"
  "mUsername x = [] \<Longrightarrow> reads D line n redis_step x (str_lines ''username'' s) (x\<lparr>mUsername := s\<rparr>)"
  "mPassword x = [] \<Longrightarrow> reads D line n redis_step x (str_lines ''password'' s) (x\<lparr>mPassword := s\<rparr>)"
  "mURL x = [] \<Longrightarrow> reads D line n redis_step x (str_lines ''url'' s) (x\<lparr>mURL := s\<rparr>)"
  by (rule reads_str; simp add: redis_directive_def str_arg_def)+

lemma redis_address_reads:
  assumes "mAddress x = []" and "\<And>a. a \<in> set vs \<Longrightarrow> split_addresses a = [a]"
  shows "reads D line n redis_step x (list_lines ''address'' vs) (x\<lparr>mAddress := vs\<rparr>)"
proof (cases "vs = []")
  case False
  have vs: "concat (map split_addresses vs) = vs" using assms(2) by (simp add: concat_singletons)
  have "consumes D line n redis_step x (Line ''address'' vs []) (x\<lparr>mAddress := vs\<rparr>)"
    unfolding consumes_def using remaining vs assms(1) False by (fastforce simp: redis_directive_def)
  then show ?thesis by (simp add: False list_lines_def reads_one)
qed (use assms(1) in \<open>cases x, simp add: list_lines_def no_line\<close>)

lemma redis_db_reads:
  assumes "mDB x = 0" "\<not> mdbSet x" and "\<And>m. v = Some m \<Longrightarrow> 0 \<le> m \<and> m \<le> max_int64"
  shows "reads D line n redis_step x (opt_lines ''db'' FormatInt v) (x\<lparr>mDB := set_opt v 0, mdbSet := (v \<noteq> None)\<rparr>)"
proof (cases v)
  case (Some m)
  have "consumes D line n redis_step x (Line ''db'' [FormatInt m] []) (x\<lparr>mDB := m, mdbSet := True\<rparr>)"
    unfolding consumes_def using arg ParseInt_FormatInt assms(3) [OF Some]
    by (fastforce simp: redis_directive_def need_arg_def)
  then show ?thesis by (simp add: Some set_opt_def opt_lines_def reads_one)
qed (use assms(1,2) in \<open>cases x, simp add: set_opt_def opt_lines_def no_line\<close>)

lemma redis_pipeline_reads:
  assumes "mPipelineMultiplex x = 0" and "\<And>m. v = Some m \<Longrightarrow> 0 \<le> m \<and> m \<le> max_int64"
  shows "reads D line n redis_step x (opt_lines ''pipeline_multiplex'' FormatInt v) (x\<lparr>mPipelineMultiplex := set_opt v 0\<rparr>)"
proof (cases v)
  case (Some m)
  have "consumes D line n redis_step x (Line ''pipeline_multiplex'' [FormatInt m] []) (x\<lparr>mPipelineMultiplex := m\<rparr>)"
    unfolding consumes_def using arg ParseInt_FormatInt assms(2) [OF Some]
    by (fastforce simp: redis_directive_def need_arg_def)
  then show ?thesis by (simp add: Some set_opt_def opt_lines_def reads_one)
qed (use assms(1) in \<open>cases x, simp add: set_opt_def opt_lines_def no_line\<close>)

lemma redis_block: "redis_expressible r \<Longrightarrow> reads D line n redis_step zero_redis (render_redis r) r"
  unfolding render_redis_def redis_expressible_def
  apply (rule reads_to)
   apply (rule reads_append redis_reads redis_address_reads redis_db_reads redis_pipeline_reads
      | simp add: zero_redis_def set_opt_def split: if_splits)+
  done

section \<open>Segments\<close>

lemma one_segment:
  assumes "reads D line 0 step x ls y" and "dNext D d = (True, d1)" and "block 0 d1 ls d2" and "fst (dNext D d2) = False"
  shows "segment_loop D step d x = Some (Inr y)"
proof -
  obtain d3 where d3: "dNext D d2 = (False, d3)" using assms(4) by (cases "dNext D d2") auto
  have "segment_loop D step d2 y = Some (Inr y)" by (simp add: segment_loop.simps d3)
  then show ?thesis by (simp add: segment_loop.simps [of D step d x] assms(2) block_loop_reads [OF assms(1,3)])
qed

end

end
