(* ===== verification/CaddyFileProps.thy ===== *)
theory CaddyFileProps
  imports CaddyFileRead RedisReference
begin

text \<open>
  A configuration written as a Caddyfile is read back as it was, for a route, for the global app
  and for the Redis module. A reference dispenser over lines shows that \<open>dispenser_laws\<close> can hold.
\<close>

section \<open>A reference dispenser\<close>

text \<open>
  A dispenser over lines: the segments to come, the current token, what is left of its line, and
  the lines to come of every open block, innermost first.
\<close>

record line_reader =
  lToken :: bytes
  lArgs :: "bytes list"
  lSub :: "dline list"
  lOpen :: "dline list list"
  lFile :: "dline list"

definition at_line :: "dline \<Rightarrow> dline list list \<Rightarrow> line_reader \<Rightarrow> line_reader" where
  "at_line l st d = (case l of Line nm as sub \<Rightarrow> d\<lparr>lToken := nm, lArgs := as, lSub := sub, lOpen := st\<rparr>)"

definition closed_block :: "dline list list \<Rightarrow> line_reader \<Rightarrow> line_reader" where
  "closed_block st d = d\<lparr>lToken := ''}'', lArgs := [], lSub := [], lOpen := st\<rparr>"

definition lines_Next :: "line_reader \<Rightarrow> bool \<times> line_reader" where
  "lines_Next d = (case lFile d of [] \<Rightarrow> (False, d) | l # ls \<Rightarrow> (True, at_line l [] (d\<lparr>lFile := ls\<rparr>)))"

definition lines_NextBlock :: "nat \<Rightarrow> line_reader \<Rightarrow> bool \<times> line_reader" where
  "lines_NextBlock n d =
     (if length (lOpen d) > n then
        (case hd (lOpen d) of
           [] \<Rightarrow> (length (tl (lOpen d)) > n, closed_block (tl (lOpen d)) d)
         | l # ls \<Rightarrow> (True, at_line l (ls # tl (lOpen d)) d))
      else (case lSub d of [] \<Rightarrow> (False, d) | l # ls \<Rightarrow> (True, at_line l (ls # lOpen d) d)))"

definition lines_NextArg :: "line_reader \<Rightarrow> bool \<times> line_reader" where
  "lines_NextArg d = (case lArgs d of [] \<Rightarrow> (False, d) | a # as \<Rightarrow> (True, d\<lparr>lToken := a, lArgs := as\<rparr>))"

definition lines_dispenser :: "line_reader dispenser" where
  "lines_dispenser = \<lparr>dNext = lines_Next, dNextBlock = lines_NextBlock, dNextArg = lines_NextArg, dVal = lToken,
     dRemainingArgs = (\<lambda>d. (lArgs d, d\<lparr>lArgs := []\<rparr>)), dArgErr = (\<lambda>d. ''wrong argument count''), dErrf = (\<lambda>d m. m)\<rparr>"

definition lines_block :: "nat \<Rightarrow> line_reader \<Rightarrow> dline list \<Rightarrow> line_reader \<Rightarrow> bool" where
  "lines_block n d ls d' \<longleftrightarrow> lArgs d = [] \<and>
     ((\<exists>st. lOpen d = ls # st \<and> length st = n \<and> lSub d = [] \<and> d' = closed_block st d) \<or>
      (length (lOpen d) = n \<and> lSub d = ls \<and> d' = (if ls = [] then d else closed_block (lOpen d) d)))"

definition lines_line :: "nat \<Rightarrow> line_reader \<Rightarrow> bytes list \<Rightarrow> dline list \<Rightarrow> dline list \<Rightarrow> line_reader \<Rightarrow> bool" where
  "lines_line n d as sub ls d' \<longleftrightarrow> lArgs d = as \<and> lSub d = sub \<and> (\<exists>st. lOpen d = ls # st \<and> length st = n \<and> d' = closed_block st d)"

interpretation ld: dispenser_laws lines_dispenser lines_line lines_block
proof
  fix n d d' and ls sub :: "dline list" and nm a :: bytes and as :: "bytes list"
  show "lines_block n d [] d' \<Longrightarrow> dNextBlock lines_dispenser n d = (False, d')"
    by (auto simp: lines_block_def lines_dispenser_def lines_NextBlock_def)
  show "lines_block n d (Line nm as sub # ls) d' \<Longrightarrow>
      \<exists>d1. dNextBlock lines_dispenser n d = (True, d1) \<and> dVal lines_dispenser d1 = nm \<and> lines_line n d1 as sub ls d'"
    by (auto simp: lines_block_def lines_line_def lines_dispenser_def lines_NextBlock_def at_line_def closed_block_def)
  show "lines_line n d (a # as) sub ls d' \<Longrightarrow>
      \<exists>d1. dNextArg lines_dispenser d = (True, d1) \<and> dVal lines_dispenser d1 = a \<and> lines_line n d1 as sub ls d'"
    by (auto simp: lines_line_def lines_dispenser_def lines_NextArg_def closed_block_def)
  show "lines_line n d [] sub ls d' \<Longrightarrow> \<exists>d1. dNextArg lines_dispenser d = (False, d1) \<and> lines_line n d1 [] sub ls d'"
    by (auto simp: lines_line_def lines_dispenser_def lines_NextArg_def)
  show "lines_line n d as sub ls d' \<Longrightarrow> \<exists>d1. dRemainingArgs lines_dispenser d = (as, d1) \<and> lines_line n d1 [] sub ls d'"
    by (auto simp: lines_line_def lines_dispenser_def closed_block_def)
  show "lines_line n d [] [] ls d' \<Longrightarrow> lines_block n d ls d'" by (auto simp: lines_block_def lines_line_def)
  show "lines_line n d [] sub ls d' \<Longrightarrow> \<exists>d1. lines_block (Suc n) d sub d1 \<and> lines_line n d1 [] [] ls d'"
    by (auto simp: lines_block_def lines_line_def closed_block_def)
qed

definition start_of :: "dline \<Rightarrow> line_reader" where
  "start_of l = \<lparr>lToken = [], lArgs = [], lSub = [], lOpen = [], lFile = [l]\<rparr>"

lemma start_of_segment:
  "\<exists>d1 d2. dNext lines_dispenser (start_of (Line nm [] ls)) = (True, d1) \<and> lines_block 0 d1 ls d2 \<and> fst (dNext lines_dispenser d2) = False"
  by (simp add: start_of_def lines_dispenser_def lines_Next_def at_line_def lines_block_def closed_block_def)

text \<open>Modules over the reference dispenser: one storage module, which takes its block and has a fixed configuration.\<close>

definition lines_modules :: "bytes \<Rightarrow> line_reader modules" where
  "lines_modules raw = \<lparr>GetModule = (\<lambda>m. m = ''titip.storage.redis''), GetModules = [''titip.storage.redis''],
     UnmarshalModule = (\<lambda>d nm. Inr (raw, d\<lparr>lSub := []\<rparr>))\<rparr>"

lemma lines_module_reads: "module_reads lines_line (lines_modules raw) (''redis'', sub) raw"
  by (auto simp: module_reads_def lines_modules_def lines_line_def closed_block_def)

text \<open>A route and global options with every kind of setting, and a Redis module.\<close>

definition key_sample :: key_settings where
  "key_sample = zero_key\<lparr>kExcludeHost := Some True, kIncludedQueryParams := [''page'', ''lang''], kCaseInsensitivePath := Some False,
     kIncludedQueryParamValues := [(''sort'', [''asc'', ''desc''])]\<rparr>"

definition esi_sample :: ESIConfig where
  "esi_sample = zero_esi\<lparr>eRequireSurrogateControl := Some False, eMaxDepth := Some 5, eMaxTimeout := ''3s'',
     eMaxConcurrentRequests := Some 8, eAllowedHosts := [''example.com'']\<rparr>"

definition route_sample :: caddy_handler where
  "route_sample = zero_handler\<lparr>hStorageRaw := ''{}'', hCacheStatus := ''rfc9211'', hConvertHeadToGet := Some True, hTagHeader := ''X-Tags'',
     hCacheKey := Some key_sample, hESI := Some esi_sample, hUseRewrittenURL := Some False,
     hServerTiming := Some \<lparr>stEnabled = Some True, stCookieName = ''debug'', stCookieValue = ''1''\<rparr>\<rparr>"

definition app_sample :: App where
  "app_sample = no_app\<lparr>aStorageRaw := ''{}'', aStorageTimeout := ''2s'', aRespectClientCacheControl := Some False, aCacheKey := Some key_sample,
     aESI := Some esi_sample, aServerTiming := Some \<lparr>stEnabled = Some False, stCookieName = [], stCookieValue = []\<rparr>\<rparr>"

definition redis_sample :: redis_module where
  "redis_sample = zero_redis\<lparr>mAddress := [''10.0.0.1:6379'', ''10.0.0.2:6379''], mUsername := ''titip'', mDB := 2, mdbSet := True\<rparr>"

definition only_second_db :: "client_option \<Rightarrow> error + (bytes \<times> rentry) list redis_exec" where
  "only_second_db opt = (if SelectDB opt = 2 then Inr (client ref_storage) else Inl ''refused'')"

lemmas sample_simps = key_expressible_def esi_expressible_def timing_expressible_def key_sample_def esi_sample_def zero_key_def zero_esi_def max_int64_def

lemma route_sample_expressible: "handler_expressible route_sample"
  by (auto simp: handler_expressible_def route_sample_def zero_handler_def sample_simps)

lemma app_sample_expressible: "app_expressible app_sample"
  by (auto simp: app_expressible_def app_sample_def no_app_def sample_simps)

lemma redis_sample_expressible: "redis_expressible redis_sample"
  by code_simp

section \<open>Properties\<close>

text \<open>
  Property C23. A route's configuration written in a Caddyfile is read back as it was: every setting
  under its directive, the key and ESI settings in blocks of their own, and the storage module's
  configuration as the module read it.
\<close>

theorem caddyfile_roundtrip:
  assumes "dispenser_laws D line block"
    and "dNext D d = (True, d1)" and "block 0 d1 (render_handler storage h) d2" and "fst (dNext D d2) = False"
    and "handler_expressible h"
    and "case storage of None \<Rightarrow> hStorageRaw h = [] | Some m \<Rightarrow> module_reads line M m (hStorageRaw h)"
  shows "parseCaddyfile D M d = Some (Inr h)"
  unfolding parseCaddyfile_def UnmarshalCaddyfile_def
  by (rule dispenser_laws.one_segment [OF assms(1) dispenser_laws.handler_block [OF assms(1,5,6)] assms(2-4)])

theorem caddyfile_roundtrip_witness:
  "handler_expressible route_sample \<and> hStorageRaw route_sample = ''{}'' \<and>
   parseCaddyfile lines_dispenser (lines_modules ''{}'')
     (start_of (Line ''titip'' [] (render_handler (Some (''redis'', render_redis redis_sample)) route_sample))) =
   Some (Inr route_sample)"
proof -
  have raw: "hStorageRaw route_sample = ''{}''" by (simp add: route_sample_def)
  have "case Some (''redis'', render_redis redis_sample) of
      None \<Rightarrow> hStorageRaw route_sample = [] | Some m \<Rightarrow> module_reads lines_line (lines_modules ''{}'') m (hStorageRaw route_sample)"
    by (simp add: raw lines_module_reads)
  with start_of_segment [of "''titip''" "render_handler (Some (''redis'', render_redis redis_sample)) route_sample"] raw
  show ?thesis using caddyfile_roundtrip [OF ld.dispenser_laws_axioms _ _ _ route_sample_expressible]
    by (metis route_sample_expressible)
qed

text \<open>The global options written in a Caddyfile are read back as they were.\<close>

theorem global_options_roundtrip:
  assumes "dispenser_laws D line block"
    and "dNext D d = (True, d1)" and "block 0 d1 (render_app storage a) d2" and "fst (dNext D d2) = False"
    and "app_expressible a"
    and "case storage of None \<Rightarrow> aStorageRaw a = [] | Some m \<Rightarrow> module_reads line M m (aStorageRaw a)"
  shows "parseGlobalOption D M d = Some (Inr a)"
  unfolding parseGlobalOption_def
  by (rule dispenser_laws.one_segment [OF assms(1) dispenser_laws.app_block [OF assms(1,5,6)] assms(2-4)])

theorem global_options_roundtrip_witness:
  "app_expressible app_sample \<and> aStorageRaw app_sample = ''{}'' \<and>
   parseGlobalOption lines_dispenser (lines_modules ''{}'')
     (start_of (Line ''titip'' [] (render_app (Some (''redis'', render_redis redis_sample)) app_sample))) =
   Some (Inr app_sample)"
proof -
  have raw: "aStorageRaw app_sample = ''{}''" by (simp add: app_sample_def)
  have "case Some (''redis'', render_redis redis_sample) of
      None \<Rightarrow> aStorageRaw app_sample = [] | Some m \<Rightarrow> module_reads lines_line (lines_modules ''{}'') m (aStorageRaw app_sample)"
    by (simp add: raw lines_module_reads)
  with start_of_segment [of "''titip''" "render_app (Some (''redis'', render_redis redis_sample)) app_sample"] raw
  show ?thesis using global_options_roundtrip [OF ld.dispenser_laws_axioms _ _ _ app_sample_expressible]
    by (metis app_sample_expressible)
qed

text \<open>
  Property C24. The Redis module configured by addresses in a Caddyfile connects with exactly these
  addresses, credentials, database and number of pipelines, and its store has the configured key
  prefix, or \<^verbatim>\<open>titip:\<close> when none is configured.
\<close>

theorem redis_module_connects:
  assumes "dispenser_laws D line block"
    and "dNext D d = (True, d1)" and "block 0 d1 (render_redis r) d2" and "fst (dNext D d2) = False"
    and "redis_expressible r" and "mURL r = []" and "mAddress r \<noteq> []"
    and "newClient \<lparr>InitAddress = mAddress r, oUsername = mUsername r, oPassword = mPassword r, SelectDB = mDB r,
           oPipelineMultiplex = mPipelineMultiplex r\<rparr> = Inr c"
  shows "\<exists>m. redis_UnmarshalCaddyfile D d zero_redis = Some (Inr m) \<and>
    redis_module_Provision parseURL newClient base m =
      Inr (base\<lparr>client := c, kprefix := (if mKeyPrefix r = [] then ''titip:'' else mKeyPrefix r)\<rparr>)"
proof (intro exI conjI)
  show "redis_UnmarshalCaddyfile D d zero_redis = Some (Inr r)"
    unfolding redis_UnmarshalCaddyfile_def
    by (rule dispenser_laws.one_segment [OF assms(1) dispenser_laws.redis_block [OF assms(1,5)] assms(2-4)])
  have "concat (map split_addresses (mAddress r)) = mAddress r"
    using assms(5) by (simp add: redis_expressible_def concat_singletons)
  then have opts: "client_options parseURL r =
      Inr \<lparr>InitAddress = mAddress r, oUsername = mUsername r, oPassword = mPassword r, SelectDB = mDB r, oPipelineMultiplex = 0\<rparr>"
    using assms(6,7) by (simp add: client_options_def)
  show "redis_module_Provision parseURL newClient base r =
      Inr (base\<lparr>client := c, kprefix := (if mKeyPrefix r = [] then ''titip:'' else mKeyPrefix r)\<rparr>)"
    using assms(5,8) by (auto simp: redis_module_Provision_def opts redis_expressible_def redis_New_def WithKeyPrefix_def cmp_Or_def)
qed

theorem redis_module_connects_witness:
  "redis_expressible redis_sample \<and> mURL redis_sample = [] \<and> mAddress redis_sample \<noteq> [] \<and>
   (\<exists>m. redis_UnmarshalCaddyfile lines_dispenser (start_of (Line ''redis'' [] (render_redis redis_sample))) zero_redis = Some (Inr m) \<and>
      redis_module_Provision (\<lambda>u. None) only_second_db ref_storage m = Inr (ref_storage\<lparr>kprefix := ''titip:''\<rparr>))"
proof -
  obtain d1 d2 where seg: "dNext lines_dispenser (start_of (Line ''redis'' [] (render_redis redis_sample))) = (True, d1)"
      "lines_block 0 d1 (render_redis redis_sample) d2" "fst (dNext lines_dispenser d2) = False"
    using start_of_segment by blast
  have r: "mURL redis_sample = []" "mAddress redis_sample \<noteq> []" "mKeyPrefix redis_sample = []" "mDB redis_sample = 2"
    by (simp_all add: redis_sample_def zero_redis_def)
  have c: "only_second_db \<lparr>InitAddress = mAddress redis_sample, oUsername = mUsername redis_sample, oPassword = mPassword redis_sample,
      SelectDB = mDB redis_sample, oPipelineMultiplex = mPipelineMultiplex redis_sample\<rparr> = Inr (client ref_storage)"
    by (simp add: only_second_db_def r)
  show ?thesis
    using redis_module_connects [where parseURL = "\<lambda>u. None" and base = ref_storage and newClient = only_second_db and r = redis_sample,
        OF ld.dispenser_laws_axioms seg redis_sample_expressible r(1,2) c] redis_sample_expressible r by simp
qed

end
