(* ===== verification/ServerTiming.thy ===== *)
theory ServerTiming
  imports HandlerParts
begin

text \<open>
  Model of \<^verbatim>\<open>src/server_timing.go\<close>: when a request is measured, how the header value is assembled in a
  buffer, and the emission in \<^verbatim>\<open>emitCacheStatus\<close> of \<^verbatim>\<open>src/handler_context.go\<close>. Durations and sizes are
  \<^verbatim>\<open>int64\<close>; figures in milliseconds, KB and MB are computed in \<^verbatim>\<open>float64\<close> as the code does.
\<close>

section \<open>Floating point\<close>

text \<open>The integer nearest to a quotient, to the even one of two.\<close>

definition half_even :: "nat \<Rightarrow> nat \<Rightarrow> nat" where
  "half_even a b = (let k = a div b; r = a mod b in if 2 * r < b \<or> 2 * r = b \<and> even k then k else Suc k)"

fun bits :: "nat \<Rightarrow> nat" where
  "bits n = (if n = 0 then 0 else Suc (bits (n div 2)))"

declare bits.simps [simp del]

text \<open>
  A non-negative \<^verbatim>\<open>float64\<close> is a fraction of naturals. \<open>float64 (p, q)\<close> is the one nearest to \<open>p / q\<close>: the
  exponent that gives a mantissa of 53 bits, the mantissa rounded. The quotients here are far from
  the ends of the range of exponents.
\<close>

type_synonym float64 = "nat \<times> nat"

definition mantissa_shift :: "nat \<Rightarrow> nat \<Rightarrow> int" where
  "mantissa_shift p q =
     (let e = int (bits p) - int (bits q) - 53
      in if p * 2 ^ nat (- e) < 2 ^ 53 * (q * 2 ^ nat e) then e else e + 1)"

definition float64 :: "nat \<times> nat \<Rightarrow> float64" where
  "float64 x =
     (let (p, q) = x; e = mantissa_shift p q
      in if p = 0 then (0, 1) else (half_even (p * 2 ^ nat (- e)) (q * 2 ^ nat e) * 2 ^ nat e, 2 ^ nat (- e)))"

definition fdiv :: "float64 \<Rightarrow> nat \<Rightarrow> float64" where
  "fdiv x n = float64 (fst x, snd x * n)"

text \<open>\<^verbatim>\<open>strconv.AppendFloat(x, 'f', prec, 64)\<close>: the exact value rounded to the given number of decimals, to even.\<close>

fun pad_zeros :: "nat \<Rightarrow> bytes \<Rightarrow> bytes" where
  "pad_zeros n s = replicate (n - length s) (CHR ''0'') @ s"

definition FormatFloat :: "float64 \<Rightarrow> nat \<Rightarrow> bytes" where
  "FormatFloat x prec =
     (let n = half_even (fst x * 10 ^ prec) (snd x)
      in nat_text (n div 10 ^ prec) @ (if prec = 0 then [] else ''.'' @ pad_zeros prec (nat_text (n mod 10 ^ prec))))"

section \<open>The header\<close>

text \<open>\<^verbatim>\<open>serverTimingConfig.enabled\<close>.\<close>

definition timing_enabled :: "serverTimingConfig \<Rightarrow> Request \<Rightarrow> bool" where
  "timing_enabled cfg r \<longleftrightarrow> active cfg \<and> (cookieName cfg = [] \<or> Cookie r (cookieName cfg) = Some (cookieValue cfg))"

record serverTimingRecorder =
  tEnabled :: bool
  startNano :: int
  metaDuration :: duration
  bodyDuration :: duration
  originDuration :: duration
  storeDuration :: duration
  storeCodec :: bytes
  storeRawSize :: int
  storeCompSize :: int
  tEsiDuration :: duration
  tEsiFragments :: int

definition ms_text :: "duration \<Rightarrow> bytes" where
  "ms_text d = FormatFloat (fdiv (float64 (nat d, 1)) 1000000) 2"

definition appendTimingMetric :: "bytes \<Rightarrow> bytes \<Rightarrow> duration \<Rightarrow> bytes" where
  "appendTimingMetric buf name d =
     (if d \<le> 0 then buf else (if buf \<noteq> [] then buf @ '', '' else buf) @ name @ '';dur='' @ ms_text d)"

definition appendByteSize :: "bytes \<Rightarrow> int \<Rightarrow> bytes" where
  "appendByteSize buf sz =
     (if sz < 1024 then buf @ FormatInt sz @ ''B''
      else if sz < 1024 * 1024 then buf @ FormatFloat (fdiv (float64 (nat sz, 1)) 1024) 1 @ ''KB''
      else buf @ FormatFloat (fdiv (float64 (nat sz, 1)) (1024 * 1024)) 2 @ ''MB'')"

text \<open>The sizes of a stored body: the percentage is computed in \<^verbatim>\<open>int64\<close>.\<close>

definition append_saving :: "bytes \<Rightarrow> serverTimingRecorder \<Rightarrow> bytes" where
  "append_saving buf rec =
     (if storeCompSize rec > 0 \<and> storeCodec rec \<noteq> StorageCompressionNone then
        let buf1 = appendByteSize (buf @ '' -> '') (storeCompSize rec);
            savedPct = wrap64 (100 - quot (wrap64 (storeCompSize rec * 100)) (storeRawSize rec));
            buf2 = buf1 @ '', ''
        in (if savedPct < 0 then buf2 @ ''+'' @ FormatInt (wrap64 (- savedPct)) else buf2 @ ''-'' @ FormatInt savedPct) @ ''%''
      else buf)"

definition append_store_desc :: "bytes \<Rightarrow> serverTimingRecorder \<Rightarrow> bytes" where
  "append_store_desc buf rec =
     (if storeCodec rec \<noteq> [] then
        let buf1 = buf @ '';desc='' @ [CHR 0x22] @ storeCodec rec;
            buf2 = (if storeRawSize rec > 0
                    then append_saving (appendByteSize (buf1 @ '' ('') (storeRawSize rec)) rec @ '')'' else buf1)
        in buf2 @ [CHR 0x22]
      else buf)"

text \<open>\<^verbatim>\<open>serverTimingConfig.emit\<close>: the buffer, then the header.\<close>

definition timing_buffer :: "int \<Rightarrow> serverTimingRecorder \<Rightarrow> bytes \<Rightarrow> bytes" where
  "timing_buffer now rec status =
     (let b0 = (if status \<noteq> [] then ''titip-status;desc='' @ [CHR 0x22] @ status @ [CHR 0x22] else []);
          b1 = appendTimingMetric b0 ''titip-meta'' (metaDuration rec);
          b2 = (if bodyDuration rec > 0 then
                  let b = appendTimingMetric b1 ''titip-body'' (bodyDuration rec)
                  in if storeCodec rec \<noteq> [] \<and> storeCodec rec \<noteq> StorageCompressionNone
                     then b @ '';desc='' @ [CHR 0x22] @ storeCodec rec @ [CHR 0x22] else b
                else b1);
          b3 = appendTimingMetric b2 ''titip-origin'' (originDuration rec);
          b4 = (if storeDuration rec > 0 then append_store_desc (appendTimingMetric b3 ''titip-store'' (storeDuration rec)) rec else b3);
          b5 = (if tEsiDuration rec > 0 then
                  let b = appendTimingMetric b4 ''titip-esi'' (tEsiDuration rec)
                  in if tEsiFragments rec > 0
                     then b @ '';desc='' @ [CHR 0x22] @ FormatInt (tEsiFragments rec) @ '' fragments'' @ [CHR 0x22] else b
                else b4)
      in if startNano rec > 0 then appendTimingMetric b5 ''titip'' (wrap64 (now - startNano rec)) else b5)"

definition emit :: "int \<Rightarrow> serverTimingRecorder option \<Rightarrow> bytes \<Rightarrow> Header \<Rightarrow> Header" where
  "emit now rec status h =
     (case rec of
        None \<Rightarrow> h
      | Some rc \<Rightarrow>
          if \<not> tEnabled rc then h
          else let buf = timing_buffer now rc status in if buf \<noteq> [] then Add h ''Server-Timing'' buf else h)"

text \<open>
  \<^verbatim>\<open>emitCacheStatus\<close> of a request that may be measured. The state machine of theory \<open>Handler\<close> runs
  with the recorder off and calls \<open>emitCacheStatus\<close>, to which this reduces then.
\<close>

definition emitCacheStatus_timed ::
    "config \<Rightarrow> int \<Rightarrow> serverTimingRecorder \<Rightarrow> bytes \<Rightarrow> bytes \<Rightarrow> requestContext \<Rightarrow> requestContext" where
  "emitCacheStatus_timed cfg now rec simpleStatus rfc9211Value ctx =
     (let ctx1 = emitCacheStatus cfg simpleStatus rfc9211Value ctx
      in if tEnabled rec then on_header (emit now (Some rec) simpleStatus) ctx1 else ctx1)"

lemma emitCacheStatus_off:
  "\<not> tEnabled rec \<Longrightarrow> emitCacheStatus_timed cfg now rec simpleStatus rfc9211Value ctx = emitCacheStatus cfg simpleStatus rfc9211Value ctx"
  by (simp add: emitCacheStatus_timed_def)

section \<open>The entries of the header\<close>

definition timing_entry :: "bytes \<Rightarrow> duration \<Rightarrow> bytes \<Rightarrow> bytes list" where
  "timing_entry name d desc = (if d \<le> 0 then [] else [name @ '';dur='' @ ms_text d @ desc])"

definition quoted_desc :: "bytes \<Rightarrow> bytes" where
  "quoted_desc s = '';desc='' @ [CHR 0x22] @ s @ [CHR 0x22]"

definition timing_entries :: "int \<Rightarrow> serverTimingRecorder \<Rightarrow> bytes \<Rightarrow> bytes list" where
  "timing_entries now rec status =
     (if status \<noteq> [] then [''titip-status'' @ quoted_desc status] else []) @
     timing_entry ''titip-meta'' (metaDuration rec) [] @
     timing_entry ''titip-body'' (bodyDuration rec)
       (if storeCodec rec \<noteq> [] \<and> storeCodec rec \<noteq> StorageCompressionNone then quoted_desc (storeCodec rec) else []) @
     timing_entry ''titip-origin'' (originDuration rec) [] @
     timing_entry ''titip-store'' (storeDuration rec) (append_store_desc [] rec) @
     timing_entry ''titip-esi'' (tEsiDuration rec)
       (if tEsiFragments rec > 0 then quoted_desc (FormatInt (tEsiFragments rec) @ '' fragments'') else []) @
     (if startNano rec > 0 then timing_entry ''titip'' (wrap64 (now - startNano rec)) [] else [])"

lemma append_store_desc_append: "append_store_desc (x @ y) rec = x @ append_store_desc y rec"
  by (simp add: append_store_desc_def append_saving_def appendByteSize_def Let_def)

lemma Join_eq_Nil: "[] \<notin> set es \<Longrightarrow> Join sep es = [] \<longleftrightarrow> es = []"
  by (induction sep es rule: Join.induct) auto

lemma Join_snoc: "Join sep (es @ [e]) = (if es = [] then e else Join sep es @ sep @ e)"
  by (induction sep es rule: Join.induct) auto

text \<open>A buffer that holds joined entries, after one more of them.\<close>

lemma append_metric_join:
  assumes "[] \<notin> set es"
  shows "appendTimingMetric (Join '', '' es) name d = Join '', '' (es @ timing_entry name d [])"
    and "0 < d \<Longrightarrow> appendTimingMetric (Join '', '' es) name d @ desc = Join '', '' (es @ timing_entry name d desc)"
  using assms by (auto simp: appendTimingMetric_def timing_entry_def Join_snoc Join_eq_Nil)

lemma append_metric_store:
  assumes "[] \<notin> set es" "0 < d"
  shows "append_store_desc (appendTimingMetric (Join '', '' es) name d) rec =
    Join '', '' (es @ timing_entry name d (append_store_desc [] rec))"
  using append_metric_join(2) [OF assms, of name "append_store_desc [] rec"]
    append_store_desc_append [of "appendTimingMetric (Join '', '' es) name d" "[]" rec] by simp

lemma timing_entry_nonpos: "\<not> 0 < d \<Longrightarrow> timing_entry name d desc = []"
  by (simp add: timing_entry_def)

lemma timing_entry_nonempty: "name \<noteq> [] \<Longrightarrow> [] \<notin> set (timing_entry name d desc)"
  by (simp add: timing_entry_def)

lemma timing_buffer_join: "timing_buffer now rec status = Join '', '' (timing_entries now rec status)"
proof -
  define e0 where "e0 = (if status \<noteq> [] then [''titip-status'' @ quoted_desc status] else [])"
  define e1 where "e1 = e0 @ timing_entry ''titip-meta'' (metaDuration rec) []"
  define e2 where "e2 = e1 @ timing_entry ''titip-body'' (bodyDuration rec)
    (if storeCodec rec \<noteq> [] \<and> storeCodec rec \<noteq> StorageCompressionNone then quoted_desc (storeCodec rec) else [])"
  define e3 where "e3 = e2 @ timing_entry ''titip-origin'' (originDuration rec) []"
  define e4 where "e4 = e3 @ timing_entry ''titip-store'' (storeDuration rec) (append_store_desc [] rec)"
  define e5 where "e5 = e4 @ timing_entry ''titip-esi'' (tEsiDuration rec)
    (if tEsiFragments rec > 0 then quoted_desc (FormatInt (tEsiFragments rec) @ '' fragments'') else [])"
  have n0: "[] \<notin> set e0" by (simp add: e0_def)
  have n1: "[] \<notin> set e1" using n0 by (simp add: e1_def timing_entry_nonempty)
  have n2: "[] \<notin> set e2" using n1 by (simp add: e2_def timing_entry_nonempty)
  have n3: "[] \<notin> set e3" using n2 by (simp add: e3_def timing_entry_nonempty)
  have n4: "[] \<notin> set e4" using n3 by (simp add: e4_def timing_entry_nonempty)
  have n5: "[] \<notin> set e5" using n4 by (simp add: e5_def timing_entry_nonempty)
  have b0: "(if status \<noteq> [] then ''titip-status;desc='' @ [CHR 0x22] @ status @ [CHR 0x22] else []) = Join '', '' e0"
    by (simp add: e0_def quoted_desc_def)
  have b1: "appendTimingMetric (Join '', '' e0) ''titip-meta'' (metaDuration rec) = Join '', '' e1"
    unfolding e1_def by (rule append_metric_join(1) [OF n0])
  have b2: "(if bodyDuration rec > 0 then
      let b = appendTimingMetric (Join '', '' e1) ''titip-body'' (bodyDuration rec)
      in if storeCodec rec \<noteq> [] \<and> storeCodec rec \<noteq> StorageCompressionNone
         then b @ '';desc='' @ [CHR 0x22] @ storeCodec rec @ [CHR 0x22] else b
      else Join '', '' e1) = Join '', '' e2"
    using append_metric_join(2) [OF n1, of "bodyDuration rec" "''titip-body''" "quoted_desc (storeCodec rec)"]
      append_metric_join(1) [OF n1, of "''titip-body''" "bodyDuration rec"]
    by (simp add: e2_def timing_entry_nonpos Let_def quoted_desc_def)
  have b3: "appendTimingMetric (Join '', '' e2) ''titip-origin'' (originDuration rec) = Join '', '' e3"
    unfolding e3_def by (rule append_metric_join(1) [OF n2])
  have b4: "(if storeDuration rec > 0 then append_store_desc (appendTimingMetric (Join '', '' e3) ''titip-store'' (storeDuration rec)) rec
      else Join '', '' e3) = Join '', '' e4"
    using append_metric_store [OF n3] by (simp add: e4_def timing_entry_nonpos)
  have b5: "(if tEsiDuration rec > 0 then
      let b = appendTimingMetric (Join '', '' e4) ''titip-esi'' (tEsiDuration rec)
      in if tEsiFragments rec > 0
         then b @ '';desc='' @ [CHR 0x22] @ FormatInt (tEsiFragments rec) @ '' fragments'' @ [CHR 0x22] else b
      else Join '', '' e4) = Join '', '' e5"
    using append_metric_join(2) [OF n4, of "tEsiDuration rec" "''titip-esi''" "quoted_desc (FormatInt (tEsiFragments rec) @ '' fragments'')"]
      append_metric_join(1) [OF n4, of "''titip-esi''" "tEsiDuration rec"]
    by (simp add: e5_def timing_entry_nonpos Let_def quoted_desc_def)
  have "timing_buffer now rec status = (if startNano rec > 0 then appendTimingMetric (Join '', '' e5) ''titip'' (wrap64 (now - startNano rec))
      else Join '', '' e5)"
    unfolding timing_buffer_def b0 Let_def [of "Join '', '' e0"] b1 Let_def [of "Join '', '' e1"] b2 Let_def [of "Join '', '' e2"] b3
      Let_def [of "Join '', '' e3"] b4 Let_def [of "Join '', '' e4"] b5 Let_def [of "Join '', '' e5"] ..
  also have "\<dots> = Join '', '' (timing_entries now rec status)"
    using append_metric_join(1) [OF n5]
    by (simp add: timing_entries_def e0_def e1_def e2_def e3_def e4_def e5_def)
  finally show ?thesis .
qed

end
