(* ===== verification/ServerTimingProps.thy ===== *)
theory ServerTimingProps
  imports ServerTiming Complex_Main
begin

text \<open>
  An enabled recorder adds one Server-Timing header, whose value is the list of its entries, and
  leaves all other headers alone; a reported duration is the measured one to the nearest hundredth
  of a millisecond.
\<close>

section \<open>Accuracy of the figures\<close>

lemma half_even_near:
  assumes "0 < b"
  shows "2 * \<bar>real (half_even a b) * real b - real a\<bar> \<le> real b"
proof -
  let ?k = "a div b" and ?r = "a mod b"
  have a: "real a = real ?k * real b + real ?r"
    by (metis div_mult_mod_eq of_nat_add of_nat_mult)
  have r: "?r < b" using assms by simp
  show ?thesis
  proof (cases "2 * ?r < b \<or> 2 * ?r = b \<and> even ?k")
    case True
    then have "half_even a b = ?k" by (simp add: half_even_def)
    then show ?thesis using True a by auto
  next
    case False
    then have h: "half_even a b = Suc ?k" and "b \<le> 2 * ?r" by (auto simp: half_even_def Let_def)
    then have "real b \<le> 2 * real ?r" "real ?r < real b" using r by linarith+
    then show ?thesis by (simp add: h a algebra_simps)
  qed
qed

lemma bits_numeral:
  "bits 0 = 0" "bits (Suc 0) = Suc 0" "bits 1 = Suc 0"
  "bits (numeral (Num.Bit0 k)) = Suc (bits (numeral k))" "bits (numeral (Num.Bit1 k)) = Suc (bits (numeral k))"
proof -
  show "bits 0 = 0" by (simp add: bits.simps)
  show "bits (Suc 0) = Suc 0" "bits 1 = Suc 0" by (simp_all add: bits.simps)
  have "numeral (Num.Bit0 k) div 2 = (numeral k :: nat)" "numeral (Num.Bit1 k) div 2 = (numeral k :: nat)" by simp_all
  then show "bits (numeral (Num.Bit0 k)) = Suc (bits (numeral k))" "bits (numeral (Num.Bit1 k)) = Suc (bits (numeral k))"
    by (subst bits.simps, simp)+
qed

lemma bits_bounds: "0 < n \<Longrightarrow> 0 < bits n \<and> 2 ^ (bits n - 1) \<le> n \<and> n < 2 ^ bits n"
proof (induction n rule: bits.induct)
  case (1 n)
  show ?case
  proof (cases "n div 2 = 0")
    case True
    then have "n = 1" using 1(2) by auto
    then show ?thesis by (simp add: bits.simps)
  next
    case False
    then have ih: "0 < bits (n div 2)" "2 ^ (bits (n div 2) - 1) \<le> n div 2" "n div 2 < 2 ^ bits (n div 2)"
      using 1 by auto
    obtain m where m: "bits (n div 2) = Suc m" using ih(1) gr0_conv_Suc by blast
    have b: "bits n = Suc (Suc m)" using 1(2) m by (simp add: bits.simps [of n])
    have "2 * 2 ^ m \<le> n" "n < 2 * (2 * 2 ^ m)" using ih(2,3) by (simp_all add: m)
    then show ?thesis by (simp add: b)
  qed
qed

text \<open>The mantissa has at least 53 bits before it is rounded, so the error is at most half of the last of them.\<close>

lemma mantissa_large:
  assumes "0 < p" "0 < q"
  shows "2 ^ 52 * (q * 2 ^ nat (mantissa_shift p q)) \<le> p * 2 ^ nat (- mantissa_shift p q)"
proof -
  define e where "e = int (bits p) - int (bits q) - 53"
  have shift: "mantissa_shift p q = (if p * 2 ^ nat (- e) < 2 ^ 53 * (q * 2 ^ nat e) then e else e + 1)"
    by (simp add: mantissa_shift_def e_def Let_def)
  show ?thesis
  proof (cases "p * 2 ^ nat (- e) < 2 ^ 53 * (q * 2 ^ nat e)")
    case True
    have P: "0 < bits p" "2 ^ (bits p - 1) \<le> p" and Q: "q < 2 ^ bits q"
      using bits_bounds [OF assms(1)] bits_bounds [OF assms(2)] by auto
    have "2 ^ 52 * (q * 2 ^ nat e) \<le> 2 ^ 52 * (2 ^ bits q * 2 ^ nat e)" using Q by simp
    also have "\<dots> = (2::nat) ^ (52 + bits q + nat e)" by (simp only: power_add ac_simps)
    also have "52 + bits q + nat e = bits p - 1 + nat (- e)" using P(1) by (simp add: e_def)
    also have "(2::nat) ^ \<dots> = 2 ^ (bits p - 1) * 2 ^ nat (- e)" by (rule power_add)
    also have "\<dots> \<le> p * 2 ^ nat (- e)" using P(2) by simp
    finally show ?thesis using True by (simp add: shift)
  next
    case False
    show ?thesis
    proof (cases "0 \<le> e")
      case True
      then have "nat (e + 1) = Suc (nat e)" "nat (- (e + 1)) = 0" "nat (- e) = 0" by auto
      then show ?thesis using False by (simp add: shift)
    next
      case neg: False
      then have e: "nat (e + 1) = 0" "nat e = 0" "nat (- e) = Suc (nat (- (e + 1)))" by auto
      from False have "2 ^ 53 * q \<le> p * 2 ^ Suc (nat (- (e + 1)))" by (simp only: e power_0 mult_1_right not_less)
      then have "2 ^ 52 * q \<le> p * 2 ^ nat (- (e + 1))" by simp
      then show ?thesis using False by (simp only: shift e if_False power_0 mult_1_right)
    qed
  qed
qed

lemma float64_near:
  assumes "0 < p" "0 < q"
  shows "\<bar>real (fst (float64 (p, q))) / real (snd (float64 (p, q))) - real p / real q\<bar> \<le> real p / real q / 2 ^ 53"
    and "0 < snd (float64 (p, q))"
proof -
  define s t where "s = nat (mantissa_shift p q)" and "t = nat (- mantissa_shift p q)"
  define A B where "A = p * 2 ^ t" and "B = q * 2 ^ s"
  define m where "m = half_even A B"
  have f: "float64 (p, q) = (m * 2 ^ s, 2 ^ t)"
    using assms by (simp add: float64_def Let_def m_def A_def B_def s_def t_def)
  show "0 < snd (float64 (p, q))" by (simp add: f)
  have B: "0 < B" using assms by (simp add: B_def)
  have "2 ^ 52 * B \<le> A" using mantissa_large [OF assms] by (simp add: A_def B_def s_def t_def)
  then have "2 ^ 52 * real B \<le> real A" by (metis of_nat_le_iff of_nat_mult of_nat_numeral of_nat_power)
  then have "2 ^ 53 * \<bar>real m * real B - real A\<bar> \<le> real A"
    using half_even_near [OF B, of A] by (simp add: m_def)
  then have near: "\<bar>real m - real A / real B\<bar> \<le> real A / real B / 2 ^ 53"
    using B by (simp add: abs_le_iff field_simps)
  have pq: "real p / real q = real A / real B * (2 ^ s / 2 ^ t)" using assms by (simp add: A_def B_def field_simps)
  have "real (fst (float64 (p, q))) / real (snd (float64 (p, q))) - real p / real q = (real m - real A / real B) * (2 ^ s / 2 ^ t)"
    by (simp add: f pq field_simps)
  then have "\<bar>real (fst (float64 (p, q))) / real (snd (float64 (p, q))) - real p / real q\<bar> = \<bar>real m - real A / real B\<bar> * (2 ^ s / 2 ^ t)"
    by (simp add: abs_mult)
  also have "\<dots> \<le> real A / real B / 2 ^ 53 * (2 ^ s / 2 ^ t)" by (rule mult_right_mono [OF near]) simp
  also have "\<dots> = real p / real q / 2 ^ 53" by (simp add: pq)
  finally show "\<bar>real (fst (float64 (p, q))) / real (snd (float64 (p, q))) - real p / real q\<bar> \<le> real p / real q / 2 ^ 53" .
qed

text \<open>An integer below \<open>2 ^ 53\<close> is a \<^verbatim>\<open>float64\<close>.\<close>

lemma float64_exact:
  assumes "0 < n" "n < 2 ^ 53"
  shows "real (fst (float64 (n, 1))) / real (snd (float64 (n, 1))) = real n" and "0 < fst (float64 (n, 1))"
proof -
  have "bits n \<le> 53"
  proof (rule ccontr)
    assume "\<not> bits n \<le> 53"
    then have "(2::nat) ^ 53 \<le> 2 ^ (bits n - 1)" by (intro power_increasing) auto
    with bits_bounds [OF assms(1)] assms(2) show False by linarith
  qed
  moreover have "bits (Suc 0) = 1" by (simp add: bits.simps)
  ultimately have "nat (mantissa_shift n 1) = 0" by (simp add: mantissa_shift_def Let_def)
  moreover have "half_even a 1 = a" for a by (simp add: half_even_def)
  ultimately have f: "float64 (n, 1) = (n * 2 ^ nat (- mantissa_shift n 1), 2 ^ nat (- mantissa_shift n 1))"
    using assms(1) by (simp add: float64_def Let_def)
  show "real (fst (float64 (n, 1))) / real (snd (float64 (n, 1))) = real n" unfolding f by simp
  show "0 < fst (float64 (n, 1))" unfolding f using assms(1) by simp
qed

section \<open>Properties\<close>

text \<open>
  What a recorder writes: the values of \<^verbatim>\<open>Server-Timing\<close> grow by the entries joined by commas when the
  recorder is enabled and there are any, and no other header changes.
\<close>

lemma emit_header:
  "Values (emit now (Some rec) status h) k = Values h k @
     (if CanonicalHeaderKey k = ''Server-Timing'' \<and> tEnabled rec \<and> timing_entries now rec status \<noteq> []
      then [Join '', '' (timing_entries now rec status)] else [])"
proof -
  have c: "CanonicalHeaderKey ''Server-Timing'' = ''Server-Timing''" by code_simp
  have "[] \<notin> set (timing_entries now rec status)" by (simp add: timing_entries_def timing_entry_nonempty)
  then have nil: "Join '', '' (timing_entries now rec status) = [] \<longleftrightarrow> timing_entries now rec status = []" by (rule Join_eq_Nil)
  have v: "Values h k = Values h ''Server-Timing''" if "CanonicalHeaderKey k = ''Server-Timing''" for h
    using that c by (simp add: Values_def)
  show ?thesis by (auto simp: v emit_def timing_buffer_join nil c Let_def)
qed

text \<open>
  A duration below \<open>2 ^ 53\<close> nanoseconds is written in milliseconds with two decimals,
  to the nearest hundredth, whatever the two roundings of the floating-point computation do.
\<close>

lemma ms_text_nearest:
  assumes "0 < d" and "d < 2 ^ 53"
  shows "\<exists>n. ms_text d = nat_text (n div 100) @ ''.'' @ pad_zeros 2 (nat_text (n mod 100)) \<and> \<bar>10000 * int n - d\<bar> \<le> 5000"
proof -
  define x where "x = fdiv (float64 (nat d, 1)) 1000000"
  define n where "n = half_even (fst x * 100) (snd x)"
  have d: "0 < nat d" "nat d < 2 ^ 53" "real (nat d) = real_of_int d" using assms by auto
  let ?f = "float64 (nat d, 1)"
  have f: "real (fst ?f) / real (snd ?f) = real_of_int d" "0 < fst ?f" "0 < snd ?f"
    using float64_exact [OF d(1,2)] float64_near(2) [OF d(1)] d(3) by auto
  have q: "real (fst ?f) / real (snd ?f * 1000000) = real_of_int d / 1000000" using f(1) by (simp add: field_simps)
  have q0: "0 < snd ?f * 1000000" using f(3) by simp
  have x: "\<bar>real (fst x) / real (snd x) - real_of_int d / 1000000\<bar> \<le> real_of_int d / 1000000 / 2 ^ 53" and x0: "0 < snd x"
    using float64_near [OF f(2) q0] unfolding q by (simp_all add: x_def fdiv_def)
  have "2 * \<bar>real n * real (snd x) - real (fst x * 100)\<bar> \<le> real (snd x)"
    unfolding n_def by (rule half_even_near [OF x0])
  then have n: "2 * \<bar>real n - 100 * (real (fst x) / real (snd x))\<bar> \<le> 1"
    using x0 by (simp add: abs_le_iff field_simps)
  have "real_of_int d / 1000000 / 2 ^ 53 < 1 / 1000000" using assms(2) by (simp add: field_simps)
  with x have "\<bar>real (fst x) / real (snd x) - real_of_int d / 1000000\<bar> < 1 / 1000000" by (rule le_less_trans)
  with n have "\<bar>10000 * real n - 1000000 * (real_of_int d / 1000000)\<bar> < 5001" by argo
  then have "\<bar>10000 * real n - real_of_int d\<bar> < 5001" by simp
  then have "\<bar>10000 * int n - d\<bar> \<le> 5000" by linarith
  moreover have "ms_text d = nat_text (n div 100) @ ''.'' @ pad_zeros 2 (nat_text (n mod 100))"
    by (simp add: ms_text_def FormatFloat_def Let_def n_def x_def)
  ultimately show ?thesis by blast
qed

text \<open>
  Property C40. A stage that took less than \<open>2 ^ 53\<close> nanoseconds (104 days) is appended to the header as its
  name and the duration in milliseconds with two decimals, exact to the nearest hundredth although the
  figure is computed in \<^verbatim>\<open>float64\<close> and rounded twice; a stage without a duration adds nothing.
\<close>

theorem reported_duration_nearest:
  assumes "d < 2 ^ 53"
  shows "if d \<le> 0 then appendTimingMetric buf name d = buf
    else \<exists>n. appendTimingMetric buf name d = (if buf = [] then [] else buf @ '', '') @ name @ '';dur='' @
        nat_text (n div 100) @ ''.'' @ pad_zeros 2 (nat_text (n mod 100)) \<and> \<bar>10000 * int n - d\<bar> \<le> 5000"
  using assms ms_text_nearest [of d] by (auto simp: appendTimingMetric_def)

theorem reported_duration_nearest_witness:
  "appendTimingMetric ''x'' ''titip'' 15000 = ''x, titip;dur=0.01'' \<and>
   (\<exists>n. appendTimingMetric ''x'' ''titip'' 15000 = ''x, '' @ ''titip'' @ '';dur='' @
      nat_text (n div 100) @ ''.'' @ pad_zeros 2 (nat_text (n mod 100)) \<and> \<bar>10000 * int n - 15000\<bar> \<le> 5000)"
proof -
  have "ms_text 15000 = ''0.01''"
    by (simp add: ms_text_def FormatFloat_def fdiv_def float64_def mantissa_shift_def half_even_def bits_numeral nat_text.simps
        digit_char_def char_of_def bit_0)
  then show ?thesis using reported_duration_nearest [of 15000 "''x''" "''titip''"] by (simp add: appendTimingMetric_def)
qed

end
