(* ===== verification/EsiFlight.thy ===== *)
theory EsiFlight
  imports EsiFetch
begin

text \<open>
  Model of the flight group in \<^verbatim>\<open>src/esi/processor.go\<close>, by which the fragments of a page that include
  the same URL share one fetch: \<^verbatim>\<open>do\<close>, \<^verbatim>\<open>release\<close>, the function that runs a fetch and records its
  result, and \<^verbatim>\<open>fetchWithFlight\<close>. The methods run under the mutex of the group and are one step each;
  \<open>flight_step\<close> interleaves them. \<^verbatim>\<open>golang.org/x/sync/singleflight\<close> is a parameter with the laws
  \<open>singleflight_laws\<close>.
\<close>

section \<open>The flight group\<close>

text \<open>
  \<open>DoChan k c\<close> offers call number \<open>c\<close> and gives the number of the call whose result the channel will
  carry, which is \<open>c\<close> when the function is started; \<open>CallDone k c\<close> is the end of call \<open>c\<close>.
\<close>

record 'sf singleflight =
  DoChan :: "bytes \<Rightarrow> nat \<Rightarrow> 'sf \<Rightarrow> nat \<times> 'sf"
  Forget :: "bytes \<Rightarrow> 'sf \<Rightarrow> 'sf"
  CallDone :: "bytes \<Rightarrow> nat \<Rightarrow> 'sf \<Rightarrow> 'sf"

record flightTracker =
  trCancelled :: bool
  trListeners :: int

text \<open>Trackers are objects with addresses; a fetch gives a result, or nil and an error.\<close>

record 'sf flightGroup =
  fgTrackers :: "bytes \<rightharpoonup> nat"
  fgResults :: "bytes \<rightharpoonup> rawFetchResult option"
  fgErrors :: "bytes \<rightharpoonup> error option"
  fgSf :: 'sf
  fgHeap :: "nat \<rightharpoonup> flightTracker"
  fgNext :: nat

definition newFlightGroup :: "'sf \<Rightarrow> 'sf flightGroup" where
  "newFlightGroup sf0 = \<lparr>fgTrackers = (\<lambda>_. None), fgResults = (\<lambda>_. None), fgErrors = (\<lambda>_. None), fgSf = sf0, fgHeap = (\<lambda>_. None), fgNext = 0\<rparr>"

text \<open>A value from a channel is a fetch result, nil or not, or the bare nil of the empty function.\<close>

datatype flight_val = Raw "rawFetchResult option" | NilAny

datatype channel = Ready flight_val "error option" | OfCall nat

text \<open>The functions handed to \<^verbatim>\<open>DoChan\<close>: a fetch under the context of a tracker, or the empty one.\<close>

datatype flight_fn = FetchFor nat | EmptyFn

record ticket =
  tkTracker :: "nat option"
  tkChan :: channel

definition fg_do :: "'sf singleflight \<Rightarrow> bytes \<Rightarrow> nat \<Rightarrow> 'sf flightGroup \<Rightarrow> ticket \<times> flight_fn option \<times> 'sf flightGroup" where
  "fg_do S key c fg =
     (case fgResults fg key of
        Some res \<Rightarrow> (\<lparr>tkTracker = None, tkChan = Ready (Raw res) (case fgErrors fg key of None \<Rightarrow> None | Some e \<Rightarrow> e)\<rparr>, None, fg)
      | None \<Rightarrow>
          (case fgTrackers fg key of
             None \<Rightarrow>
               let t = fgNext fg;
                   (c', sf1) = DoChan S key c (fgSf fg)
               in (\<lparr>tkTracker = Some t, tkChan = OfCall c'\<rparr>, if c' = c then Some (FetchFor t) else None,
                   fg\<lparr>fgTrackers := (fgTrackers fg)(key \<mapsto> t), fgSf := sf1,
                      fgHeap := (fgHeap fg)(t \<mapsto> \<lparr>trCancelled = False, trListeners = 1\<rparr>), fgNext := Suc t\<rparr>)
           | Some t \<Rightarrow>
               let (c', sf1) = DoChan S key c (fgSf fg)
               in (\<lparr>tkTracker = Some t, tkChan = OfCall c'\<rparr>, if c' = c then Some EmptyFn else None,
                   fg\<lparr>fgSf := sf1, fgHeap := (fgHeap fg)(t := map_option (trListeners_update (\<lambda>n. n + 1)) (fgHeap fg t))\<rparr>)))"

definition fg_release :: "'sf singleflight \<Rightarrow> bytes \<Rightarrow> nat option \<Rightarrow> 'sf flightGroup \<Rightarrow> 'sf flightGroup" where
  "fg_release S key tracker fg =
     (case tracker of
        None \<Rightarrow> fg
      | Some t \<Rightarrow>
          (case fgHeap fg t of
             None \<Rightarrow> fg
           | Some tr \<Rightarrow>
               let tr1 = tr\<lparr>trListeners := trListeners tr - 1\<rparr>
               in if trListeners tr1 \<le> 0 then
                    fg\<lparr>fgHeap := (fgHeap fg)(t \<mapsto> tr1\<lparr>trCancelled := True\<rparr>), fgSf := Forget S key (fgSf fg),
                       fgTrackers := (if fgTrackers fg key = Some t then (fgTrackers fg)(key := None) else fgTrackers fg)\<rparr>
                  else fg\<lparr>fgHeap := (fgHeap fg)(t \<mapsto> tr1)\<rparr>))"

text \<open>What a fetch does when it has returned.\<close>

definition fg_record :: "bytes \<Rightarrow> rawFetchResult option \<Rightarrow> error option \<Rightarrow> 'sf flightGroup \<Rightarrow> 'sf flightGroup" where
  "fg_record key res err fg = fg\<lparr>fgResults := (fgResults fg)(key \<mapsto> res), fgErrors := (fgErrors fg)(key \<mapsto> err),
     fgTrackers := (fgTrackers fg)(key := None)\<rparr>"

text \<open>
  The fetch of \<^verbatim>\<open>fetchWithFlight\<close> and what it makes of a value from the channel; singleflight never closes
  a channel, so the branch for a closed one has no counterpart.
\<close>

definition flight_fetch :: "error + rawFetchResult \<Rightarrow> rawFetchResult option \<times> error option" where
  "flight_fetch out = (case out of Inl e \<Rightarrow> (None, Some e) | Inr r \<Rightarrow> (Some r, None))"

definition flight_outcome :: "flight_val \<Rightarrow> error option \<Rightarrow> error + rawFetchResult option" where
  "flight_outcome v err =
     (case err of
        Some e \<Rightarrow> Inl e
      | None \<Rightarrow> (case v of Raw r \<Rightarrow> Inr r | NilAny \<Rightarrow> Inl ''esi: invalid flight result type''))"

section \<open>The fragments of a page\<close>

text \<open>
  A call runs its function, which returns (after it has recorded its result), and then its channels
  are served. A fragment waits with its URL and ticket, and is answered in the end.
\<close>

datatype call_state = Running | Returned flight_val "error option" | Served flight_val "error option"

record flight_call =
  clKey :: bytes
  clFn :: flight_fn
  clState :: call_state

record 'sf flights =
  flGroup :: "'sf flightGroup"
  flCalls :: "nat \<rightharpoonup> flight_call"
  flNextCall :: nat
  flWaiting :: "(bytes \<times> ticket) list"
  flAnswers :: "(bytes \<times> (error + rawFetchResult option)) list"

definition no_flights :: "'sf \<Rightarrow> 'sf flights" where
  "no_flights sf0 = \<lparr>flGroup = newFlightGroup sf0, flCalls = (\<lambda>_. None), flNextCall = 0, flWaiting = [], flAnswers = []\<rparr>"

definition arrive :: "'sf singleflight \<Rightarrow> bytes \<Rightarrow> 'sf flights \<Rightarrow> 'sf flights" where
  "arrive S key s =
     (let c = flNextCall s;
          (tk, fn, fg) = fg_do S key c (flGroup s)
      in s\<lparr>flGroup := fg, flNextCall := Suc c, flWaiting := (key, tk) # flWaiting s,
           flCalls := (case fn of None \<Rightarrow> flCalls s | Some f \<Rightarrow> (flCalls s)(c \<mapsto> \<lparr>clKey = key, clFn = f, clState = Running\<rparr>))\<rparr>)"

definition fetch_returns :: "nat \<Rightarrow> error + rawFetchResult \<Rightarrow> 'sf flights \<Rightarrow> 'sf flights" where
  "fetch_returns c out s =
     (case flCalls s c of
        None \<Rightarrow> s
      | Some cl \<Rightarrow>
          (case clFn cl of
             FetchFor t \<Rightarrow>
               let (res, err) = flight_fetch out
               in s\<lparr>flGroup := fg_record (clKey cl) res err (flGroup s), flCalls := (flCalls s)(c \<mapsto> cl\<lparr>clState := Returned (Raw res) err\<rparr>)\<rparr>
           | EmptyFn \<Rightarrow> s\<lparr>flCalls := (flCalls s)(c \<mapsto> cl\<lparr>clState := Returned NilAny None\<rparr>)\<rparr>))"

definition serve_call :: "'sf singleflight \<Rightarrow> nat \<Rightarrow> flight_call \<Rightarrow> flight_val \<Rightarrow> error option \<Rightarrow> 'sf flights \<Rightarrow> 'sf flights" where
  "serve_call S c cl v err s =
     s\<lparr>flGroup := (flGroup s)\<lparr>fgSf := CallDone S (clKey cl) c (fgSf (flGroup s))\<rparr>,
       flCalls := (flCalls s)(c \<mapsto> cl\<lparr>clState := Served v err\<rparr>)\<rparr>"

definition leave :: "'sf singleflight \<Rightarrow> bytes \<Rightarrow> ticket \<Rightarrow> (bytes \<times> ticket) list \<Rightarrow> error + rawFetchResult option \<Rightarrow> 'sf flights \<Rightarrow> 'sf flights" where
  "leave S key tk rest ans s =
     s\<lparr>flGroup := fg_release S key (tkTracker tk) (flGroup s), flWaiting := rest, flAnswers := (key, ans) # flAnswers s\<rparr>"

definition received :: "'sf flights \<Rightarrow> channel \<Rightarrow> (flight_val \<times> error option) option" where
  "received s ch =
     (case ch of
        Ready v err \<Rightarrow> Some (v, err)
      | OfCall c \<Rightarrow>
          (case flCalls s c of
             Some cl \<Rightarrow> (case clState cl of Served v err \<Rightarrow> Some (v, err) | _ \<Rightarrow> None)
           | None \<Rightarrow> None))"

text \<open>The errors of a context that is done.\<close>

definition context_errors :: "error set" where
  "context_errors = {''context canceled'', ''context deadline exceeded''}"

inductive flight_step :: "'sf singleflight \<Rightarrow> 'sf flights \<Rightarrow> 'sf flights \<Rightarrow> bool" for S where
  fragment_arrives: "flight_step S s (arrive S key s)"
| fetch_ends: "flCalls s c = Some cl \<Longrightarrow> clState cl = Running \<Longrightarrow> flight_step S s (fetch_returns c out s)"
| channels_served: "flCalls s c = Some cl \<Longrightarrow> clState cl = Returned v err \<Longrightarrow> flight_step S s (serve_call S c cl v err s)"
| fragment_receives: "flWaiting s = xs @ (key, tk) # ys \<Longrightarrow> received s (tkChan tk) = Some (v, err) \<Longrightarrow>
    flight_step S s (leave S key tk (xs @ ys) (flight_outcome v err) s)"
| fragment_gives_up: "flWaiting s = xs @ (key, tk) # ys \<Longrightarrow> why \<in> context_errors \<Longrightarrow>
    flight_step S s (leave S key tk (xs @ ys) (Inl why) s)"

inductive flights_reachable :: "'sf singleflight \<Rightarrow> 'sf \<Rightarrow> 'sf flights \<Rightarrow> bool" for S sf0 where
  at_start: "flights_reachable S sf0 (no_flights sf0)"
| after_step: "flights_reachable S sf0 s \<Longrightarrow> flight_step S s s' \<Longrightarrow> flights_reachable S sf0 s'"

section \<open>What is relied on of singleflight\<close>

text \<open>\<open>inflight\<close> names the call that a key has at the moment.\<close>

locale singleflight_laws =
  fixes S :: "'sf singleflight" and inflight :: "'sf \<Rightarrow> bytes \<Rightarrow> nat option"
  assumes DoChan_joins: "inflight q k = Some c0 \<Longrightarrow> fst (DoChan S k c q) = c0 \<and> inflight (snd (DoChan S k c q)) = inflight q"
    and DoChan_starts: "inflight q k = None \<Longrightarrow> fst (DoChan S k c q) = c \<and> inflight (snd (DoChan S k c q)) = (inflight q)(k \<mapsto> c)"
    and Forget_drops: "inflight (Forget S k q) = (inflight q)(k := None)"
    and CallDone_drops: "inflight (CallDone S k c q) = (if inflight q k = Some c then (inflight q)(k := None) else inflight q)"

section \<open>Invariant\<close>

text \<open>A call for the URL has ended with the given outcome of its fetch.\<close>

definition ended :: "call_state \<Rightarrow> error + rawFetchResult \<Rightarrow> bool" where
  "ended st out \<longleftrightarrow> (let (res, err) = flight_fetch out in st = Returned (Raw res) err \<or> st = Served (Raw res) err)"

definition produced :: "'sf flights \<Rightarrow> bytes \<Rightarrow> error + rawFetchResult \<Rightarrow> bool" where
  "produced s k out \<longleftrightarrow> (\<exists>c cl. flCalls s c = Some cl \<and> clKey cl = k \<and> ended (clState cl) out)"

definition waiters :: "nat \<Rightarrow> (bytes \<times> ticket) list \<Rightarrow> nat" where
  "waiters t ws = length (filter (\<lambda>w. tkTracker (snd w) = Some t) ws)"

definition cancelled_at :: "'sf flights \<Rightarrow> nat \<Rightarrow> bool" where
  "cancelled_at s t \<longleftrightarrow> (case fgHeap (flGroup s) t of None \<Rightarrow> False | Some tr \<Rightarrow> trCancelled tr)"

text \<open>
  The parts of the invariant: a tracker in the table has a running fetch that singleflight knows and
  somebody waits for; trackers count their fragments; a fragment waits for a fetch of its own URL; a
  URL without tracker and result is unknown to singleflight; calls are fetches, each with its own
  tracker; a running fetch that is not cancelled is in the table until there is a result, and it is
  the only one of its URL; results and answers come from fetches of the URL.
\<close>

definition tracked_ok :: "('sf \<Rightarrow> bytes \<Rightarrow> nat option) \<Rightarrow> 'sf flights \<Rightarrow> bytes \<Rightarrow> nat \<Rightarrow> bool" where
  "tracked_ok inflight s k t \<longleftrightarrow> fgResults (flGroup s) k = None \<and> (\<exists>tr. fgHeap (flGroup s) t = Some tr \<and> 1 \<le> trListeners tr) \<and>
     (\<exists>c. inflight (fgSf (flGroup s)) k = Some c \<and> flCalls s c = Some \<lparr>clKey = k, clFn = FetchFor t, clState = Running\<rparr>)"

definition inv_tracked :: "('sf \<Rightarrow> bytes \<Rightarrow> nat option) \<Rightarrow> 'sf flights \<Rightarrow> bool" where
  "inv_tracked inflight s \<longleftrightarrow> (\<forall>k t. fgTrackers (flGroup s) k = Some t \<longrightarrow> tracked_ok inflight s k t)"

definition inv_counts :: "'sf flights \<Rightarrow> bool" where
  "inv_counts s \<longleftrightarrow> (\<forall>t tr. fgHeap (flGroup s) t = Some tr \<longrightarrow>
     t < fgNext (flGroup s) \<and> trListeners tr = int (waiters t (flWaiting s)) \<and> (trCancelled tr \<longleftrightarrow> trListeners tr \<le> 0))"

definition ticket_ok :: "'sf flights \<Rightarrow> bytes \<Rightarrow> ticket \<Rightarrow> bool" where
  "ticket_ok s k tk \<longleftrightarrow>
     (case tkTracker tk of
        None \<Rightarrow> \<exists>out. produced s k out \<and> tkChan tk = Ready (Raw (fst (flight_fetch out))) (snd (flight_fetch out))
      | Some t \<Rightarrow> fgHeap (flGroup s) t \<noteq> None \<and> (fgTrackers (flGroup s) k = Some t \<or> fgResults (flGroup s) k \<noteq> None) \<and>
          (\<exists>c cl. tkChan tk = OfCall c \<and> flCalls s c = Some cl \<and> clKey cl = k \<and> clFn cl = FetchFor t))"

definition inv_waiting :: "'sf flights \<Rightarrow> bool" where
  "inv_waiting s \<longleftrightarrow> (\<forall>w \<in> set (flWaiting s). ticket_ok s (fst w) (snd w))"

definition inv_idle :: "('sf \<Rightarrow> bytes \<Rightarrow> nat option) \<Rightarrow> 'sf flights \<Rightarrow> bool" where
  "inv_idle inflight s \<longleftrightarrow> (\<forall>k. fgTrackers (flGroup s) k = None \<longrightarrow> fgResults (flGroup s) k = None \<longrightarrow> inflight (fgSf (flGroup s)) k = None)"

definition call_ok :: "'sf flights \<Rightarrow> nat \<Rightarrow> flight_call \<Rightarrow> bool" where
  "call_ok s c cl \<longleftrightarrow> c < flNextCall s \<and> (\<exists>t \<in> dom (fgHeap (flGroup s)). clFn cl = FetchFor t) \<and>
     (clState cl = Running \<or> (\<exists>out. ended (clState cl) out))"

definition inv_calls :: "'sf flights \<Rightarrow> bool" where
  "inv_calls s \<longleftrightarrow> (\<forall>c cl. flCalls s c = Some cl \<longrightarrow> call_ok s c cl) \<and>
     (\<forall>c cl c' cl'. flCalls s c = Some cl \<longrightarrow> flCalls s c' = Some cl' \<longrightarrow> clFn cl = clFn cl' \<longrightarrow> c = c')"

definition inv_live :: "'sf flights \<Rightarrow> bool" where
  "inv_live s \<longleftrightarrow> (\<forall>c cl t. flCalls s c = Some cl \<longrightarrow> clState cl = Running \<longrightarrow> clFn cl = FetchFor t \<longrightarrow>
     fgTrackers (flGroup s) (clKey cl) = Some t \<or> fgResults (flGroup s) (clKey cl) \<noteq> None \<or> cancelled_at s t)"

definition inv_single :: "'sf flights \<Rightarrow> bool" where
  "inv_single s \<longleftrightarrow> (\<forall>c cl t c' cl' t'. flCalls s c = Some cl \<longrightarrow> clState cl = Running \<longrightarrow> clFn cl = FetchFor t \<longrightarrow> \<not> cancelled_at s t \<longrightarrow>
     flCalls s c' = Some cl' \<longrightarrow> clState cl' = Running \<longrightarrow> clFn cl' = FetchFor t' \<longrightarrow> \<not> cancelled_at s t' \<longrightarrow>
     clKey cl = clKey cl' \<longrightarrow> c = c')"

definition inv_results :: "'sf flights \<Rightarrow> bool" where
  "inv_results s \<longleftrightarrow> (\<forall>k res. fgResults (flGroup s) k = Some res \<longrightarrow>
     (\<exists>out. produced s k out \<and> res = fst (flight_fetch out) \<and> fgErrors (flGroup s) k = Some (snd (flight_fetch out))))"

definition answer_ok :: "'sf flights \<Rightarrow> bytes \<Rightarrow> error + rawFetchResult option \<Rightarrow> bool" where
  "answer_ok s k ans \<longleftrightarrow> (\<exists>why \<in> context_errors. ans = Inl why) \<or> (\<exists>out. produced s k out \<and> ans = map_sum (\<lambda>e. e) Some out)"

definition inv_answers :: "'sf flights \<Rightarrow> bool" where
  "inv_answers s \<longleftrightarrow> (\<forall>a \<in> set (flAnswers s). answer_ok s (fst a) (snd a))"

definition flight_inv :: "('sf \<Rightarrow> bytes \<Rightarrow> nat option) \<Rightarrow> 'sf flights \<Rightarrow> bool" where
  "flight_inv inflight s \<longleftrightarrow> inv_tracked inflight s \<and> inv_counts s \<and> inv_waiting s \<and> inv_idle inflight s \<and> inv_calls s \<and>
     inv_live s \<and> inv_single s \<and> inv_results s \<and> inv_answers s"

lemmas inv_defs = inv_tracked_def inv_counts_def inv_waiting_def inv_idle_def inv_calls_def inv_live_def inv_single_def inv_results_def
  inv_answers_def

lemma waiters_simps [simp]:
  "waiters t [] = 0"
  "waiters t (w # ws) = (if tkTracker (snd w) = Some t then Suc (waiters t ws) else waiters t ws)"
  "waiters t (xs @ ys) = waiters t xs + waiters t ys"
  by (simp_all add: waiters_def)

lemma waiters_zero: "waiters t ws = 0 \<longleftrightarrow> (\<forall>w \<in> set ws. tkTracker (snd w) \<noteq> Some t)"
  by (simp add: waiters_def filter_empty_conv)

lemma outcome_of_fetch: "flight_outcome (Raw (fst (flight_fetch out))) (snd (flight_fetch out)) = map_sum (\<lambda>e. e) Some out"
  by (cases out) (simp_all add: flight_outcome_def flight_fetch_def)

lemma inv_start: "inflight sf0 = (\<lambda>_. None) \<Longrightarrow> flight_inv inflight (no_flights sf0)"
  by (simp add: flight_inv_def inv_defs no_flights_def newFlightGroup_def)

end
