(* ===== verification/EsiFlightInv.thy ===== *)
theory EsiFlightInv
  imports EsiFlight
begin

text \<open>The invariant of the flight group is kept by every step of every interleaving.\<close>

text \<open>Calls are never lost, keep their URL and function, and keep the outcome they ended with.\<close>

definition calls_extend :: "'sf flights \<Rightarrow> 'sf flights \<Rightarrow> bool" where
  "calls_extend s s' \<longleftrightarrow> (\<forall>c cl. flCalls s c = Some cl \<longrightarrow>
     (\<exists>cl'. flCalls s' c = Some cl' \<and> clKey cl' = clKey cl \<and> clFn cl' = clFn cl \<and> (\<forall>out. ended (clState cl) out \<longrightarrow> ended (clState cl') out)))"

lemma calls_same: "flCalls s' = flCalls s \<Longrightarrow> calls_extend s s'"
  by (simp add: calls_extend_def)

lemma produced_mono: "calls_extend s s' \<Longrightarrow> produced s k out \<Longrightarrow> produced s' k out"
  unfolding produced_def calls_extend_def by metis

lemma ticket_ok_mono:
  assumes "calls_extend s s'" and ok: "ticket_ok s k tk"
    and keep: "\<And>t. tkTracker tk = Some t \<Longrightarrow> fgTrackers (flGroup s) k = Some t \<or> fgResults (flGroup s) k \<noteq> None \<Longrightarrow>
      fgTrackers (flGroup s') k = Some t \<or> fgResults (flGroup s') k \<noteq> None"
    and heap: "\<And>t. fgHeap (flGroup s) t \<noteq> None \<Longrightarrow> fgHeap (flGroup s') t \<noteq> None"
  shows "ticket_ok s' k tk"
proof (cases "tkTracker tk")
  case None
  then show ?thesis using ok produced_mono [OF assms(1)] by (auto simp: ticket_ok_def)
next
  case (Some t)
  from ok Some obtain c cl where o: "fgHeap (flGroup s) t \<noteq> None" "fgTrackers (flGroup s) k = Some t \<or> fgResults (flGroup s) k \<noteq> None"
      "tkChan tk = OfCall c" "flCalls s c = Some cl" "clKey cl = k" "clFn cl = FetchFor t"
    by (auto simp: ticket_ok_def)
  from assms(1) o(4-6) obtain cl' where "flCalls s' c = Some cl'" "clKey cl' = k" "clFn cl' = FetchFor t"
    unfolding calls_extend_def by metis
  with Some o(3) heap [OF o(1)] keep [OF Some o(2)] show ?thesis by (simp add: ticket_ok_def)
qed

lemma inv_waiting_mono:
  assumes "calls_extend s s'" "inv_waiting s" "set (flWaiting s') \<subseteq> set (flWaiting s)"
    and "\<And>k tk t. (k, tk) \<in> set (flWaiting s') \<Longrightarrow> tkTracker tk = Some t \<Longrightarrow> fgTrackers (flGroup s) k = Some t \<or> fgResults (flGroup s) k \<noteq> None \<Longrightarrow>
      fgTrackers (flGroup s') k = Some t \<or> fgResults (flGroup s') k \<noteq> None"
    and "\<And>t. fgHeap (flGroup s) t \<noteq> None \<Longrightarrow> fgHeap (flGroup s') t \<noteq> None"
  shows "inv_waiting s'"
  unfolding inv_waiting_def
proof
  fix w
  assume w: "w \<in> set (flWaiting s')"
  then have "ticket_ok s (fst w) (snd w)" using assms(2,3) unfolding inv_waiting_def by blast
  then show "ticket_ok s' (fst w) (snd w)"
    by (rule ticket_ok_mono [OF assms(1) _ _ assms(5)]) (use assms(4) w in \<open>metis prod.collapse\<close>)+
qed

lemma inv_results_mono:
  "calls_extend s s' \<Longrightarrow> inv_results s \<Longrightarrow> fgResults (flGroup s') = fgResults (flGroup s) \<Longrightarrow> fgErrors (flGroup s') = fgErrors (flGroup s) \<Longrightarrow>
     inv_results s'"
  unfolding inv_results_def by (metis produced_mono)

lemma answer_ok_mono: "calls_extend s s' \<Longrightarrow> answer_ok s k ans \<Longrightarrow> answer_ok s' k ans"
  by (auto simp: answer_ok_def intro: produced_mono)

lemma inv_answers_mono: "calls_extend s s' \<Longrightarrow> inv_answers s \<Longrightarrow> flAnswers s' = flAnswers s \<Longrightarrow> inv_answers s'"
  by (auto simp: inv_answers_def intro: answer_ok_mono)

text \<open>The invariant of calls, for one call.\<close>

lemma inv_callsD:
  assumes "inv_calls s" "flCalls s c = Some cl"
  shows "call_ok s c cl" and "c < flNextCall s" and "\<exists>t. clFn cl = FetchFor t \<and> fgHeap (flGroup s) t \<noteq> None"
    and "flCalls s c' = Some cl' \<Longrightarrow> clFn cl = clFn cl' \<Longrightarrow> c = c'"
proof -
  show ok: "call_ok s c cl" using assms unfolding inv_calls_def by blast
  then show "c < flNextCall s" "\<exists>t. clFn cl = FetchFor t \<and> fgHeap (flGroup s) t \<noteq> None" by (auto simp: call_ok_def)
  show "flCalls s c' = Some cl' \<Longrightarrow> clFn cl = clFn cl' \<Longrightarrow> c = c'" using assms unfolding inv_calls_def by blast
qed

lemma call_ok_mono:
  "call_ok s c cl \<Longrightarrow> flNextCall s \<le> flNextCall s' \<Longrightarrow> dom (fgHeap (flGroup s)) \<subseteq> dom (fgHeap (flGroup s')) \<Longrightarrow> call_ok s' c cl"
  unfolding call_ok_def by (meson less_le_trans subsetD)

lemma inv_calls_same:
  assumes "inv_calls s" "flCalls s' = flCalls s" "flNextCall s \<le> flNextCall s'" "dom (fgHeap (flGroup s)) \<subseteq> dom (fgHeap (flGroup s'))"
  shows "inv_calls s'"
  using assms(1) call_ok_mono [OF _ assms(3,4)] unfolding inv_calls_def assms(2) by blast

text \<open>One call is added or goes on.\<close>

lemma inv_calls_upd:
  assumes "inv_calls s" "flCalls s' = (flCalls s)(c \<mapsto> cl)" "flNextCall s \<le> flNextCall s'"
    "dom (fgHeap (flGroup s)) \<subseteq> dom (fgHeap (flGroup s'))"
    and ok: "call_ok s' c cl" and new: "\<And>c' cl'. flCalls s c' = Some cl' \<Longrightarrow> clFn cl' = clFn cl \<Longrightarrow> c' = c"
  shows "inv_calls s'"
  unfolding inv_calls_def assms(2)
proof (intro conjI allI impI)
  fix c' cl'
  assume "((flCalls s)(c \<mapsto> cl)) c' = Some cl'"
  then show "call_ok s' c' cl'"
    using ok call_ok_mono [OF inv_callsD(1) [OF assms(1)] assms(3,4)] by (cases "c' = c") auto
next
  fix c1 cl1 c2 cl2
  assume c: "((flCalls s)(c \<mapsto> cl)) c1 = Some cl1" "((flCalls s)(c \<mapsto> cl)) c2 = Some cl2" "clFn cl1 = clFn cl2"
  show "c1 = c2"
  proof (cases "c1 = c \<or> c2 = c")
    case True
    then show ?thesis using c new by (auto split: if_splits dest: sym)
  next
    case False
    then show ?thesis using c inv_callsD(4) [OF assms(1), of c1 cl1 c2 cl2] by simp
  qed
qed

lemma inv_liveD:
  "inv_live s \<Longrightarrow> flCalls s c = Some cl \<Longrightarrow> clState cl = Running \<Longrightarrow> clFn cl = FetchFor t \<Longrightarrow>
     fgTrackers (flGroup s) (clKey cl) = Some t \<or> fgResults (flGroup s) (clKey cl) \<noteq> None \<or> cancelled_at s t"
  unfolding inv_live_def by metis

lemma ended_not_running [simp]: "\<not> ended Running out"
  by (simp add: ended_def split: prod.splits)

lemma inv_trackedD: "inv_tracked inflight s \<Longrightarrow> fgTrackers (flGroup s) k = Some t \<Longrightarrow> tracked_ok inflight s k t"
  unfolding inv_tracked_def by blast

lemma tracked_ok_mono:
  assumes "tracked_ok inflight s k t" and "fgResults (flGroup s) k = None \<Longrightarrow> fgResults (flGroup s') k = None"
    and "\<And>tr. fgHeap (flGroup s) t = Some tr \<Longrightarrow> 1 \<le> trListeners tr \<Longrightarrow> \<exists>tr. fgHeap (flGroup s') t = Some tr \<and> 1 \<le> trListeners tr"
    and "\<And>c cl. inflight (fgSf (flGroup s)) k = Some c \<Longrightarrow> flCalls s c = Some cl \<Longrightarrow> clState cl = Running \<Longrightarrow>
      inflight (fgSf (flGroup s')) k = Some c \<and> flCalls s' c = Some cl"
  shows "tracked_ok inflight s' k t"
  using assms(1) unfolding tracked_ok_def by (force dest: assms(2-4))

context singleflight_laws
begin

section \<open>A fragment arrives\<close>

lemma arrive_known:
  assumes inv: "flight_inv inflight s" and res: "fgResults (flGroup s) k = Some res"
  shows "flight_inv inflight (arrive S k s)"
proof -
  obtain out where out: "produced s k out" "res = fst (flight_fetch out)" "fgErrors (flGroup s) k = Some (snd (flight_fetch out))"
    using inv res unfolding flight_inv_def inv_results_def by blast
  let ?tk = "\<lparr>tkTracker = None, tkChan = Ready (Raw res) (snd (flight_fetch out))\<rparr>"
  have a: "arrive S k s = s\<lparr>flNextCall := Suc (flNextCall s), flWaiting := (k, ?tk) # flWaiting s\<rparr>"
    by (simp add: arrive_def fg_do_def res out(3) Let_def)
  have p: "produced (arrive S k s) k' out' = produced s k' out'" for k' out' by (simp add: a produced_def)
  have i: "inv_tracked inflight s" "inv_counts s" "inv_waiting s" "inv_idle inflight s" "inv_calls s" "inv_live s" "inv_single s"
    "inv_results s" "inv_answers s" using inv by (simp_all add: flight_inv_def)
  have c: "cancelled_at (arrive S k s) = cancelled_at s" by (rule HOL.ext) (simp add: a cancelled_at_def)
  show ?thesis unfolding flight_inv_def
  proof (intro conjI)
    show "inv_tracked inflight (arrive S k s)" using i(1) unfolding inv_tracked_def tracked_ok_def by (simp add: a)
    show "inv_counts (arrive S k s)" using i(2) unfolding inv_counts_def by (simp add: a)
    have "ticket_ok (arrive S k s) k ?tk" using out p by (auto simp: ticket_ok_def)
    moreover have "ticket_ok (arrive S k s) k' tk = ticket_ok s k' tk" for k' tk unfolding ticket_ok_def p by (simp add: a split: option.split)
    ultimately show "inv_waiting (arrive S k s)" using i(3) unfolding inv_waiting_def by (simp add: a)
    show "inv_idle inflight (arrive S k s)" using i(4) unfolding inv_idle_def by (simp add: a)
    show "inv_calls (arrive S k s)" by (rule inv_calls_same [OF i(5)]) (auto simp: a)
    show "inv_live (arrive S k s)" using i(6) unfolding inv_live_def c by (simp add: a)
    show "inv_single (arrive S k s)" using i(7) unfolding inv_single_def c by (simp add: a)
    show "inv_results (arrive S k s)" using i(8) unfolding inv_results_def p by (simp add: a)
    show "inv_answers (arrive S k s)" using i(9) unfolding inv_answers_def answer_ok_def p by (simp add: a)
  qed
qed

lemma arrive_new:
  assumes inv: "flight_inv inflight s" and res: "fgResults (flGroup s) k = None" and tr: "fgTrackers (flGroup s) k = None"
  shows "flight_inv inflight (arrive S k s)"
proof -
  let ?g = "flGroup s" and ?c = "flNextCall s"
  let ?t = "fgNext ?g"
  have i: "inv_tracked inflight s" "inv_counts s" "inv_waiting s" "inv_idle inflight s" "inv_calls s" "inv_live s" "inv_single s"
    "inv_results s" "inv_answers s" using inv by (simp_all add: flight_inv_def)
  have idle: "inflight (fgSf ?g) k = None" using i(4) res tr by (simp add: inv_idle_def)
  obtain q where q: "DoChan S k ?c (fgSf ?g) = (?c, q)" "inflight q = (inflight (fgSf ?g))(k \<mapsto> ?c)"
    using DoChan_starts [OF idle, of ?c] by (cases "DoChan S k ?c (fgSf ?g)") auto
  let ?tk = "\<lparr>tkTracker = Some ?t, tkChan = OfCall ?c\<rparr>"
  let ?cl = "\<lparr>clKey = k, clFn = FetchFor ?t, clState = Running\<rparr>"
  define s' where "s' = arrive S k s"
  have a: "s' = s\<lparr>flGroup := ?g\<lparr>fgTrackers := (fgTrackers ?g)(k \<mapsto> ?t), fgSf := q,
      fgHeap := (fgHeap ?g)(?t \<mapsto> \<lparr>trCancelled = False, trListeners = 1\<rparr>), fgNext := Suc ?t\<rparr>,
      flNextCall := Suc ?c, flWaiting := (k, ?tk) # flWaiting s, flCalls := (flCalls s)(?c \<mapsto> ?cl)\<rparr>"
    by (simp add: s'_def arrive_def fg_do_def res tr q Let_def)
  have fresh: "flCalls s ?c = None" using inv_callsD(2) [OF i(5)] by fastforce
  have freshT: "fgHeap ?g ?t = None" using i(2) unfolding inv_counts_def by (meson less_irrefl not_None_eq)
  have notT: "clFn cl \<noteq> FetchFor ?t" if "flCalls s c = Some cl" for c cl
    using inv_callsD(3) [OF i(5) that] freshT by auto
  have noT: "waiters ?t (flWaiting s) = 0"
    unfolding waiters_zero using i(3) freshT unfolding inv_waiting_def ticket_ok_def by fastforce
  have ext: "calls_extend s s'" using fresh by (auto simp: calls_extend_def a)
  have c: "cancelled_at s' t = (if t = ?t then False else cancelled_at s t)" for t by (simp add: a cancelled_at_def)
  have dead: "cancelled_at s t" if "flCalls s c = Some cl" "clState cl = Running" "clFn cl = FetchFor t" "clKey cl = k" for c cl t
    using inv_liveD [OF i(6) that(1-3)] that(4) res tr by simp
  show ?thesis unfolding flight_inv_def s'_def [symmetric]
  proof (intro conjI)
    have "tracked_ok inflight s' k ?t" by (simp add: tracked_ok_def a q(2) res)
    moreover have "tracked_ok inflight s' k' t" if "fgTrackers ?g k' = Some t" "k' \<noteq> k" for k' t
      by (rule tracked_ok_mono [OF inv_trackedD [OF i(1) that(1)]]) (use that fresh freshT in \<open>auto simp: a q(2)\<close>)
    ultimately show "inv_tracked inflight s'" unfolding inv_tracked_def by (simp add: a)
    show "inv_counts s'" using i(2) noT unfolding inv_counts_def by (auto simp: a less_Suc_eq)
    have old: "ticket_ok s' (fst w) (snd w)" if w: "w \<in> set (flWaiting s)" for w
      by (rule ticket_ok_mono [OF ext]) (use w i(3) res tr in \<open>auto simp: a inv_waiting_def\<close>)
    have "ticket_ok s' k ?tk" by (simp add: ticket_ok_def a)
    with old show "inv_waiting s'" unfolding inv_waiting_def by (simp add: a)
    show "inv_idle inflight s'" using i(4) unfolding inv_idle_def by (simp add: a q(2))
    show "inv_calls s'"
      by (rule inv_calls_upd [OF i(5), of s' ?c ?cl]) (use notT in \<open>auto simp: a call_ok_def\<close>)
    show "inv_live s'" using i(6) notT unfolding inv_live_def c by (auto simp: a dest: dead)
    show "inv_single s'" using i(7) dead notT unfolding inv_single_def c by (auto simp: a)
    show "inv_results s'" by (rule inv_results_mono [OF ext i(8)]) (simp_all add: a)
    show "inv_answers s'" by (rule inv_answers_mono [OF ext i(9)]) (simp add: a)
  qed
qed

lemma arrive_joins:
  assumes inv: "flight_inv inflight s" and res: "fgResults (flGroup s) k = None" and tr: "fgTrackers (flGroup s) k = Some t"
  shows "flight_inv inflight (arrive S k s)"
proof -
  let ?g = "flGroup s" and ?c = "flNextCall s"
  have i: "inv_tracked inflight s" "inv_counts s" "inv_waiting s" "inv_idle inflight s" "inv_calls s" "inv_live s" "inv_single s"
    "inv_results s" "inv_answers s" using inv by (simp_all add: flight_inv_def)
  obtain c0 tr0 where c0: "inflight (fgSf ?g) k = Some c0" "flCalls s c0 = Some \<lparr>clKey = k, clFn = FetchFor t, clState = Running\<rparr>"
    and tr0: "fgHeap ?g t = Some tr0" "1 \<le> trListeners tr0"
    using inv_trackedD [OF i(1) tr] unfolding tracked_ok_def by blast
  have "c0 \<noteq> ?c" using inv_callsD(2) [OF i(5) c0(2)] by simp
  obtain q where q: "DoChan S k ?c (fgSf ?g) = (c0, q)" "inflight q = inflight (fgSf ?g)"
    using DoChan_joins [OF c0(1), of ?c] by (cases "DoChan S k ?c (fgSf ?g)") auto
  let ?tk = "\<lparr>tkTracker = Some t, tkChan = OfCall c0\<rparr>"
  define s' where "s' = arrive S k s"
  have a: "s' = s\<lparr>flGroup := ?g\<lparr>fgSf := q, fgHeap := (fgHeap ?g)(t \<mapsto> tr0\<lparr>trListeners := trListeners tr0 + 1\<rparr>)\<rparr>,
      flNextCall := Suc ?c, flWaiting := (k, ?tk) # flWaiting s\<rparr>"
    using \<open>c0 \<noteq> ?c\<close> by (cases tr0) (simp add: s'_def arrive_def fg_do_def res tr q tr0 Let_def)
  have ext: "calls_extend s s'" by (rule calls_same) (simp add: a)
  have c: "cancelled_at s' = cancelled_at s" by (rule HOL.ext) (simp add: a cancelled_at_def tr0)
  show ?thesis unfolding flight_inv_def s'_def [symmetric]
  proof (intro conjI)
    have "tracked_ok inflight s' k' t'" if "fgTrackers ?g k' = Some t'" for k' t'
      by (rule tracked_ok_mono [OF inv_trackedD [OF i(1) that]]) (use tr0 in \<open>auto simp: a q(2)\<close>)
    then show "inv_tracked inflight s'" unfolding inv_tracked_def by (simp add: a)
    show "inv_counts s'" using i(2) tr0 unfolding inv_counts_def by (auto simp: a)
    have old: "ticket_ok s' (fst w) (snd w)" if w: "w \<in> set (flWaiting s)" for w
      by (rule ticket_ok_mono [OF ext]) (use w i(3) in \<open>auto simp: a inv_waiting_def\<close>)
    have "ticket_ok s' k ?tk" using c0(2) tr by (simp add: ticket_ok_def a)
    with old show "inv_waiting s'" unfolding inv_waiting_def by (simp add: a)
    show "inv_idle inflight s'" using i(4) unfolding inv_idle_def by (simp add: a q(2))
    show "inv_calls s'" by (rule inv_calls_same [OF i(5)]) (auto simp: a)
    show "inv_live s'" using i(6) unfolding inv_live_def c by (simp add: a)
    show "inv_single s'" using i(7) unfolding inv_single_def c by (simp add: a)
    show "inv_results s'" by (rule inv_results_mono [OF ext i(8)]) (simp_all add: a)
    show "inv_answers s'" by (rule inv_answers_mono [OF ext i(9)]) (simp add: a)
  qed
qed

section \<open>A fetch returns\<close>

lemma fetch_returns_inv:
  assumes inv: "flight_inv inflight s" and cl: "flCalls s c = Some cl" "clState cl = Running"
  shows "flight_inv inflight (fetch_returns c out s)"
proof -
  let ?g = "flGroup s" and ?k = "clKey cl"
  have i: "inv_tracked inflight s" "inv_counts s" "inv_waiting s" "inv_idle inflight s" "inv_calls s" "inv_live s" "inv_single s"
    "inv_results s" "inv_answers s" using inv by (simp_all add: flight_inv_def)
  obtain t where t: "clFn cl = FetchFor t" using inv_callsD(3) [OF i(5) cl(1)] by blast
  obtain res err where f: "flight_fetch out = (res, err)" by force
  let ?cl = "cl\<lparr>clState := Returned (Raw res) err\<rparr>"
  define s' where "s' = fetch_returns c out s"
  have a: "s' = s\<lparr>flGroup := fg_record ?k res err ?g, flCalls := (flCalls s)(c \<mapsto> ?cl)\<rparr>"
    by (simp add: s'_def fetch_returns_def cl t f)
  note a = a fg_record_def
  have ext: "calls_extend s s'" using cl by (auto simp: calls_extend_def a)
  have some_end: "\<exists>out. ended (Returned (Raw res) err) out" by (rule exI [of _ out]) (simp add: ended_def f)
  have made: "produced s' ?k out" by (auto simp: produced_def ended_def f a)
  have c: "cancelled_at s' = cancelled_at s" by (rule HOL.ext) (simp add: a cancelled_at_def)
  show ?thesis unfolding flight_inv_def s'_def [symmetric]
  proof (intro conjI)
    have "tracked_ok inflight s' k' t'" if "fgTrackers ?g k' = Some t'" "k' \<noteq> ?k" for k' t'
    proof -
      have "\<exists>c'. inflight (fgSf ?g) k' = Some c' \<and> flCalls s c' = Some \<lparr>clKey = k', clFn = FetchFor t', clState = Running\<rparr>"
        using inv_trackedD [OF i(1) that(1)] unfolding tracked_ok_def by blast
      then have "inflight (fgSf ?g) k' \<noteq> Some c" using cl(1) that(2) by auto
      then show ?thesis by (intro tracked_ok_mono [OF inv_trackedD [OF i(1) that(1)]]) (use that in \<open>auto simp: a\<close>)
    qed
    then show "inv_tracked inflight s'" unfolding inv_tracked_def by (simp add: a)
    show "inv_counts s'" using i(2) unfolding inv_counts_def by (simp add: a)
    show "inv_waiting s'" by (rule inv_waiting_mono [OF ext i(3)]) (auto simp: a)
    show "inv_idle inflight s'" using i(4) unfolding inv_idle_def by (simp add: a)
    show "inv_calls s'"
      by (rule inv_calls_upd [OF i(5), of s' c ?cl])
        (use inv_callsD(1) [OF i(5) cl(1)] inv_callsD(4) [OF i(5) _ cl(1)] some_end in \<open>auto simp: a call_ok_def\<close>)
    show "inv_live s'" using i(6) unfolding inv_live_def c by (simp add: a)
    show "inv_single s'" using i(7) unfolding inv_single_def c by (simp add: a)
    show "inv_results s'" using i(8) made produced_mono [OF ext] unfolding inv_results_def by (fastforce simp: a f)
    show "inv_answers s'" by (rule inv_answers_mono [OF ext i(9)]) (simp add: a)
  qed
qed

section \<open>The channels of a call are served\<close>

lemma serve_call_inv:
  assumes inv: "flight_inv inflight s" and cl: "flCalls s c = Some cl" "clState cl = Returned v err"
  shows "flight_inv inflight (serve_call S c cl v err s)"
proof -
  let ?g = "flGroup s" and ?k = "clKey cl"
  have i: "inv_tracked inflight s" "inv_counts s" "inv_waiting s" "inv_idle inflight s" "inv_calls s" "inv_live s" "inv_single s"
    "inv_results s" "inv_answers s" using inv by (simp_all add: flight_inv_def)
  define s' where "s' = serve_call S c cl v err s"
  note a = s'_def serve_call_def
  have end_same: "ended (Served v err) out = ended (clState cl) out" for out
    using cl(2) by (simp add: ended_def split: prod.splits)
  let ?cl = "cl\<lparr>clState := Served v err\<rparr>"
  have some_end: "\<exists>out. ended (Served v err) out"
    using inv_callsD(1) [OF i(5) cl(1)] cl(2) by (simp add: end_same call_ok_def)
  have ext: "calls_extend s s'" using cl by (auto simp: calls_extend_def a end_same)
  have c: "cancelled_at s' = cancelled_at s" by (rule HOL.ext) (simp add: a cancelled_at_def)
  show ?thesis unfolding flight_inv_def s'_def [symmetric]
  proof (intro conjI)
    have "tracked_ok inflight s' k' t'" if "fgTrackers ?g k' = Some t'" for k' t'
    proof -
      have "\<exists>c'. inflight (fgSf ?g) k' = Some c' \<and> flCalls s c' = Some \<lparr>clKey = k', clFn = FetchFor t', clState = Running\<rparr>"
        using inv_trackedD [OF i(1) that(1)] unfolding tracked_ok_def by blast
      then have "inflight (fgSf ?g) k' \<noteq> Some c" using cl by auto
      then show ?thesis
        by (intro tracked_ok_mono [OF inv_trackedD [OF i(1) that(1)]]) (use that in \<open>auto simp: a CallDone_drops\<close>)
    qed
    then show "inv_tracked inflight s'" unfolding inv_tracked_def by (simp add: a)
    show "inv_counts s'" using i(2) unfolding inv_counts_def by (simp add: a)
    show "inv_waiting s'" by (rule inv_waiting_mono [OF ext i(3)]) (auto simp: a)
    show "inv_idle inflight s'" using i(4) unfolding inv_idle_def by (simp add: a CallDone_drops)
    show "inv_calls s'"
      by (rule inv_calls_upd [OF i(5), of s' c ?cl])
        (use inv_callsD(1) [OF i(5) cl(1)] inv_callsD(4) [OF i(5) _ cl(1)] some_end in \<open>auto simp: a call_ok_def\<close>)
    show "inv_live s'" using i(6) unfolding inv_live_def c by (simp add: a)
    show "inv_single s'" using i(7) unfolding inv_single_def c by (simp add: a)
    show "inv_results s'" by (rule inv_results_mono [OF ext i(8)]) (simp_all add: a)
    show "inv_answers s'" by (rule inv_answers_mono [OF ext i(9)]) (simp add: a)
  qed
qed

section \<open>A fragment leaves\<close>

text \<open>What the others see when nobody is left, and when somebody is.\<close>

lemma leave_frame:
  assumes inv: "flight_inv inflight s" and w: "flWaiting s = xs @ (k, tk) # ys" and ans: "answer_ok s k ans"
    and s': "s' = s\<lparr>flGroup := g', flWaiting := xs @ ys, flAnswers := (k, ans) # flAnswers s\<rparr>"
    and g': "fgResults g' = fgResults (flGroup s)" "fgErrors g' = fgErrors (flGroup s)" "dom (fgHeap g') = dom (fgHeap (flGroup s))"
  shows "inv_calls s'" "inv_results s'" "inv_answers s'" "calls_extend s s'"
proof -
  have i: "inv_calls s" "inv_results s" "inv_answers s" using inv by (simp_all add: flight_inv_def)
  show ext: "calls_extend s s'" by (rule calls_same) (simp add: s')
  show "inv_calls s'" by (rule inv_calls_same [OF i(1)]) (auto simp: s' g')
  show "inv_results s'" by (rule inv_results_mono [OF ext i(2)]) (simp_all add: s' g')
  show "inv_answers s'"
    using i(3) answer_ok_mono [OF ext] ans by (simp add: inv_answers_def s') 
qed

lemma leave_others:
  assumes inv: "flight_inv inflight s" and w: "flWaiting s = xs @ (k, tk) # ys" and ans: "answer_ok s k ans"
    and g': "fg_release S k (tkTracker tk) (flGroup s) = (flGroup s)\<lparr>fgHeap := h\<rparr>"
    and h: "dom h = dom (fgHeap (flGroup s))"
      "\<And>t tr. h t = Some tr \<Longrightarrow> trListeners tr = int (waiters t (xs @ ys)) \<and> (trCancelled tr \<longleftrightarrow> trListeners tr \<le> 0) \<and>
         (\<exists>tr0. fgHeap (flGroup s) t = Some tr0 \<and> trCancelled tr0 = trCancelled tr)"
  shows "flight_inv inflight (leave S k tk (xs @ ys) ans s)"
proof -
  have i: "inv_tracked inflight s" "inv_counts s" "inv_waiting s" "inv_idle inflight s" "inv_live s" "inv_single s"
    using inv by (simp_all add: flight_inv_def)
  define s' where "s' = leave S k tk (xs @ ys) ans s"
  have a: "s' = s\<lparr>flGroup := (flGroup s)\<lparr>fgHeap := h\<rparr>, flWaiting := xs @ ys, flAnswers := (k, ans) # flAnswers s\<rparr>"
    by (simp add: s'_def leave_def g')
  note fr = leave_frame [OF inv w ans a]
  have c: "cancelled_at s' = cancelled_at s"
  proof (rule HOL.ext)
    fix t
    show "cancelled_at s' t = cancelled_at s t"
    proof (cases "h t")
      case None
      then have "fgHeap (flGroup s) t = None" using h(1) by (metis domIff)
      with None show ?thesis by (simp add: a cancelled_at_def)
    next
      case (Some tr)
      with h(2) show ?thesis by (fastforce simp: a cancelled_at_def)
    qed
  qed
  show ?thesis unfolding flight_inv_def s'_def [symmetric]
  proof (intro conjI)
    have "tracked_ok inflight s' k' t" if k': "fgTrackers (flGroup s) k' = Some t" for k' t
    proof (rule tracked_ok_mono [OF inv_trackedD [OF i(1) k']])
      fix tr
      assume tr: "fgHeap (flGroup s) t = Some tr" "1 \<le> trListeners tr"
      then have "\<not> trCancelled tr" using i(2) unfolding inv_counts_def by fastforce
      moreover obtain tr' where "h t = Some tr'" using h(1) tr(1) by (metis domD domI)
      ultimately show "\<exists>tr. fgHeap (flGroup s') t = Some tr \<and> 1 \<le> trListeners tr"
        using h(2) tr(1) by (fastforce simp: a)
    qed (simp_all add: a)
    then show "inv_tracked inflight s'" unfolding inv_tracked_def by (simp add: a)
    show "inv_counts s'" using i(2) h(2) unfolding inv_counts_def by (fastforce simp: a)
    show "inv_waiting s'"
      by (rule inv_waiting_mono [OF fr(4) i(3)]) (use h(1) in \<open>auto simp: a w dom_def\<close>)
    show "inv_idle inflight s'" using i(4) unfolding inv_idle_def by (simp add: a)
    show "inv_live s'" using i(5) unfolding inv_live_def c by (simp add: a)
    show "inv_single s'" using i(6) unfolding inv_single_def c by (simp add: a)
  qed (use fr h(1) in simp_all)
qed

lemma leave_last:
  assumes inv: "flight_inv inflight s" and w: "flWaiting s = xs @ (k, tk) # ys" and ans: "answer_ok s k ans"
    and t: "tkTracker tk = Some t" "fgHeap (flGroup s) t = Some tr" "trListeners tr - 1 \<le> 0"
  shows "flight_inv inflight (leave S k tk (xs @ ys) ans s)"
proof -
  let ?g = "flGroup s"
  have i: "inv_tracked inflight s" "inv_counts s" "inv_waiting s" "inv_idle inflight s" "inv_live s" "inv_single s"
    using inv by (simp_all add: flight_inv_def)
  define T where "T = (if fgTrackers ?g k = Some t then (fgTrackers ?g)(k := None) else fgTrackers ?g)"
  define tr1 where "tr1 = tr\<lparr>trListeners := trListeners tr - 1, trCancelled := True\<rparr>"
  define s' where "s' = leave S k tk (xs @ ys) ans s"
  have a: "s' = s\<lparr>flGroup := ?g\<lparr>fgHeap := (fgHeap ?g)(t \<mapsto> tr1), fgSf := Forget S k (fgSf ?g), fgTrackers := T\<rparr>,
      flWaiting := xs @ ys, flAnswers := (k, ans) # flAnswers s\<rparr>"
    using t by (simp add: s'_def leave_def fg_release_def T_def tr1_def Let_def)
  have fr: "inv_calls s'" "inv_results s'" "inv_answers s'" "calls_extend s s'"
    using leave_frame [OF inv w ans a] t(2) by (simp_all add: insert_absorb domI)
  have "trListeners tr = int (waiters t (flWaiting s))" using i(2) t(2) unfolding inv_counts_def by blast
  then have none: "waiters t (xs @ ys) = 0" and one: "trListeners tr = 1" using t(1,3) by (simp_all add: w)
  have held: "fgTrackers ?g k = Some t \<or> fgResults ?g k \<noteq> None"
    using i(3) t(1) w unfolding inv_waiting_def ticket_ok_def by fastforce
  have gone: "tkTracker (snd v) \<noteq> Some t" if "v \<in> set (xs @ ys)" for v using none that unfolding waiters_zero by blast
  have c: "cancelled_at s' t' = (t' = t \<or> cancelled_at s t')" for t' by (simp add: a cancelled_at_def tr1_def)
  have T: "T k' = Some t' \<longleftrightarrow> fgTrackers ?g k' = Some t' \<and> k' \<noteq> k" for k' t'
  proof (cases "fgTrackers ?g k = Some t")
    case True
    then show ?thesis by (simp add: T_def)
  next
    case False
    then have "fgTrackers ?g k = None" using held inv_trackedD [OF i(1), of k] unfolding tracked_ok_def by (cases "fgTrackers ?g k") auto
    with False show ?thesis by (auto simp: T_def)
  qed
  have at_k: "t' = t" if "fgTrackers ?g k = Some t'" for t'
    using held that inv_trackedD [OF i(1) that] unfolding tracked_ok_def by auto
  have own: "t' \<noteq> t" if other: "fgTrackers ?g k' = Some t'" "k' \<noteq> k" for k' t'
  proof
    assume "t' = t"
    obtain c1 where c1: "flCalls s c1 = Some \<lparr>clKey = k', clFn = FetchFor t', clState = Running\<rparr>"
      using inv_trackedD [OF i(1) other(1)] unfolding tracked_ok_def by blast
    obtain c2 cl2 where c2: "flCalls s c2 = Some cl2" "clKey cl2 = k" "clFn cl2 = FetchFor t"
      using i(3) t(1) w unfolding inv_waiting_def ticket_ok_def by fastforce
    have "inv_calls s" using inv by (simp add: flight_inv_def)
    from inv_callsD(4) [OF this c1 c2(1)] c1 c2 \<open>t' = t\<close> other(2) show False by auto
  qed
  show ?thesis unfolding flight_inv_def s'_def [symmetric]
  proof (intro conjI)
    have "tracked_ok inflight s' k' t'" if "fgTrackers ?g k' = Some t'" "k' \<noteq> k" for k' t'
      by (rule tracked_ok_mono [OF inv_trackedD [OF i(1) that(1)]]) (use own [OF that] that(2) in \<open>auto simp: a Forget_drops\<close>)
    then show "inv_tracked inflight s'" unfolding inv_tracked_def by (simp add: a T)
    have "waiters t' (flWaiting s) = waiters t' (xs @ ys)" if "t' \<noteq> t" for t' using that t(1) by (simp add: w)
    then show "inv_counts s'"
      using i(2) none one t(2) unfolding inv_counts_def a by (auto simp: tr1_def simp del: waiters_simps split: if_splits)
    show "inv_waiting s'"
    proof (rule inv_waiting_mono [OF fr(4) i(3)])
      fix k' tk' t'
      assume v: "(k', tk') \<in> set (flWaiting s')" "tkTracker tk' = Some t'" and
        old: "fgTrackers ?g k' = Some t' \<or> fgResults ?g k' \<noteq> None"
      from v gone have "t' \<noteq> t" by (fastforce simp: a)
      with old held T show "fgTrackers (flGroup s') k' = Some t' \<or> fgResults (flGroup s') k' \<noteq> None" by (auto simp: a)
    qed (auto simp: a w)
    show "inv_idle inflight s'"
      unfolding inv_idle_def using i(4) T [of _ "the (fgTrackers ?g _)"]
      by (auto simp: a Forget_drops inv_idle_def T_def split: if_splits)
    have "T (clKey cl) = Some t' \<or> fgResults ?g (clKey cl) \<noteq> None \<or> t' = t \<or> cancelled_at s t'"
      if "flCalls s c' = Some cl" "clState cl = Running" "clFn cl = FetchFor t'" for c' cl t'
      using inv_liveD [OF i(5) that] T at_k by metis
    then show "inv_live s'" unfolding inv_live_def c by (simp add: a)
    show "inv_single s'" using i(6) unfolding inv_single_def c by (simp add: a)
  qed (use fr in simp_all)
qed

lemma leave_inv:
  assumes inv: "flight_inv inflight s" and w: "flWaiting s = xs @ (k, tk) # ys" and ans: "answer_ok s k ans"
  shows "flight_inv inflight (leave S k tk (xs @ ys) ans s)"
proof (cases "tkTracker tk")
  case None
  have "fg_release S k (tkTracker tk) (flGroup s) = (flGroup s)\<lparr>fgHeap := fgHeap (flGroup s)\<rparr>" by (simp add: fg_release_def None)
  then show ?thesis
    by (rule leave_others [OF inv w ans]) (use inv w None in \<open>auto simp: flight_inv_def inv_counts_def\<close>)
next
  case (Some t)
  have "fgHeap (flGroup s) t \<noteq> None"
    using inv w Some unfolding flight_inv_def inv_waiting_def ticket_ok_def by fastforce
  then obtain tr where tr: "fgHeap (flGroup s) t = Some tr" by blast
  have counts: "inv_counts s" using inv by (simp add: flight_inv_def)
  show ?thesis
  proof (cases "trListeners tr - 1 \<le> 0")
    case True
    then show ?thesis by (rule leave_last [OF inv w ans Some tr])
  next
    case False
    have "fg_release S k (tkTracker tk) (flGroup s) = (flGroup s)\<lparr>fgHeap := (fgHeap (flGroup s))(t \<mapsto> tr\<lparr>trListeners := trListeners tr - 1\<rparr>)\<rparr>"
      using False by (simp add: fg_release_def Some tr Let_def)
    then show ?thesis
    proof (rule leave_others [OF inv w ans])
      fix t' tr'
      assume t': "((fgHeap (flGroup s))(t \<mapsto> tr\<lparr>trListeners := trListeners tr - 1\<rparr>)) t' = Some tr'"
      show "trListeners tr' = int (waiters t' (xs @ ys)) \<and> (trCancelled tr' \<longleftrightarrow> trListeners tr' \<le> 0) \<and>
          (\<exists>tr0. fgHeap (flGroup s) t' = Some tr0 \<and> trCancelled tr0 = trCancelled tr')"
        using counts t' False tr Some unfolding inv_counts_def by (cases "t' = t") (auto simp: w)
    qed (use tr in auto)
  qed
qed

text \<open>What a fragment receives is the outcome of a fetch of its URL.\<close>

lemma received_answer:
  assumes inv: "flight_inv inflight s" and w: "flWaiting s = xs @ (k, tk) # ys" and r: "received s (tkChan tk) = Some (v, err)"
  shows "answer_ok s k (flight_outcome v err)"
proof -
  have i: "inv_waiting s" "inv_calls s" using inv by (simp_all add: flight_inv_def)
  have ok: "ticket_ok s k tk" using i(1) w unfolding inv_waiting_def by force
  show ?thesis
  proof (cases "tkTracker tk")
    case None
    with ok obtain out where "produced s k out" "tkChan tk = Ready (Raw (fst (flight_fetch out))) (snd (flight_fetch out))"
      by (auto simp: ticket_ok_def)
    with r show ?thesis by (auto simp: answer_ok_def received_def outcome_of_fetch)
  next
    case (Some t)
    with ok obtain c cl where c: "tkChan tk = OfCall c" "flCalls s c = Some cl" "clKey cl = k" by (auto simp: ticket_ok_def)
    with r have st: "clState cl = Served v err" by (auto simp: received_def split: call_state.splits)
    with inv_callsD(1) [OF i(2) c(2)] obtain out where out: "ended (clState cl) out" by (auto simp: call_ok_def)
    then have "v = Raw (fst (flight_fetch out))" "err = snd (flight_fetch out)" using st by (auto simp: ended_def split: prod.splits)
    moreover have "produced s k out" using c out by (auto simp: produced_def)
    ultimately show ?thesis by (auto simp: answer_ok_def outcome_of_fetch)
  qed
qed

lemma flight_step_inv: "flight_step S s s' \<Longrightarrow> flight_inv inflight s \<Longrightarrow> flight_inv inflight s'"
proof (induction rule: flight_step.induct)
  case (fragment_arrives s key)
  then show ?case
    using arrive_known arrive_new arrive_joins by (cases "fgResults (flGroup s) key"; cases "fgTrackers (flGroup s) key") auto
next
  case (fetch_ends s c cl out)
  then show ?case using fetch_returns_inv by blast
next
  case (channels_served s c cl v err)
  then show ?case using serve_call_inv by blast
next
  case (fragment_receives s xs key tk ys v err)
  then show ?case using leave_inv received_answer by blast
next
  case (fragment_gives_up s xs key tk ys why)
  then show ?case by (intro leave_inv) (auto simp: answer_ok_def)
qed

lemma flights_inv:
  assumes "flights_reachable S sf0 s" and "inflight sf0 = (\<lambda>_. None)"
  shows "flight_inv inflight s"
  using assms(1)
proof (induction rule: flights_reachable.induct)
  case at_start
  show ?case by (rule inv_start) (rule assms(2))
next
  case (after_step s s')
  show ?case by (rule flight_step_inv [OF after_step.hyps(2) after_step.IH])
qed

end

end
