(* ===== verification/EsiFlightProps.thy ===== *)
theory EsiFlightProps
  imports EsiFlightInv
begin

text \<open>
  What the flight group promises to the fragments of a page, over all interleavings, and where an
  abandoned fetch is not isolated from later fragments. A reference singleflight shows that
  \<open>singleflight_laws\<close> can hold.
\<close>

section \<open>A reference singleflight\<close>

definition ref_singleflight :: "(bytes \<rightharpoonup> nat) singleflight" where
  "ref_singleflight = \<lparr>DoChan = (\<lambda>k c q. case q k of None \<Rightarrow> (c, q(k \<mapsto> c)) | Some c0 \<Rightarrow> (c0, q)), Forget = (\<lambda>k q. q(k := None)),
     CallDone = (\<lambda>k c q. if q k = Some c then q(k := None) else q)\<rparr>"

interpretation rsf: singleflight_laws ref_singleflight "\<lambda>q. q"
  by unfold_locales (simp_all add: ref_singleflight_def)

text \<open>Two runs: two fragments share a fetch; a fragment gives up and another one comes before the first fetch returns.\<close>

lemmas flight_eval = arrive_def leave_def fetch_returns_def serve_call_def fg_do_def fg_release_def fg_record_def no_flights_def
  newFlightGroup_def ref_singleflight_def flight_fetch_def Let_def

definition ticket0 :: ticket where
  "ticket0 = \<lparr>tkTracker = Some 0, tkChan = OfCall 0\<rparr>"

definition page_result :: rawFetchResult where
  "page_result = \<lparr>rawBody = ''hello'', rawCookies = []\<rparr>"

definition shared_start :: "(bytes \<rightharpoonup> nat) flights" where
  "shared_start = serve_call ref_singleflight 0 \<lparr>clKey = ''/a'', clFn = FetchFor 0, clState = Returned (Raw (Some page_result)) None\<rparr>
     (Raw (Some page_result)) None
     (fetch_returns 0 (Inr page_result) (arrive ref_singleflight ''/a'' (arrive ref_singleflight ''/a'' (no_flights (\<lambda>_. None)))))"

definition shared_run :: "(bytes \<rightharpoonup> nat) flights" where
  "shared_run = leave ref_singleflight ''/a'' ticket0 [] (Inr (Some page_result))
     (leave ref_singleflight ''/a'' ticket0 [(''/a'', ticket0)] (Inr (Some page_result)) shared_start)"

definition restarted_run :: "(bytes \<rightharpoonup> nat) flights" where
  "restarted_run = arrive ref_singleflight ''/a''
     (leave ref_singleflight ''/a'' ticket0 [] (Inl ''context deadline exceeded'')
       (arrive ref_singleflight ''/a'' (no_flights (\<lambda>_. None))))"

lemma restarted_run_reachable: "flights_reachable ref_singleflight (\<lambda>_. None) restarted_run"
proof -
  let ?s1 = "arrive ref_singleflight ''/a'' (no_flights (\<lambda>_. None))"
  have "flWaiting ?s1 = [] @ (''/a'', ticket0) # []" by (simp add: flight_eval ticket0_def)
  then have "flight_step ref_singleflight ?s1 (leave ref_singleflight ''/a'' ticket0 ([] @ []) (Inl ''context deadline exceeded'') ?s1)"
    by (rule fragment_gives_up) (simp add: context_errors_def)
  then have step: "flight_step ref_singleflight ?s1 (leave ref_singleflight ''/a'' ticket0 [] (Inl ''context deadline exceeded'') ?s1)"
    by simp
  show ?thesis
    unfolding restarted_run_def
    by (rule after_step [OF after_step [OF after_step [OF at_start fragment_arrives] step] fragment_arrives])
qed

lemma shared_start_reachable: "flights_reachable ref_singleflight (\<lambda>_. None) shared_start"
proof -
  let ?s2 = "arrive ref_singleflight ''/a'' (arrive ref_singleflight ''/a'' (no_flights (\<lambda>_. None)))"
  let ?s3 = "fetch_returns 0 (Inr page_result) ?s2"
  let ?cl = "\<lparr>clKey = ''/a'', clFn = FetchFor 0, clState = Returned (Raw (Some page_result)) None\<rparr>"
  have r2: "flights_reachable ref_singleflight (\<lambda>_. None) ?s2" by (intro after_step [OF _ fragment_arrives] at_start)
  have "flCalls ?s2 0 = Some \<lparr>clKey = ''/a'', clFn = FetchFor 0, clState = Running\<rparr>" by (simp add: flight_eval)
  then have r3: "flights_reachable ref_singleflight (\<lambda>_. None) ?s3" by (rule after_step [OF r2 fetch_ends]) simp
  have "flCalls ?s3 0 = Some ?cl" by (simp add: flight_eval)
  then show ?thesis unfolding shared_start_def by (rule after_step [OF r3 channels_served]) simp
qed

lemma shared_run_reachable: "flights_reachable ref_singleflight (\<lambda>_. None) shared_run"
proof -
  let ?s5 = "leave ref_singleflight ''/a'' ticket0 [(''/a'', ticket0)] (Inr (Some page_result)) shared_start"
  have out: "flight_outcome (Raw (Some page_result)) None = Inr (Some page_result)" by (simp add: flight_outcome_def)
  have "flWaiting shared_start = [] @ (''/a'', ticket0) # [(''/a'', ticket0)]" by (simp add: shared_start_def flight_eval ticket0_def)
  from fragment_receives [OF this, of "Raw (Some page_result)" None ref_singleflight]
  have "flight_step ref_singleflight shared_start ?s5"
    by (simp add: out received_def ticket0_def shared_start_def flight_eval)
  then have r5: "flights_reachable ref_singleflight (\<lambda>_. None) ?s5" by (rule after_step [OF shared_start_reachable])
  have "flWaiting ?s5 = [] @ (''/a'', ticket0) # []" by (simp add: leave_def)
  from fragment_receives [OF this, of "Raw (Some page_result)" None ref_singleflight]
  have "flight_step ref_singleflight ?s5 shared_run"
    unfolding shared_run_def by (simp add: out received_def ticket0_def shared_start_def flight_eval)
  then show ?thesis by (rule after_step [OF r5])
qed

lemma shared_run_answers: "flAnswers shared_run = [(''/a'', Inr (Some page_result)), (''/a'', Inr (Some page_result))]"
  by (simp add: shared_run_def shared_start_def flight_eval ticket0_def)

lemma ticket_progress:
  assumes "ticket_ok s k tk"
  shows "received s (tkChan tk) \<noteq> None \<or>
    (\<exists>c cl. tkChan tk = OfCall c \<and> flCalls s c = Some cl \<and> clKey cl = k \<and> (clState cl = Running \<or> (\<exists>v err. clState cl = Returned v err)))"
  using assms by (auto simp: ticket_ok_def received_def split: option.splits call_state.splits)

section \<open>Properties\<close>

text \<open>
  Property C19. However the fragments of a page that include one URL arrive, give up and receive their
  results, and however late its fetches return, at most one fetch of the URL that is not cancelled is
  running.
\<close>

theorem one_fetch_per_url:
  assumes "singleflight_laws S inflight" and "inflight sf0 = (\<lambda>_. None)" and "flights_reachable S sf0 s"
    and "flCalls s c = Some \<lparr>clKey = k, clFn = FetchFor t, clState = Running\<rparr>" and "\<not> cancelled_at s t"
    and "flCalls s c' = Some \<lparr>clKey = k, clFn = FetchFor t', clState = Running\<rparr>" and "\<not> cancelled_at s t'"
  shows "c = c'"
proof -
  have "inv_single s"
    using singleflight_laws.flights_inv [OF assms(1,3,2)] by (simp add: flight_inv_def)
  then show ?thesis using assms(4-7) unfolding inv_single_def by (metis flight_call.select_convs)
qed

theorem one_fetch_per_url_witness:
  "flights_reachable ref_singleflight (\<lambda>_. None) restarted_run \<and> cancelled_at restarted_run 0 \<and> \<not> cancelled_at restarted_run 1 \<and>
   flCalls restarted_run 0 = Some \<lparr>clKey = ''/a'', clFn = FetchFor 0, clState = Running\<rparr> \<and>
   flCalls restarted_run 1 = Some \<lparr>clKey = ''/a'', clFn = FetchFor 1, clState = Running\<rparr> \<and>
   {c. flCalls restarted_run c = Some \<lparr>clKey = ''/a'', clFn = FetchFor 1, clState = Running\<rparr>} = {1}"
proof -
  have run: "flCalls restarted_run 0 = Some \<lparr>clKey = ''/a'', clFn = FetchFor 0, clState = Running\<rparr>"
    "flCalls restarted_run 1 = Some \<lparr>clKey = ''/a'', clFn = FetchFor 1, clState = Running\<rparr>"
    "cancelled_at restarted_run 0" "\<not> cancelled_at restarted_run 1"
    by (simp_all add: restarted_run_def flight_eval cancelled_at_def ticket0_def)
  have only: "c = 1" if "flCalls restarted_run c = Some \<lparr>clKey = ''/a'', clFn = FetchFor 1, clState = Running\<rparr>" for c
    by (rule one_fetch_per_url [OF rsf.singleflight_laws_axioms refl restarted_run_reachable that run(4) run(2,4)])
  from only run(2) have "{c. flCalls restarted_run c = Some \<lparr>clKey = ''/a'', clFn = FetchFor 1, clState = Running\<rparr>} = {1}" by blast
  then show ?thesis by (intro conjI run restarted_run_reachable)
qed

text \<open>
  Property C20. A fragment is only ever answered with the outcome of a fetch of its own URL, or with
  the error of its own context; a fragment that waits has its result at hand, or a fetch of its URL
  that it waits for is still to be served. The empty function of those that join a fetch never runs.
\<close>

theorem flight_answers:
  assumes "singleflight_laws S inflight" and "inflight sf0 = (\<lambda>_. None)" and "flights_reachable S sf0 s"
  shows "(\<forall>(k, ans) \<in> set (flAnswers s). (\<exists>why \<in> context_errors. ans = Inl why) \<or>
      (\<exists>c cl out. flCalls s c = Some cl \<and> clKey cl = k \<and> ended (clState cl) out \<and> ans = map_sum (\<lambda>e. e) Some out)) \<and>
    (\<forall>(k, tk) \<in> set (flWaiting s). received s (tkChan tk) \<noteq> None \<or>
      (\<exists>c cl. tkChan tk = OfCall c \<and> flCalls s c = Some cl \<and> clKey cl = k \<and> (clState cl = Running \<or> (\<exists>v err. clState cl = Returned v err)))) \<and>
    (\<forall>cl \<in> ran (flCalls s). clFn cl \<noteq> EmptyFn)"
proof -
  have inv: "inv_answers s" "inv_waiting s" "inv_calls s"
    using singleflight_laws.flights_inv [OF assms(1,3,2)] by (simp_all add: flight_inv_def)
  have "\<forall>(k, ans) \<in> set (flAnswers s). (\<exists>why \<in> context_errors. ans = Inl why) \<or>
      (\<exists>c cl out. flCalls s c = Some cl \<and> clKey cl = k \<and> ended (clState cl) out \<and> ans = map_sum (\<lambda>e. e) Some out)"
    using inv(1) unfolding inv_answers_def answer_ok_def produced_def by fastforce
  moreover have "\<forall>(k, tk) \<in> set (flWaiting s). received s (tkChan tk) \<noteq> None \<or>
      (\<exists>c cl. tkChan tk = OfCall c \<and> flCalls s c = Some cl \<and> clKey cl = k \<and> (clState cl = Running \<or> (\<exists>v err. clState cl = Returned v err)))"
    using inv(2) ticket_progress unfolding inv_waiting_def by fastforce
  moreover have "\<forall>cl \<in> ran (flCalls s). clFn cl \<noteq> EmptyFn"
    using inv_callsD(3) [OF inv(3)] unfolding ran_def by fastforce
  ultimately show ?thesis by blast
qed

theorem flight_answers_witness:
  "flights_reachable ref_singleflight (\<lambda>_. None) shared_run \<and>
   flAnswers shared_run = [(''/a'', Inr (Some page_result)), (''/a'', Inr (Some page_result))] \<and>
   (\<exists>c cl out. flCalls shared_run c = Some cl \<and> clKey cl = ''/a'' \<and> ended (clState cl) out \<and>
      Inr (Some page_result) = map_sum (\<lambda>e. e) Some out)"
proof -
  have ans: "(''/a'', Inr (Some page_result)) \<in> set (flAnswers shared_run)" by (simp add: shared_run_answers)
  have "(\<exists>why \<in> context_errors. Inr (Some page_result) = Inl why) \<or>
      (\<exists>c cl out. flCalls shared_run c = Some cl \<and> clKey cl = ''/a'' \<and> ended (clState cl) out \<and>
         Inr (Some page_result) = map_sum (\<lambda>e. e) Some out)"
    using flight_answers [OF rsf.singleflight_laws_axioms refl shared_run_reachable] ans by fast
  then show ?thesis using shared_run_reachable shared_run_answers by simp
qed

section \<open>An abandoned fetch\<close>

text \<open>
  The error of a fetch that was cancelled because everybody had given up is recorded like a result:
  a fragment with the same URL that comes later, with time left, is answered with it and starts no
  fetch of its own.
\<close>

lemma abandoned_fetch_fails_later:
  "\<exists>s. flights_reachable ref_singleflight (\<lambda>_. None) s \<and> flWaiting s = [] \<and> flNextCall s = 2 \<and> dom (flCalls s) = {0} \<and>
     flAnswers s = [(''/a'', Inl ''context canceled''), (''/a'', Inl ''context deadline exceeded'')]"
proof (intro exI conjI)
  let ?S = ref_singleflight
  let ?s1 = "arrive ?S ''/a'' (no_flights (\<lambda>_. None))"
  let ?tk1 = "\<lparr>tkTracker = Some 0, tkChan = OfCall 0\<rparr>"
  let ?s2 = "leave ?S ''/a'' ?tk1 ([] @ []) (Inl ''context deadline exceeded'') ?s1"
  let ?s3 = "fetch_returns 0 (Inl ''context canceled'') ?s2"
  let ?s4 = "arrive ?S ''/a'' ?s3"
  let ?tk2 = "\<lparr>tkTracker = None, tkChan = Ready (Raw None) (Some ''context canceled'')\<rparr>"
  let ?s5 = "leave ?S ''/a'' ?tk2 ([] @ []) (flight_outcome (Raw None) (Some ''context canceled'')) ?s4"
  have r1: "flights_reachable ?S (\<lambda>_. None) ?s1" by (rule after_step [OF at_start fragment_arrives])
  have "flWaiting ?s1 = [] @ (''/a'', ?tk1) # []" by (simp add: flight_eval)
  then have r2: "flights_reachable ?S (\<lambda>_. None) ?s2"
    by (rule after_step [OF r1 fragment_gives_up]) (simp add: context_errors_def)
  have "flCalls ?s2 0 = Some \<lparr>clKey = ''/a'', clFn = FetchFor 0, clState = Running\<rparr>" by (simp add: flight_eval)
  then have r3: "flights_reachable ?S (\<lambda>_. None) ?s3" by (rule after_step [OF r2 fetch_ends]) simp
  have r4: "flights_reachable ?S (\<lambda>_. None) ?s4" by (rule after_step [OF r3 fragment_arrives])
  have "flWaiting ?s4 = [] @ (''/a'', ?tk2) # []" by (simp add: flight_eval)
  then show "flights_reachable ?S (\<lambda>_. None) ?s5"
    by (rule after_step [OF r4 fragment_receives]) (simp add: received_def)
  show "flWaiting ?s5 = []" "flNextCall ?s5 = 2" "dom (flCalls ?s5) = {0}"
    "flAnswers ?s5 = [(''/a'', Inl ''context canceled''), (''/a'', Inl ''context deadline exceeded'')]"
    by (simp_all add: flight_eval flight_outcome_def)
qed

text \<open>
  A cancelled fetch that returns late takes the tracker of the fetch started in its place out of the
  table: a fragment that comes then gets the stale cancellation at once, while that fetch is running.
\<close>

lemma late_fetch_fails_later:
  "\<exists>s. flights_reachable ref_singleflight (\<lambda>_. None) s \<and> \<not> cancelled_at s 1 \<and>
     flCalls s 1 = Some \<lparr>clKey = ''/a'', clFn = FetchFor 1, clState = Running\<rparr> \<and>
     hd (flWaiting s) = (''/a'', \<lparr>tkTracker = None, tkChan = Ready (Raw None) (Some ''context canceled'')\<rparr>)"
proof (intro exI conjI)
  let ?s = "arrive ref_singleflight ''/a'' (fetch_returns 0 (Inl ''context canceled'') restarted_run)"
  have "flCalls restarted_run 0 = Some \<lparr>clKey = ''/a'', clFn = FetchFor 0, clState = Running\<rparr>"
    by (simp add: restarted_run_def flight_eval ticket0_def)
  then have "flights_reachable ref_singleflight (\<lambda>_. None) (fetch_returns 0 (Inl ''context canceled'') restarted_run)"
    by (rule after_step [OF restarted_run_reachable fetch_ends]) simp
  then show "flights_reachable ref_singleflight (\<lambda>_. None) ?s" by (rule after_step [OF _ fragment_arrives])
  show "\<not> cancelled_at ?s 1" "flCalls ?s 1 = Some \<lparr>clKey = ''/a'', clFn = FetchFor 1, clState = Running\<rparr>"
    "hd (flWaiting ?s) = (''/a'', \<lparr>tkTracker = None, tkChan = Ready (Raw None) (Some ''context canceled'')\<rparr>)"
    by (simp_all add: restarted_run_def flight_eval ticket0_def cancelled_at_def)
qed

end
