(* ===== verification/EsiRunner.thy ===== *)
theory EsiRunner
  imports EsiProcess
begin

text \<open>
  Model of the concurrent part of \<^verbatim>\<open>executeFragments\<close> in \<^verbatim>\<open>src/esi/processor.go\<close>: the loop that starts a
  goroutine per fragment, \<^verbatim>\<open>fragmentRunner.exec\<close> with its semaphore, and the results that the
  goroutines write. \<open>runner_step\<close> interleaves them. What a fragment is answered may depend on the
  schedule, through the flight group that fragments with the same URL share (theory \<open>EsiFlight\<close>) and
  through the clock: \<open>exec c f\<close> is the result of fragment \<open>f\<close> under the circumstances \<open>c\<close>, and a step
  that finishes a fragment may take any \<open>c\<close>.
\<close>

section \<open>The runner\<close>

fun hasDuplicateURLs :: "EsiFragment list \<Rightarrow> bool" where
  "hasDuplicateURLs [] \<longleftrightarrow> False"
| "hasDuplicateURLs (f # fs) \<longleftrightarrow> Src f \<noteq> [] \<and> (\<exists>g \<in> set fs. Src f = Src g) \<or> hasDuplicateURLs fs"

definition maxWorkers :: "esi_config \<Rightarrow> nat" where
  "maxWorkers p = (if maxConcurrentRequests p \<le> 0 then 8 else nat (maxConcurrentRequests p))"

text \<open>The capacity of the semaphore, when there is one.\<close>

definition sem_capacity :: "esi_config \<Rightarrow> nat \<Rightarrow> nat option" where
  "sem_capacity p n = (if n > maxWorkers p then Some (maxWorkers p) else None)"

text \<open>
  The index of the loop, goroutines that wait for the semaphore, goroutines at work, and the results.
  The last fragment is executed by the calling goroutine, which waits and works like the others.
\<close>

record 'r runner =
  rNext :: nat
  rBlocked :: "nat list"
  rWorking :: "nat list"
  rResults :: "'r list"

definition runner_start :: "'r \<Rightarrow> EsiFragment list \<Rightarrow> 'r runner" where
  "runner_start zero fs = \<lparr>rNext = 0, rBlocked = [], rWorking = [], rResults = replicate (length fs) zero\<rparr>"

inductive runner_step :: "nat option \<Rightarrow> ('c \<Rightarrow> EsiFragment \<Rightarrow> 'r) \<Rightarrow> EsiFragment list \<Rightarrow> 'r runner \<Rightarrow> 'r runner \<Rightarrow> bool" for cap exec fs where
  inlined: "rNext s = i \<Longrightarrow> i < length fs \<Longrightarrow> Src (fs ! i) = [] \<Longrightarrow>
    runner_step cap exec fs s (s\<lparr>rNext := Suc i, rResults := (rResults s)[i := exec c (fs ! i)]\<rparr>)"
| spawned: "rNext s = i \<Longrightarrow> i < length fs \<Longrightarrow> Src (fs ! i) \<noteq> [] \<Longrightarrow>
    runner_step cap exec fs s (s\<lparr>rNext := Suc i, rBlocked := i # rBlocked s\<rparr>)"
| acquires: "rBlocked s = xs @ i # ys \<Longrightarrow> (case cap of None \<Rightarrow> True | Some c \<Rightarrow> length (rWorking s) < c) \<Longrightarrow>
    runner_step cap exec fs s (s\<lparr>rBlocked := xs @ ys, rWorking := i # rWorking s\<rparr>)"
| finishes: "rWorking s = xs @ i # ys \<Longrightarrow>
    runner_step cap exec fs s (s\<lparr>rWorking := xs @ ys, rResults := (rResults s)[i := exec c (fs ! i)]\<rparr>)"

inductive_simps runner_step_simps: "runner_step cap exec fs s s'"

text \<open>What the caller returns after \<^verbatim>\<open>wg.Wait\<close>: the results and, in the order of the page, their cookies.\<close>

definition runner_return :: "fragmentResult runner \<Rightarrow> fragmentResult list \<times> bytes list" where
  "runner_return s = (rResults s, concat (map fCookies (rResults s)))"

definition runner_done :: "EsiFragment list \<Rightarrow> 'r runner \<Rightarrow> bool" where
  "runner_done fs s \<longleftrightarrow> rNext s = length fs \<and> rBlocked s = [] \<and> rWorking s = []"

section \<open>Invariant\<close>

definition runner_inv :: "nat option \<Rightarrow> ('c \<Rightarrow> EsiFragment \<Rightarrow> 'r) \<Rightarrow> EsiFragment list \<Rightarrow> 'r runner \<Rightarrow> bool" where
  "runner_inv cap exec fs s \<longleftrightarrow> rNext s \<le> length fs \<and> length (rResults s) = length fs \<and> distinct (rBlocked s @ rWorking s) \<and>
     set (rBlocked s @ rWorking s) \<subseteq> {..<rNext s} \<and>
     (\<forall>i < rNext s. i \<notin> set (rBlocked s @ rWorking s) \<longrightarrow> (\<exists>c. rResults s ! i = exec c (fs ! i))) \<and>
     (case cap of None \<Rightarrow> True | Some c \<Rightarrow> length (rWorking s) \<le> c)"

lemma runner_inv_start: "runner_inv cap exec fs (runner_start zero fs)"
  by (simp add: runner_inv_def runner_start_def split: option.split)

lemma runner_step_inv: "runner_step cap exec fs s s' \<Longrightarrow> runner_inv cap exec fs s \<Longrightarrow> runner_inv cap exec fs s'"
proof (induction rule: runner_step.induct)
  case (inlined s i c)
  then show ?case by (auto simp: runner_inv_def less_Suc_eq nth_list_update split: option.splits)
next
  case (spawned s i)
  then show ?case by (auto simp: runner_inv_def less_Suc_eq split: option.splits)
next
  case (acquires s xs i ys)
  then show ?case by (auto simp: runner_inv_def split: option.splits)
next
  case (finishes s xs i ys c)
  then show ?case by (auto simp: runner_inv_def nth_list_update split: option.splits)
qed

text \<open>Every step brings the end nearer.\<close>

definition runner_work :: "EsiFragment list \<Rightarrow> 'r runner \<Rightarrow> nat" where
  "runner_work fs s = 3 * (length fs - rNext s) + 2 * length (rBlocked s) + length (rWorking s)"

lemma runner_step_work: "runner_step cap exec fs s s' \<Longrightarrow> runner_work fs s' < runner_work fs s"
  by (induction rule: runner_step.induct) (auto simp: runner_work_def)

lemma runner_progress:
  assumes "\<not> runner_done fs s" "runner_inv cap exec fs s" "cap \<noteq> Some 0"
  shows "\<exists>s'. runner_step cap exec fs s s'"
proof (cases "rWorking s")
  case (Cons i ys)
  then show ?thesis using finishes [of s "[]" i ys cap exec fs undefined] by (intro exI) simp
next
  case Nil
  show ?thesis
  proof (cases "rBlocked s")
    case (Cons i ys)
    have "case cap of None \<Rightarrow> True | Some c \<Rightarrow> length (rWorking s) < c" using assms(3) Nil by (cases cap) auto
    then show ?thesis using acquires [of s "[]" i ys cap] Cons by auto
  next
    case N: Nil
    then have "rNext s < length fs" using assms(1,2) Nil by (auto simp: runner_done_def runner_inv_def)
    then show ?thesis by (cases "Src (fs ! rNext s) = []") (meson inlined spawned)+
  qed
qed

lemma runner_reaches_inv: "(runner_step cap exec fs)\<^sup>*\<^sup>* s s' \<Longrightarrow> runner_inv cap exec fs s \<Longrightarrow> runner_inv cap exec fs s'"
  by (induction rule: rtranclp_induct) (auto intro: runner_step_inv)

lemma working_bounded:
  assumes "runner_inv cap exec fs s" "cap = sem_capacity p (length fs)"
  shows "length (rWorking s) \<le> maxWorkers p"
proof (cases "length fs > maxWorkers p")
  case True
  then show ?thesis using assms by (simp add: sem_capacity_def runner_inv_def)
next
  case False
  have "length (rWorking s) = card (set (rWorking s))" using assms(1) by (simp add: runner_inv_def distinct_card)
  also have "\<dots> \<le> card {..<length fs}" using assms(1) by (intro card_mono) (auto simp: runner_inv_def)
  finally show ?thesis using False by simp
qed

lemma map2_second: "length cs = length fs \<Longrightarrow> map2 (\<lambda>c. g) cs fs = map g fs"
  by (intro nth_equalityI) simp_all

lemma done_results:
  assumes "runner_inv cap exec fs s" and "runner_done fs s"
  shows "\<exists>cs. length cs = length fs \<and> rResults s = map2 exec cs fs"
proof -
  have "\<forall>i. \<exists>c. i < length fs \<longrightarrow> rResults s ! i = exec c (fs ! i)" and l: "length (rResults s) = length fs"
    using assms by (auto simp: runner_inv_def runner_done_def)
  then obtain c where "\<forall>i < length fs. rResults s ! i = exec (c i) (fs ! i)" by metis
  with l have "rResults s = map2 exec (map c [0..<length fs]) fs" by (intro nth_equalityI) auto
  then show ?thesis by (intro exI [of _ "map c [0..<length fs]"]) simp
qed

lemma hasDuplicateURLs_distinct: "hasDuplicateURLs fs \<longleftrightarrow> \<not> distinct (filter (\<lambda>u. u \<noteq> []) (map Src fs))"
  by (induction fs) auto

text \<open>Two includes of which the second is finished first.\<close>

definition include_of :: "bytes \<Rightarrow> EsiFragment" where
  "include_of u = \<lparr>StartPos = 0, EndPos = 0, Src = u, Alt = [], OnError = [], MaxDepth = 0, TimeoutMs = 0, InnerStartPos = 0, InnerEndPos = 0\<rparr>"

definition two_includes :: "EsiFragment list" where
  "two_includes = [include_of ''/f'', include_of ''/g'']"

definition both_finished :: "'r \<Rightarrow> 'r \<Rightarrow> 'r runner" where
  "both_finished f g = \<lparr>rNext = 2, rBlocked = [], rWorking = [], rResults = [f, g]\<rparr>"

lemma two_includes_run:
  "(runner_step None exec two_includes ^^ 6) (runner_start zero two_includes)
     (both_finished (exec c (include_of ''/f'')) (exec c' (include_of ''/g'')))"
proof -
  let ?step = "runner_step None exec two_includes" and ?s = "\<lambda>n b w r. \<lparr>rNext = n, rBlocked = b, rWorking = w, rResults = r\<rparr>"
  let ?f = "exec c (include_of ''/f'')" and ?g = "exec c' (include_of ''/g'')"
  have 1: "?step (runner_start zero two_includes) (?s 1 [0] [] [zero, zero])"
    using spawned [of "runner_start zero two_includes" 0 two_includes None exec]
    by (simp add: runner_start_def two_includes_def include_of_def)
  have 2: "?step (?s 1 [0] [] [zero, zero]) (?s 2 [1, 0] [] [zero, zero])"
    using spawned [of "?s 1 [0] [] [zero, zero]" 1 two_includes None exec] by (simp add: two_includes_def include_of_def numeral_2_eq_2)
  have 3: "?step (?s 2 [1, 0] [] [zero, zero]) (?s 2 [0] [1] [zero, zero])"
    using acquires [of "?s 2 [1, 0] [] [zero, zero]" "[]" 1 "[0]" None exec two_includes] by simp
  have 4: "?step (?s 2 [0] [1] [zero, zero]) (?s 2 [0] [] [zero, ?g])"
    using finishes [of "?s 2 [0] [1] [zero, zero]" "[]" 1 "[]" None exec two_includes c'] by (simp add: two_includes_def)
  have 5: "?step (?s 2 [0] [] [zero, ?g]) (?s 2 [] [0] [zero, ?g])"
    using acquires [of "?s 2 [0] [] [zero, ?g]" "[]" 0 "[]" None exec two_includes] by simp
  have 6: "?step (?s 2 [] [0] [zero, ?g]) (both_finished ?f ?g)"
    using finishes [of "?s 2 [] [0] [zero, ?g]" "[]" 0 "[]" None exec two_includes c] by (simp add: two_includes_def both_finished_def)
  from 1 2 3 4 5 6 show ?thesis by (simp add: eval_nat_numeral relpowp.simps relcompp_apply) metis
qed

lemma two_includes_sem: "sem_capacity demo_esi (length two_includes) = None"
  by (simp add: sem_capacity_def maxWorkers_def demo_esi_def default_esi_config_def two_includes_def)

section \<open>Properties\<close>

text \<open>
  Property C21. Whatever the order in which the goroutines of a page get the semaphore and finish, and
  whatever the flight group and the clock let each of them be answered, a finished page has in the
  place of every fragment the result of executing that very fragment under its own circumstances,
  with the cookies in the order of the page; where the circumstances make no difference, it is the
  result of executing the fragments one after the other.
\<close>

theorem runner_results_in_place:
  assumes "(runner_step (sem_capacity p (length fs)) (\<lambda>c f. executeFragment env p (fetch c) (alt_in_time c) parentBody f st) fs)\<^sup>*\<^sup>*
      (runner_start zero fs) s"
    and "runner_done fs s"
  shows "(\<exists>cs. length cs = length fs \<and>
      fst (runner_return s) = map2 (\<lambda>c f. executeFragment env p (fetch c) (alt_in_time c) parentBody f st) cs fs \<and>
      snd (runner_return s) =
        concat (map2 (\<lambda>c f. fCookies (executeFragment env p (fetch c) (alt_in_time c) parentBody f st)) cs fs)) \<and>
    ((\<forall>c. fetch c = fetch0 \<and> alt_in_time c = alt0) \<longrightarrow>
      runner_return s = executeFragments env p fetch0 alt0 parentBody fs st)"
proof -
  let ?exec = "\<lambda>c f. executeFragment env p (fetch c) (alt_in_time c) parentBody f st"
  obtain cs where cs: "length cs = length fs" "rResults s = map2 ?exec cs fs"
    using done_results [OF runner_reaches_inv [OF assms(1) runner_inv_start] assms(2)] by blast
  have "runner_return s = executeFragments env p fetch0 alt0 parentBody fs st" if "\<forall>c. fetch c = fetch0 \<and> alt_in_time c = alt0"
  proof -
    have "rResults s = map (\<lambda>f. executeFragment env p fetch0 alt0 parentBody f st) fs"
      using cs(2) that map2_second [OF cs(1), of "\<lambda>f. executeFragment env p fetch0 alt0 parentBody f st"] by simp
    then show ?thesis by (simp add: runner_return_def executeFragments_def)
  qed
  then show ?thesis using cs by (intro conjI exI [of _ cs]) (auto simp: runner_return_def comp_def case_prod_unfold)
qed

definition late_fetch :: "bool \<Rightarrow> bytes \<Rightarrow> esiExecutionState \<Rightarrow> rawFetchResult option" where
  "late_fetch c = (if c then demo_fetch else (\<lambda>_ _. None))"

definition demo_exec :: "bool \<Rightarrow> EsiFragment \<Rightarrow> fragmentResult" where
  "demo_exec c f = executeFragment demo_env demo_esi (late_fetch c) (\<lambda>_. True) ''page'' f (initial_state demo_esi demo_page)"

theorem runner_results_in_place_witness:
  "runner_done two_includes (both_finished (demo_exec True (include_of ''/f'')) (demo_exec False (include_of ''/g''))) \<and>
   (\<exists>cs. length cs = length two_includes \<and>
     [demo_exec True (include_of ''/f''), demo_exec False (include_of ''/g'')] = map2 demo_exec cs two_includes)"
proof -
  let ?s = "both_finished (demo_exec True (include_of ''/f'')) (demo_exec False (include_of ''/g''))"
  have fin: "runner_done two_includes ?s" by (simp add: runner_done_def both_finished_def two_includes_def)
  have "(runner_step (sem_capacity demo_esi (length two_includes)) demo_exec two_includes)\<^sup>*\<^sup>*
      (runner_start \<lparr>spec = include_of [], fBody = [], fCookies = []\<rparr> two_includes) ?s"
    unfolding two_includes_sem by (rule relpowp_imp_rtranclp [OF two_includes_run])
  note run = this [unfolded demo_exec_def [abs_def]]
  have "\<exists>cs. length cs = length two_includes \<and> fst (runner_return ?s) = map2 demo_exec cs two_includes"
    using runner_results_in_place [OF run fin [unfolded demo_exec_def], THEN conjunct1]
    unfolding demo_exec_def [abs_def] by blast
  then show ?thesis using fin by (simp add: both_finished_def runner_return_def)
qed

text \<open>
  Property C22. At no time more fragments of a page are at work than configured, no schedule is stuck
  before all of them are finished, and every schedule comes to an end after at most three steps per
  fragment.
\<close>

theorem runner_bounded:
  assumes "(runner_step (sem_capacity p (length fs)) exec fs ^^ n) (runner_start zero fs) s"
  shows "length (rWorking s) \<le> maxWorkers p \<and> n \<le> 3 * length fs \<and>
    (runner_done fs s \<or> (\<exists>s'. runner_step (sem_capacity p (length fs)) exec fs s s'))"
proof -
  let ?cap = "sem_capacity p (length fs)"
  have inv: "runner_inv ?cap exec fs s"
    using runner_reaches_inv [OF relpowp_imp_rtranclp [OF assms] runner_inv_start] .
  have "(runner_step ?cap exec fs ^^ m) s0 s1 \<Longrightarrow> m + runner_work fs s1 \<le> runner_work fs s0" for m s0 s1
    by (induction m arbitrary: s1) (fastforce dest: runner_step_work)+
  from this [OF assms] have n: "n \<le> 3 * length fs" by (simp add: runner_work_def runner_start_def)
  have cap: "?cap \<noteq> Some 0" by (auto simp: sem_capacity_def maxWorkers_def)
  show ?thesis using working_bounded [OF inv refl] n runner_progress [OF _ inv cap] by blast
qed

theorem runner_bounded_witness:
  "(runner_step (sem_capacity demo_esi (length two_includes)) demo_exec two_includes ^^ 6)
     (runner_start (demo_exec True (include_of [])) two_includes)
     (both_finished (demo_exec True (include_of ''/f'')) (demo_exec False (include_of ''/g''))) \<and>
   (6::nat) \<le> 3 * length two_includes \<and>
   length (rWorking (both_finished (demo_exec True (include_of ''/f'')) (demo_exec False (include_of ''/g'')))) \<le> maxWorkers demo_esi"
proof -
  have run: "(runner_step (sem_capacity demo_esi (length two_includes)) demo_exec two_includes ^^ 6)
     (runner_start (demo_exec True (include_of [])) two_includes)
     (both_finished (demo_exec True (include_of ''/f'')) (demo_exec False (include_of ''/g'')))"
    unfolding two_includes_sem by (rule two_includes_run)
  from runner_bounded [OF this] run show ?thesis by blast
qed

end
