(* ===== verification/Pools.thy ===== *)
theory Pools
  imports HandlerParts EsiFetch
begin

text \<open>
  Model of the pools that recycle objects between requests: the buffers of \<^verbatim>\<open>src/buffer.go\<close> and
  \<^verbatim>\<open>src/esi/buffer.go\<close>, the response recorders of \<^verbatim>\<open>src/recorder.go\<close> with all their fields, and the
  request contexts of \<^verbatim>\<open>src/handler_context.go\<close>. A \<^verbatim>\<open>sync.Pool\<close> holds some of the objects that were put
  into it and may drop any of them at any time; \<open>pool_states\<close> are the contents it can have.
\<close>

section \<open>Pools\<close>

text \<open>\<open>recycle x\<close> is what is put into the pool when \<open>x\<close> is given back, \<open>None\<close> when it is not kept.\<close>

inductive pool_states :: "('o \<Rightarrow> 'o option) \<Rightarrow> 'o list \<Rightarrow> bool" for recycle where
  pool_empty: "pool_states recycle []"
| pool_put: "pool_states recycle ps \<Longrightarrow> recycle x = Some y \<Longrightarrow> pool_states recycle (y # ps)"
| pool_taken: "pool_states recycle (xs @ y # ys) \<Longrightarrow> pool_states recycle (xs @ ys)"

definition pool_gets :: "'o \<Rightarrow> 'o list \<Rightarrow> 'o set" where
  "pool_gets fresh ps = insert fresh (set ps)"

locale recycling =
  fixes fresh :: 'o and recycle :: "'o \<Rightarrow> 'o option" and clean :: "'o \<Rightarrow> bool"
  assumes fresh_clean: "clean fresh"
    and recycle_clean: "recycle x = Some y \<Longrightarrow> clean y"
begin

lemma pool_clean: "pool_states recycle ps \<Longrightarrow> list_all clean ps"
  by (induction rule: pool_states.induct) (auto simp: recycle_clean)

lemma got_clean: "pool_states recycle ps \<Longrightarrow> x \<in> pool_gets fresh ps \<Longrightarrow> clean x"
  using pool_clean [of ps] by (auto simp: pool_gets_def fresh_clean list_all_iff)

end

section \<open>Buffers\<close>

text \<open>A \<^verbatim>\<open>bytes.Buffer\<close>: its bytes and its capacity, which grows by a policy of the runtime.\<close>

record buffer =
  bufBytes :: bytes
  bufCap :: nat

definition maxBufferSize :: nat where
  "maxBufferSize = 2 * 1024 * 1024"

definition newBuffer :: buffer where
  "newBuffer = \<lparr>bufBytes = [], bufCap = 0\<rparr>"

definition buf_Reset :: "buffer \<Rightarrow> buffer" where
  "buf_Reset b = b\<lparr>bufBytes := []\<rparr>"

definition buf_Write :: "(nat \<Rightarrow> nat \<Rightarrow> nat) \<Rightarrow> buffer \<Rightarrow> bytes \<Rightarrow> buffer" where
  "buf_Write grow b s = b\<lparr>bufBytes := bufBytes b @ s, bufCap := grow (bufCap b) (length (bufBytes b @ s))\<rparr>"

definition putBuffer :: "buffer option \<Rightarrow> buffer option" where
  "putBuffer buf = (case buf of None \<Rightarrow> None | Some b \<Rightarrow> if bufCap b > maxBufferSize then None else Some (buf_Reset b))"

text \<open>The ESI package has a pool of its own.\<close>

definition esi_maxBufferSize :: nat where
  "esi_maxBufferSize = 2 * 1024 * 1024"

definition esi_putBuffer :: "buffer option \<Rightarrow> buffer option" where
  "esi_putBuffer buf = (case buf of None \<Rightarrow> None | Some b \<Rightarrow> if bufCap b > esi_maxBufferSize then None else Some (buf_Reset b))"

interpretation ep: recycling newBuffer "\<lambda>b. esi_putBuffer (Some b)" "\<lambda>b. bufBytes b = [] \<and> bufCap b \<le> esi_maxBufferSize"
  by unfold_locales (auto simp: newBuffer_def esi_putBuffer_def buf_Reset_def split: if_splits)

interpretation bp: recycling newBuffer "\<lambda>b. putBuffer (Some b)" "\<lambda>b. bufBytes b = [] \<and> bufCap b \<le> maxBufferSize"
  by unfold_locales (auto simp: newBuffer_def putBuffer_def buf_Reset_def split: if_splits)

section \<open>Response recorders\<close>

record responseRecorder =
  rrCode :: int
  rrHeaderMap :: "Header option"
  rrBody :: "buffer option"
  rrWroteHeader :: bool
  rrFlushed :: bool

definition newResponseRecorder :: responseRecorder where
  "newResponseRecorder = \<lparr>rrCode = 200, rrHeaderMap = Some [], rrBody = Some newBuffer, rrWroteHeader = False, rrFlushed = False\<rparr>"

definition rr_Header :: "responseRecorder \<Rightarrow> Header \<times> responseRecorder" where
  "rr_Header r = (case rrHeaderMap r of Some h \<Rightarrow> (h, r) | None \<Rightarrow> ([], r\<lparr>rrHeaderMap := Some []\<rparr>))"

definition rr_WriteHeader :: "responseRecorder \<Rightarrow> int \<Rightarrow> responseRecorder" where
  "rr_WriteHeader r code = (if rrWroteHeader r then r else r\<lparr>rrCode := code, rrWroteHeader := True\<rparr>)"

definition rr_Write :: "(nat \<Rightarrow> nat \<Rightarrow> nat) \<Rightarrow> responseRecorder \<Rightarrow> bytes \<Rightarrow> responseRecorder" where
  "rr_Write grow r b =
     (let r1 = (if \<not> rrWroteHeader r then rr_WriteHeader r 200 else r);
          body = (case rrBody r1 of None \<Rightarrow> newBuffer | Some x \<Rightarrow> x)
      in r1\<lparr>rrBody := Some (buf_Write grow body b)\<rparr>)"

definition rr_Flush :: "responseRecorder \<Rightarrow> responseRecorder" where
  "rr_Flush r = r\<lparr>rrFlushed := True\<rparr>"

definition rr_Reset :: "responseRecorder \<Rightarrow> responseRecorder" where
  "rr_Reset r = r\<lparr>rrCode := 200, rrWroteHeader := False, rrFlushed := False,
     rrHeaderMap := map_option (\<lambda>_. []) (rrHeaderMap r), rrBody := map_option buf_Reset (rrBody r)\<rparr>"

definition putResponseRecorder :: "responseRecorder option \<Rightarrow> responseRecorder option" where
  "putResponseRecorder rec =
     (case rec of
        None \<Rightarrow> None
      | Some r \<Rightarrow>
          let r1 = (case rrBody r of
                      None \<Rightarrow> r\<lparr>rrBody := Some newBuffer\<rparr>
                    | Some b \<Rightarrow> if bufCap b > maxBufferSize then r\<lparr>rrBody := Some newBuffer\<rparr> else r)
          in Some (rr_Reset r1))"

text \<open>A recorder simulates a response writer when they agree on header, status and body.\<close>

definition rr_sim :: "responseRecorder \<Rightarrow> writer \<Rightarrow> bool" where
  "rr_sim r w \<longleftrightarrow> (case rrHeaderMap r of None \<Rightarrow> [] | Some h \<Rightarrow> h) = wHeader w \<and> rrCode r = rec_Code w \<and>
     rrWroteHeader r = (wCode w \<noteq> None) \<and> (case rrBody r of None \<Rightarrow> [] | Some b \<Rightarrow> bufBytes b) = wBody w"

fun rr_event :: "(nat \<Rightarrow> nat \<Rightarrow> nat) \<Rightarrow> responseRecorder \<Rightarrow> rec_event \<Rightarrow> responseRecorder" where
  "rr_event grow r (UpdHeader f) = (let (h, r1) = rr_Header r in r1\<lparr>rrHeaderMap := Some (f h)\<rparr>)"
| "rr_event grow r (SendHeader c) = rr_WriteHeader r c"
| "rr_event grow r (SendBody b) = rr_Write grow r b"

lemmas rr_defs = rr_sim_def rr_Header_def rr_WriteHeader_def rr_Write_def rr_Reset_def buf_Write_def buf_Reset_def newBuffer_def

lemma rr_sim_event: "rr_sim r w \<Longrightarrow> rr_sim (rr_event grow r e) (writer_event w e)"
  by (cases e) (auto simp: rr_defs rec_Code_def WriteHeader_def Write_def Let_def split: option.splits)

lemma rr_sim_events: "rr_sim r w \<Longrightarrow> rr_sim (foldl (rr_event grow) r es) (foldl writer_event w es)"
  by (induction es arbitrary: r w) (simp_all add: rr_sim_event)

interpretation rp: recycling newResponseRecorder "\<lambda>r. putResponseRecorder (Some r)"
  "\<lambda>r. rr_sim r new_writer \<and> \<not> rrFlushed r \<and> (\<forall>b. rrBody r = Some b \<longrightarrow> bufCap b \<le> maxBufferSize)"
  by unfold_locales
     (auto simp: putResponseRecorder_def newResponseRecorder_def rr_defs new_writer_def rec_Code_def Let_def split: option.splits if_splits)

interpretation sp: recycling new_recorder "\<lambda>r. Some (releaseSubrequestRecorder r)" "\<lambda>r. rec_sim r new_writer"
proof
  show "rec_sim new_recorder new_writer" by (simp add: new_recorder_def rec_sim_def new_writer_def rec_Code_def)
  show "Some (releaseSubrequestRecorder x) = Some y \<Longrightarrow> rec_sim y new_writer" for x y by (auto simp: rec_sim_released)
qed

section \<open>Request contexts\<close>

text \<open>
  \<^verbatim>\<open>Reset\<close> zeroes the context, and \<^verbatim>\<open>acquireRequestContext\<close> sets the writer, the request and the time, which
  have no nil in the model.
\<close>

definition ctx_Reset :: "requestContext \<Rightarrow> requestContext" where
  "ctx_Reset ctx = ctx\<lparr>reqCC := None, primaryKey := [], variantKey := [], cmeta := None, isSoftPurged := False, varInfo := None,
     nowNano := 0, isVaryMiss := False\<rparr>"

definition releaseRequestContext :: "requestContext option \<Rightarrow> requestContext option" where
  "releaseRequestContext ctx = map_option ctx_Reset ctx"

definition acquire_pooled :: "requestContext \<Rightarrow> writer \<Rightarrow> Request \<Rightarrow> gotime \<Rightarrow> requestContext" where
  "acquire_pooled ctx w r now = ctx\<lparr>cw := w, cr := r, nowNano := UnixNano now, cNow := now\<rparr>"

lemma pooled_context_fresh:
  "releaseRequestContext (Some old) = Some ctx \<Longrightarrow> acquire_pooled ctx w r now = acquireRequestContext w r now"
  by (auto simp: releaseRequestContext_def ctx_Reset_def acquire_pooled_def acquireRequestContext_def)

section \<open>Properties\<close>

text \<open>
  Property C39. A response recorder from the pool shows nothing of earlier responses, whatever was put
  into the pool before: what a handler does with it gives the status, header and body that the same
  actions give on a new response writer. It has not been flushed, and its buffer is no larger than
  the limit.
\<close>

theorem pooled_response_recorder:
  assumes "pool_states (\<lambda>r. putResponseRecorder (Some r)) ps" and "rec \<in> pool_gets newResponseRecorder ps"
  shows "\<not> rrFlushed rec \<and> (\<forall>b. rrBody rec = Some b \<longrightarrow> bufCap b \<le> maxBufferSize) \<and>
    (let r = foldl (rr_event grow) rec es; w = foldl writer_event new_writer es
     in fst (rr_Header r) = wHeader w \<and> rrCode r = rec_Code w \<and> rrWroteHeader r = (wCode w \<noteq> None) \<and>
        (case rrBody r of None \<Rightarrow> [] | Some b \<Rightarrow> bufBytes b) = wBody w)"
proof -
  note c = rp.got_clean [OF assms]
  then have "rr_sim (foldl (rr_event grow) rec es) (foldl writer_event new_writer es)" by (blast intro: rr_sim_events)
  with c show ?thesis by (auto simp: rr_sim_def rr_Header_def Let_def split: option.splits)
qed

definition used_recorder :: responseRecorder where
  "used_recorder = rr_Flush (rr_Write max (rr_WriteHeader (newResponseRecorder\<lparr>rrHeaderMap := Some [(''Set-Cookie'', [''a=b''])]\<rparr>) 404) ''secret'')"

theorem pooled_response_recorder_witness:
  "\<exists>rec. putResponseRecorder (Some used_recorder) = Some rec \<and> rec \<in> pool_gets newResponseRecorder [rec] \<and> \<not> rrFlushed rec \<and>
     fst (rr_Header (foldl (rr_event max) rec [SendBody ''hi''])) = []"
proof -
  obtain rec where rec: "putResponseRecorder (Some used_recorder) = Some rec" by (auto simp: putResponseRecorder_def Let_def)
  have ps: "pool_states (\<lambda>r. putResponseRecorder (Some r)) [rec]" using rec by (rule pool_put [OF pool_empty])
  have "rec \<in> pool_gets newResponseRecorder [rec]" by (simp add: pool_gets_def)
  from pooled_response_recorder [OF ps this, of max "[SendBody ''hi'']"] rec this show ?thesis
    by (auto simp: Let_def new_writer_def Write_def WriteHeader_def)
qed

end
