(* ===== verification/Spec2Isabelle.thy ===== *)
theory Spec2Isabelle
  imports CaddyProps CaddyFileProps ServerTimingProps EsiFlightProps EsiRunner Pools
begin

text \<open>
  \<^bold>\<open>Titip, an HTTP cache middleware, in Isabelle/HOL.\<close>

  Titip wraps an \<^verbatim>\<open>http.Handler\<close> (the origin). \<^verbatim>\<open>ServeHTTP\<close> (\<^verbatim>\<open>src/handler.go\<close>) is a state machine
  over a request context: it decides on a bypass, computes the primary key
  (\<^verbatim>\<open>src/cache_key.go\<close>), asks a storage backend (\<^verbatim>\<open>src/storage/storage.go\<close>) for the metadata,
  selects a variant by \<^verbatim>\<open>Vary\<close>, judges freshness (\<^verbatim>\<open>src/freshness.go\<close>), and then serves from the
  storage, revalidates with the origin or fetches from it; what may be shared is compressed
  (\<^verbatim>\<open>src/compress.go\<close>) and stored. Pages may hold ESI includes (\<^verbatim>\<open>src/esi/\<close>), which are resolved by
  fetching other documents. Purges (\<^verbatim>\<open>src/purge.go\<close>, \<^verbatim>\<open>src/titip.go\<close>) remove or mark entries by key,
  pattern or tag. Backends are an in-memory store for tests and Redis (\<^verbatim>\<open>src/storage/redis/\<close>); an
  adapter (\<^verbatim>\<open>src/adapter/caddy/\<close>) runs instances as handlers of the Caddy server.

  \<^bold>\<open>The theories and the code.\<close>

    \<^item> \<open>GoBase\<close>, \<open>GoNet\<close>, \<open>GoURL\<close>: the parts of Go's standard library the sources use: strings,
      wrapped 64-bit integers, durations and instants, header maps, cookies, URL escaping and
      parsing, \<^verbatim>\<open>path.Clean\<close>, \<^verbatim>\<open>url.ParseQuery\<close>. \<open>goenv\<close> collects what depends on code outside the
      repository (the Cache-Control parser, date parsing, the authority of a URL); \<open>env_ok\<close> says
      what is relied on, \<open>demo_env\<close> is an instance. Lemmas: escaping round trips, cleaned paths,
      laws of header maps.
    \<^item> \<open>Headers\<close> (\<^verbatim>\<open>src/header.go\<close>), \<open>Freshness\<close> (\<^verbatim>\<open>src/freshness.go\<close>): the computation on wrapped
      durations is shown equal to RFC 9111 on unbounded integers for responses with \<^verbatim>\<open>max-age\<close> or
      \<^verbatim>\<open>s-maxage\<close>; bounds of the time to live for all; what a cacheable response looks like.
    \<^item> \<open>CacheKeys\<close> (\<^verbatim>\<open>src/cache_key.go\<close>), \<open>PurgeOps\<close> (\<^verbatim>\<open>src/purge.go\<close>): the optimised query
      builder equals a specification on multisets of parameters; keys separate requests and
      variants, under the conditions that the missing escapes need; purge
      keys and patterns cover the requests they aim at.
    \<^item> \<open>StorageIface\<close> (\<^verbatim>\<open>src/storage/storage.go\<close>, \<^verbatim>\<open>src/proto/titip.proto\<close>): the messages, the
      operations of a backend as the record \<open>Storage\<close> and its promises as the locale
      \<open>storage_contract\<close>, which lets a backend round lifetimes (\<open>life\<close>) and refuse entries
      (\<open>fits\<close>). \<open>TestStore\<close> (\<^verbatim>\<open>src/internal/teststore/store.go\<close>) is the in-memory backend;
      the interpretation \<open>ts\<close> discharges the contract for it, and an invariant holds in all its
      reachable states, fault hooks included.
    \<^item> \<open>EsiScan\<close> (\<^verbatim>\<open>src/esi/scanner.go\<close>), \<open>EsiProcess\<close> (\<^verbatim>\<open>src/esi/processor.go\<close>: options, headers,
      recursion, splicing), \<open>Ssrf\<close> (\<^verbatim>\<open>src/esi/ssrf.go\<close>), \<open>EsiFetch\<close> (the fetch of a fragment, in
      process or over HTTP, and \<^verbatim>\<open>src/esi/recorder.go\<close>): fragments are ordered and disjoint, the
      assembled page is the interleaving of text and fragments, recursion is bounded, connections
      stay out of the address ranges the guard lists, in whatever order the dialer tries addresses, and
      credentials go to the host of the page only.
    \<^item> \<open>EsiFlight\<close> (the flight group of \<^verbatim>\<open>src/esi/processor.go\<close>) interleaves the fragments that include one
      URL as the step relation \<open>flight_step\<close>; \<open>singleflight_laws\<close> states what is relied on of
      \<^verbatim>\<open>singleflight\<close>. \<open>EsiFlightInv\<close> has its invariant, kept by every step; \<open>EsiFlightProps\<close> shows that
      one fetch per URL is alive and that fragments get the outcome of a fetch of their own URL, and
      how an abandoned fetch fails later fragments. \<open>EsiRunner\<close> (\<^verbatim>\<open>executeFragments\<close>,
      \<^verbatim>\<open>fragmentRunner\<close>): under every schedule of the goroutines each fragment gets a result of its own in
      its own place, within the configured number of workers; what the flight group and the clock let
      a fragment be answered is left open there.
    \<^item> \<open>Compression\<close> (\<^verbatim>\<open>src/compress.go\<close>), \<open>HttpWriter\<close> (\<^verbatim>\<open>src/recorder.go\<close> and the client's
      response writer), \<open>TitipCore\<close> (\<^verbatim>\<open>src/config.go\<close>, \<^verbatim>\<open>src/titip.go\<close>). \<open>Pools\<close> (\<^verbatim>\<open>src/buffer.go\<close>,
      \<^verbatim>\<open>src/esi/buffer.go\<close>, \<^verbatim>\<open>src/recorder.go\<close>, the contexts of \<^verbatim>\<open>src/handler_context.go\<close>) states as the locale
      \<open>recycling\<close> what a pool needs so that nothing of one request shows in the next, interprets it for
      the five pools and shows that a recorder with all its fields simulates the writer.
    \<^item> \<open>ServerTiming\<close> (\<^verbatim>\<open>src/server_timing.go\<close>) assembles the header value in a buffer, with \<^verbatim>\<open>float64\<close> as
      fractions rounded to 53 bits; \<open>ServerTimingProps\<close> shows that the value is the list of its entries, that
      no other header changes, and that durations are written to the nearest hundredth of a millisecond.
    \<^item> \<open>HandlerParts\<close> (\<^verbatim>\<open>src/handler_context.go\<close>, \<^verbatim>\<open>src/handler_esi.go\<close> and the helpers of
      \<^verbatim>\<open>src/handler.go\<close>), \<open>Handler\<close> (its states and the machine that runs them). \<open>HandlerFacts\<close> shows
      that what is stored is served; \<open>HandlerInv\<close> states, as the locale \<open>clean_backend\<close>, what a
      backend must keep for an invariant of its stored headers, interprets it for \<open>TestStore\<close> and
      proves the invariant over all histories of requests, purges, background refreshes and
      shutdown; \<open>HandlerProps\<close> holds the error, bypass and revalidation properties.
    \<^item> \<open>RedisServer\<close> states, as the locale \<open>redis_server\<close>, what is relied on of a Redis server: the
      documented effect of each command on a key space whose keys and hash fields expire, and the
      guarantee of a scan. \<open>RedisStore\<close> (\<^verbatim>\<open>src/storage/redis/redis.go\<close>) is the backend as the commands
      it sends. \<open>RedisContract\<close> has the invariant of the key space and, in the locale
      \<open>redis_backend\<close>, the laws of \<open>storage_contract\<close>, which a \<open>sublocale\<close> then gives; \<open>RedisPurge\<close>
      follows the scanning purges; \<open>RedisKeys\<close> shows when body keys do not collide;
      \<open>RedisReference\<close> interprets the locales on a reference server and codec; \<open>RedisProps\<close> holds
      the properties, with the handler of \<open>HandlerFacts\<close> running on this backend.
    \<^item> \<open>CaddyConfig\<close> (\<^verbatim>\<open>src/adapter/caddy/caddy.go\<close>, \<^verbatim>\<open>src/adapter/caddy/app.go\<close>): the settings of
      routes and of the app and how they are layered; \<open>CaddyHandler\<close> (\<^verbatim>\<open>src/adapter/caddy/caddy.go\<close>,
      \<^verbatim>\<open>src/adapter/caddy/admin.go\<close>): provisioning, serving, cleaning up, the registry and the admin
      endpoint; \<open>CaddyProps\<close>: the registry names the open instances of the live routes, purges reach
      all of them, entries belong to the URL the client asked for. \<open>CaddyFile\<close> (the same files and
      \<^verbatim>\<open>src/storage/redis/caddy/redis.go\<close>): the parsers of routes, of the global options and of the Redis
      module, over a token dispenser with the laws \<open>dispenser_laws\<close>. \<open>CaddyFileRead\<close> writes configurations
      as lines and shows how each directive is read; \<open>CaddyFileProps\<close> has the round trips and a
      reference dispenser.
    \<^item> This theory adds the properties of purging followed by serving and of construction.

  \<^bold>\<open>Modelling choices.\<close> Strings are lists of 8-bit characters, and case mapping is that of ASCII.
  Go maps are association lists with distinct keys, a nil pointer is \<open>None\<close>, an error a value of
  a sum, a panic of a handler \<open>None\<close>. Durations and Unix times are integers with the
  64-bit wrap-around written out; IP addresses are machine words. State is passed explicitly: the
  instance \<open>Titip\<close> holds the configuration, the state of the backend, the closed flag and the
  background jobs. The clock advances while a handler runs and stands still in between. What a
  single flight shares between concurrent requests is a parameter of the environment \<open>henv\<close>:
  \<open>joined\<close> gives the result a request receives when it joins a flight, \<open>othersJoined\<close> says whether
  others joined its own. Under Caddy instances and storages live at addresses, since routes may
  share the storage of the app.

  \<^bold>\<open>Loops.\<close> Every loop of the model is a terminating function, except the scans of the Redis
  backend, which run until the server returns cursor 0: they are \<open>partial_function\<close>s in the option
  type, where \<open>None\<close> means that they do not end, and \<open>RedisPurge\<close> shows that they do, by the rank
  that the laws of a server give to a cursor; the loops of the Caddyfile parsers are of the same
  kind, and the round trips show that they return. The state machine runs by the rank
  of its states, which every step decreases (\<open>step_rank\<close>), so \<open>ServeHTTP\<close> is total and needs no
  fuel. Fragments are resolved by recursion on the depth that remains; the scanner by the length
  that remains; the groups of an IPv6 address by the sixteen bytes that remain.

  \<^bold>\<open>Not modelled.\<close> The states of \<open>Handler\<close> run with \<^verbatim>\<open>Server-Timing\<close> off; \<open>emitCacheStatus_timed\<close> is the one
  place where it would show, and the measured durations are inputs there. The writer is the recorder's:
  that the client's writer of \<^verbatim>\<open>net/http\<close> panics on a status below 100 or above 999 and does not take a 1xx
  as final is not in \<open>WriteHeader\<close>, and the property on panics restricts statuses instead. The timeouts
  of single fragments are part of the answer of \<open>fetch\<close>, and one reading of a page by \<open>executeFragment\<close>
  is against one snapshot of answers. The zero-copy mode of the
  test backend, which shares memory with its callers for benchmarks, loggers and metrics (calls into
  \<^verbatim>\<open>slog\<close> and Prometheus, \<^verbatim>\<open>src/metrics.go\<close>, \<^verbatim>\<open>src/esi/metrics.go\<close>) and the registration of modules with Caddy have
  no place in the model; nor has the generated protobuf code, whose messages are records here. The
  Redis server and client, the protobuf codec, Caddy with its dispenser, \<^verbatim>\<open>singleflight\<close>, the third-party
  compression streams, the Cache-Control parser, name resolution and the HTTP client are parameters
  with named laws.
\<close>

section \<open>Purging and serving\<close>

lemma PurgeByPattern_gone:
  assumes "usable s" and "matchGlob p k" and "PurgeByPattern now s p False = (res, s')"
  shows "GetMeta t s' k = Inr (None, False) \<and> (\<exists>n. res = Inr n)"
proof -
  let ?ks = "filter (matchGlob p) (map fst (sMeta s))"
  have s': "s' = snd (foldl (purge_one False) (0, s) ?ks)" and r: "\<exists>n. res = Inr n"
    using assms(1,3) by (auto simp: usable_def PurgeByPattern_def Let_def split: prod.splits)
  have "map_of (sMeta s') k = None"
    using assms(2) by (auto simp: s' foldl_purge_one_meta map_of_eq_None_iff)
  then show ?thesis using GetMeta_absent foldl_purge_one_usable [OF assms(1)] r by (simp add: s')
qed

lemma t_Purge_gone:
  assumes "usable (tStore t)" and "buildPurgeOperation env target (Some (cacheKey (tConfig t))) = Inr (exact, ks)"
    and "exact \<longrightarrow> ks = [k]" and "\<not> exact \<longrightarrow> (\<exists>p. ks = [p] \<and> matchGlob p k)"
    and "t_Purge env teststore now t target False = (res, t')"
  shows "GetMeta later (tStore t') k = Inr (None, False) \<and> tConfig t' = tConfig t \<and> esiProcessor t' = esiProcessor t \<and> (\<exists>n. res = Inr n)"
proof (cases exact)
  case True
  obtain n s' where p: "Purge now (tStore t) k False = (Inr n, s')" using Purge_usable [OF assms(1)] by blast
  with True assms(2,3,5) have "t' = t\<lparr>tStore := s'\<rparr>" "res = Inr n" by (auto simp: t_Purge_def teststore_def)
  then show ?thesis using Purge_hard [OF assms(1) p] by simp
next
  case False
  with assms(4) obtain p where p: "ks = [p]" "matchGlob p k" by blast
  obtain r s' where q: "PurgeByPattern now (tStore t) p False = (r, s')" by (cases "PurgeByPattern now (tStore t) p False")
  note g = PurgeByPattern_gone [OF assms(1) p(2) q]
  then obtain n where "r = Inr n" by blast
  with False assms(2,5) p(1) q have "t' = t\<lparr>tStore := s'\<rparr>" "res = Inr (wrap64 n)" by (auto simp: t_Purge_def teststore_def)
  then show ?thesis using g by simp
qed

lemma miss_answers:
  assumes "esiProcessor t = None" and "Method (cr ctx) = ''GET''" and "\<not> has_conditional (cr ctx)"
    and "next_handler e (cr ctx) new_writer (cNow ctx) = (Some rec, resp)" and "wCode (cw ctx) = None" and "wBody (cw ctx) = []"
  shows "\<exists>ctx' t'. serve_from e ops FetchOriginMiss ctx t = (Done, ctx', t') \<and> wCode (cw ctx') = Some (rec_Code rec) \<and>
    wBody (cw ctx') = wBody rec \<and> cNow ctx' = resp"
proof -
  have req: "miss_request t (cr ctx) = cr ctx" using assms(1-3) by (simp add: miss_request_def origin_request_def)
  have sm: "wCode (cw (serve_miss e t code h b [] f sc (ctx\<lparr>cNow := resp\<rparr>))) = Some code \<and>
      wBody (cw (serve_miss e t code h b [] f sc (ctx\<lparr>cNow := resp\<rparr>))) = b" for code h b f sc
    using assms by (intro serve_miss_writer) simp_all
  have now: "cNow (serve_miss e t code h b [] f sc (ctx\<lparr>cNow := resp\<rparr>)) = resp" for code h b f sc
    by (simp add: serve_miss_def write_status_def write_body_def Let_def)
  obtain out ctx' t' where s: "step e ops FetchOriginMiss ctx t = (out, ctx', t')" by (metis prod_cases3)
  then have "out = Done \<and> wCode (cw ctx') = Some (rec_Code rec) \<and> wBody (cw ctx') = wBody rec \<and> cNow ctx' = resp"
    using assms(2,4-6) sm now
    by (auto simp: step_simps stateFetchOriginMiss_def req inspect_no_esi [OF assms(1)] stop_def Let_def write_body_def
        write_status_def WriteHeader_fresh Write_after split: if_splits)
  with s show ?thesis by (auto dest: serve_from_Done)
qed

text \<open>
  Property C5. A purged page is fetched again: after a hard purge of a target, a plain GET that the
  target aims at is answered with the origin's status and body, whatever was stored before
  and however fresh it was.
\<close>

theorem purge_then_origin:
  assumes store: "usable (tStore t)" and cfg: "esiProcessor t = None" "\<not> respectClientCacheControl (tConfig t)"
    and target: "parse_target env target = Some u" "target \<noteq> []" "parseAuthority env ''x'' = Some (user, h)"
      "aimed_at (cacheKey (tConfig t)) target u r" "glob_literal (target_host target u)"
      "CHR 0x0A \<notin> set (generatePrimaryKey r (Some (cacheKey (tConfig t))))"
    and req: "plain_request r" "Method r = ''GET''" "unconditional r"
    and purge: "t_Purge env teststore now t target False = (res, t')"
    and origin: "next_handler e r new_writer later = (Some rec, resp)"
  shows "(\<exists>n. res = Inr n) \<and> (\<exists>w' t''. ServeHTTP e teststore later t' new_writer r = (Some w', resp, t'') \<and>
    wCode w' = Some (rec_Code rec) \<and> wBody w' = wBody rec)"
proof -
  let ?ck = "Some (cacheKey (tConfig t))"
  have k: "cacheKey (tConfig t) = key_cfg ?ck" by (simp add: key_cfg_def)
  obtain exact ks where op: "buildPurgeOperation env target ?ck = Inr (exact, ks)"
    using buildPurgeOperation_eq [OF k target(1-3)] by (auto simp: Let_def split: if_splits)
  have "method_of_key r = ''GET''" using req(2) by (simp add: method_of_key_def)
  with target_covers [OF k target(1-3) op target(4-6)]
  have "exact \<longrightarrow> ks = [generatePrimaryKey r ?ck]" "\<not> exact \<longrightarrow> (\<exists>p. ks = [p] \<and> matchGlob p (generatePrimaryKey r ?ck))" by auto
  from t_Purge_gone [OF store op this purge, of later]
  have g: "GetMeta later (tStore t') (generatePrimaryKey r ?ck) = Inr (None, False)" "tConfig t' = tConfig t"
    "esiProcessor t' = None" "\<exists>n. res = Inr n" using cfg by auto
  let ?c = "(acquireRequestContext new_writer r later)\<lparr>primaryKey := generatePrimaryKey r (Some (cacheKey (tConfig t'))), isSoftPurged := False\<rparr>"
  have "serve_from e teststore CheckBypass (acquireRequestContext new_writer r later) t' = serve_from e teststore FetchOriginMiss ?c t'"
    using g cfg req by (intro miss_steps) (simp_all add: teststore_def)
  moreover obtain ctx' t'' where "serve_from e teststore FetchOriginMiss ?c t' = (Done, ctx', t'')"
      "wCode (cw ctx') = Some (rec_Code rec)" "wBody (cw ctx') = wBody rec" "cNow ctx' = resp"
    using miss_answers [of t' ?c e rec resp teststore] g(3) req origin unconditional_no_conditional [OF req(3)] by auto
  ultimately show ?thesis using g(4) by (auto simp: ServeHTTP_Done)
qed

lemma purge_then_origin_witness:
  "\<exists>res t' w' t''. t_Purge demo_env teststore 150 demo_saved ''http://a.org/x'' False = (res, t') \<and>
     ServeHTTP (demo_henv (demo_origin 200 [] ''new'')) teststore 200 t' new_writer demo_get = (Some w', 205, t'') \<and> wBody w' = ''new''"
proof -
  let ?u = "empty_URL\<lparr>Scheme := ''http'', Host := ''a.org'', Path := ''/x''\<rparr>"
  obtain res t' where p: "t_Purge demo_env teststore 150 demo_saved ''http://a.org/x'' False = (res, t')"
    by (cases "t_Purge demo_env teststore 150 demo_saved ''http://a.org/x'' False")
  have cfg: "esiProcessor demo_saved = None" "tConfig demo_saved = demo_config" by (simp_all add: demo_saved_def)
  have us: "usable (tStore demo_saved)" unfolding demo_saved_def by (rule ts.save_up) simp_all
  have 1: "parse_target demo_env ''http://a.org/x'' = Some ?u" by code_simp
  have 2: "parseAuthority demo_env ''x'' = Some (None, ''x'')" by (simp add: demo_env_def)
  have 3: "aimed_at zero_CacheKey ''http://a.org/x'' ?u demo_get" by code_simp
  have 4: "glob_literal (target_host ''http://a.org/x'' ?u)" by code_simp
  have 5: "CHR 0x0A \<notin> set (generatePrimaryKey demo_get (Some zero_CacheKey))" by code_simp
  have o1: "next_handler (demo_henv (demo_origin 200 [] ''new'')) demo_get new_writer 200 = (Some (demo_response 200 [] ''new''), 205)"
    by (simp add: demo_origin_def)
  from purge_then_origin [OF us cfg(1) _ 1 _ 2 _ 4 _ demo_get_plain p o1] 3 5 p show ?thesis by (auto simp: cfg)
qed

section \<open>Configuration\<close>

text \<open>
  The options of the library. A custom codec keeps the contract of a codec and has a lower-case name
  without blanks around it; another name is recorded with a variant but not found on load.
\<close>

inductive library_option :: "Option \<Rightarrow> bool" where
  "library_option WithoutConvertHeadToGet"
| "library_option WithAutoInvalidateMutatingMethods"
| "library_option (WithStorageTimeout d)"
| "library_option (WithCacheStatus mode)"
| "library_option WithRespectClientCacheControl"
| "library_option (WithCacheKey k)"
| "library_option (WithTagHeader n)"
| "library_option (WithBackgroundFetchTimeout d)"
| "library_option (WithESI os)"
| "library_option (WithStorageCompression n)"
| "library_option WithServerTiming"
| "library_option (WithServerTimingCookie n v)"
| "codec cmp \<Longrightarrow> ToLower (TrimSpace (cName cmp)) = cName cmp \<Longrightarrow> library_option (WithStorageCompressor (Some cmp))"

definition registry_ok :: "(bytes \<times> Compressor) list \<Rightarrow> bool" where
  "registry_ok cs \<longleftrightarrow> map_of cs StorageCompressionNone = Some noneCompressor \<and>
     (\<forall>n c. map_of cs n = Some c \<longrightarrow> codec c \<and> cName c = n \<and> n \<noteq> [])"

lemma registry_custom:
  assumes "registry_ok (compressors c)" "codec cmp" "ToLower (TrimSpace (cName cmp)) = cName cmp"
    and "WithStorageCompressor (Some cmp) c = Inr c'"
  shows "registry_ok (compressors c')"
proof -
  have c: "cName cmp \<noteq> []" "map_of (compressors c) (cName cmp) = None"
    "compressors c' = AList.update (cName cmp) cmp (compressors c)"
    using assms(3,4) by (auto simp: WithStorageCompressor_def Let_def split: if_splits)
  then have "map_of (compressors c') = (map_of (compressors c))(cName cmp \<mapsto> cmp)" by (simp add: update_conv')
  then show ?thesis using assms(1,2) c(1,2) by (auto simp: registry_ok_def split: if_splits)
qed

lemma option_registry:
  assumes "library_option o1" "registry_ok (compressors c)" "o1 c = Inr c'"
  shows "registry_ok (compressors c')"
  using assms
proof (cases rule: library_option.cases)
  case (13 cmp)
  then show ?thesis using assms registry_custom by blast
qed (auto simp: WithoutConvertHeadToGet_def WithAutoInvalidateMutatingMethods_def WithStorageTimeout_def
    WithCacheStatus_def WithRespectClientCacheControl_def WithCacheKey_def WithTagHeader_def WithBackgroundFetchTimeout_def
    WithESI_def WithStorageCompression_def WithServerTiming_def WithServerTimingCookie_def Let_def split: if_splits)

lemma apply_options_registry:
  "apply_options opts c = Inr c' \<Longrightarrow> \<forall>o1. Some o1 \<in> set opts \<longrightarrow> library_option o1 \<Longrightarrow> registry_ok (compressors c) \<Longrightarrow>
    registry_ok (compressors c')"
  by (induction opts c rule: apply_options.induct) (auto split: sum.splits dest: option_registry)

text \<open>
  Property C25. \<^verbatim>\<open>New\<close> returns a sound instance, whatever options of the library it is given, as long
  as custom codecs have lower-case names and keep the contract of a codec, as LZ4 and Zstandard do:
  the configured codec is registered under its own name, so whatever is stored can be loaded again;
  the instance is open, has no background work, and has an ESI processor exactly when ESI was
  configured.
\<close>

theorem New_sound:
  assumes "New (lz4Compressor e1 d1) (zstdCompressor e2 d2) (Some s) opts = Inr t"
    and "codec (lz4Compressor e1 d1)" and "codec (zstdCompressor e2 d2)"
    and "\<forall>o1. Some o1 \<in> set opts \<longrightarrow> library_option o1"
  shows "codecs_ok (tConfig t) \<and> tStore t = s \<and> \<not> tClosed t \<and> tPending t = [] \<and>
    (esiProcessor t \<noteq> None \<longleftrightarrow> esiOptions (tConfig t) \<noteq> None)"
proof -
  let ?d = "default_config (lz4Compressor e1 d1) (zstdCompressor e2 d2)"
  obtain cfg where cfg: "apply_options opts ?d = Inr cfg"
    and t: "tConfig t = cfg" "map_of (compressors cfg) (storageCompression cfg) \<noteq> None"
    using assms(1) by (auto simp: New_def Let_def split: sum.splits if_splits option.splits)
  have "registry_ok (compressors ?d)"
    using assms(2,3) identity.codec_axioms
    by (auto simp: registry_ok_def default_config_def lz4Compressor_def zstdCompressor_def noneCompressor_def split: if_splits)
  then have "registry_ok (compressors cfg)" by (rule apply_options_registry [OF cfg assms(4)])
  then have "codecs_ok cfg" using t(2) by (auto simp: codecs_ok_def registry_ok_def)
  moreover have "tStore t = s \<and> \<not> tClosed t \<and> tPending t = [] \<and> (esiProcessor t \<noteq> None \<longleftrightarrow> esiOptions (tConfig t) \<noteq> None)"
    using assms(1) by (auto simp: New_def Let_def split: sum.splits if_splits option.splits)
  ultimately show ?thesis using t(1) by simp
qed

definition demo_codec :: Compressor where
  "demo_codec = \<lparr>cName = ''rev'', Compress = (\<lambda>b. Some (rev b)), Decompress = (\<lambda>b. Some (rev b))\<rparr>"

lemma New_sound_witness:
  "\<exists>t. New (lz4Compressor Some Some) (zstdCompressor Some Some) (Some NewStore)
       [Some (WithStorageCompressor (Some demo_codec)), Some (WithStorageCompression '' REV'')] = Inr t \<and>
     codecs_ok (tConfig t) \<and> storageCompression (tConfig t) = ''rev'' \<and> esiProcessor t = None"
proof -
  let ?o = "[Some (WithStorageCompressor (Some demo_codec)), Some (WithStorageCompression '' REV'')]"
  have z: "ToLower (TrimSpace '' REV'') = ''rev''" "ToLower (TrimSpace ''rev'') = ''rev''" by code_simp+
  obtain t where n: "New (lz4Compressor Some Some) (zstdCompressor Some Some) (Some NewStore) ?o = Inr t"
    and e: "esiOptions (tConfig t) = None" "storageCompression (tConfig t) = ''rev''"
    by (simp add: New_def WithStorageCompression_def WithStorageCompressor_def demo_codec_def z default_config_def Let_def update_conv')
  have "codec (lz4Compressor Some Some)" "codec (zstdCompressor Some Some)"
    by (unfold_locales; simp add: lz4Compressor_def zstdCompressor_def)+
  moreover have "codec demo_codec" by unfold_locales (auto simp: demo_codec_def)
  then have "\<forall>o1. Some o1 \<in> set ?o \<longrightarrow> library_option o1"
    using z(2) by (auto intro: library_option.intros simp: demo_codec_def)
  ultimately show ?thesis using New_sound [OF n] n e by simp
qed

end
